(* ===== verification/Base.thy ===== *)
theory Base
  imports Main "HOL-Library.Monad_Syntax" "HOL-Library.AList"
begin

text \<open>
  Prelude of the development: the Go data that every component uses.

  A Go map is an association list.  The list holds the content of the map together
  with the order in which a \<open>range\<close> loop visits it, so a statement about all lists
  of one content covers all iteration orders (Go leaves that order open).
  \<open>gok\<close> says that no key occurs twice; every operation keeps it.
  A nil map reads like the empty map.

  The functions of package \<open>strings\<close> that the source calls are written out on
  character lists (one character is one byte).
\<close>

named_theorems go_map_simps
named_theorems go_str_simps

section \<open>Go maps\<close>

type_synonym ('k, 'v) gomap = "('k \<times> 'v) list"

definition gget :: "('k, 'v) gomap \<Rightarrow> 'k \<Rightarrow> 'v option" where
  "gget m k = map_of m k"

definition gset :: "'k \<Rightarrow> 'v \<Rightarrow> ('k, 'v) gomap \<Rightarrow> ('k, 'v) gomap" where
  "gset k v m = AList.update k v m"

definition gdel :: "'k \<Rightarrow> ('k, 'v) gomap \<Rightarrow> ('k, 'v) gomap" where
  "gdel k m = AList.delete k m"

definition gkeys :: "('k, 'v) gomap \<Rightarrow> 'k list" where
  "gkeys m = map fst m"

definition gok :: "('k, 'v) gomap \<Rightarrow> bool" where
  "gok m \<longleftrightarrow> distinct (gkeys m)"

definition ghas :: "('k, 'v) gomap \<Rightarrow> 'k \<Rightarrow> bool" where
  "ghas m k \<longleftrightarrow> gget m k \<noteq> None"

text \<open>The loop \<open>for k, v := range src { dst[k] = v }\<close>.\<close>

fun gset_all :: "('k, 'v) gomap \<Rightarrow> ('k, 'v) gomap \<Rightarrow> ('k, 'v) gomap" where
  "gset_all [] m = m"
| "gset_all ((k, v) # src) m = gset_all src (gset k v m)"

text \<open>The loop \<open>for k := range src { delete(dst, k) }\<close>.\<close>

fun gdel_all :: "'k list \<Rightarrow> ('k, 'v) gomap \<Rightarrow> ('k, 'v) gomap" where
  "gdel_all [] m = m"
| "gdel_all (k # ks) m = gdel_all ks (gdel k m)"

lemma gget_Nil [simp]: "gget [] k = None"
  by (simp add: gget_def)

lemma gget_Cons [simp]: "gget ((a, b) # m) k = (if k = a then Some b else gget m k)"
  by (simp add: gget_def)

lemma gget_gset [simp]: "gget (gset k v m) k' = (if k' = k then Some v else gget m k')"
  by (simp add: gget_def gset_def update_conv')

lemma gget_gdel [simp]: "gget (gdel k m) k' = (if k' = k then None else gget m k')"
  by (simp add: gget_def gdel_def delete_conv')

lemma gok_Nil [simp]: "gok []"
  by (simp add: gok_def gkeys_def)

lemma gok_Cons [simp]: "gok ((k, v) # m) \<longleftrightarrow> k \<notin> set (gkeys m) \<and> gok m"
  by (simp add: gok_def gkeys_def)

lemma gok_gset [simp]: "gok m \<Longrightarrow> gok (gset k v m)"
  by (simp add: gok_def gkeys_def gset_def distinct_update)

lemma gok_gdel [simp]: "gok m \<Longrightarrow> gok (gdel k m)"
  by (simp add: gok_def gkeys_def gdel_def distinct_delete)

lemma set_gkeys: "set (gkeys m) = {k. gget m k \<noteq> None}"
  by (auto simp: gkeys_def gget_def map_of_eq_None_iff)

lemma in_gkeys: "k \<in> set (gkeys m) \<longleftrightarrow> gget m k \<noteq> None"
  by (simp add: set_gkeys)

lemma gget_in_set: "gget m k = Some v \<Longrightarrow> (k, v) \<in> set m"
  by (simp add: gget_def map_of_SomeD)

lemma gok_gget: "gok m \<Longrightarrow> (k, v) \<in> set m \<Longrightarrow> gget m k = Some v"
  by (simp add: gget_def gok_def gkeys_def)

lemma gset_not_Nil [simp]: "gset k v m \<noteq> []"
  by (cases m) (auto simp: gset_def)

lemma gok_gset_all [simp]: "gok m \<Longrightarrow> gok (gset_all src m)"
  by (induction src m rule: gset_all.induct) auto

lemma gok_gdel_all [simp]: "gok m \<Longrightarrow> gok (gdel_all ks m)"
  by (induction ks m rule: gdel_all.induct) auto

lemma gget_gdel_all [simp]:
  "gget (gdel_all ks m) k = (if k \<in> set ks then None else gget m k)"
  by (induction ks m rule: gdel_all.induct) auto

lemma gget_gset_all:
  "gok src \<Longrightarrow>
    gget (gset_all src m) k = (case gget src k of None \<Rightarrow> gget m k | Some v \<Rightarrow> Some v)"
proof (induction src m rule: gset_all.induct)
  case (1 m)
  then show ?case by simp
next
  case (2 a b src m)
  have "gget src k = None" if "k = a"
    using 2(2) that by (simp add: in_gkeys)
  with 2 show ?case by (auto split: option.split)
qed

lemma gset_all_Nil_eq: "gset_all src m = [] \<longleftrightarrow> src = [] \<and> m = []"
proof (induction src m rule: gset_all.induct)
  case (2 k v src m)
  then show ?case by simp
qed simp

lemma gget_all_None: "(\<forall>k. gget m k = None) \<longleftrightarrow> m = []"
proof (cases m)
  case (Cons p m')
  obtain a b where "p = (a, b)" by (cases p)
  then have "gget m a = Some b" by (simp add: Cons)
  then show ?thesis using Cons by auto
qed simp

text \<open>
  Two maps hold the same content when all lookups agree; the list orders may differ.
\<close>

definition geq :: "('k, 'v) gomap \<Rightarrow> ('k, 'v) gomap \<Rightarrow> bool" where
  "geq m m' \<longleftrightarrow> gget m = gget m'"

lemma geq_refl [simp]: "geq m m"
  by (simp add: geq_def)

lemma geq_sym: "geq m m' \<Longrightarrow> geq m' m"
  by (simp add: geq_def)

lemma geq_trans: "geq a b \<Longrightarrow> geq b c \<Longrightarrow> geq a c"
  by (simp add: geq_def)

lemma geq_empty: "geq m m' \<Longrightarrow> (m = []) = (m' = [])"
  unfolding geq_def using gget_all_None by metis

lemma geq_length:
  assumes "geq m m'" "gok m" "gok m'"
  shows "length m = length m'"
proof -
  have "set (gkeys m) = set (gkeys m')"
    using assms(1) by (simp add: set_gkeys geq_def)
  then have "length (gkeys m) = length (gkeys m')"
    using assms(2,3) unfolding gok_def by (metis distinct_card)
  then show ?thesis by (simp add: gkeys_def)
qed

text \<open>
  The interface that the clients of a Go map rely on, and two facts proved from the
  interface alone: writes to different keys commute, and a write hides the one before.
\<close>

locale go_map =
  fixes get :: "'m \<Rightarrow> 'k \<Rightarrow> 'v option"
    and put :: "'k \<Rightarrow> 'v \<Rightarrow> 'm \<Rightarrow> 'm"
    and del :: "'k \<Rightarrow> 'm \<Rightarrow> 'm"
    and ok :: "'m \<Rightarrow> bool"
  assumes get_put: "get (put k v m) = (get m)(k \<mapsto> v)"
    and get_del: "get (del k m) = (get m)(k := None)"
    and ok_put: "ok m \<Longrightarrow> ok (put k v m)"
    and ok_del: "ok m \<Longrightarrow> ok (del k m)"
begin

lemma put_put_same: "get (put k v (put k w m)) = get (put k v m)"
  by (simp add: get_put)

lemma put_put_commute: "k \<noteq> k' \<Longrightarrow> get (put k v (put k' w m)) = get (put k' w (put k v m))"
  by (simp add: get_put fun_upd_twist)

lemma del_put_same: "get (del k (put k v m)) = get (del k m)"
  by (simp add: get_put get_del)

lemma ok_put_del: "ok m \<Longrightarrow> ok (put k v (del k m))"
  by (simp add: ok_put ok_del)

end

interpretation gm: go_map gget gset gdel gok
  by unfold_locales (auto simp: fun_eq_iff)

section \<open>How a call ends\<close>

text \<open>
  A call ends with a result, with a panic, never (it sends on a channel that nobody receives
  from), or with the exit of the process (\<open>log.Fatal\<close>).
\<close>

datatype 'a outcome = Ret 'a | Panics | Blocks | Exits

fun bind :: "'a outcome \<Rightarrow> ('a \<Rightarrow> 'b outcome) \<Rightarrow> 'b outcome" where
  "bind (Ret a) f = f a"
| "bind Panics f = Panics"
| "bind Blocks f = Blocks"
| "bind Exits f = Exits"

lemma bind_Ret_iff: "bind m f = Ret b \<longleftrightarrow> (\<exists>a. m = Ret a \<and> f a = Ret b)"
  by (cases m) auto

section \<open>Go strings\<close>

fun strip_prefix :: "'a list \<Rightarrow> 'a list \<Rightarrow> 'a list option" where
  "strip_prefix [] s = Some s"
| "strip_prefix (p # ps) [] = None"
| "strip_prefix (p # ps) (c # s) = (if p = c then strip_prefix ps s else None)"

text \<open>\<open>cut sep s\<close>: the part of \<open>s\<close> before the first \<open>sep\<close> and the part after it.\<close>

fun cut :: "'a list \<Rightarrow> 'a list \<Rightarrow> ('a list \<times> 'a list) option" where
  "cut sep [] = (if sep = [] then Some ([], []) else None)"
| "cut sep (c # s) =
     (case strip_prefix sep (c # s) of
        Some r \<Rightarrow> Some ([], r)
      | None \<Rightarrow> map_option (\<lambda>(a, b). (c # a, b)) (cut sep s))"

definition strContains :: "string \<Rightarrow> string \<Rightarrow> bool" where
  "strContains s sub \<longleftrightarrow> cut sub s \<noteq> None"

definition strHasPrefix :: "string \<Rightarrow> string \<Rightarrow> bool" where
  "strHasPrefix s p \<longleftrightarrow> strip_prefix p s \<noteq> None"

definition strHasSuffix :: "string \<Rightarrow> string \<Rightarrow> bool" where
  "strHasSuffix s p \<longleftrightarrow> strip_prefix (rev p) (rev s) \<noteq> None"

definition strTrimSuffix :: "string \<Rightarrow> string \<Rightarrow> string" where
  "strTrimSuffix s p =
     (case strip_prefix (rev p) (rev s) of Some r \<Rightarrow> rev r | None \<Rightarrow> s)"

lemma strip_prefix_Some: "strip_prefix p s = Some r \<longleftrightarrow> s = p @ r"
  by (induction p s rule: strip_prefix.induct) auto

lemma cut_shorter: "cut sep s = Some (a, b) \<Longrightarrow> sep \<noteq> [] \<Longrightarrow> length b < length s"
proof (induction sep s arbitrary: a b rule: cut.induct)
  case (2 sep c s)
  show ?case
  proof (cases "strip_prefix sep (c # s)")
    case (Some r)
    then have "c # s = sep @ r" by (simp add: strip_prefix_Some)
    with 2(3) have "length r < length (c # s)" by simp
    with 2(2) Some show ?thesis by simp
  next
    case None
    with 2 show ?thesis by fastforce
  qed
qed simp

text \<open>\<open>strings.SplitN(s, sep, Suc n)\<close> and \<open>strings.Split(s, sep)\<close>.\<close>

fun splitN_pos :: "nat \<Rightarrow> string \<Rightarrow> string \<Rightarrow> string list" where
  "splitN_pos 0 sep s = [s]"
| "splitN_pos (Suc n) sep s =
     (case cut sep s of None \<Rightarrow> [s] | Some (a, b) \<Rightarrow> a # splitN_pos n sep b)"

text \<open>With the empty separator Go splits after each character.\<close>

fun explodeN :: "nat \<Rightarrow> string \<Rightarrow> string list" where
  "explodeN n [] = []"
| "explodeN 0 (c # s) = [c # s]"
| "explodeN (Suc n) (c # s) = [c] # explodeN n s"

definition strSplitN :: "string \<Rightarrow> string \<Rightarrow> nat \<Rightarrow> string list" where
  "strSplitN s sep n =
     (if n = 0 then []
      else if sep = [] then explodeN (n - 1) s
      else splitN_pos (n - 1) sep s)"

definition strSplit :: "string \<Rightarrow> string \<Rightarrow> string list" where
  "strSplit s sep =
     (if sep = [] then explodeN (length s) s else splitN_pos (length s) sep s)"

fun strJoin :: "string list \<Rightarrow> string \<Rightarrow> string" where
  "strJoin [] sep = []"
| "strJoin [x] sep = x"
| "strJoin (x # y # xs) sep = x @ sep @ strJoin (y # xs) sep"

lemma cut_None_iff: "cut sep s = None \<longleftrightarrow> (\<nexists>a b. s = a @ sep @ b)"
proof (induction sep s rule: cut.induct)
  case (1 sep)
  then show ?case by simp
next
  case (2 sep c s)
  show ?case
  proof (cases "strip_prefix sep (c # s)")
    case (Some r)
    then have "c # s = [] @ sep @ r" by (simp add: strip_prefix_Some)
    with Some show ?thesis by (metis cut.simps(2) option.distinct(1) option.simps(5))
  next
    case None
    have "(\<exists>a b. c # s = a @ sep @ b) \<longleftrightarrow> (\<exists>a b. s = a @ sep @ b)"
    proof
      assume "\<exists>a b. c # s = a @ sep @ b"
      then obtain a b where ab: "c # s = a @ sep @ b" by blast
      have "a \<noteq> []" using None ab strip_prefix_Some[of sep "c # s" b] by auto
      then show "\<exists>a b. s = a @ sep @ b" using ab by (cases a) auto
    next
      assume "\<exists>a b. s = a @ sep @ b"
      then show "\<exists>a b. c # s = a @ sep @ b" by (metis append_Cons)
    qed
    with 2 None show ?thesis by simp
  qed
qed

lemma strContains_iff: "strContains s sub \<longleftrightarrow> (\<exists>a b. s = a @ sub @ b)"
  using cut_None_iff[of sub s] by (auto simp: strContains_def)

text \<open>One-character separators, the only ones the repository configures.\<close>

lemma cut_char_none: "c \<notin> set s \<Longrightarrow> cut [c] s = None"
  by (induction s) auto

lemma cut_char_append: "c \<notin> set x \<Longrightarrow> cut [c] (x @ c # y) = Some (x, y)"
  by (induction x) auto

lemma strJoin_Cons: "xs \<noteq> [] \<Longrightarrow> strJoin (x # xs) sep = x @ sep @ strJoin xs sep"
  by (cases xs) auto

lemma splitN_pos_join:
  "xs \<noteq> [] \<Longrightarrow> \<forall>x \<in> set xs. c \<notin> set x \<Longrightarrow> length xs \<le> Suc n \<Longrightarrow>
    splitN_pos n [c] (strJoin xs [c]) = xs"
proof (induction xs arbitrary: n)
  case (Cons x xs)
  show ?case
  proof (cases "xs = []")
    case True
    then show ?thesis using Cons.prems by (cases n) (simp_all add: cut_char_none)
  next
    case False
    then obtain m where n: "n = Suc m" using Cons.prems(3) by (cases n) auto
    have "c \<notin> set x" using Cons.prems(2) by simp
    then show ?thesis
      using Cons.IH[of m] Cons.prems False
      by (simp add: n strJoin_Cons cut_char_append)
  qed
qed simp

lemma length_strJoin: "length xs \<le> Suc (length (strJoin xs [c]))"
proof (induction xs)
  case (Cons x xs)
  then show ?case by (cases "xs = []") (auto simp: strJoin_Cons)
qed simp

text \<open>Splitting a joined list gives the list back when no component holds the separator.\<close>

lemma strSplit_strJoin:
  "xs \<noteq> [] \<Longrightarrow> \<forall>x \<in> set xs. c \<notin> set x \<Longrightarrow> strSplit (strJoin xs [c]) [c] = xs"
  using splitN_pos_join[of xs c "length (strJoin xs [c])"] length_strJoin[of xs c]
  by (simp add: strSplit_def)

text \<open>Only the last component may hold the separator when the split is limited.\<close>

lemma splitN_pos_join_last:
  "\<forall>x \<in> set xs. c \<notin> set x \<Longrightarrow>
    splitN_pos (length xs) [c] (strJoin (xs @ [l]) [c]) = xs @ [l]"
  by (induction xs) (simp_all add: strJoin_Cons cut_char_append)

lemma strSplitN_strJoin:
  "\<forall>x \<in> set xs. c \<notin> set x \<Longrightarrow>
    strSplitN (strJoin (xs @ [l]) [c]) [c] (Suc (length xs)) = xs @ [l]"
  by (simp add: strSplitN_def splitN_pos_join_last)

lemma strSplitN_2: "c \<notin> set x \<Longrightarrow> strSplitN (x @ c # y) [c] 2 = [x, y]"
  by (simp add: strSplitN_def cut_char_append numeral_2_eq_2)

lemma strSplitN_2_none: "c \<notin> set x \<Longrightarrow> strSplitN x [c] 2 = [x]"
  by (simp add: strSplitN_def cut_char_none numeral_2_eq_2)

lemma strHasSuffix_append [simp]: "strHasSuffix (s @ p) p"
  by (simp add: strHasSuffix_def) (metis option.distinct(1) strip_prefix_Some)

lemma strTrimSuffix_append [simp]: "strTrimSuffix (s @ p) p = s"
  using strip_prefix_Some[of "rev p" "rev p @ rev s" "rev s"] by (simp add: strTrimSuffix_def)

lemma splitN_pos_ne: "splitN_pos n sep s \<noteq> []"
  by (cases n) (auto split: option.split)

lemma strSplit_ne: "strSplit s [c] \<noteq> []"
  by (simp add: strSplit_def splitN_pos_ne)

end
