(* ===== verification/TLErr.thy ===== *)
theory TLErr
  imports Base
begin

text \<open>
  The error values of package tlerr, as far as the modelled packages return them.
  A Go \<open>error\<close> result is \<open>goerr option\<close>: \<open>None\<close> is nil.

  \<open>errordata\<close> is the payload of the errors shown to a user; its arguments are rendered
  to strings already.  \<open>GoError\<close> stands for \<open>errors.New\<close> and \<open>fmt.Errorf\<close>, \<open>GoWrap\<close> for an error that wraps
  another one with \<open>%w\<close>, \<open>RedisError\<close> for an error that the redis client reports.
\<close>

datatype DBLockType = DBLockGeneric | DBLockConfigSession

datatype errordata =
  ErrorData (ed_Format: string) (ed_Args: "string list") (ed_Path: string) (ed_AppTag: string)

datatype goerr =
    TranslibDBCannotOpen
  | TranslibDBNotInit
  | TranslibRedisClientEntryNotExist string
  | TranslibCVLFailure int string
  | TranslibTransactionFail
  | TranslibDBSubscribeFail
  | TranslibDBScriptFail string
  | TranslibDBInvalidState string
  | TranslibSyntaxValidationError int goerr
  | TranslibUnsupportedClientVersion string string string
  | TranslibXfmrRetError bool
  | TranslibDBConnectionReset
  | TranslibDBTxCmdsLim
  | TranslibDBLock DBLockType
  | TranslibDBNotSupported string
  | TranslibTimeoutError
  | TranslibInvalidSession
  | TranslibBusy
  | InvalidArgsError errordata
  | NotFoundError errordata
  | AlreadyExistsError errordata
  | NotSupportedError errordata
  | InternalError errordata
  | AuthorizationError errordata
  | RequestContextCancelledError string goerr
  | GoError string
  | GoWrap string goerr
  | RedisError string

section \<open>Constructors of the application errors\<close>

definition InvalidArgs :: "string \<Rightarrow> string list \<Rightarrow> goerr" where
  "InvalidArgs msg args = InvalidArgsError (ErrorData msg args [] [])"

definition InvalidArgsErr :: "string \<Rightarrow> string \<Rightarrow> string \<Rightarrow> string list \<Rightarrow> goerr" where
  "InvalidArgsErr appTag path msg args = InvalidArgsError (ErrorData msg args path appTag)"

definition NotFound :: "string \<Rightarrow> string list \<Rightarrow> goerr" where
  "NotFound msg args = NotFoundError (ErrorData msg args [] [])"

definition NotFoundErr :: "string \<Rightarrow> string \<Rightarrow> string \<Rightarrow> string list \<Rightarrow> goerr" where
  "NotFoundErr appTag path msg args = NotFoundError (ErrorData msg args path appTag)"

definition AlreadyExists :: "string \<Rightarrow> string list \<Rightarrow> goerr" where
  "AlreadyExists msg args = AlreadyExistsError (ErrorData msg args [] [])"

definition AlreadyExistsErr :: "string \<Rightarrow> string \<Rightarrow> string \<Rightarrow> string list \<Rightarrow> goerr" where
  "AlreadyExistsErr appTag path msg args = AlreadyExistsError (ErrorData msg args path appTag)"

definition NotSupported :: "string \<Rightarrow> string list \<Rightarrow> goerr" where
  "NotSupported msg args = NotSupportedError (ErrorData msg args [] [])"

definition NotSupportedErr :: "string \<Rightarrow> string \<Rightarrow> string \<Rightarrow> string list \<Rightarrow> goerr" where
  "NotSupportedErr appTag path msg args = NotSupportedError (ErrorData msg args path appTag)"

definition tlerr_New :: "string \<Rightarrow> string list \<Rightarrow> goerr" where
  "tlerr_New msg args = InternalError (ErrorData msg args [] [])"

definition tlerr_NewError :: "string \<Rightarrow> string \<Rightarrow> string \<Rightarrow> string list \<Rightarrow> goerr" where
  "tlerr_NewError appTag path msg args = InternalError (ErrorData msg args path appTag)"

definition TranslibXfmrRetErr :: "bool \<Rightarrow> goerr" where
  "TranslibXfmrRetErr fail = TranslibXfmrRetError fail"

definition RequestContextCancelled :: "string \<Rightarrow> goerr \<Rightarrow> goerr" where
  "RequestContextCancelled msg ctxErr = RequestContextCancelledError msg ctxErr"

section \<open>Message texts\<close>

text \<open>
  The \<open>Error\<close> methods.  \<open>pf\<close> is \<open>Sprintf\<close> of the message printer (package
  golang.org/x/text): a format and the rendered arguments.
\<close>

fun Error_text :: "(string \<Rightarrow> string list \<Rightarrow> string) \<Rightarrow> (int \<Rightarrow> string) \<Rightarrow> goerr \<Rightarrow> string" where
  "Error_text pf itoa TranslibDBCannotOpen = pf ''Translib Redis Error: Cannot open DB'' []"
| "Error_text pf itoa TranslibDBNotInit = pf ''Translib Redis Error: DB Not Initialized'' []"
| "Error_text pf itoa (TranslibRedisClientEntryNotExist e) =
     pf ''Translib Redis Error: Entry does not exist: %s'' [e]"
| "Error_text pf itoa (TranslibCVLFailure c i) = pf ''Translib Redis Error: CVL Failure: %d: %v'' [itoa c, i]"
| "Error_text pf itoa TranslibTransactionFail = pf ''Translib Redis Error: Transaction Fails'' []"
| "Error_text pf itoa TranslibDBSubscribeFail = pf ''Translib Redis Error: DB Subscribe Fail'' []"
| "Error_text pf itoa (TranslibDBScriptFail d) = pf ''Translib Redis Error: DB Script Fail: %s'' [d]"
| "Error_text pf itoa (TranslibDBInvalidState e) = ''DB error: '' @ e"
| "Error_text pf itoa (TranslibSyntaxValidationError c e) = pf ''%s'' [Error_text pf itoa e]"
| "Error_text pf itoa (TranslibUnsupportedClientVersion c s b) = pf ''Unsupported client version %s'' [c]"
| "Error_text pf itoa (TranslibXfmrRetError f) =
     pf ''Translib transformer return %s'' [if f then ''%!s(bool=true)'' else ''%!s(bool=false)'']"
| "Error_text pf itoa TranslibDBConnectionReset = pf ''Translib Redis Error: DB Connection Reset'' []"
| "Error_text pf itoa TranslibDBTxCmdsLim = pf ''Translib Error: DB Transaction Commands Limit Exceeded'' []"
| "Error_text pf itoa (TranslibDBLock t) = pf ''Translib Error: DB Resource Lock'' []"
| "Error_text pf itoa (TranslibDBNotSupported d) = pf ''Translib Redis Error: Not Supported: %s'' [d]"
| "Error_text pf itoa TranslibTimeoutError = pf ''Translib Timeout Error'' []"
| "Error_text pf itoa TranslibInvalidSession = pf ''Translib Invalid Session Error'' []"
| "Error_text pf itoa TranslibBusy = pf ''Translib Busy'' []"
| "Error_text pf itoa (InvalidArgsError e) = pf (ed_Format e) (ed_Args e)"
| "Error_text pf itoa (NotFoundError e) = pf (ed_Format e) (ed_Args e)"
| "Error_text pf itoa (AlreadyExistsError e) = pf (ed_Format e) (ed_Args e)"
| "Error_text pf itoa (NotSupportedError e) = pf (ed_Format e) (ed_Args e)"
| "Error_text pf itoa (InternalError e) = pf (ed_Format e) (ed_Args e)"
| "Error_text pf itoa (AuthorizationError e) = pf (ed_Format e) (ed_Args e)"
| "Error_text pf itoa (RequestContextCancelledError m e) = m @ ''; context error: '' @ Error_text pf itoa e"
| "Error_text pf itoa (GoError m) = m"
| "Error_text pf itoa (GoWrap m e) = m"
| "Error_text pf itoa (RedisError m) = m"

section \<open>Kinds of errors\<close>

text \<open>\<open>IsNotFound\<close> of app_errors.go and \<open>isNotFoundError\<close> of translib are the same switch.\<close>

fun IsNotFound :: "goerr option \<Rightarrow> bool" where
  "IsNotFound (Some (TranslibRedisClientEntryNotExist _)) = True"
| "IsNotFound (Some (NotFoundError _)) = True"
| "IsNotFound _ = False"

definition ConnectionClosed :: goerr where
  "ConnectionClosed = TranslibDBInvalidState ''connection closed''"

definition OnChangeDisabled :: goerr where
  "OnChangeDisabled = TranslibDBInvalidState ''OnChange disabled''"

definition UseGetEntry :: goerr where
  "UseGetEntry = TranslibDBInvalidState ''Use GetEntry()''"

fun IsTranslibRedisClientEntryNotExist :: "goerr option \<Rightarrow> bool" where
  "IsTranslibRedisClientEntryNotExist (Some (TranslibRedisClientEntryNotExist _)) = True"
| "IsTranslibRedisClientEntryNotExist _ = False"

text \<open>\<open>errors.As\<close> walks along the chain of wrapped errors.\<close>

fun errors_as_entry_not_exist :: "goerr \<Rightarrow> bool" where
  "errors_as_entry_not_exist (TranslibRedisClientEntryNotExist _) = True"
| "errors_as_entry_not_exist (GoWrap _ e) = errors_as_entry_not_exist e"
| "errors_as_entry_not_exist _ = False"

fun isDBEntryNotExistError :: "goerr option \<Rightarrow> bool" where
  "isDBEntryNotExistError e =
     (if IsTranslibRedisClientEntryNotExist e then True
      else (case e of None \<Rightarrow> False | Some e' \<Rightarrow> errors_as_entry_not_exist e'))"

fun ErrorSeverity :: "goerr option \<Rightarrow> nat" where
  "ErrorSeverity e =
     (if e = None then 3 else if isDBEntryNotExistError e then 3 else 0)"

lemma errors_as_iff:
  "isDBEntryNotExistError (Some e) \<longleftrightarrow> errors_as_entry_not_exist e"
  by (cases e) simp_all

end
