(* ===== verification/Key_Pattern.thy ===== *)
theory Key_Pattern
  imports TLErr
begin

text \<open>
  translib/db/db_key.go: database keys, their comparison, and the glob matcher
  \<open>patternMatch\<close>; cvl/common/db_utils.go: the copy of that matcher used by CVL.

  The matcher works on positions of the value and of the pattern, as the code does.
  Its meaning is given separately, by the tokens of a pattern (\<open>glob_parse\<close>) and an
  inductive relation between token lists and strings (\<open>glob\<close>).
\<close>

section \<open>Keys\<close>

record Key =
  Comp :: "string list"

definition NewKey :: "string list \<Rightarrow> Key" where
  "NewKey comps = \<lparr>Comp = comps\<rparr>"

definition Key_Copy :: "Key \<Rightarrow> Key" where
  "Key_Copy k = \<lparr>Comp = map (\<lambda>c. c) (Comp k)\<rparr>"

definition Key_Len :: "Key \<Rightarrow> nat" where
  "Key_Len k = length (Comp k)"

text \<open>Indexing out of range panics: \<open>None\<close>.\<close>

definition Key_Get :: "Key \<Rightarrow> nat \<Rightarrow> string option" where
  "Key_Get k index = (if index < length (Comp k) then Some (Comp k ! index) else None)"

fun comp_is_pattern :: "string \<Rightarrow> bool" where
  "comp_is_pattern [] = False"
| "comp_is_pattern (c # s) =
     (if c = CHR 0x5C then (case s of [] \<Rightarrow> False | _ # s' \<Rightarrow> comp_is_pattern s')
      else if c = CHR ''*'' \<or> c = CHR ''?'' then True
      else comp_is_pattern s)"

definition Key_IsPattern :: "Key \<Rightarrow> bool" where
  "Key_IsPattern k = list_ex comp_is_pattern (Comp k)"

fun comps_equal :: "string list \<Rightarrow> string list \<Rightarrow> bool" where
  "comps_equal (c # cs) (o1 # os) = (if c \<noteq> o1 then False else comps_equal cs os)"
| "comps_equal _ _ = True"

definition Key_Equals :: "Key \<Rightarrow> Key \<Rightarrow> bool" where
  "Key_Equals k other =
     (if Key_Len k \<noteq> Key_Len other then False else comps_equal (Comp k) (Comp other))"

definition IsAllKeyPattern :: "Key \<Rightarrow> bool" where
  "IsAllKeyPattern k = (if length (Comp k) = 1 \<and> Comp k ! 0 = ''*'' then True else False)"

lemma Key_Copy_id [simp]: "Key_Copy k = k"
  by (simp add: Key_Copy_def)

lemma comps_equal_iff: "length xs = length ys \<Longrightarrow> comps_equal xs ys \<longleftrightarrow> xs = ys"
  by (induction xs ys rule: comps_equal.induct) auto

lemma Key_Equals_iff [simp]: "Key_Equals k k' \<longleftrightarrow> k = k'"
  by (cases k; cases k') (auto simp: Key_Equals_def Key_Len_def comps_equal_iff)

lemma IsAllKeyPattern_iff: "IsAllKeyPattern k \<longleftrightarrow> Comp k = [''*'']"
  by (cases "Comp k") (auto simp: IsAllKeyPattern_def)

section \<open>The glob matcher\<close>

text \<open>The inner loop that skips successive stars of the pattern.\<close>

function skip_stars :: "string \<Rightarrow> nat \<Rightarrow> nat" where
  "skip_stars pattern p =
     (if p < length pattern \<and> pattern ! p = CHR ''*'' then skip_stars pattern (Suc p) else p)"
  by pat_completeness auto
termination
  by (relation "measure (\<lambda>(pattern, p). length pattern - p)") auto

declare skip_stars.simps [simp del]

lemma skip_stars_ge: "p \<le> skip_stars pattern p"
proof (induction pattern p rule: skip_stars.induct)
  case (1 pattern p)
  then show ?case by (subst skip_stars.simps) auto
qed

text \<open>
  The outer loop and the recursive call.  The loop over the value positions returns at
  the first position from which the rest of the pattern matches.
\<close>

function patternMatch :: "string \<Rightarrow> nat \<Rightarrow> string \<Rightarrow> nat \<Rightarrow> bool" where
  "patternMatch value vIndex pattern pIndex =
     (if pIndex < length pattern then
        if pattern ! pIndex = CHR ''*'' then
          let q = skip_stars pattern (Suc pIndex) in
            if q = length pattern then True
            else list_ex (\<lambda>v. patternMatch value v pattern q) [vIndex..<length value]
        else if pattern ! pIndex = CHR ''?'' then
          if vIndex \<ge> length value then False
          else patternMatch value (Suc vIndex) pattern (Suc pIndex)
        else
          let q = (if pattern ! pIndex = CHR 0x5C \<and> Suc pIndex < length pattern
                   then Suc pIndex else pIndex) in
            if vIndex \<ge> length value \<or> pattern ! q \<noteq> value ! vIndex then False
            else patternMatch value (Suc vIndex) pattern (Suc q)
      else vIndex = length value)"
  by pat_completeness auto
termination
proof (relation "measure (\<lambda>(val, v, pat, p). length pat - p)", goal_cases)
  case (2 val vi pat p q v)
  then show ?case using skip_stars_ge[of "Suc p" pat] by simp
qed auto

declare patternMatch.simps [simp del]

text \<open>The copy in CVL: the same loop, entered through \<open>KeyMatch\<close>.\<close>

function keyMatch :: "string \<Rightarrow> nat \<Rightarrow> string \<Rightarrow> nat \<Rightarrow> bool" where
  "keyMatch value vIndex pattern pIndex =
     (if pIndex < length pattern then
        if pattern ! pIndex = CHR ''*'' then
          let q = skip_stars pattern (Suc pIndex) in
            if q = length pattern then True
            else list_ex (\<lambda>v. keyMatch value v pattern q) [vIndex..<length value]
        else if pattern ! pIndex = CHR ''?'' then
          if vIndex \<ge> length value then False
          else keyMatch value (Suc vIndex) pattern (Suc pIndex)
        else
          let q = (if pattern ! pIndex = CHR 0x5C \<and> Suc pIndex < length pattern
                   then Suc pIndex else pIndex) in
            if vIndex \<ge> length value \<or> pattern ! q \<noteq> value ! vIndex then False
            else keyMatch value (Suc vIndex) pattern (Suc q)
      else vIndex = length value)"
  by pat_completeness auto
termination
proof (relation "measure (\<lambda>(val, v, pat, p). length pat - p)", goal_cases)
  case (2 val vi pat p q v)
  then show ?case using skip_stars_ge[of "Suc p" pat] by simp
qed auto

declare keyMatch.simps [simp del]

definition KeyMatch :: "string \<Rightarrow> string \<Rightarrow> bool" where
  "KeyMatch value pattern = keyMatch value 0 pattern 0"

fun comps_match :: "string list \<Rightarrow> string list \<Rightarrow> bool" where
  "comps_match (c # cs) (p # ps) =
     (if p = ''*'' then comps_match cs ps
      else if \<not> patternMatch c 0 p 0 then False
      else comps_match cs ps)"
| "comps_match _ _ = True"

definition Key_Matches :: "Key \<Rightarrow> Key \<Rightarrow> bool" where
  "Key_Matches k pattern =
     (if Key_Len k \<noteq> Key_Len pattern then False else comps_match (Comp k) (Comp pattern))"

section \<open>What a pattern means\<close>

datatype glob_tok = Star | AnyChar | Lit char

fun glob_parse :: "string \<Rightarrow> glob_tok list" where
  "glob_parse [] = []"
| "glob_parse (c # s) =
     (if c = CHR ''*'' then Star # glob_parse s
      else if c = CHR ''?'' then AnyChar # glob_parse s
      else if c = CHR 0x5C then
        (case s of [] \<Rightarrow> [Lit c] | d # s' \<Rightarrow> Lit d # glob_parse s')
      else Lit c # glob_parse s)"

inductive glob :: "glob_tok list \<Rightarrow> string \<Rightarrow> bool" where
  glob_Nil: "glob [] []"
| glob_Lit: "glob ts s \<Longrightarrow> glob (Lit c # ts) (c # s)"
| glob_Any: "glob ts s \<Longrightarrow> glob (AnyChar # ts) (c # s)"
| glob_Star: "glob ts s \<Longrightarrow> glob (Star # ts) (x @ s)"

inductive_simps glob_Nil_iff [simp]: "glob [] s"
inductive_simps glob_Lit_iff: "glob (Lit c # ts) s"
inductive_simps glob_Any_iff: "glob (AnyChar # ts) s"
inductive_simps glob_Star_iff: "glob (Star # ts) s"
inductive_cases glob_StarE: "glob (Star # ts) s"

lemma glob_Star_all: "glob [Star] s"
  using glob_Star[OF glob_Nil, of s] by simp

lemma glob_Star_drop: "glob (Star # ts) s \<longleftrightarrow> (\<exists>n \<le> length s. glob ts (drop n s))"
proof
  assume "glob (Star # ts) s"
  then obtain x r where "s = x @ r" "glob ts r" by (auto simp: glob_Star_iff)
  then show "\<exists>n \<le> length s. glob ts (drop n s)" by (intro exI[of _ "length x"]) simp
next
  assume "\<exists>n \<le> length s. glob ts (drop n s)"
  then obtain n where "glob ts (drop n s)" by blast
  then have "glob (Star # ts) (take n s @ drop n s)" by (rule glob_Star)
  then show "glob (Star # ts) s" by simp
qed

lemma glob_Star_Star: "glob (Star # Star # ts) s \<longleftrightarrow> glob (Star # ts) s"
proof
  assume "glob (Star # Star # ts) s"
  then obtain x y r where "s = x @ (y @ r)" "glob ts r" by (auto simp: glob_Star_iff)
  then show "glob (Star # ts) s" using glob_Star[of ts r "x @ y"] by simp
next
  assume "glob (Star # ts) s"
  then show "glob (Star # Star # ts) s" using glob_Star[of "Star # ts" s "[]"] by simp
qed

text \<open>A pattern that does not start with a star needs at least one character.\<close>

lemma glob_parse_no_star_Nil:
  "p \<noteq> [] \<Longrightarrow> hd p \<noteq> CHR ''*'' \<Longrightarrow> \<not> glob (glob_parse p) []"
  by (cases p) (auto simp: glob_Lit_iff glob_Any_iff split: list.splits)

lemma skip_stars_spec:
  "p \<le> length pattern \<Longrightarrow>
    skip_stars pattern p \<le> length pattern \<and>
    (skip_stars pattern p < length pattern \<longrightarrow> pattern ! skip_stars pattern p \<noteq> CHR ''*'') \<and>
    (glob (Star # glob_parse (drop p pattern)) s
      \<longleftrightarrow> glob (Star # glob_parse (drop (skip_stars pattern p) pattern)) s)"
proof (induction pattern p rule: skip_stars.induct)
  case (1 pattern p)
  show ?case
  proof (cases "p < length pattern \<and> pattern ! p = CHR ''*''")
    case True
    then have "drop p pattern = CHR ''*'' # drop (Suc p) pattern"
      by (metis Cons_nth_drop_Suc)
    then show ?thesis
      using 1 True by (simp add: skip_stars.simps[of pattern p] glob_Star_Star)
  next
    case False
    then have "skip_stars pattern p = p" by (subst skip_stars.simps) auto
    then show ?thesis using 1(2) False by auto
  qed
qed

lemma drop_nth_Cons: "i < length xs \<Longrightarrow> drop i xs = xs ! i # drop (Suc i) xs"
  by (simp add: Cons_nth_drop_Suc)

text \<open>The loop tries every position but the last; the last one cannot match.\<close>

lemma glob_Star_loop:
  assumes "ts \<noteq> []" "\<not> glob ts []" "v \<le> length s"
  shows "glob (Star # ts) (drop v s) \<longleftrightarrow> (\<exists>i. v \<le> i \<and> i < length s \<and> glob ts (drop i s))"
proof
  assume "glob (Star # ts) (drop v s)"
  then obtain n where n: "n \<le> length s - v" "glob ts (drop (v + n) s)"
    by (auto simp: glob_Star_drop add.commute)
  have "v + n \<noteq> length s" using n(2) assms(2) by auto
  then show "\<exists>i. v \<le> i \<and> i < length s \<and> glob ts (drop i s)"
    using n assms(3) by (intro exI[of _ "v + n"]) auto
next
  assume "\<exists>i. v \<le> i \<and> i < length s \<and> glob ts (drop i s)"
  then obtain i where i: "v \<le> i" "i < length s" "glob ts (drop i s)" by blast
  then have "glob ts (drop (i - v) (drop v s))" by simp
  then show "glob (Star # ts) (drop v s)"
    unfolding glob_Star_drop using i by (intro exI[of _ "i - v"]) auto
qed

lemma patternMatch_glob:
  "v \<le> length val \<Longrightarrow> p \<le> length pat \<Longrightarrow>
    patternMatch val v pat p \<longleftrightarrow> glob (glob_parse (drop p pat)) (drop v val)"
proof (induction val v pat p rule: patternMatch.induct)
  case (1 val v pat p)
  consider (fin) "p = length pat" | (star) "p < length pat" "pat ! p = CHR ''*''"
    | (any) "p < length pat" "pat ! p = CHR ''?''"
    | (lit) "p < length pat" "pat ! p \<noteq> CHR ''*''" "pat ! p \<noteq> CHR ''?''"
    using "1.prems" by fastforce
  then show ?case
  proof cases
    case fin
    then have "patternMatch val v pat p \<longleftrightarrow> v = length val"
      by (subst patternMatch.simps) simp
    then show ?thesis using fin "1.prems"(1) by auto
  next
    case star
    define q where "q = skip_stars pat (Suc p)"
    have q: "q \<le> length pat" "q < length pat \<longrightarrow> pat ! q \<noteq> CHR ''*''"
      and st: "\<And>s. glob (Star # glob_parse (drop (Suc p) pat)) s
                \<longleftrightarrow> glob (Star # glob_parse (drop q pat)) s"
      using skip_stars_spec[of "Suc p" pat] star(1) unfolding q_def by auto
    have dp: "glob_parse (drop p pat) = Star # glob_parse (drop (Suc p) pat)"
      using star by (simp add: drop_nth_Cons)
    show ?thesis
    proof (cases "q = length pat")
      case True
      then show ?thesis
        using star by (simp add: patternMatch.simps[of val v pat p] q_def[symmetric]
            dp st glob_Star_all)
    next
      case False
      have ne: "drop q pat \<noteq> []" "hd (drop q pat) \<noteq> CHR ''*''"
        using q False by (simp_all add: hd_drop_conv_nth)
      have "patternMatch val v pat p
          \<longleftrightarrow> (\<exists>i. v \<le> i \<and> i < length val \<and> patternMatch val i pat q)"
        using star False
        by (auto simp: patternMatch.simps[of val v pat p] q_def[symmetric] list_ex_iff)
      also have "\<dots> \<longleftrightarrow> (\<exists>i. v \<le> i \<and> i < length val \<and> glob (glob_parse (drop q pat)) (drop i val))"
        using "1.IH"(1)[OF star q_def False] q(1) by auto
      also have "\<dots> \<longleftrightarrow> glob (Star # glob_parse (drop q pat)) (drop v val)"
        using glob_Star_loop[OF _ glob_parse_no_star_Nil[OF ne] "1.prems"(1)] ne(1)
        by (cases "drop q pat") (auto split: list.splits)
      finally show ?thesis by (simp add: dp st)
    qed
  next
    case any
    have dp: "glob_parse (drop p pat) = AnyChar # glob_parse (drop (Suc p) pat)"
      using any by (simp add: drop_nth_Cons)
    show ?thesis
    proof (cases "v < length val")
      case True
      then show ?thesis
        using "1.IH"(2) any
        by (simp add: patternMatch.simps[of val v pat p] dp glob_Any_iff drop_nth_Cons[OF True])
    next
      case False
      then show ?thesis using any
        by (simp add: patternMatch.simps[of val v pat p] dp glob_Any_iff)
    qed
  next
    case lit
    define q where "q = (if pat ! p = CHR 0x5C \<and> Suc p < length pat then Suc p else p)"
    have q: "q < length pat" using lit by (simp add: q_def)
    have dp: "glob_parse (drop p pat) = Lit (pat ! q) # glob_parse (drop (Suc q) pat)"
      using lit by (auto simp: drop_nth_Cons q_def)
    show ?thesis
    proof (cases "v < length val")
      case True
      then show ?thesis
        using "1.IH"(3)[OF lit q_def] lit q
        by (auto simp: patternMatch.simps[of val v pat p] q_def[symmetric] dp glob_Lit_iff
            drop_nth_Cons[OF True])
    next
      case False
      then show ?thesis using lit
        by (simp add: patternMatch.simps[of val v pat p] q_def[symmetric] dp glob_Lit_iff)
    qed
  qed
qed

lemma keyMatch_patternMatch: "keyMatch val v pat p = patternMatch val v pat p"
proof (induction val v pat p rule: keyMatch.induct)
  case (1 val v pat p)
  show ?case
    unfolding keyMatch.simps[of val v pat p] patternMatch.simps[of val v pat p] Let_def
    using 1 by (auto simp: list_ex_iff)
qed

end
