(* ===== verification/DB_Value.thy ===== *)
theory DB_Value
  imports TLErr "HOL-Library.List_Lexorder" "HOL-Library.Char_ord"
begin

text \<open>
  translib/db/db_value.go: the \<open>Value\<close> of a database entry (its fields as a map) and the
  operations on it, and translib/internal/apis/db_diff.go: the comparison of two versions
  of an entry.

  The functions of package strconv that the source calls are written out: \<open>Itoa\<close> prints
  a number in decimal, \<open>Atoi\<close> reads an optional sign and decimal digits and reports a
  range error outside of the 64-bit integers.
\<close>

type_synonym fields = "(string, string) gomap"

record Value =
  Flds :: fields

section \<open>Reading and writing fields\<close>

definition Value_Copy :: "Value \<Rightarrow> Value" where
  "Value_Copy v = \<lparr>Flds = gset_all (Flds v) []\<rparr>"

definition IsPopulated :: "Value \<Rightarrow> bool" where
  "IsPopulated v \<longleftrightarrow> length (Flds v) > 0"

definition Value_Has :: "Value \<Rightarrow> string \<Rightarrow> bool" where
  "Value_Has v name = (case gget (Flds v) name of None \<Rightarrow> False | Some _ \<Rightarrow> True)"

definition Value_Get :: "Value \<Rightarrow> string \<Rightarrow> string" where
  "Value_Get v name = (case gget (Flds v) name of None \<Rightarrow> [] | Some x \<Rightarrow> x)"

definition Value_Set :: "Value \<Rightarrow> string \<Rightarrow> string \<Rightarrow> Value" where
  "Value_Set v name val = v\<lparr>Flds := gset name val (Flds v)\<rparr>"

definition Value_Remove :: "Value \<Rightarrow> string \<Rightarrow> Value" where
  "Value_Remove v name = v\<lparr>Flds := gdel name (Flds v)\<rparr>"

lemma gset_fresh: "gget m k = None \<Longrightarrow> gset k v m = m @ [(k, v)]"
  by (induction m) (auto simp: gset_def gget_def split: if_splits)

lemma gset_all_append:
  "gok (m @ src) \<Longrightarrow> gset_all src m = m @ src"
proof (induction src arbitrary: m)
  case (Cons p src)
  obtain k v where p: "p = (k, v)" by (cases p)
  have "gget m k = None"
    using Cons.prems by (auto simp: p gok_def gkeys_def gget_def map_of_eq_None_iff)
  then show ?case using Cons.IH[of "m @ [(k, v)]"] Cons.prems by (simp add: p gset_fresh)
qed simp

lemma Value_Copy_ok: "gok (Flds v) \<Longrightarrow> Value_Copy v = v"
  by (simp add: Value_Copy_def gset_all_append)

lemma gok_Value_Copy [simp]: "gok (Flds (Value_Copy v))"
  by (simp add: Value_Copy_def)

lemma Value_Copy_empty: "Flds (Value_Copy v) = [] \<longleftrightarrow> Flds v = []"
  by (simp add: Value_Copy_def gset_all_Nil_eq)

lemma IsPopulated_iff: "IsPopulated v \<longleftrightarrow> Flds v \<noteq> []"
  by (simp add: IsPopulated_def)

section \<open>The redis operations between two values\<close>

text \<open>
  \<open>Compare4TxOps\<close> ranges over the \<^emph>\<open>values\<close> of the fields of \<open>v\<close> (\<open>for _, fs := range
  v.Field\<close>) and looks these up as field names of \<open>dst\<close>.
\<close>

fun cmp_loop1 :: "fields \<Rightarrow> fields \<Rightarrow> bool \<Rightarrow> bool \<Rightarrow> bool \<times> bool \<times> bool" where
  "cmp_loop1 [] dst hs hd' = (False, hs, hd')"
| "cmp_loop1 ((_, fs) # src) dst hs hd' =
     (let (hs', hd'') =
        (case gget dst fs of
           None \<Rightarrow> (hs, True)
         | Some fd \<Rightarrow> if fd \<noteq> fs then (True, hd') else (hs, hd'))
      in if hd'' \<and> hs' then (True, hs', hd'') else cmp_loop1 src dst hs' hd'')"

fun cmp_loop2 :: "fields \<Rightarrow> fields \<Rightarrow> bool \<Rightarrow> bool" where
  "cmp_loop2 [] src hs = hs"
| "cmp_loop2 ((_, fd) # dst) src hs =
     (let hs' = (if gget src fd = None then True else hs)
      in if hs' then hs' else cmp_loop2 dst src hs')"

definition Compare4TxOps :: "Value \<Rightarrow> Value \<Rightarrow> bool \<times> bool" where
  "Compare4TxOps v dst =
     (let (ret, hs, hd') = cmp_loop1 (Flds v) (Flds dst) False False
      in if ret then (hs, hd') else (cmp_loop2 (Flds dst) (Flds v) hs, hd'))"

lemma cmp_loop1_spec:
  "cmp_loop1 src dst hs hd' = (r, hs', hd'') \<Longrightarrow>
    (hs' \<longleftrightarrow> hs \<or> (\<exists>(_, fs) \<in> set src. \<exists>fd. gget dst fs = Some fd \<and> fd \<noteq> fs)) \<and>
    (hd'' \<longleftrightarrow> hd' \<or> (\<exists>(_, fs) \<in> set src. gget dst fs = None)) \<or>
    r \<and> hs' \<and> hd'' \<and>
    (hs \<or> (\<exists>(_, fs) \<in> set src. \<exists>fd. gget dst fs = Some fd \<and> fd \<noteq> fs)) \<and>
    (hd' \<or> (\<exists>(_, fs) \<in> set src. gget dst fs = None))"
proof (induction src dst hs hd' rule: cmp_loop1.induct)
  case (2 uu fs src dst hs hd')
  show ?case
  proof (cases "gget dst fs")
    case None
    then show ?thesis using 2 by (auto split: if_splits)
  next
    case (Some fd)
    then show ?thesis using 2 by (auto split: if_splits)
  qed
qed auto

lemma cmp_loop1_ret: "cmp_loop1 src dst hs hd' = (True, hs', hd'') \<Longrightarrow> hs' \<and> hd''"
  by (induction src dst hs hd' rule: cmp_loop1.induct)
     (auto simp: Let_def split: option.splits if_splits)

lemma cmp_loop2_spec:
  "cmp_loop2 dst src hs \<longleftrightarrow> hs \<or> (\<exists>(_, fd) \<in> set dst. gget src fd = None)"
  by (induction dst src hs rule: cmp_loop2.induct) (auto simp: Let_def)

section \<open>Integers\<close>

definition digit_char :: "nat \<Rightarrow> char" where
  "digit_char d = char_of (48 + d)"

definition char_digit :: "char \<Rightarrow> nat option" where
  "char_digit c =
     (let n = of_char c in if 48 \<le> n \<and> n \<le> (57::nat) then Some (n - 48) else None)"

function nat_digits :: "nat \<Rightarrow> string" where
  "nat_digits n = (if n < 10 then [digit_char n] else nat_digits (n div 10) @ [digit_char (n mod 10)])"
  by pat_completeness auto
termination
  by (relation "measure id") auto

declare nat_digits.simps [simp del]

definition Itoa :: "int \<Rightarrow> string" where
  "Itoa i = (if i < 0 then CHR ''-'' # nat_digits (nat (- i)) else nat_digits (nat i))"

fun parse_digits :: "nat \<Rightarrow> string \<Rightarrow> nat option" where
  "parse_digits acc [] = Some acc"
| "parse_digits acc (c # s) =
     (case char_digit c of None \<Rightarrow> None | Some d \<Rightarrow> parse_digits (10 * acc + d) s)"

definition parse_sign :: "string \<Rightarrow> bool \<times> string" where
  "parse_sign s =
     (case s of [] \<Rightarrow> (False, [])
      | c # r \<Rightarrow> if c = CHR ''-'' then (True, r) else if c = CHR ''+'' then (False, r)
                else (False, s))"

definition Atoi :: "string \<Rightarrow> int \<times> goerr option" where
  "Atoi s =
     (let (neg, r) = parse_sign s in
      if r = [] then (0, Some (GoError ''invalid syntax''))
      else case parse_digits 0 r of
        None \<Rightarrow> (0, Some (GoError ''invalid syntax''))
      | Some n \<Rightarrow>
          let i = (if neg then - int n else int n) in
          if i < - (2 ^ 63) then (- (2 ^ 63), Some (GoError ''value out of range''))
          else if i > 2 ^ 63 - 1 then (2 ^ 63 - 1, Some (GoError ''value out of range''))
          else (i, None))"

definition GetInt :: "Value \<Rightarrow> string \<Rightarrow> int \<times> goerr option" where
  "GetInt v name = (case gget (Flds v) name of Some data \<Rightarrow> Atoi data | None \<Rightarrow> (0, None))"

definition SetInt :: "Value \<Rightarrow> string \<Rightarrow> int \<Rightarrow> Value" where
  "SetInt v name val = Value_Set v name (Itoa val)"

lemma char_digit_digit_char: "d < 10 \<Longrightarrow> char_digit (digit_char d) = Some d"
  by (simp add: char_digit_def digit_char_def Let_def)

lemma digit_char_not_sign: "d < 10 \<Longrightarrow> digit_char d \<noteq> CHR ''-'' \<and> digit_char d \<noteq> CHR ''+''"
proof
  assume d: "d < 10"
  show "digit_char d \<noteq> CHR ''-''"
  proof
    assume "digit_char d = CHR ''-''"
    then have "char_digit (CHR ''-'') = Some d" using char_digit_digit_char[OF d] by simp
    then show False by (simp add: char_digit_def)
  qed
  show "digit_char d \<noteq> CHR ''+''"
  proof
    assume "digit_char d = CHR ''+''"
    then have "char_digit (CHR ''+'') = Some d" using char_digit_digit_char[OF d] by simp
    then show False by (simp add: char_digit_def)
  qed
qed

lemma parse_digits_append:
  "parse_digits a (s @ t) =
    (case parse_digits a s of None \<Rightarrow> None | Some b \<Rightarrow> parse_digits b t)"
  by (induction a s rule: parse_digits.induct) (auto split: option.split)

lemma parse_nat_digits: "parse_digits 0 (nat_digits n) = Some n"
proof (induction n rule: nat_digits.induct)
  case (1 n)
  show ?case
  proof (cases "n < 10")
    case True
    then show ?thesis
      by (subst nat_digits.simps) (simp add: char_digit_digit_char)
  next
    case False
    then have "parse_digits 0 (nat_digits (n div 10)) = Some (n div 10)" using 1 by simp
    then show ?thesis using False
      by (subst nat_digits.simps) (simp add: parse_digits_append char_digit_digit_char)
  qed
qed

lemma nat_digits_ne: "nat_digits n \<noteq> []"
  by (subst nat_digits.simps) auto

lemma hd_nat_digits: "\<exists>d < 10. hd (nat_digits n) = digit_char d"
proof (induction n rule: nat_digits.induct)
  case (1 n)
  show ?case
  proof (cases "n < 10")
    case True
    then show ?thesis by (subst nat_digits.simps) auto
  next
    case False
    then show ?thesis using 1
      by (subst nat_digits.simps) (auto simp: nat_digits_ne hd_append)
  qed
qed

lemma parse_sign_nat_digits: "parse_sign (nat_digits n) = (False, nat_digits n)"
proof -
  obtain c s where cs: "nat_digits n = c # s" by (cases "nat_digits n") (auto simp: nat_digits_ne)
  moreover obtain d where "d < 10" "c = digit_char d" using hd_nat_digits[of n] cs by auto
  ultimately show ?thesis using digit_char_not_sign by (auto simp: parse_sign_def)
qed

lemma Atoi_Itoa: "- (2 ^ 63) \<le> i \<Longrightarrow> i \<le> 2 ^ 63 - 1 \<Longrightarrow> Atoi (Itoa i) = (i, None)"
  by (simp add: Atoi_def Itoa_def parse_sign_nat_digits nat_digits_ne parse_nat_digits
      parse_sign_def[of "_ # _"])

section \<open>Leaf-lists\<close>

definition GetList :: "Value \<Rightarrow> string \<Rightarrow> string list" where
  "GetList v name =
     (let data = (if strHasSuffix name ''@'' then Value_Get v name else Value_Get v (name @ ''@''))
      in if length data = 0 then [] else strSplit data '','')"

definition SetList :: "Value \<Rightarrow> string \<Rightarrow> string list \<Rightarrow> Value" where
  "SetList v name items =
     (let name' = (if \<not> strHasSuffix name ''@'' then name @ ''@'' else name)
      in if length items \<noteq> 0 then Value_Set v name' (strJoin items '','')
         else Value_Remove v name')"

text \<open>\<open>sort.SearchStrings\<close>: the least index whose element is not below the key.\<close>

definition SearchStrings :: "string list \<Rightarrow> string \<Rightarrow> nat" where
  "SearchStrings xs s = length (takeWhile (\<lambda>x. x < s) xs)"

fun leaflist_loop :: "string list \<Rightarrow> string list \<Rightarrow> bool" where
  "leaflist_loop listA [] = True"
| "leaflist_loop listA (s # listB) =
     (let k = SearchStrings listA s in
      if k = length listA \<or> listA ! k \<noteq> s then False else leaflist_loop listA listB)"

definition leaflistEquals :: "string \<Rightarrow> string \<Rightarrow> bool" where
  "leaflistEquals a b =
     (if length a \<noteq> length b then False
      else
        let listA = strSplit a '',''; listB = strSplit b '','' in
        if length listA \<noteq> length listB then False
        else leaflist_loop (sort listA) listB)"

text \<open>
  \<open>oName[len(oName)-1]\<close> panics on an empty field name (\<open>None\<close>).
\<close>

fun contains_loop :: "fields \<Rightarrow> fields \<Rightarrow> bool option" where
  "contains_loop v [] = Some True"
| "contains_loop v ((oName, oVal) # other) =
     (case gget v oName of
        None \<Rightarrow> Some False
      | Some fVal \<Rightarrow>
          if fVal = oVal then contains_loop v other
          else if oName = [] then None
          else if last oName \<noteq> CHR ''@'' then Some False
          else if \<not> leaflistEquals fVal oVal then Some False
          else contains_loop v other)"

definition ContainsAll :: "Value \<Rightarrow> Value \<Rightarrow> bool option" where
  "ContainsAll v other =
     (if length (Flds v) < length (Flds other) then Some False
      else contains_loop (Flds v) (Flds other))"

definition Value_Equals :: "Value \<Rightarrow> Value \<Rightarrow> bool option" where
  "Value_Equals v other =
     (if length (Flds v) = length (Flds other) then ContainsAll v other else Some False)"

lemma SearchStrings_found:
  "sorted xs \<Longrightarrow>
    (SearchStrings xs s = length xs \<or> xs ! SearchStrings xs s \<noteq> s) \<longleftrightarrow> s \<notin> set xs"
proof (induction xs)
  case (Cons x xs)
  show ?case
  proof (cases "x < s")
    case True
    then show ?thesis using Cons by (auto simp: SearchStrings_def)
  next
    case False
    then show ?thesis using Cons by (auto simp: SearchStrings_def)
  qed
qed (simp add: SearchStrings_def)

lemma leaflist_loop_iff: "sorted xs \<Longrightarrow> leaflist_loop xs ys \<longleftrightarrow> set ys \<subseteq> set xs"
  by (induction ys) (auto simp: Let_def SearchStrings_found)

lemma leaflistEquals_iff:
  "leaflistEquals a b \<longleftrightarrow>
    length a = length b \<and> length (strSplit a '','') = length (strSplit b '','') \<and>
    set (strSplit b '','') \<subseteq> set (strSplit a '','')"
  by (simp add: leaflistEquals_def Let_def leaflist_loop_iff)

lemma contains_loop_True:
  "contains_loop v other = Some True \<longleftrightarrow>
    (\<forall>(n, x) \<in> set other. \<exists>y. gget v n = Some y \<and>
       (y = x \<or> (n \<noteq> [] \<and> last n = CHR ''@'' \<and> leaflistEquals y x)))"
  by (induction v other rule: contains_loop.induct) (auto split: option.split)

lemma strHasSuffix_at: "strHasSuffix s ''@'' \<or> strHasSuffix (s @ ''@'') ''@''"
  by simp

lemma strJoin_ne: "xs \<noteq> [] \<Longrightarrow> xs \<noteq> [[]] \<Longrightarrow> strJoin xs [c] \<noteq> []"
proof (cases xs)
  case (Cons x ys)
  assume "xs \<noteq> [[]]"
  then show ?thesis using Cons by (cases ys) auto
qed simp

lemma GetList_SetList:
  assumes "\<forall>x \<in> set items. CHR '','' \<notin> set x" "items \<noteq> [[]]"
  shows "GetList (SetList v name items) name = items"
proof (cases "items = []")
  case True
  then show ?thesis
    by (simp add: GetList_def SetList_def Value_Get_def Value_Remove_def)
next
  case False
  then have "strSplit (strJoin items '','') '','' = items"
    using assms(1) by (simp add: strSplit_strJoin)
  then show ?thesis
    using False assms strJoin_ne[of items "CHR '',''"]
    by (simp add: GetList_def SetList_def Value_Get_def Value_Set_def Let_def)
qed

section \<open>Differences of an entry\<close>

record EntryDiff =
  OldValue :: Value
  NewValue :: Value
  EntryCreated :: bool
  EntryDeleted :: bool
  CreatedFields :: "string list"
  UpdatedFields :: "string list"
  DeletedFields :: "string list"

definition EntryDiff_IsEmpty :: "EntryDiff option \<Rightarrow> bool" where
  "EntryDiff_IsEmpty d =
     (case d of None \<Rightarrow> True
      | Some d \<Rightarrow> \<not> EntryCreated d \<and> \<not> EntryDeleted d \<and> length (CreatedFields d) = 0
          \<and> length (UpdatedFields d) = 0 \<and> length (DeletedFields d) = 0)"

fun diff_old :: "fields \<Rightarrow> fields \<Rightarrow> EntryDiff \<Rightarrow> EntryDiff" where
  "diff_old [] new d = d"
| "diff_old ((fldName, _) # old) new d =
     (if fldName = ''NULL'' then diff_old old new d
      else if gget new fldName = None then
        diff_old old new (d\<lparr>DeletedFields := DeletedFields d @ [strTrimSuffix fldName ''@'']\<rparr>)
      else diff_old old new d)"

fun diff_new :: "fields \<Rightarrow> fields \<Rightarrow> EntryDiff \<Rightarrow> EntryDiff" where
  "diff_new [] old d = d"
| "diff_new ((nf, nv) # new) old d =
     (if nf = ''NULL'' then diff_new new old d
      else case gget old nf of
        None \<Rightarrow> diff_new new old (d\<lparr>CreatedFields := CreatedFields d @ [strTrimSuffix nf ''@'']\<rparr>)
      | Some ov \<Rightarrow>
          if ov \<noteq> nv then
            diff_new new old (d\<lparr>UpdatedFields := UpdatedFields d @ [strTrimSuffix nf ''@'']\<rparr>)
          else diff_new new old d)"

definition EntryCompare :: "Value \<Rightarrow> Value \<Rightarrow> EntryDiff" where
  "EntryCompare old new =
     (let diff = \<lparr>OldValue = old, NewValue = new, EntryCreated = False, EntryDeleted = False,
                  CreatedFields = [], UpdatedFields = [], DeletedFields = []\<rparr>;
          oldExists = IsPopulated old; newExists = IsPopulated new in
      if \<not> oldExists \<and> newExists then diff\<lparr>EntryCreated := True\<rparr>
      else if oldExists \<and> \<not> newExists then diff\<lparr>EntryDeleted := True\<rparr>
      else if \<not> oldExists \<and> \<not> newExists then diff
      else diff_new (Flds new) (Flds old) (diff_old (Flds old) (Flds new) diff))"

definition EntryFields :: "Value \<Rightarrow> string list" where
  "EntryFields v = map (\<lambda>(f, _). strTrimSuffix f ''@'') (filter (\<lambda>(f, _). f \<noteq> ''NULL'') (Flds v))"

lemma diff_old_eq:
  "diff_old old new d = d\<lparr>DeletedFields := DeletedFields d @
     map (\<lambda>(f, _). strTrimSuffix f ''@'') (filter (\<lambda>(f, _). f \<noteq> ''NULL'' \<and> gget new f = None) old)\<rparr>"
  by (induction old new d rule: diff_old.induct) auto

lemma diff_new_eq:
  "diff_new new old d =
     d\<lparr>CreatedFields := CreatedFields d @
         map (\<lambda>(f, _). strTrimSuffix f ''@'') (filter (\<lambda>(f, _). f \<noteq> ''NULL'' \<and> gget old f = None) new),
       UpdatedFields := UpdatedFields d @
         map (\<lambda>(f, _). strTrimSuffix f ''@'')
           (filter (\<lambda>(f, x). f \<noteq> ''NULL'' \<and> gget old f \<noteq> None \<and> gget old f \<noteq> Some x) new)\<rparr>"
  by (induction new old d rule: diff_new.induct) (auto split: option.split)

end
