(* ===== verification/DB_Stats.thy ===== *)
theory DB_Stats
  imports TLErr "HOL-Library.Word"
begin

text \<open>
  translib/db/db_stats.go: the statistics of a connection and the totals over all
  connections.

  The hit counters of \<open>Stats\<close> (Go \<open>uint\<close>, 64 bits) are a function from the counter's
  name, the accumulated times and the peak times functions from the operation's name,
  so that an assignment to one field is a function update.  Durations are integers.
\<close>

type_synonym u64 = "64 word"

datatype counter =
    Hits | GetEntryHits | GetKeysHits | GetKeysPatternHits | GetMapHits | GetMapAllHits
  | GetEntriesHits | GetTablePatternHits | ExistsKeyPatternHits
  | NewScanCursorHits | DeleteScanCursorHits | GetNextKeysHits
  | GetEntryCacheHits | GetKeysCacheHits | GetKeysPatternCacheHits | GetMapCacheHits
  | GetMapAllCacheHits | GetTablePatternCacheHits | ExistsKeyPatternCacheHits

datatype timed =
    Total | TGetEntry | TGetKeys | TGetKeysPattern | TGetMap | TGetMapAll | TGetNextKeys
  | TGetEntries | TGetTablePattern | TExistsKeyPattern

record Stats =
  ctr :: "counter \<Rightarrow> u64"
  tim :: "timed \<Rightarrow> int"
  peak :: "timed \<Rightarrow> int"
  TxCmdsLen :: u64

definition zeroStats :: Stats where
  "zeroStats = \<lparr>ctr = (\<lambda>_. 0), tim = (\<lambda>_. 0), peak = (\<lambda>_. 0), TxCmdsLen = 0\<rparr>"

record DBStats =
  AllTables :: Stats
  AllMaps :: Stats
  sTables :: "(string, Stats) gomap"
  sMaps :: "(string, Stats) gomap"

definition zeroDBStats :: DBStats where
  "zeroDBStats = \<lparr>AllTables = zeroStats, AllMaps = zeroStats, sTables = [], sMaps = []\<rparr>"

record DBStatsConfig =
  TimeStats :: bool
  TableStats :: bool
  MapStats :: bool

record DBGlobalStats =
  gNew :: u64
  gDelete :: u64
  gPeakOpen :: u64
  gNewTime :: int
  gNewPeak :: int
  gZeroGetHits :: u64
  gDatabases :: "DBStats list"

section \<open>Recording one operation\<close>

text \<open>
  The tail that the read operations share: \<open>stats.X++\<close> for the counters of the call, and
  with \<open>TimeStats\<close> the elapsed time added to the total and to the operation's own time,
  the peaks raised.
\<close>

definition inc :: "counter \<Rightarrow> Stats \<Rightarrow> Stats" where
  "inc c s = s\<lparr>ctr := (ctr s)(c := ctr s c + 1)\<rparr>"

definition add_time :: "timed \<Rightarrow> int \<Rightarrow> Stats \<Rightarrow> Stats" where
  "add_time t dur s =
     s\<lparr>peak := (peak s)(t := (if dur > peak s t then dur else peak s t)),
       tim := (tim s)(t := tim s t + dur)\<rparr>"

definition table_stats :: "DBStatsConfig \<Rightarrow> DBStats \<Rightarrow> string \<Rightarrow> Stats" where
  "table_stats cfg st name =
     (if TableStats cfg then (case gget (sTables st) name of None \<Rightarrow> zeroStats | Some s \<Rightarrow> s)
      else AllTables st)"

definition put_table_stats :: "DBStatsConfig \<Rightarrow> DBStats \<Rightarrow> string \<Rightarrow> Stats \<Rightarrow> DBStats" where
  "put_table_stats cfg st name s =
     (if TableStats cfg then st\<lparr>sTables := gset name s (sTables st)\<rparr> else st\<lparr>AllTables := s\<rparr>)"

definition map_stats :: "DBStatsConfig \<Rightarrow> DBStats \<Rightarrow> string \<Rightarrow> Stats" where
  "map_stats cfg st name =
     (if MapStats cfg then (case gget (sMaps st) name of None \<Rightarrow> zeroStats | Some s \<Rightarrow> s)
      else AllMaps st)"

definition put_map_stats :: "DBStatsConfig \<Rightarrow> DBStats \<Rightarrow> string \<Rightarrow> Stats \<Rightarrow> DBStats" where
  "put_map_stats cfg st name s =
     (if MapStats cfg then st\<lparr>sMaps := gset name s (sMaps st)\<rparr> else st\<lparr>AllMaps := s\<rparr>)"

section \<open>Totals\<close>

text \<open>
  \<open>updateStats\<close> of \<open>Stats\<close>.  For \<open>GetMapPeak\<close> the code compares the map peaks and then
  assigns the connection's \<^emph>\<open>GetKeysPattern\<close> peak.
\<close>

definition Stats_updateStats :: "Stats \<Rightarrow> Stats \<Rightarrow> Stats" where
  "Stats_updateStats stats conn =
     (let s1 =
        (if ctr conn Hits \<noteq> 0 then
           let s = stats\<lparr>ctr := (\<lambda>c. ctr stats c + ctr conn c)\<rparr> in
           if tim conn Total \<noteq> 0 then
             s\<lparr>tim := (\<lambda>t. tim s t + tim conn t),
               peak := (\<lambda>t. if peak conn t > peak s t
                            then (if t = TGetMap then peak conn TGetKeysPattern else peak conn t)
                            else peak s t)\<rparr>
           else s
         else stats)
      in s1\<lparr>TxCmdsLen := TxCmdsLen s1 + TxCmdsLen conn\<rparr>)"

fun merge_stats :: "(string, Stats) gomap \<Rightarrow> (string, Stats) gomap \<Rightarrow> (string, Stats) gomap" where
  "merge_stats [] m = m"
| "merge_stats ((t, s) # conn) m =
     (case gget m t of
        None \<Rightarrow> merge_stats conn (gset t s m)
      | Some stats \<Rightarrow> merge_stats conn (gset t (Stats_updateStats stats s) m))"

definition DBStats_updateStats :: "DBStats \<Rightarrow> DBStats \<Rightarrow> DBStats" where
  "DBStats_updateStats dbstats conn =
     (let d1 = (if ctr (AllTables conn) Hits \<noteq> 0
                then dbstats\<lparr>AllTables := Stats_updateStats (AllTables dbstats) (AllTables conn)\<rparr>
                else dbstats\<lparr>sTables := merge_stats (sTables conn) (sTables dbstats)\<rparr>)
      in (if ctr (AllMaps conn) Hits \<noteq> 0
          then d1\<lparr>AllMaps := Stats_updateStats (AllMaps d1) (AllMaps conn)\<rparr>
          else d1\<lparr>sMaps := merge_stats (sMaps conn) (sMaps d1)\<rparr>))"

definition DBStats_Empty :: "DBStats \<Rightarrow> bool" where
  "DBStats_Empty st \<longleftrightarrow> ctr (AllTables st) Hits = 0 \<and> ctr (AllMaps st) Hits = 0 \<and>
     length (sTables st) = 0 \<and> length (sMaps st) = 0"

text \<open>\<open>dbNo\<close> is the index of the database; the list has one entry per database.\<close>

definition clearStats :: "nat \<Rightarrow> DBGlobalStats" where
  "clearStats maxDB = \<lparr>gNew = 0, gDelete = 0, gPeakOpen = 0, gNewTime = 0, gNewPeak = 0,
     gZeroGetHits = 0, gDatabases = replicate maxDB zeroDBStats\<rparr>"

definition Global_updateStats ::
  "nat \<Rightarrow> bool \<Rightarrow> int \<Rightarrow> DBStats \<Rightarrow> DBGlobalStats \<Rightarrow> DBGlobalStats" where
  "Global_updateStats dbNo isNew dur conn stats =
     (if isNew then
        let s1 = stats\<lparr>gNewTime := gNewTime stats + dur\<rparr>;
            s2 = (if dur > gNewPeak s1 then s1\<lparr>gNewPeak := dur\<rparr> else s1);
            s3 = s2\<lparr>gNew := gNew s2 + 1\<rparr>
        in if gNew s3 - gDelete s3 > gPeakOpen s3 then s3\<lparr>gPeakOpen := gPeakOpen s3 + 1\<rparr> else s3
      else
        let s1 = stats\<lparr>gDelete := gDelete stats + 1\<rparr> in
        if ctr (AllTables conn) Hits = 0 \<and> ctr (AllMaps conn) Hits = 0 \<and>
           length (sTables conn) = 0 \<and> length (sMaps conn) = 0
        then s1\<lparr>gZeroGetHits := gZeroGetHits s1 + 1\<rparr>
        else s1\<lparr>gDatabases := (gDatabases s1)[dbNo := DBStats_updateStats (gDatabases s1 ! dbNo) conn]\<rparr>)"

text \<open>\<open>getStatsTotals\<close>: hits, total time and peak over one list of named statistics.\<close>

fun sum_named :: "(string, Stats) gomap \<Rightarrow> u64 \<times> int \<times> int \<Rightarrow> u64 \<times> int \<times> int" where
  "sum_named [] acc = acc"
| "sum_named ((_, s) # m) (hits, timetotal, pk) =
     sum_named m (hits + ctr s Hits, timetotal + tim s Total,
                  if pk < peak s Total then peak s Total else pk)"

definition add_all_or_named ::
  "Stats \<Rightarrow> (string, Stats) gomap \<Rightarrow> u64 \<times> int \<times> int \<Rightarrow> u64 \<times> int \<times> int" where
  "add_all_or_named all named acc =
     (if ctr all Hits \<noteq> 0 then
        (case acc of (hits, timetotal, pk) \<Rightarrow>
          (hits + ctr all Hits, timetotal + tim all Total,
           if pk < peak all Total then peak all Total else pk))
      else sum_named named acc)"

fun sum_databases :: "DBStats list \<Rightarrow> u64 \<times> int \<times> int \<Rightarrow> u64 \<times> int \<times> int" where
  "sum_databases [] acc = acc"
| "sum_databases (d # ds) acc =
     sum_databases ds
       (add_all_or_named (AllMaps d) (sMaps d) (add_all_or_named (AllTables d) (sTables d) acc))"

definition getStatsTotals :: "DBGlobalStats \<Rightarrow> u64 \<times> int \<times> int" where
  "getStatsTotals stats = sum_databases (gDatabases stats) (0, 0, 0)"

section \<open>Lemmas\<close>

lemma ctr_inc [simp]: "ctr (inc c s) d = (if d = c then ctr s d + 1 else ctr s d)"
  by (simp add: inc_def)

lemma inc_other [simp]: "tim (inc c s) = tim s" "peak (inc c s) = peak s"
  "TxCmdsLen (inc c s) = TxCmdsLen s"
  by (simp_all add: inc_def)

lemma add_time_other [simp]: "ctr (add_time t d s) = ctr s"
  "TxCmdsLen (add_time t d s) = TxCmdsLen s"
  by (simp_all add: add_time_def)

lemma peak_add_time_ge: "peak s u \<le> peak (add_time t d s) u"
  by (simp add: add_time_def)

lemma peak_add_time_dur: "d \<le> peak (add_time t d s) t"
  by (simp add: add_time_def)

lemma Stats_updateStats_ctr:
  "ctr conn Hits \<noteq> 0 \<Longrightarrow> ctr (Stats_updateStats stats conn) c = ctr stats c + ctr conn c"
  by (simp add: Stats_updateStats_def Let_def)

text \<open>Every peak but that of \<open>GetMap\<close> becomes the maximum of the two.\<close>

lemma Stats_updateStats_peak:
  "ctr conn Hits \<noteq> 0 \<Longrightarrow> tim conn Total \<noteq> 0 \<Longrightarrow> t \<noteq> TGetMap \<Longrightarrow>
    peak (Stats_updateStats stats conn) t = max (peak stats t) (peak conn t)"
  by (simp add: Stats_updateStats_def Let_def max_def)

lemma named_hits_fold:
  "fst (sum_named m (h, t, p)) = h + fst (sum_named m (0, 0, 0))"
proof (induction m arbitrary: h t p)
  case (Cons a m)
  obtain n s where a: "a = (n, s)" by (cases a)
  have "fst (sum_named (a # m) (h, t, p)) = h + ctr s Hits + fst (sum_named m (0, 0, 0))"
    using Cons[of "h + ctr s Hits"] by (simp add: a)
  moreover have "fst (sum_named (a # m) (0, 0, 0)) = ctr s Hits + fst (sum_named m (0, 0, 0))"
    using Cons[of "0 + ctr s Hits"] by (simp add: a)
  ultimately show ?case by (simp add: add.assoc)
qed simp

definition named_hits :: "(string, Stats) gomap \<Rightarrow> u64" where
  "named_hits m = fst (sum_named m (0, 0, 0))"

lemma named_hits_Nil [simp]: "named_hits [] = 0"
  by (simp add: named_hits_def)

lemma named_hits_Cons [simp]: "named_hits ((n, s) # m) = ctr s Hits + named_hits m"
  using named_hits_fold[of m "ctr s Hits"] by (simp add: named_hits_def)

lemma named_hits_gset_new: "gget m n = None \<Longrightarrow> named_hits (gset n s m) = ctr s Hits + named_hits m"
  by (induction m) (auto simp: gset_def add.left_commute split: if_splits)

lemma named_hits_gset_upd:
  "gget m n = Some o1 \<Longrightarrow> named_hits (gset n s m) + ctr o1 Hits = ctr s Hits + named_hits m"
  by (induction m) (auto simp: gset_def add.left_commute add.assoc add.commute split: if_splits)

lemma Stats_updateStats_hits:
  "ctr (Stats_updateStats stats conn) Hits = ctr stats Hits + ctr conn Hits"
  by (simp add: Stats_updateStats_def Let_def)

lemma merge_stats_hits: "named_hits (merge_stats conn m) = named_hits m + named_hits conn"
proof (induction conn m rule: merge_stats.induct)
  case (2 t s conn m)
  show ?case
  proof (cases "gget m t")
    case None
    then show ?thesis using 2(1) by (simp add: named_hits_gset_new algebra_simps)
  next
    case (Some o1)
    have "named_hits (gset t (Stats_updateStats o1 s) m) = ctr s Hits + named_hits m"
      using named_hits_gset_upd[OF Some, of "Stats_updateStats o1 s"]
      by (simp add: Stats_updateStats_hits algebra_simps)
    then show ?thesis using 2(2)[OF Some] Some by (simp add: algebra_simps)
  qed
qed simp

text \<open>With statistics per database, the hits of all databases are the sum of their counters.\<close>

definition db_hits :: "DBStats \<Rightarrow> u64" where
  "db_hits d = ctr (AllTables d) Hits + ctr (AllMaps d) Hits"

lemma add_all_hits: "fst (add_all_or_named all [] acc) = fst acc + ctr all Hits"
  by (cases acc) (simp add: add_all_or_named_def)

lemma sum_databases_hits:
  "\<forall>d \<in> set ds. sTables d = [] \<and> sMaps d = [] \<Longrightarrow>
    fst (sum_databases ds acc) = fst acc + (\<Sum>d\<leftarrow>ds. db_hits d)"
  by (induction ds arbitrary: acc) (simp_all add: add_all_hits db_hits_def)

lemma sum_list_update_word:
  fixes f :: "'a \<Rightarrow> 'b :: comm_ring"
  shows "i < length xs \<Longrightarrow> (\<Sum>x\<leftarrow>xs[i := y]. f x) = (\<Sum>x\<leftarrow>xs. f x) - f (xs ! i) + f y"
proof (induction xs arbitrary: i)
  case (Cons a xs)
  then show ?case by (cases i) (simp_all add: algebra_simps)
qed simp

lemma DBStats_update_hits:
  assumes "sTables conn = []" "sMaps conn = []"
  shows "db_hits (DBStats_updateStats d conn) = db_hits d + db_hits conn"
    "sTables (DBStats_updateStats d conn) = sTables d" "sMaps (DBStats_updateStats d conn) = sMaps d"
  using assms by (auto simp: db_hits_def DBStats_updateStats_def Let_def Stats_updateStats_hits algebra_simps)

lemma stats_totals_hits:
  assumes "i < length (gDatabases g)" "\<forall>d \<in> set (gDatabases g). sTables d = [] \<and> sMaps d = []"
    and "sTables conn = []" "sMaps conn = []"
  shows "fst (getStatsTotals (Global_updateStats i False dur conn g)) =
     fst (getStatsTotals g) + ctr (AllTables conn) Hits + ctr (AllMaps conn) Hits"
proof -
  let ?ds = "gDatabases g" and ?new = "DBStats_updateStats (gDatabases g ! i) conn"
  have n: "sTables ?new = [] \<and> sMaps ?new = []"
    using assms(1,2) DBStats_update_hits(2,3)[OF assms(3,4)] by simp
  have all: "\<forall>d \<in> set (?ds[i := ?new]). sTables d = [] \<and> sMaps d = []"
    using assms(2) n set_update_subset_insert[of ?ds i ?new] by blast
  have "fst (sum_databases (?ds[i := ?new]) (0, 0, 0)) = (\<Sum>d\<leftarrow>?ds. db_hits d) + db_hits conn"
    by (simp add: sum_databases_hits[OF all] sum_list_update_word[OF assms(1)]
        DBStats_update_hits(1)[OF assms(3,4)])
  moreover have "fst (sum_databases ?ds (0, 0, 0)) = (\<Sum>d\<leftarrow>?ds. db_hits d)"
    by (simp add: sum_databases_hits[OF assms(2)])
  ultimately show ?thesis
    by (auto simp: Global_updateStats_def getStatsTotals_def Let_def db_hits_def add.assoc assms(3,4))
qed

end
