(* ===== verification/DB_Types.thy ===== *)
theory DB_Types
  imports Key_Pattern DB_Value DB_Stats
begin

text \<open>
  The types of package db (translib/db/db.go, db_table.go, db_map.go, db_cache.go,
  db_savepoint.go, db_lock.go, subscribe.go, db_subscribe_sa.go), the state that its
  operations read and write, and the interface to the code outside of the package.

  A method with receiver \<open>d *DB\<close> becomes a function on the state \<open>st\<close>, whose field \<open>db\<close>
  is the object \<open>d\<close> points to; the package's variables (\<open>savePoint\<close>, \<open>cdbLock\<close>,
  \<open>sInfo\<close>, \<open>dbGlobalStats\<close>) are the other fields.  A client pointer is a handle, nil is
  \<open>None\<close>; the receiver itself is not nil, and a test for a nil receiver is in the code
  always joined with the test for a nil client, which the model has.

  The redis server, the clock and the CVL library are not modelled here: the operations
  on them are the fields of \<open>ext\<close>, functions of an arbitrary state \<open>'w\<close> of the world.
\<close>

section \<open>Databases, options, tables\<close>

datatype DBNum =
    ApplDB | AsicDB | CountersDB | LogLevelDB | ConfigDB | FlexCounterDB | StateDB | SnmpDB
  | ErrorDB | EventDB | MaxDB

fun DBNum_index :: "DBNum \<Rightarrow> nat" where
  "DBNum_index ApplDB = 0"
| "DBNum_index AsicDB = 1"
| "DBNum_index CountersDB = 2"
| "DBNum_index LogLevelDB = 3"
| "DBNum_index ConfigDB = 4"
| "DBNum_index FlexCounterDB = 5"
| "DBNum_index StateDB = 6"
| "DBNum_index SnmpDB = 7"
| "DBNum_index ErrorDB = 8"
| "DBNum_index EventDB = 9"
| "DBNum_index MaxDB = 10"

fun getDBInstName :: "DBNum \<Rightarrow> string" where
  "getDBInstName ApplDB = ''APPL_DB''"
| "getDBInstName AsicDB = ''ASIC_DB''"
| "getDBInstName CountersDB = ''COUNTERS_DB''"
| "getDBInstName LogLevelDB = ''LOGLEVEL_DB''"
| "getDBInstName ConfigDB = ''CONFIG_DB''"
| "getDBInstName FlexCounterDB = ''FLEX_COUNTER_DB''"
| "getDBInstName StateDB = ''STATE_DB''"
| "getDBInstName SnmpDB = ''SNMP_OVERLAY_DB''"
| "getDBInstName ErrorDB = ''ERROR_DB''"
| "getDBInstName EventDB = ''EVENT_DB''"
| "getDBInstName MaxDB = ''''"

definition GetdbNameToIndex :: "string \<Rightarrow> DBNum" where
  "GetdbNameToIndex dbName =
     (if dbName = ''APPL_DB'' then ApplDB
      else if dbName = ''ASIC_DB'' then AsicDB
      else if dbName = ''COUNTERS_DB'' then CountersDB
      else if dbName = ''LOGLEVEL_DB'' then LogLevelDB
      else if dbName = ''CONFIG_DB'' then ConfigDB
      else if dbName = ''FLEX_COUNTER_DB'' then FlexCounterDB
      else if dbName = ''STATE_DB'' then StateDB
      else if dbName = ''ERROR_DB'' then ErrorDB
      else if dbName = ''EVENT_DB'' then EventDB
      else ConfigDB)"

record Options =
  DBNo :: DBNum
  InitIndicator :: string
  TableNameSeparator :: string
  KeySeparator :: string
  IsWriteDisabled :: bool
  IsCacheEnabled :: bool
  ForceNewRedisConnection :: bool
  IsOnChangeEnabled :: bool
  IsSubscribeDB :: bool
  IsSession :: bool
  ConfigDBLazyLock :: bool
  TxCmdsLim :: int
  IsReplaced :: bool
  IsCommitted :: bool
  DisableCVLCheck :: bool

definition zeroOptions :: Options where
  "zeroOptions = \<lparr>DBNo = ApplDB, InitIndicator = [], TableNameSeparator = [], KeySeparator = [],
     IsWriteDisabled = False, IsCacheEnabled = False, ForceNewRedisConnection = False,
     IsOnChangeEnabled = False, IsSubscribeDB = False, IsSession = False,
     ConfigDBLazyLock = False, TxCmdsLim = 0, IsReplaced = False, IsCommitted = False,
     DisableCVLCheck = False\<rparr>"

record TableSpec =
  tsName :: string
  CompCt :: int
  NoDelete :: bool

abbreviation tspec :: "string \<Rightarrow> TableSpec" where
  "tspec n \<equiv> \<lparr>tsName = n, CompCt = 0, NoDelete = False\<rparr>"

datatype txState = txStateNone | txStateWatch | txStateSet | txStateMultiExec

datatype txOp = txOpNone | txOpHMSet | txOpHDel | txOpDel

record txCmd =
  tc_ts :: TableSpec
  tc_op :: txOp
  tc_key :: Key
  tc_value :: Value

datatype CVLOperation = OP_NONE | OP_CREATE | OP_UPDATE | OP_DELETE

datatype CVLValidateType = VALIDATE_NONE | VALIDATE_SYNTAX | VALIDATE_SEMANTICS | VALIDATE_ALL

record CVLEditConfigData =
  VType :: CVLValidateType
  VOp :: CVLOperation
  ceKey :: string
  ceData :: fields

record Table =
  tb_ts :: TableSpec
  tb_entry :: "(string, Value) gomap"
  tb_complete :: bool
  tb_patterns :: "(string, Key list) gomap"

record MAP =
  mp_ts :: TableSpec
  mapMap :: fields
  mp_complete :: bool

record dbCache =
  cTables :: "(string, Table) gomap"
  cMaps :: "(string, MAP) gomap"

record DBCacheConfig =
  PerConnection :: bool
  GlobalCache :: bool
  CacheTables :: "(string, bool) gomap"
  NoCacheTables :: "(string, bool) gomap"
  CacheMaps :: "(string, bool) gomap"
  NoCacheMaps :: "(string, bool) gomap"

type_synonym txCache = "(string, (string, Value) gomap) gomap"

text \<open>A hint value is \<open>None\<close> when it is nil.\<close>

type_synonym hints = "(string, string option) gomap"

record DB =
  db_client :: "nat option"
  Opts :: Options
  tx_state :: txState
  txCmds :: "txCmd list"
  txTsEntryMap :: txCache
  txTsEntryHGetAll :: txCache
  db_cv :: "nat option"
  cvlHintsB4Open :: hints
  cvlEditConfigData :: "CVLEditConfigData list"
  db_err :: "goerr option"
  sCIP :: bool
  dbStatsConfig :: DBStatsConfig
  dbCacheConfig :: DBCacheConfig
  db_stats :: DBStats
  db_cache :: dbCache
  onCReg :: "(string, bool) gomap"
  configDBLocked :: bool

section \<open>Package variables\<close>

record LockStruct =
  lkName :: string
  lkId :: string
  lkComm :: string
  lkLocked :: bool

record origEntry =
  oe_value :: Value
  oe_absent :: bool

record SavePoint =
  txCmdsLen :: nat
  cECDLen :: nat
  txTsOrigEntryMap :: "(string, (string, origEntry) gomap) gomap"
  cHints :: "(nat, hints) gomap"

datatype SEvent =
  SEventNone | SEventHSet | SEventHDel | SEventDel | SEventOther | SEventClose | SEventErr

datatype SessNotif =
  RunningConfigNotif | CandidateConfigNotif | CandidateConfigOpened | CandidateConfigClosed

record SKey =
  sk_Ts :: TableSpec
  sk_Key :: Key
  SEMap :: "(SEvent, bool) gomap"

text \<open>
  A registered subscription; \<open>isSA\<close> says that its handler is session aware.  The two
  lists of \<open>subscriberInfo\<close> hold pointers to the same objects: here object numbers, with
  the objects in \<open>sdb_objs\<close>.
\<close>

record subscribeDB =
  sd_d :: nat
  sd_isSA :: bool
  skeys :: "SKey list"
  openSent :: bool

record subscriberInfo =
  sDBs :: "nat list"
  table2sDBs :: "(string, nat list) gomap"
  sdb_objs :: "(nat, subscribeDB) gomap"

text \<open>One call of a session-aware handler, with the write permission it sees.\<close>

record notif =
  nt_sdb :: nat
  nt_kind :: SessNotif
  nt_skey :: "SKey option"
  nt_key :: "Key option"
  nt_event :: SEvent
  nt_writeDisabled :: bool

record 'w st =
  world :: 'w
  cdbLock :: "LockStruct option"
  savePoint :: "SavePoint option"
  sInfo :: subscriberInfo
  notifs :: "notif list"
  dbGlobalStats :: DBGlobalStats
  db :: DB

section \<open>What the package calls\<close>

text \<open>
  An argument of WATCH is a name, or a \<open>Key\<close> passed as it is.
\<close>

datatype watch_arg = WName string | WKey Key

datatype rcmd =
    cMULTI | cEXEC | cUNWATCH
  | cWATCH "watch_arg list"
  | cSET string string
  | cHMSET string fields
  | cHDEL string "string list"
  | cDEL string
  | cHSET string string string
  | cHSETNX string string string
  | cPUBLISH string string

datatype reply = RInt int | RStr string | RNil | ROther

text \<open>
  \<open>x_do\<close> sends one command over a client; the read functions do not change the world.
  \<open>x_cvl_open\<close> gives a status code or a session; validation sees the database object,
  because CVL reads the pending transaction through it; its session may be nil.  \<open>x_dur\<close> is the time that the
  clock reports for the call being timed, \<open>x_execName\<close> the base name of the executable.
\<close>

record 'w ext =
  x_do :: "'w \<Rightarrow> nat \<Rightarrow> rcmd \<Rightarrow> 'w \<times> (goerr + reply)"
  x_hgetall :: "'w \<Rightarrow> nat \<Rightarrow> string \<Rightarrow> goerr + fields"
  x_keys :: "'w \<Rightarrow> nat \<Rightarrow> string \<Rightarrow> goerr + string list"
  x_hget :: "'w \<Rightarrow> nat \<Rightarrow> string \<Rightarrow> string \<Rightarrow> goerr + string"
  x_get :: "'w \<Rightarrow> nat \<Rightarrow> string \<Rightarrow> goerr + string"
  x_client :: "'w \<Rightarrow> DBNum \<Rightarrow> bool \<Rightarrow> 'w \<times> nat option"
  x_close :: "'w \<Rightarrow> nat \<Rightarrow> 'w \<times> goerr option"
  x_cvl_open :: "'w \<Rightarrow> DB \<Rightarrow> 'w \<times> (int + nat)"
  x_cvl_close :: "'w \<Rightarrow> nat \<Rightarrow> 'w \<times> int"
  x_cvl_validate :: "'w \<Rightarrow> DB \<Rightarrow> nat option \<Rightarrow> CVLEditConfigData list \<Rightarrow> 'w \<times> int \<times> string"
  x_execName :: string
  x_dur :: "'w \<Rightarrow> int"
  x_unixnano :: "'w \<Rightarrow> string"

text \<open>The error with which the client reports a missing key or field.\<close>

definition redis_Nil :: goerr where
  "redis_Nil = RedisError ''redis: nil''"

definition CVL_SUCCESS :: int where
  "CVL_SUCCESS = 0"

section \<open>Access to the database object\<close>

definition upd_db :: "(DB \<Rightarrow> DB) \<Rightarrow> ('w, 'z) st_scheme \<Rightarrow> ('w, 'z) st_scheme" where
  "upd_db f s = s\<lparr>db := f (db s)\<rparr>"

lemma upd_db_simps [simp]:
  "db (upd_db f s) = f (db s)" "world (upd_db f s) = world s"
  "cdbLock (upd_db f s) = cdbLock s" "savePoint (upd_db f s) = savePoint s"
  "sInfo (upd_db f s) = sInfo s" "notifs (upd_db f s) = notifs s"
  "dbGlobalStats (upd_db f s) = dbGlobalStats s"
  by (simp_all add: upd_db_def)

text \<open>The two-level transaction cache.\<close>

definition tx_get :: "txCache \<Rightarrow> string \<Rightarrow> string \<Rightarrow> Value option" where
  "tx_get m t k = (case gget m t of None \<Rightarrow> None | Some tbl \<Rightarrow> gget tbl k)"

definition tx_table :: "txCache \<Rightarrow> string \<Rightarrow> (string, Value) gomap" where
  "tx_table m t = (case gget m t of None \<Rightarrow> [] | Some tbl \<Rightarrow> tbl)"

definition tx_put :: "string \<Rightarrow> string \<Rightarrow> Value \<Rightarrow> txCache \<Rightarrow> txCache" where
  "tx_put t k v m = gset t (gset k v (tx_table m t)) m"

lemma tx_get_table: "tx_get m t k = gget (tx_table m t) k"
  by (simp add: tx_get_def tx_table_def split: option.split)

lemma tx_table_put [simp]:
  "tx_table (tx_put t k v m) t' = (if t' = t then gset k v (tx_table m t) else tx_table m t')"
  by (simp add: tx_put_def tx_table_def)

lemma tx_get_put [simp]:
  "tx_get (tx_put t k v m) t' k' = (if t' = t \<and> k' = k then Some v else tx_get m t' k')"
  by (simp add: tx_get_table)

section \<open>Names of redis keys\<close>

definition key2redis :: "Options \<Rightarrow> TableSpec \<Rightarrow> Key \<Rightarrow> string" where
  "key2redis opts ts key =
     (let rv = tsName ts; flds = strJoin (Comp key) (KeySeparator opts) in
      if flds \<noteq> [] then rv @ KeySeparator opts @ flds else rv)"

text \<open>Without a separator in the redis key, \<open>splitTable[1]\<close> is out of range: \<open>None\<close>.\<close>

definition redis2key :: "Options \<Rightarrow> TableSpec \<Rightarrow> string \<Rightarrow> Key option" where
  "redis2key opts ts redisKey =
     (let splitTable = strSplitN redisKey (TableNameSeparator opts) 2 in
      if length splitTable < 2 then None
      else if CompCt ts > 0 then
        Some \<lparr>Comp = strSplitN (splitTable ! 1) (KeySeparator opts) (nat (CompCt ts))\<rparr>
      else Some \<lparr>Comp = strSplit (splitTable ! 1) (KeySeparator opts)\<rparr>)"

definition redis2ts_key :: "Options \<Rightarrow> string \<Rightarrow> (TableSpec \<times> Key) option" where
  "redis2ts_key opts redisKey =
     (let splitTable = strSplitN redisKey (TableNameSeparator opts) 2 in
      if length splitTable < 2 then None
      else Some (tspec (splitTable ! 0), \<lparr>Comp = strSplit (splitTable ! 1) (KeySeparator opts)\<rparr>))"

definition ts2redisUpdated :: "TableSpec \<Rightarrow> string" where
  "ts2redisUpdated ts =
     (if strContains (tsName ts) ''*'' then ''CONFIG_DB_UPDATED''
      else ''CONFIG_DB_UPDATED_'' @ tsName ts)"

text \<open>
  The keys that survive the way to redis and back: both separators are the same single
  character, the table name does not hold it, the key has a component, and of the
  components at most the last one holds it, which needs \<open>CompCt\<close>.
\<close>

definition wf_key :: "Options \<times> TableSpec \<Rightarrow> Key \<Rightarrow> bool" where
  "wf_key ot k \<longleftrightarrow>
     (case (ot, KeySeparator (fst ot)) of
        ((opts, ts), [c]) \<Rightarrow>
          TableNameSeparator opts = [c] \<and> c \<notin> set (tsName ts) \<and>
          Comp k \<noteq> [] \<and> Comp k \<noteq> [[]] \<and>
          (if CompCt ts > 0
           then length (Comp k) = nat (CompCt ts) \<and> (\<forall>x \<in> set (butlast (Comp k)). c \<notin> set x)
           else \<forall>x \<in> set (Comp k). c \<notin> set x)
      | _ \<Rightarrow> False)"

locale key_codec =
  fixes enc :: "'c \<Rightarrow> 'k \<Rightarrow> string"
    and dec :: "'c \<Rightarrow> string \<Rightarrow> 'k option"
    and wf :: "'c \<Rightarrow> 'k \<Rightarrow> bool"
  assumes dec_enc: "wf c k \<Longrightarrow> dec c (enc c k) = Some k"
begin

lemma enc_inj: "wf c k \<Longrightarrow> wf c k' \<Longrightarrow> enc c k = enc c k' \<Longrightarrow> k = k'"
  by (metis dec_enc option.inject)

lemma enc_inj_on: "inj_on (enc c) {k. wf c k}"
  by (rule inj_onI) (auto intro: enc_inj)

lemma dec_all: "\<forall>k \<in> set ks. wf c k \<Longrightarrow> those (map (dec c) (map (enc c) ks)) = Some ks"
  by (induction ks) (auto simp: dec_enc)

end

lemma wf_key_E:
  assumes "wf_key (opts, ts) k"
  obtains c where "KeySeparator opts = [c]" "TableNameSeparator opts = [c]" "c \<notin> set (tsName ts)"
    "Comp k \<noteq> []" "Comp k \<noteq> [[]]"
    "CompCt ts > 0 \<Longrightarrow> length (Comp k) = nat (CompCt ts) \<and> (\<forall>x \<in> set (butlast (Comp k)). c \<notin> set x)"
    "\<not> CompCt ts > 0 \<Longrightarrow> \<forall>x \<in> set (Comp k). c \<notin> set x"
  using assms by (auto simp: wf_key_def split: list.splits if_splits)

lemma key2redis_wf:
  assumes "KeySeparator opts = [c]" "Comp k \<noteq> []" "Comp k \<noteq> [[]]"
  shows "key2redis opts ts k = tsName ts @ c # strJoin (Comp k) [c]"
  using assms strJoin_ne[of "Comp k" c] by (simp add: key2redis_def)

lemma redis2key_key2redis:
  assumes "wf_key (opts, ts) k"
  shows "redis2key opts ts (key2redis opts ts k) = Some k"
  using assms
proof (rule wf_key_E)
  fix c
  assume sep: "KeySeparator opts = [c]" "TableNameSeparator opts = [c]" "c \<notin> set (tsName ts)"
    and ne: "Comp k \<noteq> []" "Comp k \<noteq> [[]]"
    and cc: "CompCt ts > 0 \<Longrightarrow>
      length (Comp k) = nat (CompCt ts) \<and> (\<forall>x \<in> set (butlast (Comp k)). c \<notin> set x)"
    and nc: "\<not> CompCt ts > 0 \<Longrightarrow> \<forall>x \<in> set (Comp k). c \<notin> set x"
  have kr: "key2redis opts ts k = tsName ts @ c # strJoin (Comp k) [c]"
    by (rule key2redis_wf[OF sep(1) ne])
  show ?thesis
  proof (cases "CompCt ts > 0")
    case True
    have "strSplitN (strJoin (butlast (Comp k) @ [last (Comp k)]) [c]) [c]
            (Suc (length (butlast (Comp k)))) = butlast (Comp k) @ [last (Comp k)]"
      using cc[OF True] by (intro strSplitN_strJoin) blast
    then have "strSplitN (strJoin (Comp k) [c]) [c] (nat (CompCt ts)) = Comp k"
      using cc[OF True] ne(1) True by (simp add: Suc_diff_Suc)
    then show ?thesis using True sep
      by (simp add: redis2key_def kr strSplitN_2)
  next
    case False
    then show ?thesis using sep nc[OF False] ne
      by (simp add: redis2key_def kr strSplitN_2 strSplit_strJoin)
  qed
qed

interpretation kc: key_codec "\<lambda>(opts, ts). key2redis opts ts" "\<lambda>(opts, ts). redis2key opts ts" wf_key
  by unfold_locales (auto simp: redis2key_key2redis)

lemma redis2ts_key_key2redis:
  assumes "wf_key (opts, ts) k" "\<not> CompCt ts > 0"
  shows "redis2ts_key opts (key2redis opts ts k) = Some (tspec (tsName ts), k)"
  using assms(1)
proof (rule wf_key_E)
  fix c
  assume sep: "KeySeparator opts = [c]" "TableNameSeparator opts = [c]" "c \<notin> set (tsName ts)"
    and ne: "Comp k \<noteq> []" "Comp k \<noteq> [[]]"
    and nc: "\<not> CompCt ts > 0 \<Longrightarrow> \<forall>x \<in> set (Comp k). c \<notin> set x"
  show ?thesis
    using sep ne nc[OF assms(2)]
    by (simp add: redis2ts_key_def key2redis_wf[OF sep(1) ne] strSplitN_2 strSplit_strJoin)
qed

text \<open>Keys of different tables have different redis names.\<close>

lemma key2redis_table_inj:
  assumes "wf_key (opts, ts) k" "wf_key (opts, ts') k'"
    and "key2redis opts ts k = key2redis opts ts' k'"
  shows "tsName ts = tsName ts'"
  using assms(1)
proof (rule wf_key_E)
  fix c
  assume a: "KeySeparator opts = [c]" "c \<notin> set (tsName ts)" "Comp k \<noteq> []" "Comp k \<noteq> [[]]"
  show ?thesis
    using assms(2)
  proof (rule wf_key_E)
    fix c'
    assume b: "KeySeparator opts = [c']" "c' \<notin> set (tsName ts')" "Comp k' \<noteq> []" "Comp k' \<noteq> [[]]"
    have "cut [c] (key2redis opts ts k) = cut [c] (key2redis opts ts' k')"
      using assms(3) by simp
    then show ?thesis
      using a b by (simp add: key2redis_wf cut_char_append)
  qed
qed

end
