(* ===== verification/DB_Lock.thy ===== *)
theory DB_Lock
  imports DB_Types
begin

text \<open>
  translib/db/db_lock.go: the lock of the configuration database, one field of a hash in
  STATE_DB that holds \<open>executable:token\<close>.

  The operations act on the world and on the package variable \<open>cdbLock\<close>.  The unlock
  script runs atomically in the redis server; it is modelled by the calls it makes.
  The pauses between two attempts are not modelled, the attempts are.

  The lemmas are about any number of processes that share one server and follow the
  protocol; what they need of the server is \<open>lock_server\<close>.
\<close>

definition configDBLock :: string where "configDBLock = ''config_db_lock''"
definition lockTableKey :: string where "lockTableKey = ''LOCK|translib''"
definition noSessionToken :: string where "noSessionToken = ''0-0''"
definition tryLockAttempt :: nat where "tryLockAttempt = 4"

section \<open>The operations\<close>

definition getStateDB :: "('w, 'z) ext_scheme \<Rightarrow> 'w \<Rightarrow> 'w \<times> (goerr + nat)" where
  "getStateDB x w =
     (case x_client x w StateDB True of
        (w', None) \<Rightarrow> (w', Inl TranslibDBCannotOpen)
      | (w', Some c) \<Rightarrow> (w', Inr c))"

definition dbLockedError :: "('w, 'z) ext_scheme \<Rightarrow> LockStruct \<Rightarrow> 'w \<Rightarrow> nat option \<Rightarrow> goerr" where
  "dbLockedError x lt w c =
     (let lockId =
        (if lkLocked lt then lkId lt
         else case c of
           None \<Rightarrow> []
         | Some c' \<Rightarrow>
             (case x_hget x w c' lockTableKey (lkName lt) of
                Inl _ \<Rightarrow> []
              | Inr v \<Rightarrow> let parts = strSplitN v '':'' 2 in
                          if length parts \<noteq> 2 then [] else parts ! 1))
      in TranslibDBLock (if length lockId \<noteq> 0 \<and> lockId \<noteq> noSessionToken
                         then DBLockConfigSession else DBLockGeneric))"

definition tryLock ::
  "('w, 'z) ext_scheme \<Rightarrow> LockStruct \<Rightarrow> 'w \<Rightarrow> goerr option \<times> LockStruct \<times> 'w" where
  "tryLock x lt w =
     (if lkLocked lt then (Some (TranslibDBNotSupported []), lt, w)
      else case getStateDB x w of
        (w1, Inl e) \<Rightarrow> (Some e, lt, w1)
      | (w1, Inr client) \<Rightarrow>
          (case x_do x w1 client (cHSETNX lockTableKey (lkName lt) (lkComm lt @ '':'' @ lkId lt)) of
             (w2, r) \<Rightarrow>
               let (e, lt') =
                 (case r of
                    Inl e \<Rightarrow> (Some e, lt)
                  | Inr (RInt i) \<Rightarrow>
                      if i = 0 then (Some (dbLockedError x lt w2 (Some client)), lt)
                      else (None, lt\<lparr>lkLocked := True\<rparr>)
                  | Inr _ \<Rightarrow> (Some (TranslibDBScriptFail ''Unexpected response''), lt))
               in (e, lt', fst (x_close x w2 client))))"

text \<open>The decision of the unlock script: split the field at the first colon, then compare.\<close>

definition unlock_matches :: "string \<Rightarrow> string \<Rightarrow> string \<Rightarrow> bool" where
  "unlock_matches fieldVal comm' id' =
     (let (comm, id1) = (case cut '':'' fieldVal of Some (a, b) \<Rightarrow> (a, b) | None \<Rightarrow> (fieldVal, []))
      in (comm' = ''*'' \<or> comm' = comm) \<and> (id' = ''*'' \<or> id' = id1))"

definition luaScriptUnlock ::
  "('w, 'z) ext_scheme \<Rightarrow> 'w \<Rightarrow> nat \<Rightarrow> string \<Rightarrow> string \<Rightarrow> string \<Rightarrow> string \<Rightarrow> 'w \<times> (goerr + reply)"
where
  "luaScriptUnlock x w c k name comm' id' =
     (case x_hget x w c k name of
        Inl e \<Rightarrow> if e = redis_Nil then (w, Inr (RInt 0)) else (w, Inl e)
      | Inr fieldVal \<Rightarrow>
          if unlock_matches fieldVal comm' id' then x_do x w c (cHDEL k [name])
          else (w, Inr (RInt 0)))"

definition unlock ::
  "('w, 'z) ext_scheme \<Rightarrow> LockStruct \<Rightarrow> 'w \<Rightarrow> goerr option \<times> LockStruct \<times> 'w" where
  "unlock x lt w =
     (if \<not> lkLocked lt then (Some (TranslibDBNotSupported []), lt, w)
      else case getStateDB x w of
        (w1, Inl e) \<Rightarrow> (Some e, lt, w1)
      | (w1, Inr client) \<Rightarrow>
          (case luaScriptUnlock x w1 client lockTableKey (lkName lt) (lkComm lt) (lkId lt) of
             (w2, r) \<Rightarrow>
               let (e, lt') =
                 (case r of
                    Inl e \<Rightarrow> (Some e, lt)
                  | Inr (RInt i) \<Rightarrow>
                      if i = 1 then (None, lt\<lparr>lkLocked := False\<rparr>)
                      else (Some (TranslibDBLock DBLockGeneric), lt)
                  | Inr _ \<Rightarrow> (Some (TranslibDBScriptFail ''Unexpected response''), lt))
               in (e, lt', fst (x_close x w2 client))))"

text \<open>\<open>n\<close> is the number of attempts that remain.\<close>

fun tryLock_loop ::
  "('w, 'z) ext_scheme \<Rightarrow> nat \<Rightarrow> LockStruct \<Rightarrow> 'w \<Rightarrow> goerr option \<times> 'w \<times> LockStruct option" where
  "tryLock_loop x 0 ls w = (None, w, None)"
| "tryLock_loop x (Suc n) ls w =
     (case tryLock x ls w of
        (None, ls', w') \<Rightarrow> (None, w', Some ls')
      | (Some e, ls', w') \<Rightarrow>
          if e = TranslibDBLock DBLockConfigSession then (Some e, w', None)
          else if n = 0 then (Some e, w', None)
          else tryLock_loop x n ls' w')"

definition ConfigDBTryLock ::
  "('w, 'z) ext_scheme \<Rightarrow> string \<Rightarrow> 'w \<Rightarrow> LockStruct option \<Rightarrow> goerr option \<times> 'w \<times> LockStruct option"
where
  "ConfigDBTryLock x token w cdb =
     (case cdb of
        Some l \<Rightarrow> (Some (dbLockedError x l w None), w, cdb)
      | None \<Rightarrow>
          tryLock_loop x tryLockAttempt
            \<lparr>lkName = configDBLock, lkId = token, lkComm = x_execName x, lkLocked = False\<rparr> w)"

definition ConfigDBUnlock ::
  "('w, 'z) ext_scheme \<Rightarrow> string \<Rightarrow> 'w \<Rightarrow> LockStruct option \<Rightarrow> goerr option \<times> 'w \<times> LockStruct option"
where
  "ConfigDBUnlock x token w cdb =
     (case cdb of
        None \<Rightarrow> (Some (TranslibDBLock DBLockGeneric), w, None)
      | Some l \<Rightarrow> (case unlock x l w of (e, l', w') \<Rightarrow> (e, w', None)))"

definition ConfigDBClearLock ::
  "('w, 'z) ext_scheme \<Rightarrow> 'w \<Rightarrow> LockStruct option \<Rightarrow> goerr option \<times> 'w \<times> LockStruct option" where
  "ConfigDBClearLock x w cdb =
     (case unlock x \<lparr>lkName = configDBLock, lkId = ''*'', lkComm = x_execName x, lkLocked = True\<rparr> w of
        (e, _, w') \<Rightarrow>
          ((case e of Some (TranslibDBLock _) \<Rightarrow> None | _ \<Rightarrow> e), w', None))"

text \<open>The same operations on the state of the package.\<close>

definition lock_op ::
  "('w \<Rightarrow> LockStruct option \<Rightarrow> goerr option \<times> 'w \<times> LockStruct option) \<Rightarrow> 'w st \<Rightarrow> goerr option \<times> 'w st"
where
  "lock_op f s = (case f (world s) (cdbLock s) of
     (e, w, c) \<Rightarrow> (e, s\<lparr>world := w, cdbLock := c\<rparr>))"

lemma lock_op_db [simp]: "db (snd (lock_op f s)) = db s"
  "savePoint (snd (lock_op f s)) = savePoint s"
  by (simp_all add: lock_op_def split: prod.split)

section \<open>What is needed of the server\<close>

text \<open>
  \<open>holder w\<close> is the content of the lock field in the server.  Documented behaviour of the
  commands: HSETNX writes only an absent field and replies 1 or 0, HDEL removes the
  field, HGET reads it; opening and closing a client does not touch it.
\<close>

definition lock_server :: "('w, 'z) ext_scheme \<Rightarrow> ('w \<Rightarrow> string option) \<Rightarrow> bool" where
  "lock_server x holder \<longleftrightarrow>
     (\<forall>w. \<exists>w' c. x_client x w StateDB True = (w', Some c) \<and> holder w' = holder w) \<and>
     (\<forall>w c. holder (fst (x_close x w c)) = holder w) \<and>
     (\<forall>w c v. \<exists>w'. x_do x w c (cHSETNX lockTableKey configDBLock v) =
        (w', Inr (RInt (if holder w = None then 1 else 0))) \<and>
        holder w' = (case holder w of None \<Rightarrow> Some v | Some u \<Rightarrow> Some u)) \<and>
     (\<forall>w c. \<exists>w'. x_do x w c (cHDEL lockTableKey [configDBLock]) =
        (w', Inr (RInt (if holder w = None then 0 else 1))) \<and> holder w' = None) \<and>
     (\<forall>w c. x_hget x w c lockTableKey configDBLock =
        (case holder w of None \<Rightarrow> Inl redis_Nil | Some v \<Rightarrow> Inr v))"

text \<open>A server whose state is the lock field alone.\<close>

definition lock_only :: "string \<Rightarrow> (string option) ext" where
  "lock_only name =
     \<lparr>x_do = (\<lambda>w c r. case r of
         cHSETNX _ _ v \<Rightarrow> (case w of None \<Rightarrow> (Some v, Inr (RInt 1)) | Some u \<Rightarrow> (w, Inr (RInt 0)))
       | cHDEL _ _ \<Rightarrow> (None, Inr (RInt (if w = None then 0 else 1)))
       | _ \<Rightarrow> (w, Inr ROther)),
      x_hgetall = (\<lambda>w c k. Inr []), x_keys = (\<lambda>w c k. Inr []),
      x_hget = (\<lambda>w c k f. case w of None \<Rightarrow> Inl redis_Nil | Some v \<Rightarrow> Inr v),
      x_get = (\<lambda>w c k. Inl redis_Nil), x_client = (\<lambda>w d b. (w, Some 0)),
      x_close = (\<lambda>w c. (w, None)), x_cvl_open = (\<lambda>w d. (w, Inr 0)),
      x_cvl_close = (\<lambda>w c. (w, 0)), x_cvl_validate = (\<lambda>w d c e. (w, 0, [])),
      x_execName = name, x_dur = (\<lambda>w. 0), x_unixnano = (\<lambda>w. [])\<rparr>"

lemma lock_only_server: "lock_server (lock_only name) (\<lambda>w. w)"
  by (auto simp: lock_server_def lock_only_def split: option.split)

lemma lock_server_getStateDB:
  assumes "lock_server x holder"
  obtains w1 c where "getStateDB x w = (w1, Inr c)" "holder w1 = holder w"
proof -
  obtain w1 c where "x_client x w StateDB True = (w1, Some c)" "holder w1 = holder w"
    using assms unfolding lock_server_def by meson
  then show thesis using that by (simp add: getStateDB_def)
qed

section \<open>The effect of the operations\<close>

lemma tryLock_server:
  assumes "lock_server x holder" "\<not> lkLocked l" "lkName l = configDBLock" "tryLock x l w = (e, l', w')"
  shows "(holder w = None \<longrightarrow> e = None \<and> l' = l\<lparr>lkLocked := True\<rparr> \<and>
            holder w' = Some (lkComm l @ '':'' @ lkId l)) \<and>
         (holder w \<noteq> None \<longrightarrow> (\<exists>t. e = Some (TranslibDBLock t)) \<and> l' = l \<and> holder w' = holder w)"
proof -
  obtain w1 c where g: "getStateDB x w = (w1, Inr c)" "holder w1 = holder w"
    using assms(1) by (rule lock_server_getStateDB)
  let ?v = "lkComm l @ '':'' @ lkId l"
  obtain w2 where d: "x_do x w1 c (cHSETNX lockTableKey configDBLock ?v) =
      (w2, Inr (RInt (if holder w1 = None then 1 else 0)))"
      "holder w2 = (case holder w1 of None \<Rightarrow> Some ?v | Some u \<Rightarrow> Some u)"
    using assms(1) unfolding lock_server_def by meson
  have cl: "holder (fst (x_close x w2 c)) = holder w2"
    using assms(1) by (simp add: lock_server_def)
  have t: "tryLock x l w =
      (if holder w = None then (None, l\<lparr>lkLocked := True\<rparr>, fst (x_close x w2 c))
       else (Some (dbLockedError x l w2 (Some c)), l, fst (x_close x w2 c)))"
    using assms(2,3) g d(1) by (simp add: tryLock_def)
  show ?thesis
    using assms(4) t cl d(2) g(2) by (auto simp: dbLockedError_def Let_def split: if_splits)
qed

lemma tryLock_loop_server:
  assumes "lock_server x holder" "\<not> lkLocked l" "lkName l = configDBLock"
    and "tryLock_loop x (Suc n) l w = (e, w', cdb)"
  shows "(holder w = None \<longrightarrow> e = None \<and> cdb = Some (l\<lparr>lkLocked := True\<rparr>) \<and>
            holder w' = Some (lkComm l @ '':'' @ lkId l)) \<and>
         (holder w \<noteq> None \<longrightarrow> e \<noteq> None \<and> cdb = None \<and> holder w' = holder w)"
  using assms(2-)
proof (induction n arbitrary: l w)
  case (0 l w)
  obtain e1 l1 w1 where t: "tryLock x l w = (e1, l1, w1)" by (cases "tryLock x l w")
  show ?case
    using tryLock_server[OF assms(1) 0(1,2) t] 0(3) t
    by (cases e1) (auto split: if_splits)
next
  case (Suc n l w)
  obtain e1 l1 w1 where t: "tryLock x l w = (e1, l1, w1)" by (cases "tryLock x l w")
  show ?case
  proof (cases e1)
    case None
    then show ?thesis using tryLock_server[OF assms(1) Suc(2,3) t] Suc(4) t by auto
  next
    case (Some er)
    then have ts: "holder w \<noteq> None" "l1 = l" "holder w1 = holder w"
      using tryLock_server[OF assms(1) Suc(2,3) t] by auto
    show ?thesis
    proof (cases "er = TranslibDBLock DBLockConfigSession")
      case True
      then show ?thesis using Suc(4) t Some ts by auto
    next
      case False
      then have "tryLock_loop x (Suc n) l w1 = (e, w', cdb)"
        using Suc(4) t Some ts by simp
      from Suc.IH[OF Suc(2,3) this] ts show ?thesis by auto
    qed
  qed
qed

lemma ConfigDBTryLock_server:
  assumes "lock_server x holder" "ConfigDBTryLock x token w cdb = (e, w', cdb')"
  shows "(cdb = None \<and> holder w = None \<longrightarrow> e = None \<and>
            (\<exists>l. cdb' = Some l \<and> lkName l = configDBLock \<and> lkId l = token \<and>
                 lkComm l = x_execName x \<and> lkLocked l) \<and>
            holder w' = Some (x_execName x @ '':'' @ token)) \<and>
         (cdb = None \<and> holder w \<noteq> None \<longrightarrow> e \<noteq> None \<and> cdb' = None \<and> holder w' = holder w) \<and>
         (cdb \<noteq> None \<longrightarrow> e \<noteq> None \<and> cdb' = cdb \<and> w' = w)"
proof (cases cdb)
  case None
  let ?l = "\<lparr>lkName = configDBLock, lkId = token, lkComm = x_execName x, lkLocked = False\<rparr>"
  have "tryLock_loop x (Suc 3) ?l w = (e, w', cdb')"
    using assms(2) None by (simp add: ConfigDBTryLock_def tryLockAttempt_def numeral_eq_Suc)
  from tryLock_loop_server[OF assms(1) _ _ this] None show ?thesis by auto
next
  case (Some l)
  then show ?thesis using assms(2) by (auto simp: ConfigDBTryLock_def)
qed

lemma unlock_server:
  assumes "lock_server x holder" "lkLocked l" "lkName l = configDBLock" "unlock x l w = (e, l', w')"
  shows "(case holder w of
            None \<Rightarrow> e = Some (TranslibDBLock DBLockGeneric) \<and> holder w' = None
          | Some v \<Rightarrow>
              if unlock_matches v (lkComm l) (lkId l) then e = None \<and> holder w' = None
              else e = Some (TranslibDBLock DBLockGeneric) \<and> holder w' = holder w)"
proof -
  obtain w1 c where g: "getStateDB x w = (w1, Inr c)" "holder w1 = holder w"
    using assms(1) by (rule lock_server_getStateDB)
  have h: "x_hget x w1 c lockTableKey configDBLock =
      (case holder w1 of None \<Rightarrow> Inl redis_Nil | Some v \<Rightarrow> Inr v)"
    using assms(1) by (simp add: lock_server_def)
  obtain w2 where d: "x_do x w1 c (cHDEL lockTableKey [configDBLock]) =
      (w2, Inr (RInt (if holder w1 = None then 0 else 1)))" "holder w2 = None"
    using assms(1) unfolding lock_server_def by meson
  have cl: "\<And>w. holder (fst (x_close x w c)) = holder w"
    using assms(1) by (simp add: lock_server_def)
  show ?thesis
    using assms(2,3,4) g h d cl[of w1] cl[of w2]
    by (cases "holder w") (auto simp: unlock_def luaScriptUnlock_def Let_def split: if_splits)
qed

lemma unlock_matches_own: "CHR '':'' \<notin> set comm \<Longrightarrow> unlock_matches (comm @ CHR '':'' # id1) comm id1"
  by (simp add: unlock_matches_def cut_char_append)

lemma unlock_matches_star: "CHR '':'' \<notin> set comm \<Longrightarrow> CHR '':'' \<notin> set comm' \<Longrightarrow> comm' \<noteq> ''*'' \<Longrightarrow>
    unlock_matches (comm @ CHR '':'' # id1) comm' ''*'' \<longleftrightarrow> comm' = comm"
  by (auto simp: unlock_matches_def cut_char_append)

section \<open>Several processes\<close>

text \<open>
  Each process has its own \<open>cdbLock\<close> and its own executable; all share the server.
  A step is one call of one process: to take the lock, to give it back, or to clear it
  when the process starts.
\<close>

record 'w lock_sys =
  ls_world :: 'w
  ls_lock :: "nat \<Rightarrow> LockStruct option"

definition with_name :: "'w ext \<Rightarrow> string \<Rightarrow> 'w ext" where
  "with_name x n = x\<lparr>x_execName := n\<rparr>"

lemma lock_server_with_name [simp]: "lock_server (with_name x n) holder = lock_server x holder"
  by (simp add: lock_server_def with_name_def)

inductive lock_step :: "'w ext \<Rightarrow> (nat \<Rightarrow> string) \<Rightarrow> 'w lock_sys \<Rightarrow> 'w lock_sys \<Rightarrow> bool"
  for x :: "'w ext" and execName :: "nat \<Rightarrow> string" where
  do_try: "ConfigDBTryLock (with_name x (execName p)) token (ls_world s) (ls_lock s p) = (e, w', c') \<Longrightarrow>
     lock_step x execName s (s\<lparr>ls_world := w', ls_lock := (ls_lock s)(p := c')\<rparr>)"
| do_unlock: "ConfigDBUnlock (with_name x (execName p)) token (ls_world s) (ls_lock s p) = (e, w', c') \<Longrightarrow>
     lock_step x execName s (s\<lparr>ls_world := w', ls_lock := (ls_lock s)(p := c')\<rparr>)"
| do_clear: "ConfigDBClearLock (with_name x (execName p)) (ls_world s) (ls_lock s p) = (e, w', c') \<Longrightarrow>
     lock_step x execName s (s\<lparr>ls_world := w', ls_lock := (ls_lock s)(p := c')\<rparr>)"

inductive_cases lock_stepE: "lock_step x execName s t"

inductive lock_reachable ::
  "'w ext \<Rightarrow> (nat \<Rightarrow> string) \<Rightarrow> ('w \<Rightarrow> string option) \<Rightarrow> 'w lock_sys \<Rightarrow> bool"
  for x :: "'w ext" and execName :: "nat \<Rightarrow> string" and holder :: "'w \<Rightarrow> string option" where
  lr_start: "holder (ls_world s) = None \<Longrightarrow> (\<forall>p. ls_lock s p = None) \<Longrightarrow>
     lock_reachable x execName holder s"
| lr_step: "lock_reachable x execName holder s \<Longrightarrow> lock_step x execName s t \<Longrightarrow>
     lock_reachable x execName holder t"

text \<open>Executables that can tell their locks apart.\<close>

definition names_ok :: "(nat \<Rightarrow> string) \<Rightarrow> bool" where
  "names_ok execName \<longleftrightarrow>
     inj execName \<and> (\<forall>p. CHR '':'' \<notin> set (execName p) \<and> execName p \<noteq> ''*'')"

text \<open>The invariant: a process that believes it holds the lock is named in the server.\<close>

definition lock_inv :: "(nat \<Rightarrow> string) \<Rightarrow> ('w \<Rightarrow> string option) \<Rightarrow> 'w lock_sys \<Rightarrow> bool" where
  "lock_inv execName holder s \<longleftrightarrow>
     (\<forall>p l. ls_lock s p = Some l \<longrightarrow>
        lkName l = configDBLock \<and> lkLocked l \<and> lkComm l = execName p \<and>
        holder (ls_world s) = Some (execName p @ '':'' @ lkId l)) \<and>
     (\<forall>v. holder (ls_world s) = Some v \<longrightarrow>
        (\<exists>p l. ls_lock s p = Some l \<and> v = execName p @ '':'' @ lkId l))"

lemma owner_unique:
  assumes "names_ok execName" "execName p @ '':'' @ i = execName q @ '':'' @ j"
  shows "p = q"
proof -
  have "cut '':'' (execName p @ '':'' @ i) = cut '':'' (execName q @ '':'' @ j)"
    using assms(2) by simp
  then have "execName p = execName q"
    using assms(1) by (simp add: names_ok_def cut_char_append)
  then show ?thesis using assms(1) by (simp add: names_ok_def inj_eq)
qed

lemma lock_inv_try:
  assumes "lock_server x holder" "lock_inv execName holder s"
    and "ConfigDBTryLock (with_name x (execName p)) token (ls_world s) (ls_lock s p) = (e, w', c')"
  shows "lock_inv execName holder (s\<lparr>ls_world := w', ls_lock := (ls_lock s)(p := c')\<rparr>)"
proof -
  have sp: "x_execName (with_name x (execName p)) = execName p" by (simp add: with_name_def)
  have t: "(ls_lock s p = None \<and> holder (ls_world s) = None \<longrightarrow> e = None \<and>
      (\<exists>l. c' = Some l \<and> lkName l = configDBLock \<and> lkId l = token \<and> lkComm l = execName p \<and> lkLocked l) \<and>
      holder w' = Some (execName p @ '':'' @ token)) \<and>
      (ls_lock s p = None \<and> holder (ls_world s) \<noteq> None \<longrightarrow>
        e \<noteq> None \<and> c' = None \<and> holder w' = holder (ls_world s)) \<and>
      (ls_lock s p \<noteq> None \<longrightarrow> e \<noteq> None \<and> c' = ls_lock s p \<and> w' = ls_world s)"
    using ConfigDBTryLock_server[OF _ assms(3), of holder] assms(1) by (simp add: sp)
  show ?thesis
  proof (cases "ls_lock s p = None \<and> holder (ls_world s) = None")
    case True
    then have "\<forall>q. ls_lock s q = None" using assms(2) by (auto simp: lock_inv_def)
    then show ?thesis using t True by (auto simp: lock_inv_def)
  next
    case False
    then have "(ls_lock s)(p := c') = ls_lock s \<and> holder w' = holder (ls_world s)"
      using t by (auto simp: fun_upd_idem)
    then show ?thesis using assms(2) by (simp add: lock_inv_def)
  qed
qed

lemma lock_inv_unlock:
  assumes "lock_server x holder" "names_ok execName" "lock_inv execName holder s"
    and "ConfigDBUnlock (with_name x (execName p)) token (ls_world s) (ls_lock s p) = (e, w', c')"
  shows "lock_inv execName holder (s\<lparr>ls_world := w', ls_lock := (ls_lock s)(p := c')\<rparr>)"
proof (cases "ls_lock s p")
  case None
  then have "(ls_lock s)(p := c') = ls_lock s \<and> w' = ls_world s"
    using assms(4) by (auto simp: ConfigDBUnlock_def fun_upd_idem)
  then show ?thesis using assms(3) by (simp add: lock_inv_def)
next
  case (Some l)
  then have l: "lkName l = configDBLock" "lkLocked l" "lkComm l = execName p"
      "holder (ls_world s) = Some (execName p @ '':'' @ lkId l)"
    using assms(3) by (auto simp: lock_inv_def)
  obtain l' where u: "unlock (with_name x (execName p)) l (ls_world s) = (e, l', w')" and c: "c' = None"
    using assms(4) Some by (auto simp: ConfigDBUnlock_def split: prod.splits)
  have "unlock_matches (execName p @ '':'' @ lkId l) (lkComm l) (lkId l)"
    using assms(2) l(3) by (simp add: names_ok_def unlock_matches_own)
  then have h: "holder w' = None"
    using unlock_server[OF _ l(2,1) u, of holder] assms(1) l(4) by simp
  have "ls_lock s q = None" if "q \<noteq> p" for q
  proof (rule ccontr)
    assume "ls_lock s q \<noteq> None"
    then obtain m where "ls_lock s q = Some m" by blast
    then have "execName p @ '':'' @ lkId l = execName q @ '':'' @ lkId m"
      using assms(3) l(4) by (auto simp: lock_inv_def)
    then show False using owner_unique[OF assms(2)] that by blast
  qed
  then show ?thesis using h c by (auto simp: lock_inv_def)
qed

lemma lock_inv_clear:
  assumes "lock_server x holder" "names_ok execName" "lock_inv execName holder s"
    and "ConfigDBClearLock (with_name x (execName p)) (ls_world s) (ls_lock s p) = (e, w', c')"
  shows "lock_inv execName holder (s\<lparr>ls_world := w', ls_lock := (ls_lock s)(p := c')\<rparr>)"
proof -
  let ?l = "\<lparr>lkName = configDBLock, lkId = ''*'', lkComm = execName p, lkLocked = True\<rparr>"
  obtain e' l' where u: "unlock (with_name x (execName p)) ?l (ls_world s) = (e', l', w')"
    and c: "c' = None"
    using assms(4) by (auto simp: ConfigDBClearLock_def with_name_def split: prod.splits)
  have us: "case holder (ls_world s) of None \<Rightarrow> holder w' = None
      | Some v \<Rightarrow> if unlock_matches v (execName p) ''*'' then holder w' = None
                  else holder w' = holder (ls_world s)"
    using unlock_server[OF _ _ _ u, of holder] assms(1) by (auto split: option.splits if_splits)
  show ?thesis
  proof (cases "holder (ls_world s)")
    case None
    then have "\<forall>q. ls_lock s q = None" using assms(3) by (auto simp: lock_inv_def)
    then show ?thesis using us None c by (auto simp: lock_inv_def)
  next
    case (Some v)
    then obtain q m where q: "ls_lock s q = Some m" "v = execName q @ '':'' @ lkId m"
      using assms(3) by (auto simp: lock_inv_def)
    have others: "ls_lock s r = None" if "r \<noteq> q" for r
    proof (rule ccontr)
      assume "ls_lock s r \<noteq> None"
      then obtain n where "ls_lock s r = Some n" by blast
      then have "v = execName r @ '':'' @ lkId n" using assms(3) Some by (auto simp: lock_inv_def)
      then show False using owner_unique[OF assms(2)] q(2) that by metis
    qed
    have um: "unlock_matches v (execName p) ''*'' \<longleftrightarrow> p = q"
      using assms(2) by (auto simp: q(2) names_ok_def unlock_matches_star inj_eq)
    show ?thesis
    proof (cases "p = q")
      case True
      then show ?thesis using us Some um c others by (auto simp: lock_inv_def)
    next
      case False
      then have "(ls_lock s)(p := c') = ls_lock s" using others c by (auto simp: fun_upd_idem)
      then show ?thesis using us Some um False assms(3) by (simp add: lock_inv_def)
    qed
  qed
qed

lemma lock_reachable_inv:
  assumes "lock_server x holder" "names_ok execName" "lock_reachable x execName holder s"
  shows "lock_inv execName holder s"
  using assms(3)
proof (induction rule: lock_reachable.induct)
  case (lr_start s)
  then show ?case by (simp add: lock_inv_def)
next
  case (lr_step s t)
  then show ?case
    by (elim lock_stepE) (auto intro: lock_inv_try lock_inv_unlock lock_inv_clear assms(1,2))
qed

end
