(* ===== verification/DB_Subscribe.thy ===== *)
theory DB_Subscribe
  imports DB_Lock
begin

text \<open>
  translib/db/subscribe.go (names of channels and events) and
  translib/db/db_subscribe_sa.go (session-aware subscriptions and their notifications).

  A handler is application code; its call is recorded in \<open>notifs\<close>, in the order of the
  calls, with the write permission that the database object has during the call.
  A subscription is an object with a number; the object of a new registration is the next
  free number and objects are not reused.
\<close>

section \<open>Channels and events\<close>

text \<open>\<open>dbId\<close> is the number of the database in the configuration file.\<close>

definition key2redisChannel :: "Options \<Rightarrow> int \<Rightarrow> TableSpec \<Rightarrow> Key \<Rightarrow> string" where
  "key2redisChannel opts dbId ts key =
     ''__keyspace@'' @ Itoa dbId @ ''__:'' @ key2redis opts ts key"

definition redisChannel2key :: "Options \<Rightarrow> TableSpec \<Rightarrow> string \<Rightarrow> Key option" where
  "redisChannel2key opts ts redisChannel =
     (let splitRedisKey = strSplitN redisChannel '':'' 2 in
      if length splitRedisKey > 1 then redis2key opts ts (splitRedisKey ! 1)
      else Some \<lparr>Comp = []\<rparr>)"

definition redisPayload2sEventMap :: "(string, SEvent) gomap" where
  "redisPayload2sEventMap =
     [('''', SEventNone), (''hset'', SEventHSet), (''hdel'', SEventHDel), (''del'', SEventDel)]"

definition redisPayload2sEvent :: "string \<Rightarrow> SEvent" where
  "redisPayload2sEvent redisPayload =
     (let sEvent = (case gget redisPayload2sEventMap redisPayload of None \<Rightarrow> SEventNone | Some e \<Rightarrow> e)
      in if sEvent = SEventNone then SEventOther else sEvent)"

fun txOp2sEvent :: "txOp \<Rightarrow> SEvent" where
  "txOp2sEvent txOpNone = SEventNone"
| "txOp2sEvent txOpHMSet = SEventHSet"
| "txOp2sEvent txOpHDel = SEventHDel"
| "txOp2sEvent txOpDel = SEventDel"

section \<open>Registration\<close>

text \<open>Adds the object to the list of each table, once per table.\<close>

fun add_tables :: "nat \<Rightarrow> SKey list \<Rightarrow> (string, nat list) gomap \<Rightarrow> (string, nat list) gomap" where
  "add_tables i [] m = m"
| "add_tables i (skey # sks) m =
     (let n = tsName (sk_Ts skey);
          l = (case gget m n of None \<Rightarrow> [] | Some l \<Rightarrow> l);
          found = list_ex (\<lambda>j. j = i) l
      in add_tables i sks (gset n (if \<not> found then l @ [i] else l) m))"

definition registerSubscribeDB ::
  "nat \<Rightarrow> bool \<Rightarrow> SKey list \<Rightarrow> subscriberInfo \<Rightarrow> subscriberInfo" where
  "registerSubscribeDB d isSA sks si =
     (if \<not> isSA then si
      else
        let i = length (sdb_objs si) in
        si\<lparr>sdb_objs := sdb_objs si @ [(i, \<lparr>sd_d = d, sd_isSA = isSA, skeys = sks, openSent = False\<rparr>)],
           sDBs := sDBs si @ [i],
           table2sDBs := add_tables i sks (table2sDBs si)\<rparr>)"

definition sdb_is :: "(nat, subscribeDB) gomap \<Rightarrow> nat \<Rightarrow> nat \<Rightarrow> bool" where
  "sdb_is objs d i = (case gget objs i of None \<Rightarrow> False | Some o1 \<Rightarrow> sd_d o1 = d)"

text \<open>Removes the first object of \<open>d\<close> from a list; \<open>None\<close> when there is none.\<close>

fun remove_first :: "('a \<Rightarrow> bool) \<Rightarrow> 'a list \<Rightarrow> 'a list option" where
  "remove_first P [] = None"
| "remove_first P (x # xs) = (if P x then Some xs else map_option ((#) x) (remove_first P xs))"

definition unRegisterSubscribeDB :: "nat \<Rightarrow> subscriberInfo \<Rightarrow> subscriberInfo" where
  "unRegisterSubscribeDB d si =
     (case remove_first (sdb_is (sdb_objs si) d) (sDBs si) of
        None \<Rightarrow> si
      | Some l \<Rightarrow>
          si\<lparr>sDBs := l,
             table2sDBs := map (\<lambda>(n, is).
               (n, case remove_first (sdb_is (sdb_objs si) d) is of None \<Rightarrow> is | Some is' \<Rightarrow> is'))
               (table2sDBs si)\<rparr>)"

section \<open>Notifications\<close>

definition callHFuncSA ::
  "nat \<Rightarrow> SessNotif \<Rightarrow> SKey option \<Rightarrow> Key option \<Rightarrow> SEvent \<Rightarrow> ('w, 'z) st_scheme \<Rightarrow> ('w, 'z) st_scheme" where
  "callHFuncSA i sN sKey key sE s =
     s\<lparr>notifs := notifs s @ [\<lparr>nt_sdb = i, nt_kind = sN, nt_skey = sKey, nt_key = key, nt_event = sE,
         nt_writeDisabled = IsWriteDisabled (Opts (db s))\<rparr>]\<rparr>"

definition set_open :: "nat \<Rightarrow> bool \<Rightarrow> ('w, 'z) st_scheme \<Rightarrow> ('w, 'z) st_scheme" where
  "set_open i b s =
     (case gget (sdb_objs (sInfo s)) i of
        None \<Rightarrow> s
      | Some o1 \<Rightarrow> s\<lparr>sInfo := (sInfo s)\<lparr>sdb_objs := gset i (o1\<lparr>openSent := b\<rparr>) (sdb_objs (sInfo s))\<rparr>\<rparr>)"

definition open_one :: "nat \<Rightarrow> ('w, 'z) st_scheme \<Rightarrow> ('w, 'z) st_scheme" where
  "open_one i s =
     (case gget (sdb_objs (sInfo s)) i of
        None \<Rightarrow> s
      | Some o1 \<Rightarrow>
          if \<not> openSent o1 then
            (if sd_isSA o1
             then set_open i True (callHFuncSA i CandidateConfigOpened None None SEventNone s)
             else s)
          else s)"

fun open_loop :: "nat list \<Rightarrow> ('w, 'z) st_scheme \<Rightarrow> ('w, 'z) st_scheme" where
  "open_loop [] s = s"
| "open_loop (i # is) s = open_loop is (open_one i s)"

definition close_one :: "nat \<Rightarrow> ('w, 'z) st_scheme \<Rightarrow> ('w, 'z) st_scheme" where
  "close_one i s =
     (case gget (sdb_objs (sInfo s)) i of
        None \<Rightarrow> s
      | Some o1 \<Rightarrow>
          if openSent o1 then
            (if sd_isSA o1
             then set_open i False (callHFuncSA i CandidateConfigClosed None None SEventNone s)
             else s)
          else s)"

fun close_loop :: "nat list \<Rightarrow> ('w, 'z) st_scheme \<Rightarrow> ('w, 'z) st_scheme" where
  "close_loop [] s = s"
| "close_loop (i # is) s = close_loop is (close_one i s)"

definition set_wd :: "bool \<Rightarrow> ('w, 'z) st_scheme \<Rightarrow> ('w, 'z) st_scheme" where
  "set_wd b = upd_db (\<lambda>d. d\<lparr>Opts := (Opts d)\<lparr>IsWriteDisabled := b\<rparr>\<rparr>)"

definition sendSessionOpened :: "('w, 'z) st_scheme \<Rightarrow> ('w, 'z) st_scheme" where
  "sendSessionOpened s =
     (let oIsWriteDisabled = IsWriteDisabled (Opts (db s)) in
      set_wd oIsWriteDisabled (open_loop (sDBs (sInfo s)) (set_wd True s)))"

definition sendSessionClosed :: "('w, 'z) st_scheme \<Rightarrow> ('w, 'z) st_scheme" where
  "sendSessionClosed s =
     (let oIsWriteDisabled = IsWriteDisabled (Opts (db s)) in
      set_wd oIsWriteDisabled (close_loop (sDBs (sInfo s)) (set_wd True s)))"

definition notify_op :: "nat \<Rightarrow> SKey \<Rightarrow> Key \<Rightarrow> txOp \<Rightarrow> ('w, 'z) st_scheme \<Rightarrow> ('w, 'z) st_scheme" where
  "notify_op i skey key op s =
     (let sEvent = txOp2sEvent op in
      if sEvent \<noteq> SEventNone
      then callHFuncSA i CandidateConfigNotif (Some skey) (Some key) sEvent s else s)"

fun skey_loop :: "nat \<Rightarrow> bool \<Rightarrow> SKey list \<Rightarrow> Key \<Rightarrow> txOp \<Rightarrow> txOp \<Rightarrow> ('w, 'z) st_scheme \<Rightarrow> ('w, 'z) st_scheme" where
  "skey_loop i isSA [] key op1 op2 s = s"
| "skey_loop i isSA (skey # sks) key op1 op2 s =
     skey_loop i isSA sks key op1 op2
       (if IsAllKeyPattern (sk_Key skey) \<or> Key_Matches key (sk_Key skey) then
          (if isSA then notify_op i skey key op2 (notify_op i skey key op1 s) else s)
        else s)"

fun notify_loop :: "nat list \<Rightarrow> Key \<Rightarrow> txOp \<Rightarrow> txOp \<Rightarrow> ('w, 'z) st_scheme \<Rightarrow> ('w, 'z) st_scheme" where
  "notify_loop [] key op1 op2 s = s"
| "notify_loop (i # is) key op1 op2 s =
     notify_loop is key op1 op2
       (case gget (sdb_objs (sInfo s)) i of
          None \<Rightarrow> s
        | Some o1 \<Rightarrow> skey_loop i (sd_isSA o1) (skeys o1) key op1 op2 s)"

definition sendSessionNotification ::
  "TableSpec \<Rightarrow> Key \<Rightarrow> txOp \<Rightarrow> txOp \<Rightarrow> ('w, 'z) st_scheme \<Rightarrow> ('w, 'z) st_scheme" where
  "sendSessionNotification ts key op1 op2 s =
     (let oIsWriteDisabled = IsWriteDisabled (Opts (db s));
          s1 = open_loop (sDBs (sInfo s)) (set_wd True s);
          l = (case gget (table2sDBs (sInfo s1)) (tsName ts) of None \<Rightarrow> [] | Some l \<Rightarrow> l)
      in set_wd oIsWriteDisabled (notify_loop l key op1 op2 s1))"

definition registerSessionDB :: "('w, 'z) st_scheme \<Rightarrow> ('w, 'z) st_scheme" where
  "registerSessionDB s = sendSessionOpened s"

definition unRegisterSessionDB :: "('w, 'z) st_scheme \<Rightarrow> ('w, 'z) st_scheme" where
  "unRegisterSessionDB s = sendSessionClosed s"

section \<open>What the notifications leave alone\<close>

lemma callHFuncSA_frame [simp]:
  "world (callHFuncSA i n k c e s) = world s" "db (callHFuncSA i n k c e s) = db s"
  "cdbLock (callHFuncSA i n k c e s) = cdbLock s" "savePoint (callHFuncSA i n k c e s) = savePoint s"
  "sInfo (callHFuncSA i n k c e s) = sInfo s"
  "dbGlobalStats (callHFuncSA i n k c e s) = dbGlobalStats s"
  by (simp_all add: callHFuncSA_def)

lemma set_open_frame [simp]:
  "world (set_open i b s) = world s" "db (set_open i b s) = db s"
  "cdbLock (set_open i b s) = cdbLock s" "savePoint (set_open i b s) = savePoint s"
  "notifs (set_open i b s) = notifs s" "sDBs (sInfo (set_open i b s)) = sDBs (sInfo s)"
  "table2sDBs (sInfo (set_open i b s)) = table2sDBs (sInfo s)"
  "dbGlobalStats (set_open i b s) = dbGlobalStats s"
  by (simp_all add: set_open_def split: option.split)

lemma open_one_frame [simp]:
  "world (open_one i s) = world s" "db (open_one i s) = db s"
  "cdbLock (open_one i s) = cdbLock s" "savePoint (open_one i s) = savePoint s"
  "sDBs (sInfo (open_one i s)) = sDBs (sInfo s)"
  "table2sDBs (sInfo (open_one i s)) = table2sDBs (sInfo s)"
  "dbGlobalStats (open_one i s) = dbGlobalStats s"
  by (simp_all add: open_one_def split: option.split)

lemma open_loop_frame [simp]:
  "world (open_loop is s) = world s \<and> db (open_loop is s) = db s \<and>
   cdbLock (open_loop is s) = cdbLock s \<and> savePoint (open_loop is s) = savePoint s \<and>
   sDBs (sInfo (open_loop is s)) = sDBs (sInfo s) \<and>
   table2sDBs (sInfo (open_loop is s)) = table2sDBs (sInfo s) \<and>
   dbGlobalStats (open_loop is s) = dbGlobalStats s"
  by (induction "is" s rule: open_loop.induct) auto

lemma close_one_frame [simp]:
  "world (close_one i s) = world s" "db (close_one i s) = db s"
  "cdbLock (close_one i s) = cdbLock s" "savePoint (close_one i s) = savePoint s"
  "sDBs (sInfo (close_one i s)) = sDBs (sInfo s)"
  "table2sDBs (sInfo (close_one i s)) = table2sDBs (sInfo s)"
  "dbGlobalStats (close_one i s) = dbGlobalStats s"
  by (simp_all add: close_one_def split: option.split)

lemma close_loop_frame [simp]:
  "world (close_loop is s) = world s \<and> db (close_loop is s) = db s \<and>
   cdbLock (close_loop is s) = cdbLock s \<and> savePoint (close_loop is s) = savePoint s \<and>
   sDBs (sInfo (close_loop is s)) = sDBs (sInfo s) \<and>
   table2sDBs (sInfo (close_loop is s)) = table2sDBs (sInfo s) \<and>
   dbGlobalStats (close_loop is s) = dbGlobalStats s"
  by (induction "is" s rule: close_loop.induct) auto

lemma notify_op_frame [simp]:
  "world (notify_op i k key op s) = world s" "db (notify_op i k key op s) = db s"
  "cdbLock (notify_op i k key op s) = cdbLock s" "savePoint (notify_op i k key op s) = savePoint s"
  "sInfo (notify_op i k key op s) = sInfo s"
  "dbGlobalStats (notify_op i k key op s) = dbGlobalStats s"
  by (simp_all add: notify_op_def Let_def)

lemma skey_loop_frame [simp]:
  "world (skey_loop i b sks key op1 op2 s) = world s \<and> db (skey_loop i b sks key op1 op2 s) = db s \<and>
   cdbLock (skey_loop i b sks key op1 op2 s) = cdbLock s \<and>
   savePoint (skey_loop i b sks key op1 op2 s) = savePoint s \<and>
   sInfo (skey_loop i b sks key op1 op2 s) = sInfo s \<and>
   dbGlobalStats (skey_loop i b sks key op1 op2 s) = dbGlobalStats s"
  by (induction i b sks key op1 op2 s rule: skey_loop.induct) auto

lemma notify_loop_frame [simp]:
  "world (notify_loop is key op1 op2 s) = world s \<and> db (notify_loop is key op1 op2 s) = db s \<and>
   cdbLock (notify_loop is key op1 op2 s) = cdbLock s \<and>
   savePoint (notify_loop is key op1 op2 s) = savePoint s \<and>
   sInfo (notify_loop is key op1 op2 s) = sInfo s \<and>
   dbGlobalStats (notify_loop is key op1 op2 s) = dbGlobalStats s"
  by (induction "is" key op1 op2 s rule: notify_loop.induct) (auto split: option.split)

lemma set_wd_frame [simp]:
  "world (set_wd b s) = world s" "cdbLock (set_wd b s) = cdbLock s"
  "savePoint (set_wd b s) = savePoint s" "sInfo (set_wd b s) = sInfo s"
  "notifs (set_wd b s) = notifs s" "dbGlobalStats (set_wd b s) = dbGlobalStats s"
  "db (set_wd b s) = (db s)\<lparr>Opts := (Opts (db s))\<lparr>IsWriteDisabled := b\<rparr>\<rparr>"
  by (simp_all add: set_wd_def)

lemma sendSessionNotification_frame [simp]:
  "world (sendSessionNotification ts key op1 op2 s) = world s"
  "db (sendSessionNotification ts key op1 op2 s) = db s"
  "cdbLock (sendSessionNotification ts key op1 op2 s) = cdbLock s"
  "savePoint (sendSessionNotification ts key op1 op2 s) = savePoint s"
  "dbGlobalStats (sendSessionNotification ts key op1 op2 s) = dbGlobalStats s"
  by (simp_all add: sendSessionNotification_def Let_def)

lemma sendSessionOpened_frame [simp]:
  "world (sendSessionOpened s) = world s" "db (sendSessionOpened s) = db s"
  "cdbLock (sendSessionOpened s) = cdbLock s" "savePoint (sendSessionOpened s) = savePoint s"
  "dbGlobalStats (sendSessionOpened s) = dbGlobalStats s"
  by (simp_all add: sendSessionOpened_def Let_def)

lemma sendSessionClosed_frame [simp]:
  "world (sendSessionClosed s) = world s" "db (sendSessionClosed s) = db s"
  "cdbLock (sendSessionClosed s) = cdbLock s" "savePoint (sendSessionClosed s) = savePoint s"
  "dbGlobalStats (sendSessionClosed s) = dbGlobalStats s"
  by (simp_all add: sendSessionClosed_def Let_def)

section \<open>The protocol that a subscriber sees\<close>

text \<open>
  A subscriber sees \<open>(Opened Notif* Closed)*\<close>: \<open>Some b\<close> says that the calls so far follow
  the protocol and that the session is open (\<open>b\<close>) to the subscriber.
\<close>

fun sess_step :: "bool option \<Rightarrow> SessNotif \<Rightarrow> bool option" where
  "sess_step (Some False) CandidateConfigOpened = Some True"
| "sess_step (Some True) CandidateConfigNotif = Some True"
| "sess_step (Some True) CandidateConfigClosed = Some False"
| "sess_step _ _ = None"

definition sess_trace :: "nat \<Rightarrow> notif list \<Rightarrow> bool option" where
  "sess_trace i ns = foldl sess_step (Some False) (map nt_kind (filter (\<lambda>n. nt_sdb n = i) ns))"

lemma sess_trace_snoc:
  "sess_trace i (ns @ [n]) =
     (if nt_sdb n = i then sess_step (sess_trace i ns) (nt_kind n) else sess_trace i ns)"
  by (simp add: sess_trace_def)

text \<open>
  The invariant: each object has followed the protocol and its flag is the protocol's
  state; only session-aware objects are registered, the table lists hold registered
  objects, and every call was made with writes disabled.
\<close>

definition sub_inv :: "('w, 'z) st_scheme \<Rightarrow> bool" where
  "sub_inv s \<longleftrightarrow>
     (\<forall>i o1. gget (sdb_objs (sInfo s)) i = Some o1 \<longrightarrow>
        sd_isSA o1 \<and> sess_trace i (notifs s) = Some (openSent o1)) \<and>
     (\<forall>n l. gget (table2sDBs (sInfo s)) n = Some l \<longrightarrow> set l \<subseteq> set (sDBs (sInfo s))) \<and>
     (\<forall>i. gget (sdb_objs (sInfo s)) i \<noteq> None \<longleftrightarrow> i < length (sdb_objs (sInfo s))) \<and>
     set (sDBs (sInfo s)) \<subseteq> {i. i < length (sdb_objs (sInfo s))} \<and>
     (\<forall>n \<in> set (notifs s). nt_sdb n < length (sdb_objs (sInfo s)) \<and> nt_writeDisabled n)"

definition all_open :: "nat list \<Rightarrow> ('w, 'z) st_scheme \<Rightarrow> bool" where
  "all_open is s \<longleftrightarrow> (\<forall>i \<in> set is. \<forall>o1. gget (sdb_objs (sInfo s)) i = Some o1 \<longrightarrow> openSent o1)"

lemma length_gset: "gget m k \<noteq> None \<Longrightarrow> length (gset k v m) = length m"
  by (induction m) (auto simp: gset_def gget_def split: if_splits)

lemma sub_inv_open1:
  assumes "sub_inv s" "IsWriteDisabled (Opts (db s))" "gget (sdb_objs (sInfo s)) i = Some o1"
    "\<not> openSent o1"
  shows "sub_inv (set_open i True (callHFuncSA i CandidateConfigOpened None None SEventNone s))"
proof -
  have "i < length (sdb_objs (sInfo s))" using assms(1,3) by (auto simp: sub_inv_def)
  then show ?thesis
    using assms by (auto simp: sub_inv_def set_open_def callHFuncSA_def sess_trace_snoc length_gset)
qed

lemma sub_inv_close1:
  assumes "sub_inv s" "IsWriteDisabled (Opts (db s))" "gget (sdb_objs (sInfo s)) i = Some o1"
    "openSent o1"
  shows "sub_inv (set_open i False (callHFuncSA i CandidateConfigClosed None None SEventNone s))"
proof -
  have "i < length (sdb_objs (sInfo s))" using assms(1,3) by (auto simp: sub_inv_def)
  then show ?thesis
    using assms by (auto simp: sub_inv_def set_open_def callHFuncSA_def sess_trace_snoc length_gset)
qed

lemma open_one_inv:
  assumes "sub_inv s" "IsWriteDisabled (Opts (db s))"
  shows "sub_inv (open_one i s)"
proof (cases "gget (sdb_objs (sInfo s)) i")
  case (Some o1)
  then have "sd_isSA o1" using assms(1) by (auto simp: sub_inv_def)
  then show ?thesis using assms Some by (simp add: open_one_def sub_inv_open1)
qed (simp add: open_one_def assms(1))

lemma open_loop_inv:
  "sub_inv s \<Longrightarrow> IsWriteDisabled (Opts (db s)) \<Longrightarrow> sub_inv (open_loop is s)"
  by (induction "is" s rule: open_loop.induct) (auto simp: open_one_inv)

lemma close_one_inv:
  assumes "sub_inv s" "IsWriteDisabled (Opts (db s))"
  shows "sub_inv (close_one i s)"
proof (cases "gget (sdb_objs (sInfo s)) i")
  case (Some o1)
  then have "sd_isSA o1" using assms(1) by (auto simp: sub_inv_def)
  then show ?thesis using assms Some by (simp add: close_one_def sub_inv_close1)
qed (simp add: close_one_def assms(1))

lemma close_loop_inv:
  "sub_inv s \<Longrightarrow> IsWriteDisabled (Opts (db s)) \<Longrightarrow> sub_inv (close_loop is s)"
  by (induction "is" s rule: close_loop.induct) (auto simp: close_one_inv)

lemma gget_set_open:
  "gget (sdb_objs (sInfo (set_open i b s))) j =
     (if j = i then map_option (\<lambda>o1. o1\<lparr>openSent := b\<rparr>) (gget (sdb_objs (sInfo s)) i)
      else gget (sdb_objs (sInfo s)) j)"
  by (auto simp: set_open_def split: option.split)

text \<open>After the loop every object of the list is open, and open objects stay open.\<close>

lemma gget_open_one:
  "gget (sdb_objs (sInfo (open_one i s))) j =
     map_option (\<lambda>o1. o1\<lparr>openSent := openSent o1 \<or> (j = i \<and> sd_isSA o1)\<rparr>) (gget (sdb_objs (sInfo s)) j)"
  by (auto simp: open_one_def gget_set_open option.map_ident split: option.split)

lemma open_loop_all_open:
  "(\<And>o1. gget (sdb_objs (sInfo s)) j = Some o1 \<Longrightarrow> sd_isSA o1 \<and> (j \<in> set is \<or> openSent o1)) \<Longrightarrow>
   gget (sdb_objs (sInfo (open_loop is s))) j = Some o2 \<Longrightarrow> openSent o2"
proof (induction "is" s arbitrary: o2 rule: open_loop.induct)
  case (2 i "is" s)
  show ?case
  proof (rule 2(1))
    fix o1
    assume "gget (sdb_objs (sInfo (open_one i s))) j = Some o1"
    then show "sd_isSA o1 \<and> (j \<in> set is \<or> openSent o1)"
      using 2(2) by (auto simp: gget_open_one)
  next
    show "gget (sdb_objs (sInfo (open_loop is (open_one i s)))) j = Some o2" using 2(3) by simp
  qed
qed simp

lemma skey_loop_inv:
  "sub_inv s \<Longrightarrow> IsWriteDisabled (Opts (db s)) \<Longrightarrow> gget (sdb_objs (sInfo s)) i = Some o1 \<Longrightarrow>
    openSent o1 \<Longrightarrow> sub_inv (skey_loop i b sks key op1 op2 s)"
proof (induction i b sks key op1 op2 s rule: skey_loop.induct)
  case (2 i isSA skey sks key op1 op2 s)
  have one: "sub_inv (notify_op i skey key op t)"
    if "sub_inv t" "IsWriteDisabled (Opts (db t))" "gget (sdb_objs (sInfo t)) i = Some o1" for t :: "('a, 'b) st_scheme" and op
  proof -
    have "i < length (sdb_objs (sInfo t))" using that by (auto simp: sub_inv_def)
    moreover have "sess_trace i (notifs t) = Some True" using that 2(5) by (auto simp: sub_inv_def)
    ultimately show ?thesis
      using that by (auto simp: notify_op_def sub_inv_def callHFuncSA_def sess_trace_snoc Let_def)
  qed
  show ?case using 2 one by auto
qed simp

lemma notify_loop_inv:
  "sub_inv s \<Longrightarrow> IsWriteDisabled (Opts (db s)) \<Longrightarrow> all_open is s \<Longrightarrow>
    sub_inv (notify_loop is key op1 op2 s)"
proof (induction "is" key op1 op2 s rule: notify_loop.induct)
  case (2 i "is" key op1 op2 s)
  show ?case
  proof (cases "gget (sdb_objs (sInfo s)) i")
    case None
    then show ?thesis using 2 by (simp add: all_open_def)
  next
    case (Some o1)
    then have "sub_inv (skey_loop i (sd_isSA o1) (skeys o1) key op1 op2 s)"
      using 2(2-) by (auto simp: all_open_def intro: skey_loop_inv)
    then show ?thesis using 2 Some by (simp add: all_open_def)
  qed
qed simp

lemma sub_inv_set_wd [simp]: "sub_inv (set_wd b s) = sub_inv s"
  by (simp add: sub_inv_def)

lemma sendSessionOpened_inv: "sub_inv s \<Longrightarrow> sub_inv (sendSessionOpened s)"
  by (simp add: sendSessionOpened_def Let_def open_loop_inv)

lemma sendSessionClosed_inv: "sub_inv s \<Longrightarrow> sub_inv (sendSessionClosed s)"
  by (simp add: sendSessionClosed_def Let_def close_loop_inv)

lemma sendSessionNotification_inv:
  assumes "sub_inv s"
  shows "sub_inv (sendSessionNotification ts key op1 op2 s)"
proof -
  let ?s1 = "open_loop (sDBs (sInfo s)) (set_wd True s)"
  have i1: "sub_inv ?s1" using assms by (simp add: open_loop_inv)
  have "all_open l ?s1" if "gget (table2sDBs (sInfo ?s1)) (tsName ts) = Some l" for l
  proof (unfold all_open_def, intro ballI allI impI)
    fix i o1
    assume i: "i \<in> set l" and o1: "gget (sdb_objs (sInfo ?s1)) i = Some o1"
    have "set l \<subseteq> set (sDBs (sInfo s))" using that assms by (simp add: sub_inv_def)
    then have "i \<in> set (sDBs (sInfo s))" using i by blast
    moreover have "sd_isSA o2" if "gget (sdb_objs (sInfo (set_wd True s))) i = Some o2" for o2
      using that assms by (simp add: sub_inv_def)
    ultimately show "openSent o1" using open_loop_all_open[OF _ o1] by blast
  qed
  then show ?thesis
    using i1 by (auto simp: sendSessionNotification_def Let_def all_open_def
        intro!: notify_loop_inv split: option.split)
qed

definition table_list :: "(string, nat list) gomap \<Rightarrow> string \<Rightarrow> nat list" where
  "table_list m n = (case gget m n of None \<Rightarrow> [] | Some l \<Rightarrow> l)"

lemma table_list_gset: "table_list (gset k l m) n = (if n = k then l else table_list m n)"
  by (simp add: table_list_def)

lemma gget_add_tables:
  "set (table_list (add_tables i sks m) n) \<subseteq> insert i (set (table_list m n))"
proof (induction i sks m rule: add_tables.induct)
  case (2 i skey sks m)
  let ?k = "tsName (sk_Ts skey)"
  have "set (table_list (gset ?k (if list_ex (\<lambda>j. j = i) (table_list m ?k) then table_list m ?k
          else table_list m ?k @ [i]) m) n) \<subseteq> insert i (set (table_list m n))"
    by (auto simp: table_list_gset)
  then show ?case
    using 2[OF refl refl refl] by (auto simp: table_list_def[of m ?k] Let_def split: if_splits)
qed auto

lemma gget_snoc: "gget (m @ [(k, v)]) j = (case gget m j of None \<Rightarrow> (if j = k then Some v else None) | Some x \<Rightarrow> Some x)"
  by (simp add: gget_def map_add_def split: option.split)

lemma registerSubscribeDB_inv:
  assumes "sub_inv s"
  shows "sub_inv (s\<lparr>sInfo := registerSubscribeDB d isSA sks (sInfo s)\<rparr>)"
proof (cases isSA)
  case True
  let ?i = "length (sdb_objs (sInfo s))"
  have none: "gget (sdb_objs (sInfo s)) ?i = None"
    using assms by (metis less_irrefl sub_inv_def)
  have tr: "sess_trace ?i (notifs s) = Some False"
  proof -
    have "filter (\<lambda>n. nt_sdb n = ?i) (notifs s) = []"
      using assms by (auto simp: sub_inv_def filter_empty_conv)
    then show ?thesis by (simp add: sess_trace_def)
  qed
  define si where "si = registerSubscribeDB d isSA sks (sInfo s)"
  have objs: "sdb_objs si = sdb_objs (sInfo s) @
      [(?i, \<lparr>sd_d = d, sd_isSA = isSA, skeys = sks, openSent = False\<rparr>)]"
    and dbs: "sDBs si = sDBs (sInfo s) @ [?i]"
    and tbl: "table2sDBs si = add_tables ?i sks (table2sDBs (sInfo s))"
    using True by (simp_all add: si_def registerSubscribeDB_def Let_def)
  have ex: "gget (sdb_objs (sInfo s)) i \<noteq> None \<longleftrightarrow> i < ?i" for i
    using assms by (simp add: sub_inv_def)
  have "set l \<subseteq> set (sDBs si)" if l: "gget (table2sDBs si) n = Some l" for n l
  proof -
    have "set l \<subseteq> insert ?i (set (table_list (table2sDBs (sInfo s)) n))"
      using gget_add_tables[of ?i sks "table2sDBs (sInfo s)" n] l
      by (simp add: tbl table_list_def[of "add_tables _ _ _"])
    moreover have "set (table_list (table2sDBs (sInfo s)) n) \<subseteq> set (sDBs (sInfo s))"
      using assms by (cases "gget (table2sDBs (sInfo s)) n") (simp_all add: sub_inv_def table_list_def)
    ultimately show ?thesis by (auto simp: dbs)
  qed
  moreover have "sd_isSA o1 \<and> sess_trace i (notifs s) = Some (openSent o1)"
    if "gget (sdb_objs si) i = Some o1" for i o1
    using that none tr True assms
    by (auto simp: objs gget_snoc sub_inv_def split: option.splits if_splits)
  moreover have "gget (sdb_objs si) i \<noteq> None \<longleftrightarrow> i < length (sdb_objs si)" for i
    using ex[of i] none by (auto simp: objs gget_snoc less_Suc_eq split: option.split)
  moreover have "set (sDBs si) \<subseteq> {i. i < length (sdb_objs si)}"
    using assms by (auto simp: objs dbs sub_inv_def)
  moreover have "\<forall>n \<in> set (notifs s). nt_sdb n < length (sdb_objs si) \<and> nt_writeDisabled n"
    using assms by (auto simp: objs sub_inv_def)
  ultimately show ?thesis by (simp add: sub_inv_def si_def[symmetric])
next
  case False
  then show ?thesis using assms by (simp add: registerSubscribeDB_def)
qed

text \<open>
  The states of the package between calls: subscribers are registered, the three calls
  are made, and everything else (the connection and the server) may change freely.
\<close>

inductive sub_reach :: "'w st \<Rightarrow> bool" where
  sr_start: "sInfo s = \<lparr>sDBs = [], table2sDBs = [], sdb_objs = []\<rparr> \<Longrightarrow> notifs s = [] \<Longrightarrow> sub_reach s"
| sr_register: "sub_reach s \<Longrightarrow> sub_reach (s\<lparr>sInfo := registerSubscribeDB d isSA sks (sInfo s)\<rparr>)"
| sr_opened: "sub_reach s \<Longrightarrow> sub_reach (sendSessionOpened s)"
| sr_closed: "sub_reach s \<Longrightarrow> sub_reach (sendSessionClosed s)"
| sr_notified: "sub_reach s \<Longrightarrow> sub_reach (sendSessionNotification ts key op1 op2 s)"
| sr_other: "sub_reach s \<Longrightarrow> sub_reach (s\<lparr>world := w, db := d, savePoint := p, cdbLock := l\<rparr>)"

lemma sub_reach_inv: "sub_reach s \<Longrightarrow> sub_inv s"
proof (induction rule: sub_reach.induct)
  case (sr_start s)
  then show ?case by (simp add: sub_inv_def)
next
  case (sr_other s w d p l)
  then show ?case by (simp add: sub_inv_def)
qed (simp_all add: registerSubscribeDB_inv sendSessionOpened_inv sendSessionClosed_inv sendSessionNotification_inv)

end
