(* ===== verification/DB_Cache.thy ===== *)
theory DB_Cache
  imports DB_Subscribe
begin

text \<open>
  translib/db/db_cache.go, the configuration part of translib/db/db_stats.go, and
  translib/db/db_onchangecache.go up to the operations that read an entry: which tables
  and maps are cached, and how that configuration is read and replaced.

  A configuration is read from the entry \<open>TRANSLIB_DB|default\<close>; the reply of redis is an
  argument.
\<close>

section \<open>What is cached\<close>

definition gbool :: "(string, bool) gomap \<Rightarrow> string \<Rightarrow> bool" where
  "gbool m k = (case gget m k of None \<Rightarrow> False | Some b \<Rightarrow> b)"

definition isCacheTable :: "DBCacheConfig \<Rightarrow> string \<Rightarrow> bool" where
  "isCacheTable config name =
     (if (gbool (CacheTables config) name \<or> length (CacheTables config) = 0) \<and>
         \<not> gbool (NoCacheTables config) ''all'' \<and> \<not> gbool (NoCacheTables config) name
      then True else False)"

definition isCacheMap :: "DBCacheConfig \<Rightarrow> string \<Rightarrow> bool" where
  "isCacheMap config name =
     (if (gbool (CacheMaps config) name \<or> length (CacheMaps config) = 0) \<and>
         \<not> gbool (NoCacheMaps config) ''all'' \<and> \<not> gbool (NoCacheMaps config) name
      then True else False)"

definition onCReg_isCacheTable :: "(string, bool) gomap \<Rightarrow> string \<Rightarrow> bool" where
  "onCReg_isCacheTable reg name = gbool reg name"

section \<open>Reading the configuration\<close>

definition zeroCacheConfig :: DBCacheConfig where
  "zeroCacheConfig = \<lparr>PerConnection = False, GlobalCache = False, CacheTables = [],
     NoCacheTables = [], CacheMaps = [], NoCacheMaps = []\<rparr>"

definition defaultDBCacheConfig :: DBCacheConfig where
  "defaultDBCacheConfig = zeroCacheConfig"

definition split_set :: "string \<Rightarrow> (string, bool) gomap" where
  "split_set v = gset_all (map (\<lambda>t. (t, True)) (strSplit v '','')) []"

fun cache_fields :: "fields \<Rightarrow> DBCacheConfig \<Rightarrow> DBCacheConfig" where
  "cache_fields [] config = config"
| "cache_fields ((k, v) # fs) config =
     cache_fields fs
       (if k = ''per_connection_cache'' \<and> v = ''True'' then config\<lparr>PerConnection := True\<rparr>
        else if k = ''per_connection_cache'' \<and> v = ''False'' then config\<lparr>PerConnection := False\<rparr>
        else if k = ''global_cache'' \<and> v = ''True'' then config\<lparr>GlobalCache := True\<rparr>
        else if k = ''global_cache'' \<and> v = ''False'' then config\<lparr>GlobalCache := False\<rparr>
        else if k = ''@tables_cache'' then config\<lparr>CacheTables := split_set v\<rparr>
        else if k = ''@no_tables_cache'' then config\<lparr>NoCacheTables := split_set v\<rparr>
        else if k = ''@maps_cache'' then config\<lparr>CacheMaps := split_set v\<rparr>
        else if k = ''@no_maps_cache'' then config\<lparr>NoCacheMaps := split_set v\<rparr>
        else config)"

definition cache_readFromDB :: "(goerr + fields) \<Rightarrow> DBCacheConfig \<Rightarrow> goerr option \<times> DBCacheConfig" where
  "cache_readFromDB r config =
     (case r of
        Inl e \<Rightarrow>
          (Some e, config\<lparr>PerConnection := PerConnection defaultDBCacheConfig,
             GlobalCache := GlobalCache defaultDBCacheConfig,
             CacheTables := gset_all (CacheTables defaultDBCacheConfig) [],
             NoCacheTables := gset_all (NoCacheTables defaultDBCacheConfig) [],
             CacheMaps := gset_all (CacheMaps defaultDBCacheConfig) [],
             NoCacheMaps := gset_all (NoCacheMaps defaultDBCacheConfig) []\<rparr>)
      | Inr fs \<Rightarrow> (None, cache_fields fs config))"

text \<open>The pending-signal flag and the configuration in force.\<close>

definition cache_reconfigure :: "(goerr + fields) \<Rightarrow> bool \<times> DBCacheConfig \<Rightarrow> bool \<times> DBCacheConfig" where
  "cache_reconfigure r c =
     (case c of (doReconfigure, config) \<Rightarrow>
        if doReconfigure then (False, snd (cache_readFromDB r zeroCacheConfig)) else (False, config))"

definition cache_handleReconfigureSignal :: "bool \<times> DBCacheConfig \<Rightarrow> bool \<times> DBCacheConfig" where
  "cache_handleReconfigureSignal c = (True, snd c)"

definition getDBCacheConfig ::
  "(goerr + fields) \<Rightarrow> bool \<times> DBCacheConfig \<Rightarrow> DBCacheConfig \<times> (bool \<times> DBCacheConfig)" where
  "getDBCacheConfig r c =
     (let c' = cache_reconfigure r c; cfg = snd c' in
      (zeroCacheConfig\<lparr>CacheTables := gset_all (CacheTables cfg) [],
         NoCacheTables := gset_all (NoCacheTables cfg) [],
         CacheMaps := gset_all (CacheMaps cfg) [],
         NoCacheMaps := gset_all (NoCacheMaps cfg) [],
         PerConnection := PerConnection cfg, GlobalCache := GlobalCache cfg\<rparr>, c'))"

definition zeroStatsConfig :: DBStatsConfig where
  "zeroStatsConfig = \<lparr>TimeStats = False, TableStats = False, MapStats = False\<rparr>"

definition defaultDBStatsConfig :: DBStatsConfig where
  "defaultDBStatsConfig = zeroStatsConfig"

fun stats_fields :: "fields \<Rightarrow> DBStatsConfig \<Rightarrow> DBStatsConfig" where
  "stats_fields [] config = config"
| "stats_fields ((k, v) # fs) config =
     stats_fields fs
       (if k = ''time_stats'' \<and> v = ''True'' then config\<lparr>TimeStats := True\<rparr>
        else if k = ''time_stats'' \<and> v = ''False'' then config\<lparr>TimeStats := False\<rparr>
        else if k = ''table_stats'' \<and> v = ''True'' then config\<lparr>TableStats := True\<rparr>
        else if k = ''table_stats'' \<and> v = ''False'' then config\<lparr>TableStats := False\<rparr>
        else if k = ''map_stats'' \<and> v = ''True'' then config\<lparr>MapStats := True\<rparr>
        else if k = ''map_stats'' \<and> v = ''False'' then config\<lparr>MapStats := False\<rparr>
        else config)"

definition stats_readFromDB :: "(goerr + fields) \<Rightarrow> DBStatsConfig \<Rightarrow> goerr option \<times> DBStatsConfig" where
  "stats_readFromDB r config =
     (case r of
        Inl e \<Rightarrow> (Some e, config\<lparr>TimeStats := TimeStats defaultDBStatsConfig,
                      TableStats := TableStats defaultDBStatsConfig,
                      MapStats := MapStats defaultDBStatsConfig\<rparr>)
      | Inr fs \<Rightarrow> (None, stats_fields fs config))"

text \<open>A change of the statistics configuration clears the totals.\<close>

definition stats_reconfigure ::
  "nat \<Rightarrow> (goerr + fields) \<Rightarrow> bool \<times> DBStatsConfig \<times> DBGlobalStats \<Rightarrow> bool \<times> DBStatsConfig \<times> DBGlobalStats"
where
  "stats_reconfigure maxDB r c =
     (case c of (doReconfigure, config, g) \<Rightarrow>
        if doReconfigure then
          let new = snd (stats_readFromDB r zeroStatsConfig) in
          (False, new, if config \<noteq> new then clearStats maxDB else g)
        else (False, config, g))"

section \<open>Lemmas\<close>

lemma isCacheTable_all: "gbool (NoCacheTables c) ''all'' \<Longrightarrow> \<not> isCacheTable c n"
  by (simp add: isCacheTable_def)

lemma gok_split_set [simp]: "gok (split_set v)"
  by (simp add: split_set_def)

lemma gget_gset_all_True:
  "gget (gset_all (map (\<lambda>t. (t, True)) ts) m) n =
     (if n \<in> set ts then Some True else gget m n)"
  by (induction ts arbitrary: m) auto

lemma gbool_split_set: "gbool (split_set v) n \<longleftrightarrow> n \<in> set (strSplit v '','')"
  by (simp add: gbool_def split_set_def gget_gset_all_True)

text \<open>For a map without double keys the order of the fields does not matter.\<close>

lemma cache_fields_tables:
  "gok fs \<Longrightarrow> CacheTables (cache_fields fs config) =
     (case gget fs ''@tables_cache'' of None \<Rightarrow> CacheTables config | Some v \<Rightarrow> split_set v)"
proof (induction fs config rule: cache_fields.induct)
  case (2 k v fs config)
  then show ?case by (cases "k = ''@tables_cache''") (auto simp: in_gkeys split: option.split)
qed simp

lemma cache_fields_notables:
  "gok fs \<Longrightarrow> NoCacheTables (cache_fields fs config) =
     (case gget fs ''@no_tables_cache'' of None \<Rightarrow> NoCacheTables config | Some v \<Rightarrow> split_set v)"
proof (induction fs config rule: cache_fields.induct)
  case (2 k v fs config)
  then show ?case by (cases "k = ''@no_tables_cache''") (auto simp: in_gkeys split: option.split)
qed simp

end
