(* ===== verification/DB_Read.thy ===== *)
theory DB_Read
  imports DB_Cache
begin

text \<open>
  The read operations of translib/db/db.go: \<open>GetEntry\<close>, \<open>GetEntries\<close>, \<open>GetKeys\<close>,
  \<open>GetKeysPattern\<close>.

  A read looks in the transaction cache first (an entry without fields marks a deleted
  row), then in the per-connection cache where that is enabled, then asks redis.  The
  statistics of the call are recorded in every case.  The result of an operation that can
  index out of range is an option, \<open>None\<close> for the panic.
\<close>

section \<open>Shared parts\<close>

definition IsOpen :: "DB \<Rightarrow> bool" where
  "IsOpen d \<longleftrightarrow> db_client d \<noteq> None"

abbreviation client_of :: "DB \<Rightarrow> nat" where
  "client_of d \<equiv> the (db_client d)"

definition use_cache :: "DB \<Rightarrow> string \<Rightarrow> bool" where
  "use_cache d name \<longleftrightarrow>
     (IsOnChangeEnabled (Opts d) \<and> onCReg_isCacheTable (onCReg d) name) \<or>
     (PerConnection (dbCacheConfig d) \<and> isCacheTable (dbCacheConfig d) name)"

text \<open>\<open>d.cache.Tables[name]\<close>, made when missing.\<close>

definition empty_table :: "TableSpec \<Rightarrow> bool \<Rightarrow> Table" where
  "empty_table ts c = \<lparr>tb_ts = ts, tb_entry = [], tb_complete = c, tb_patterns = []\<rparr>"

definition cache_table :: "TableSpec \<Rightarrow> bool \<Rightarrow> dbCache \<Rightarrow> Table" where
  "cache_table ts c ca = (case gget (cTables ca) (tsName ts) of None \<Rightarrow> empty_table ts c | Some t \<Rightarrow> t)"

definition put_cache_entry :: "TableSpec \<Rightarrow> string \<Rightarrow> Value \<Rightarrow> DB \<Rightarrow> DB" where
  "put_cache_entry ts entry v d =
     (let t = cache_table ts False (db_cache d) in
      d\<lparr>db_cache := (db_cache d)\<lparr>cTables :=
          gset (tsName ts) (t\<lparr>tb_entry := gset entry v (tb_entry t)\<rparr>) (cTables (db_cache d))\<rparr>\<rparr>)"

definition put_cache_pattern :: "TableSpec \<Rightarrow> bool \<Rightarrow> string \<Rightarrow> Key list \<Rightarrow> DB \<Rightarrow> DB" where
  "put_cache_pattern ts c pat ks d =
     (let t = cache_table ts c (db_cache d) in
      d\<lparr>db_cache := (db_cache d)\<lparr>cTables :=
          gset (tsName ts) (t\<lparr>tb_patterns := gset pat ks (tb_patterns t)\<rparr>) (cTables (db_cache d))\<rparr>\<rparr>)"

definition note_table :: "string \<Rightarrow> (Stats \<Rightarrow> Stats) \<Rightarrow> DB \<Rightarrow> DB" where
  "note_table name f d =
     (let stats = table_stats (dbStatsConfig d) (db_stats d) name in
      d\<lparr>db_stats := put_table_stats (dbStatsConfig d) (db_stats d) name (f stats)\<rparr>)"

definition time_stats :: "DB \<Rightarrow> timed list \<Rightarrow> int \<Rightarrow> Stats \<Rightarrow> Stats" where
  "time_stats d ts dur st = (if TimeStats (dbStatsConfig d) then fold (\<lambda>t. add_time t dur) ts st else st)"

section \<open>GetEntry\<close>

definition getEntry ::
  "('w, 'z) ext_scheme \<Rightarrow> TableSpec \<Rightarrow> Key \<Rightarrow> bool \<Rightarrow> 'w st \<Rightarrow> (Value \<times> goerr option) \<times> 'w st" where
  "getEntry x ts key forceReadDB s =
     (let d = db s;
          entry = key2redis (Opts d) ts key;
          useCache = use_cache d (tsName ts);
          tx = tx_get (txTsEntryMap d) (tsName ts) entry;
          cached = (if useCache \<and> \<not> forceReadDB then
                      (case gget (cTables (db_cache d)) (tsName ts) of
                         None \<Rightarrow> None | Some table \<Rightarrow> gget (tb_entry table) entry)
                    else None);
          txCacheHit = (tx \<noteq> None);
          cacheHit = (tx = None \<and> cached \<noteq> None);
          (value0, e0) =
            (case tx of
               Some v \<Rightarrow> (Value_Copy v, None)
             | None \<Rightarrow>
                 (case cached of
                    Some v \<Rightarrow> (Value_Copy v, None)
                  | None \<Rightarrow>
                      (case x_hgetall x (world s) (client_of d) entry of
                         Inl e \<Rightarrow> (\<lparr>Flds = []\<rparr>, Some e)
                       | Inr v \<Rightarrow> (\<lparr>Flds = v\<rparr>, None))));
          (value1, e1, d1) =
            (if e0 \<noteq> None then (\<lparr>Flds = []\<rparr>, e0, d)
             else if \<not> IsPopulated value0 then
               (value0, Some (TranslibRedisClientEntryNotExist entry), d)
             else if \<not> cacheHit \<and> \<not> txCacheHit \<and> useCache then
               (value0, None, put_cache_entry ts entry (Value_Copy value0) d)
             else (value0, None, d));
          d2 = note_table (tsName ts)
                 (\<lambda>st. time_stats d [Total, TGetEntry] (x_dur x (world s))
                    (let st1 = inc GetEntryHits (inc Hits st)
                     in if cacheHit then inc GetEntryCacheHits st1 else st1)) d1
      in ((value1, e1), s\<lparr>db := d2\<rparr>))"

definition GetEntry ::
  "('w, 'z) ext_scheme \<Rightarrow> TableSpec \<Rightarrow> Key \<Rightarrow> 'w st \<Rightarrow> (Value \<times> goerr option) \<times> 'w st" where
  "GetEntry x ts key s =
     (if \<not> IsOpen (db s) then ((\<lparr>Flds = []\<rparr>, Some ConnectionClosed), s)
      else getEntry x ts key False s)"

section \<open>GetKeys\<close>

text \<open>The position of a key in a list of keys.\<close>

fun key_index :: "Key \<Rightarrow> Key list \<Rightarrow> nat \<Rightarrow> nat option" where
  "key_index key [] i = None"
| "key_index key (k # ks) i = (if Key_Equals key k then Some i else key_index key ks (Suc i))"

text \<open>
  The loop over the transaction cache: a pending row that redis does not list is added,
  a listed row that the transaction deletes is taken out.
\<close>

fun reconcile_keys ::
  "(string \<Rightarrow> Key option) \<Rightarrow> string \<Rightarrow> (string, Value) gomap \<Rightarrow> Key list \<Rightarrow> Key list option" where
  "reconcile_keys dec pat [] keys = Some keys"
| "reconcile_keys dec pat ((k, v) # tx) keys =
     (if patternMatch k 0 pat 0 then
        (case dec k of
           None \<Rightarrow> None
         | Some key \<Rightarrow>
             (case key_index key keys 0 of
                None \<Rightarrow>
                  reconcile_keys dec pat tx
                    (if length (Flds v) > 0 then keys @ [key] else keys)
              | Some index \<Rightarrow>
                  reconcile_keys dec pat tx
                    (if length (Flds v) = 0 then take index keys @ drop (Suc index) keys else keys)))
      else reconcile_keys dec pat tx keys)"

text \<open>
  On an error of KEYS the statistics are not recorded.  On a cache hit the code works on
  the cached slice itself; the loop leaves it alone, because \<open>NewDB\<close> turns the
  per-connection cache off on a connection that may write, so no row is pending.
\<close>

definition GetKeysPattern ::
  "('w, 'z) ext_scheme \<Rightarrow> TableSpec \<Rightarrow> Key \<Rightarrow> 'w st \<Rightarrow> ((Key list \<times> goerr option) \<times> 'w st) option" where
  "GetKeysPattern x ts pat s =
     (let d = db s; patKey = key2redis (Opts d) ts pat;
          caching = (PerConnection (dbCacheConfig d) \<and> isCacheTable (dbCacheConfig d) (tsName ts)) in
      if \<not> IsOpen d then Some (([], Some ConnectionClosed), s)
      else
        let cached = (if caching then
                        (case gget (cTables (db_cache d)) (tsName ts) of
                           None \<Rightarrow> None | Some table \<Rightarrow> gget (tb_patterns table) patKey)
                      else None);
            cacheHit = (cached \<noteq> None) in
        case (case cached of
                Some ks \<Rightarrow> Some (Inr ks, d)
              | None \<Rightarrow>
                  (case x_keys x (world s) (client_of d) patKey of
                     Inl e \<Rightarrow> Some (Inl e, d)
                   | Inr redisKeys \<Rightarrow>
                       (case those (map (redis2key (Opts d) ts) redisKeys) of
                          None \<Rightarrow> None
                        | Some ks \<Rightarrow>
                            Some (Inr ks, if caching then put_cache_pattern ts False patKey (map Key_Copy ks) d
                                          else d)))) of
          None \<Rightarrow> None
        | Some (Inl e, d1) \<Rightarrow> Some (([], Some e), s\<lparr>db := d1\<rparr>)
        | Some (Inr keys, d1) \<Rightarrow>
            (case reconcile_keys (redis2key (Opts d) ts) patKey
                    (tx_table (txTsEntryMap d) (tsName ts)) keys of
               None \<Rightarrow> None
             | Some keys' \<Rightarrow>
                 let isAll = (length (Comp pat) = 1 \<and> Comp pat ! 0 = ''*'');
                     d2 = note_table (tsName ts)
                       (\<lambda>st. time_stats d (if isAll then [Total, TGetKeysPattern, TGetKeys]
                                           else [Total, TGetKeysPattern]) (x_dur x (world s))
                          (let st1 = inc GetKeysPatternHits (inc Hits st);
                               st2 = (if cacheHit then inc GetKeysPatternCacheHits st1 else st1);
                               st3 = (if isAll then inc GetKeysHits st2 else st2)
                           in if isAll \<and> cacheHit then inc GetKeysCacheHits st3 else st3)) d1
                 in Some ((keys', None), s\<lparr>db := d2\<rparr>)))"

definition GetKeys ::
  "('w, 'z) ext_scheme \<Rightarrow> TableSpec \<Rightarrow> 'w st \<Rightarrow> ((Key list \<times> goerr option) \<times> 'w st) option" where
  "GetKeys x ts s =
     (let opts = Opts (db s);
          tNkPat = strSplitN (tsName ts) (TableNameSeparator opts) 2 in
      if length tNkPat = 2 then
        GetKeysPattern x \<lparr>tsName = tNkPat ! 0, CompCt = CompCt ts, NoDelete = False\<rparr>
          \<lparr>Comp = strSplit (tNkPat ! 1) (KeySeparator opts) @ [''*'']\<rparr> s
      else GetKeysPattern x ts \<lparr>Comp = [''*'']\<rparr> s)"

definition GetKeysByPattern ::
  "('w, 'z) ext_scheme \<Rightarrow> TableSpec \<Rightarrow> string \<Rightarrow> 'w st \<Rightarrow> ((Key list \<times> goerr option) \<times> 'w st) option" where
  "GetKeysByPattern x ts pattern s = GetKeysPattern x ts \<lparr>Comp = [pattern]\<rparr> s"

section \<open>GetEntries\<close>

text \<open>
  The error slice is nil (\<open>None\<close>) until the first error is stored.
\<close>

definition setError :: "goerr \<Rightarrow> nat \<Rightarrow> nat \<Rightarrow> goerr option list option \<Rightarrow> goerr option list option" where
  "setError e idx numKeys errs =
     Some ((case errs of None \<Rightarrow> replicate numKeys None | Some l \<Rightarrow> l)[idx := Some e])"

text \<open>The first loop: what the two caches know.  The rest is asked from redis.\<close>

definition lookup_one ::
  "DB \<Rightarrow> TableSpec \<Rightarrow> bool \<Rightarrow> string \<Rightarrow> Value option \<times> Value option" where
  "lookup_one d ts forceReadDB entry =
     (case tx_get (txTsEntryMap d) (tsName ts) entry of
        Some v \<Rightarrow> (Some v, None)
      | None \<Rightarrow>
          (None,
           if use_cache d (tsName ts) \<and> \<not> forceReadDB then
             (case gget (cTables (db_cache d)) (tsName ts) of
                None \<Rightarrow> None | Some t \<Rightarrow> gget (tb_entry t) entry)
           else None))"

fun entries_loop1 ::
  "DB \<Rightarrow> TableSpec \<Rightarrow> bool \<Rightarrow> nat \<Rightarrow> Key list \<Rightarrow> nat \<Rightarrow>
     Value list \<times> goerr option list option \<times> Stats \<times> (nat \<times> string) list \<Rightarrow>
     Value list \<times> goerr option list option \<times> Stats \<times> (nat \<times> string) list" where
  "entries_loop1 d ts forceReadDB numKeys [] idx acc = acc"
| "entries_loop1 d ts forceReadDB numKeys (key # keys) idx (values, errors, stats, dbKeys) =
     entries_loop1 d ts forceReadDB numKeys keys (Suc idx)
       (let entry = key2redis (Opts d) ts key in
        case lookup_one d ts forceReadDB entry of
          (Some v, _) \<Rightarrow>
            (values[idx := Value_Copy v],
             if length (Flds v) = 0
             then setError (TranslibRedisClientEntryNotExist entry) idx numKeys errors else errors,
             stats, dbKeys)
        | (None, Some v) \<Rightarrow> (values[idx := Value_Copy v], errors, inc GetEntryCacheHits stats, dbKeys)
        | (None, None) \<Rightarrow> (values, errors, stats, dbKeys @ [(idx, entry)]))"

text \<open>The pipeline: one HGETALL per key; \<open>Exec\<close> reports the first error of its commands.\<close>

definition getMultiEntry ::
  "('w, 'z) ext_scheme \<Rightarrow> string list \<Rightarrow> 'w st \<Rightarrow> (goerr + fields) list \<times> goerr option" where
  "getMultiEntry x keys s =
     (let results = map (x_hgetall x (world s) (client_of (db s))) keys in
      (results, map_option (\<lambda>r. case r of Inl e \<Rightarrow> e | Inr _ \<Rightarrow> GoError [])
                  (find (\<lambda>r. case r of Inl _ \<Rightarrow> True | Inr _ \<Rightarrow> False) results)))"

fun entries_fail ::
  "nat \<Rightarrow> (nat \<times> string) list \<Rightarrow> Value list \<times> goerr option list option \<Rightarrow>
     Value list \<times> goerr option list option" where
  "entries_fail numKeys [] acc = acc"
| "entries_fail numKeys ((keyIdx, dbKey) # ks) (values, errors) =
     entries_fail numKeys ks
       (values[keyIdx := \<lparr>Flds = []\<rparr>],
        setError (TranslibRedisClientEntryNotExist dbKey) keyIdx numKeys errors)"

fun entries_fill ::
  "TableSpec \<Rightarrow> bool \<Rightarrow> nat \<Rightarrow> ((nat \<times> string) \<times> (goerr + fields)) list \<Rightarrow>
     Value list \<times> goerr option list option \<times> DB \<Rightarrow> Value list \<times> goerr option list option \<times> DB" where
  "entries_fill ts cacheChk numKeys [] acc = acc"
| "entries_fill ts cacheChk numKeys (((keyIdx, dbKey), r) # rs) (values, errors, d) =
     entries_fill ts cacheChk numKeys rs
       (case r of
          Inl e \<Rightarrow> (values[keyIdx := \<lparr>Flds = []\<rparr>], setError e keyIdx numKeys errors, d)
        | Inr res \<Rightarrow>
            if length res \<noteq> 0 then
              (values[keyIdx := \<lparr>Flds = res\<rparr>], errors,
               if cacheChk then put_cache_entry ts dbKey (Value_Copy \<lparr>Flds = res\<rparr>) d else d)
            else
              (values[keyIdx := \<lparr>Flds = res\<rparr>],
               setError (TranslibRedisClientEntryNotExist dbKey) keyIdx numKeys errors, d))"

definition getEntries ::
  "('w, 'z) ext_scheme \<Rightarrow> TableSpec \<Rightarrow> Key list \<Rightarrow> bool \<Rightarrow> 'w st \<Rightarrow>
     (Value list \<times> goerr option list option) \<times> 'w st" where
  "getEntries x ts keys forceReadDB s =
     (let d = db s; n = length keys; cacheChk = use_cache d (tsName ts);
          stats0 = table_stats (dbStatsConfig d) (db_stats d) (tsName ts);
          (values1, errors1, stats1, dbKeys) =
            entries_loop1 d ts forceReadDB n keys 0 (replicate n \<lparr>Flds = []\<rparr>, None, stats0, []);
          (values2, errors2, d2) =
            (if length dbKeys > 0 then
               (case getMultiEntry x (map snd dbKeys) s of
                  (results, Some err) \<Rightarrow>
                    (case entries_fail n dbKeys
                            (values1, case errors1 of None \<Rightarrow> Some (replicate n None) | Some l \<Rightarrow> Some l) of
                       (v, es) \<Rightarrow> (v, es, d))
                | (results, None) \<Rightarrow>
                    entries_fill ts cacheChk n (zip dbKeys results) (values1, errors1, d))
             else (values1, errors1, d));
          stats2 = stats1\<lparr>ctr := (ctr stats1)(GetEntryHits := ctr stats1 GetEntryHits + of_nat n)\<rparr>;
          stats3 = time_stats d [Total, TGetEntries] (x_dur x (world s))
                     (inc GetEntriesHits (inc Hits stats2))
      in ((values2, errors2),
          s\<lparr>db := d2\<lparr>db_stats := put_table_stats (dbStatsConfig d2) (db_stats d2) (tsName ts) stats3\<rparr>\<rparr>))"

definition GetEntries ::
  "('w, 'z) ext_scheme \<Rightarrow> TableSpec \<Rightarrow> Key list \<Rightarrow> 'w st \<Rightarrow>
     (Value list \<times> goerr option list option) \<times> 'w st" where
  "GetEntries x ts keys s =
     (if db_client (db s) = None then
        ((replicate (length keys) \<lparr>Flds = []\<rparr>,
          Some (replicate (length keys) (Some TranslibDBConnectionReset))), s)
      else getEntries x ts keys False s)"

section \<open>What a read leaves alone\<close>

lemma put_cache_entry_frame [simp]:
  "Opts (put_cache_entry ts k v d) = Opts d" "txTsEntryMap (put_cache_entry ts k v d) = txTsEntryMap d"
  "tx_state (put_cache_entry ts k v d) = tx_state d" "txCmds (put_cache_entry ts k v d) = txCmds d"
  "db_client (put_cache_entry ts k v d) = db_client d"
  "dbCacheConfig (put_cache_entry ts k v d) = dbCacheConfig d" "onCReg (put_cache_entry ts k v d) = onCReg d"
  "db_err (put_cache_entry ts k v d) = db_err d" "db_cv (put_cache_entry ts k v d) = db_cv d"
  "cvlEditConfigData (put_cache_entry ts k v d) = cvlEditConfigData d"
  "txTsEntryHGetAll (put_cache_entry ts k v d) = txTsEntryHGetAll d"
  "dbStatsConfig (put_cache_entry ts k v d) = dbStatsConfig d"
  "db_stats (put_cache_entry ts k v d) = db_stats d"
  "configDBLocked (put_cache_entry ts k v d) = configDBLocked d"
  by (simp_all add: put_cache_entry_def Let_def)

lemma put_cache_pattern_frame [simp]:
  "Opts (put_cache_pattern ts c k v d) = Opts d"
  "txTsEntryMap (put_cache_pattern ts c k v d) = txTsEntryMap d"
  "tx_state (put_cache_pattern ts c k v d) = tx_state d" "txCmds (put_cache_pattern ts c k v d) = txCmds d"
  "db_client (put_cache_pattern ts c k v d) = db_client d"
  "dbCacheConfig (put_cache_pattern ts c k v d) = dbCacheConfig d"
  "onCReg (put_cache_pattern ts c k v d) = onCReg d"
  "db_err (put_cache_pattern ts c k v d) = db_err d" "db_cv (put_cache_pattern ts c k v d) = db_cv d"
  "cvlEditConfigData (put_cache_pattern ts c k v d) = cvlEditConfigData d"
  "txTsEntryHGetAll (put_cache_pattern ts c k v d) = txTsEntryHGetAll d"
  "configDBLocked (put_cache_pattern ts c k v d) = configDBLocked d"
  by (simp_all add: put_cache_pattern_def Let_def)

lemma note_table_frame [simp]:
  "Opts (note_table n f d) = Opts d" "txTsEntryMap (note_table n f d) = txTsEntryMap d"
  "tx_state (note_table n f d) = tx_state d" "txCmds (note_table n f d) = txCmds d"
  "db_client (note_table n f d) = db_client d" "db_cache (note_table n f d) = db_cache d"
  "dbCacheConfig (note_table n f d) = dbCacheConfig d" "onCReg (note_table n f d) = onCReg d"
  "db_err (note_table n f d) = db_err d" "db_cv (note_table n f d) = db_cv d"
  "cvlEditConfigData (note_table n f d) = cvlEditConfigData d"
  "txTsEntryHGetAll (note_table n f d) = txTsEntryHGetAll d"
  "dbStatsConfig (note_table n f d) = dbStatsConfig d"
  "configDBLocked (note_table n f d) = configDBLocked d"
  by (simp_all add: note_table_def Let_def)

text \<open>The part of the database object that the transaction layer works on.\<close>

definition same_tx :: "DB \<Rightarrow> DB \<Rightarrow> bool" where
  "same_tx d d' \<longleftrightarrow>
     db_client d' = db_client d \<and> Opts d' = Opts d \<and> tx_state d' = tx_state d \<and>
     txCmds d' = txCmds d \<and> txTsEntryMap d' = txTsEntryMap d \<and>
     txTsEntryHGetAll d' = txTsEntryHGetAll d \<and> db_cv d' = db_cv d \<and> db_err d' = db_err d \<and>
     cvlEditConfigData d' = cvlEditConfigData d \<and> configDBLocked d' = configDBLocked d \<and>
     dbCacheConfig d' = dbCacheConfig d \<and> onCReg d' = onCReg d"

definition same_pkg :: "'w st \<Rightarrow> 'w st \<Rightarrow> bool" where
  "same_pkg s s' \<longleftrightarrow> world s' = world s \<and> cdbLock s' = cdbLock s \<and> savePoint s' = savePoint s \<and>
     sInfo s' = sInfo s \<and> notifs s' = notifs s \<and> dbGlobalStats s' = dbGlobalStats s"

lemma same_tx_refl [simp]: "same_tx d d"
  by (simp add: same_tx_def)

lemma same_pkg_refl [simp]: "same_pkg s s"
  by (simp add: same_pkg_def)

lemma same_tx_put_cache_entry [simp]: "same_tx d (put_cache_entry ts k v d') = same_tx d d'"
  by (simp add: same_tx_def)

lemma same_tx_put_cache_pattern [simp]: "same_tx d (put_cache_pattern ts c k v d') = same_tx d d'"
  by (simp add: same_tx_def)

lemma same_tx_note_table [simp]: "same_tx d (note_table n f d') = same_tx d d'"
  by (simp add: same_tx_def)

lemma same_tx_db_stats [simp]: "same_tx d (d'\<lparr>db_stats := a\<rparr>) = same_tx d d'"
  by (simp add: same_tx_def)

lemma same_pkg_db [simp]: "same_pkg s (s'\<lparr>db := d\<rparr>) = same_pkg s s'"
  by (simp add: same_pkg_def)

lemma getEntry_same_tx [simp]: "same_tx (db s) (db (snd (getEntry x ts key f s)))"
  unfolding getEntry_def Let_def case_prod_beta by simp

lemma getEntry_same_pkg [simp]: "same_pkg s (snd (getEntry x ts key f s))"
  unfolding getEntry_def Let_def case_prod_beta by simp

lemma GetEntry_same [simp]: "same_tx (db s) (db (snd (GetEntry x ts key s)))"
  "same_pkg s (snd (GetEntry x ts key s))"
  by (simp_all add: GetEntry_def)

section \<open>The value of an entry as a reader sees it\<close>

text \<open>
  The transaction's value if there is one, otherwise what redis holds.  \<open>base\<close> is the
  content of redis, without fields for an absent key.
\<close>

definition view :: "(string \<Rightarrow> fields) \<Rightarrow> DB \<Rightarrow> string \<Rightarrow> string \<Rightarrow> fields" where
  "view base d t k = (case tx_get (txTsEntryMap d) t k of None \<Rightarrow> base k | Some v \<Rightarrow> Flds v)"

definition txok :: "txCache \<Rightarrow> bool" where
  "txok m \<longleftrightarrow> (\<forall>t k v. tx_get m t k = Some v \<longrightarrow> gok (Flds v))"

text \<open>Without a cache entry for the key, a read that redis answers gives the view.\<close>

lemma getEntry_view:
  assumes "x_hgetall x (world s) (client_of (db s)) (key2redis (Opts (db s)) ts key) =
      Inr (base (key2redis (Opts (db s)) ts key))"
    and "\<not> use_cache (db s) (tsName ts)" "txok (txTsEntryMap (db s))"
  shows "fst (getEntry x ts key f s) =
     (let v = view base (db s) (tsName ts) (key2redis (Opts (db s)) ts key) in
      (\<lparr>Flds = v\<rparr>, if v = [] then Some (TranslibRedisClientEntryNotExist (key2redis (Opts (db s)) ts key)) else None))"
proof (cases "tx_get (txTsEntryMap (db s)) (tsName ts) (key2redis (Opts (db s)) ts key)")
  case None
  then show ?thesis using assms(1,2)
    by (simp add: getEntry_def Let_def view_def IsPopulated_iff)
next
  case (Some v)
  then have "Value_Copy v = v" using assms(3) by (auto simp: txok_def Value_Copy_ok)
  then show ?thesis using Some assms(2)
    by (simp add: getEntry_def Let_def view_def IsPopulated_iff)
qed

section \<open>The keys that a reader sees\<close>

lemma key_index_None: "key_index key ks i = None \<longleftrightarrow> key \<notin> set ks"
  by (induction key ks i rule: key_index.induct) auto

lemma key_index_Some:
  "key_index key ks i = Some j \<Longrightarrow>
     i \<le> j \<and> take (j - i) ks @ drop (Suc (j - i)) ks = remove1 key ks \<and> key \<in> set ks"
proof (induction key ks i rule: key_index.induct)
  case (2 key k ks i)
  show ?case
  proof (cases "key = k")
    case True
    then show ?thesis using 2(2) by auto
  next
    case False
    then have j: "Suc i \<le> j" "take (j - Suc i) ks @ drop (Suc (j - Suc i)) ks = remove1 key ks"
      "key \<in> set ks"
      using 2 by auto
    then have "j - i = Suc (j - Suc i)" by simp
    then show ?thesis using j False by auto
  qed
qed simp

lemma reconcile_keys_Cons:
  "dec k = Some key \<Longrightarrow>
     reconcile_keys dec pat ((k, v) # tx) keys =
       reconcile_keys dec pat tx
         (if patternMatch k 0 pat 0 then
            (if key \<in> set keys then (if Flds v = [] then remove1 key keys else keys)
             else if Flds v = [] then keys else keys @ [key])
          else keys)"
  using key_index_Some[of key keys 0]
  by (auto split: option.split simp: key_index_None)

text \<open>
  With decodable names the loop gives the listed keys without the deleted ones, and the
  pending rows that match.
\<close>

lemma reconcile_keys_set:
  assumes "gok tx" "\<forall>(k, v) \<in> set tx. dec k = Some (f k)" "inj_on f (set (gkeys tx))"
    and "distinct keys"
  shows "\<exists>keys'. reconcile_keys dec pat tx keys = Some keys' \<and> distinct keys' \<and>
     set keys' = {key \<in> set keys. \<not> (\<exists>k v. (k, v) \<in> set tx \<and> f k = key \<and> patternMatch k 0 pat 0 \<and> Flds v = [])}
       \<union> {f k | k v. (k, v) \<in> set tx \<and> patternMatch k 0 pat 0 \<and> Flds v \<noteq> []}"
  using assms
proof (induction tx arbitrary: keys)
  case Nil
  then show ?case by simp
next
  case (Cons p tx)
  obtain k v where p: "p = (k, v)" by (cases p)
  let ?keys1 = "if patternMatch k 0 pat 0 then
            (if f k \<in> set keys then (if Flds v = [] then remove1 (f k) keys else keys)
             else if Flds v = [] then keys else keys @ [f k])
          else keys"
  have step: "reconcile_keys dec pat (p # tx) keys = reconcile_keys dec pat tx ?keys1"
    using Cons.prems(2) p by (simp add: reconcile_keys_Cons[of dec k "f k"] del: reconcile_keys.simps)
  have d1: "distinct ?keys1" using Cons.prems(4) by auto
  have fresh: "f k \<noteq> f k'" if "(k', v') \<in> set tx" for k' v'
  proof
    assume eq: "f k = f k'"
    have k': "k' \<in> set (gkeys tx)" using that by (force simp: gkeys_def)
    then have "k = k'"
      by (intro inj_onD[OF Cons.prems(3) eq]) (auto simp: p gkeys_def)
    then show False using Cons.prems(1) k' p by simp
  qed
  obtain keys' where k': "reconcile_keys dec pat tx ?keys1 = Some keys'" "distinct keys'"
    "set keys' = {key \<in> set ?keys1. \<not> (\<exists>k v. (k, v) \<in> set tx \<and> f k = key \<and> patternMatch k 0 pat 0 \<and> Flds v = [])}
       \<union> {f k | k v. (k, v) \<in> set tx \<and> patternMatch k 0 pat 0 \<and> Flds v \<noteq> []}"
    using Cons.IH[OF _ _ _ d1] Cons.prems(1,2,3) by (auto simp: p gkeys_def)
  have "set ?keys1 = (if patternMatch k 0 pat 0 then
      (if Flds v = [] then set keys - {f k} else insert (f k) (set keys)) else set keys)"
    using Cons.prems(4) by auto
  then have "set keys' = {key \<in> set keys. \<not> (\<exists>k v. (k, v) \<in> set (p # tx) \<and> f k = key \<and> patternMatch k 0 pat 0 \<and> Flds v = [])}
       \<union> {f k | k v. (k, v) \<in> set (p # tx) \<and> patternMatch k 0 pat 0 \<and> Flds v \<noteq> []}"
    unfolding k'(3) using fresh fresh[symmetric] by (auto simp: p)
  then show ?case using step k'(1,2) by auto
qed

end
