(* ===== verification/DB_Savepoint.thy ===== *)
theory DB_Savepoint
  imports DB_Read
begin

text \<open>
  translib/db/db_savepoint.go, db_cvl_hint.go and \<open>NewValidationSession\<close> of
  cvl_db_access.go: the savepoint of a configuration session.

  The savepoint records the lengths of the two logs and the original value of each entry
  that the transaction cache changes after it.  A rollback cuts the logs, rebuilds the
  transaction cache from the recorded HGETALL results and plays the validated operations
  back through a new validation session.

  \<open>Rollback2SP\<close> is an option: \<open>None\<close> for a panic (a write to a nil map, a name without a
  separator) and for a recorded length beyond the log.  The hints of a savepoint are
  only ever kept, the call that would replay them is commented out in the source.
\<close>

section \<open>Declaring, releasing, recording\<close>

definition HasSP :: "('w, 'z) st_scheme \<Rightarrow> bool" where
  "HasSP s = (if \<not> IsSession (Opts (db s)) then False else savePoint s \<noteq> None)"

definition DeclareSP :: "'w st \<Rightarrow> goerr option \<times> 'w st" where
  "DeclareSP s =
     (if \<not> IsSession (Opts (db s)) then (Some TranslibInvalidSession, s)
      else if savePoint s \<noteq> None then (Some (TranslibDBNotSupported []), s)
      else (None, s\<lparr>savePoint := Some \<lparr>txCmdsLen = length (txCmds (db s)),
              cECDLen = length (cvlEditConfigData (db s)), txTsOrigEntryMap = [], cHints = []\<rparr>\<rparr>))"

definition ReleaseSP :: "'w st \<Rightarrow> goerr option \<times> 'w st" where
  "ReleaseSP s =
     (if \<not> IsSession (Opts (db s)) then (Some TranslibInvalidSession, s)
      else if savePoint s = None then (Some (TranslibDBNotSupported []), s)
      else (None, s\<lparr>savePoint := None\<rparr>))"

definition doTxSPsave :: "TableSpec \<Rightarrow> Key \<Rightarrow> 'w st \<Rightarrow> 'w st" where
  "doTxSPsave ts key s =
     (case savePoint s of
        None \<Rightarrow> s
      | Some sp \<Rightarrow>
          if \<not> IsSession (Opts (db s)) then s
          else
            let redisKey = key2redis (Opts (db s)) ts key;
                tbl = (case gget (txTsOrigEntryMap sp) (tsName ts) of None \<Rightarrow> [] | Some t \<Rightarrow> t);
                tbl' = (if ghas tbl redisKey then tbl
                        else gset redisKey
                          (case tx_get (txTsEntryMap (db s)) (tsName ts) redisKey of
                             None \<Rightarrow> \<lparr>oe_value = Value_Copy \<lparr>Flds = []\<rparr>, oe_absent = True\<rparr>
                           | Some v \<Rightarrow> \<lparr>oe_value = Value_Copy v, oe_absent = False\<rparr>) tbl)
            in s\<lparr>savePoint := Some (sp\<lparr>txTsOrigEntryMap := gset (tsName ts) tbl' (txTsOrigEntryMap sp)\<rparr>)\<rparr>)"

definition doTxSPsaveHGetAll :: "TableSpec \<Rightarrow> Key \<Rightarrow> Value \<Rightarrow> 'w st \<Rightarrow> 'w st" where
  "doTxSPsaveHGetAll ts key value s =
     (if savePoint s = None \<or> \<not> IsSession (Opts (db s)) then s
      else upd_db (\<lambda>d. d\<lparr>txTsEntryHGetAll :=
             tx_put (tsName ts) (key2redis (Opts d) ts key) (Value_Copy value) (txTsEntryHGetAll d)\<rparr>) s)"

definition doCHintSave :: "string \<Rightarrow> string option \<Rightarrow> 'w st \<Rightarrow> 'w st" where
  "doCHintSave key value s =
     (case savePoint s of
        None \<Rightarrow> s
      | Some sp \<Rightarrow>
          if \<not> IsSession (Opts (db s)) then s
          else
            let n = length (cvlEditConfigData (db s));
                h = (case gget (cHints sp) n of None \<Rightarrow> [] | Some h \<Rightarrow> h)
            in s\<lparr>savePoint := Some (sp\<lparr>cHints := gset n (gset key value h) (cHints sp)\<rparr>)\<rparr>)"

section \<open>Validation hints and sessions\<close>

definition StoreCVLHint :: "string \<Rightarrow> string option \<Rightarrow> 'w st \<Rightarrow> goerr option \<times> 'w st" where
  "StoreCVLHint key value s =
     (let d = db s in
      if db_client d = None then (Some TranslibDBConnectionReset, s)
      else if DBNo (Opts d) \<noteq> ConfigDB then
        (Some (TranslibDBNotSupported ''StoreCVLHint: Supports CONFIG_DB only''), s)
      else if length key = 0 then
        (Some (TranslibDBNotSupported ''StoreCVLHint: Supports non-zero string key type only''), s)
      else if DisableCVLCheck (Opts d) then (None, s)
      else if db_cv d \<noteq> None then (None, doCHintSave key value s)
      else (None, upd_db (\<lambda>d. d\<lparr>cvlHintsB4Open := gset key value (cvlHintsB4Open d)\<rparr>) s))"

definition clearCVLHint :: "string \<Rightarrow> 'w st \<Rightarrow> 'w st" where
  "clearCVLHint key s =
     (if db_client (db s) = None then s
      else if db_cv (db s) \<noteq> None then doCHintSave key None s else s)"

definition NewValidationSession :: "('w, 'z) ext_scheme \<Rightarrow> 'w st \<Rightarrow> (goerr + nat) \<times> 'w st" where
  "NewValidationSession x s =
     (if DBNo (Opts (db s)) \<noteq> ConfigDB then (Inl (TranslibDBNotSupported []), s)
      else case x_cvl_open x (world s) (db s) of
        (w, Inl status) \<Rightarrow> (Inl (TranslibCVLFailure status []), s\<lparr>world := w\<rparr>)
      | (w, Inr c) \<Rightarrow> (Inr c, s\<lparr>world := w\<rparr>))"

section \<open>Rollback\<close>

text \<open>The notifications for the entries that the rollback changes.\<close>

definition rb_cmd :: "string \<Rightarrow> txOp \<Rightarrow> Key \<Rightarrow> txCmd" where
  "rb_cmd otn op key = \<lparr>tc_ts = tspec otn, tc_op = op, tc_key = key, tc_value = \<lparr>Flds = []\<rparr>\<rparr>"

fun rb_ops_table ::
  "Options \<Rightarrow> string \<Rightarrow> (string, Value) gomap \<Rightarrow> (string, origEntry) gomap \<Rightarrow> txCmd list option" where
  "rb_ops_table opts otn tbl [] = Some []"
| "rb_ops_table opts otn tbl ((oRedisKey, oEntry) # rest) =
     (case redis2key opts (tspec otn) oRedisKey of
        None \<Rightarrow> None
      | Some key \<Rightarrow>
          let ops =
            (if oe_absent oEntry then [rb_cmd otn txOpDel key]
             else
               let (hSet, hDel) =
                 (case gget tbl oRedisKey of
                    None \<Rightarrow> (True, False)
                  | Some v \<Rightarrow> Compare4TxOps v (oe_value oEntry))
               in (if hSet then [rb_cmd otn txOpHMSet key] else []) @
                  (if hDel then [rb_cmd otn txOpHDel key] else []))
          in map_option ((@) ops) (rb_ops_table opts otn tbl rest))"

fun rb_ops ::
  "Options \<Rightarrow> txCache \<Rightarrow> (string, (string, origEntry) gomap) gomap \<Rightarrow> txCmd list option" where
  "rb_ops opts m [] = Some []"
| "rb_ops opts m ((otn, otbl) # rest) =
     (case gget m otn of
        None \<Rightarrow> rb_ops opts m rest
      | Some tbl \<Rightarrow>
          (case rb_ops_table opts otn tbl otbl of
             None \<Rightarrow> None
           | Some ops \<Rightarrow> map_option ((@) ops) (rb_ops opts m rest)))"

text \<open>
  The cache is emptied table by table and filled with the recorded HGETALL results.  For
  a table that is missing the code makes a new map in \<open>txTsEntryHGetAll\<close>, so the write
  into \<open>txTsEntryMap[tn]\<close> that follows panics when there is anything to write.
\<close>

definition rb_clear :: "txCache \<Rightarrow> txCache" where
  "rb_clear m = map (\<lambda>(tn, tb). (tn, [])) m"

fun rb_fill_table :: "string \<Rightarrow> (string, Value) gomap \<Rightarrow> txCache \<Rightarrow> txCache" where
  "rb_fill_table tn [] m = m"
| "rb_fill_table tn ((k, v) # tb) m = rb_fill_table tn tb (tx_put tn k (Value_Copy v) m)"

fun rb_fill :: "txCache \<Rightarrow> txCache \<times> txCache \<Rightarrow> (txCache \<times> txCache) option" where
  "rb_fill [] acc = Some acc"
| "rb_fill ((tn, tb) # rest) (m, h) =
     (if ghas m tn then rb_fill rest (rb_fill_table tn tb m, h)
      else if tb = [] then rb_fill rest (m, gset tn [] h)
      else None)"

text \<open>The effect of one recorded edit on the cache.\<close>

definition rb_apply :: "Options \<Rightarrow> CVLEditConfigData \<Rightarrow> txCache \<Rightarrow> txCache option" where
  "rb_apply opts c m =
     (case redis2ts_key opts (ceKey c) of
        None \<Rightarrow> None
      | Some (ts, key) \<Rightarrow>
          let rk = key2redis opts ts key; n = tsName ts in
          if \<not> ghas m n then None
          else
            let cur = (case tx_get m n rk of None \<Rightarrow> [] | Some v \<Rightarrow> Flds v) in
            Some (tx_put n rk
              \<lparr>Flds = (case VOp c of
                   OP_CREATE \<Rightarrow> gset_all (ceData c) cur
                 | OP_UPDATE \<Rightarrow> gset_all (ceData c) cur
                 | OP_DELETE \<Rightarrow> if ceData c = [] then [] else gdel_all (gkeys (ceData c)) cur
                 | OP_NONE \<Rightarrow> cur)\<rparr> m))"

text \<open>The loop over the edits from index \<open>ix\<close>, \<open>n\<close> of them.\<close>

fun rb_replay ::
  "('w, 'z) ext_scheme \<Rightarrow> nat \<Rightarrow> nat \<Rightarrow> 'w st \<Rightarrow> (goerr option \<times> 'w st) option" where
  "rb_replay x ix 0 s = Some (None, s)"
| "rb_replay x ix (Suc n) s =
     (if ix \<ge> length (cvlEditConfigData (db s)) then None
      else
        let l = (cvlEditConfigData (db s))[ix := (cvlEditConfigData (db s) ! ix)\<lparr>VType := VALIDATE_ALL\<rparr>];
            s1 = upd_db (\<lambda>d. d\<lparr>cvlEditConfigData := l\<rparr>) s in
        case x_cvl_validate x (world s1) (db s1) (db_cv (db s1)) (take (Suc ix) l) of
          (w, ret, cei) \<Rightarrow>
            let s2 = s1\<lparr>world := w\<rparr> in
            if ret \<noteq> CVL_SUCCESS then Some (Some (TranslibCVLFailure ret cei), s2)
            else case rb_apply (Opts (db s2)) (l ! ix) (txTsEntryMap (db s2)) of
                None \<Rightarrow> None
              | Some m \<Rightarrow>
                  rb_replay x (Suc ix) n
                    (upd_db (\<lambda>d. d\<lparr>txTsEntryMap := m,
                        cvlEditConfigData := l[ix := (l ! ix)\<lparr>VType := VALIDATE_NONE\<rparr>]\<rparr>) s2))"

definition rb_cvl :: "('w, 'z) ext_scheme \<Rightarrow> SavePoint \<Rightarrow> 'w st \<Rightarrow> (goerr option \<times> 'w st) option" where
  "rb_cvl x sp s =
     (case db_cv (db s) of
        None \<Rightarrow> Some (None, s)
      | Some cv \<Rightarrow>
          (case x_cvl_close x (world s) cv of
             (w, ret) \<Rightarrow>
               let s1 = s\<lparr>world := w\<rparr> in
               if ret \<noteq> CVL_SUCCESS then Some (Some (TranslibCVLFailure ret []), s1)
               else case NewValidationSession x s1 of
                   (Inl e, s2) \<Rightarrow> Some (Some e, upd_db (\<lambda>d. d\<lparr>db_cv := None\<rparr>) s2)
                 | (Inr c, s2) \<Rightarrow>
                     (case rb_replay x 0 (cECDLen sp) (upd_db (\<lambda>d. d\<lparr>db_cv := Some c\<rparr>) s2) of
                        None \<Rightarrow> None
                      | Some (Some e, s3) \<Rightarrow> Some (Some e, s3)
                      | Some (None, s3) \<Rightarrow>
                          if cECDLen sp > length (cvlEditConfigData (db s3)) then None
                          else Some (None, upd_db (\<lambda>d. d\<lparr>cvlEditConfigData :=
                              take (cECDLen sp) (cvlEditConfigData d)\<rparr>) s3))))"

fun rb_notify :: "txCmd list \<Rightarrow> 'w st \<Rightarrow> 'w st" where
  "rb_notify [] s = s"
| "rb_notify (c # cs) s =
     rb_notify cs (sendSessionNotification (tc_ts c) (tc_key c) (tc_op c) txOpNone s)"

definition Rollback2SP :: "('w, 'z) ext_scheme \<Rightarrow> 'w st \<Rightarrow> (goerr option \<times> 'w st) option" where
  "Rollback2SP x s =
     (if \<not> IsSession (Opts (db s)) then Some (Some TranslibInvalidSession, s)
      else case savePoint s of
        None \<Rightarrow> Some (Some (TranslibDBNotSupported []), s)
      | Some sp \<Rightarrow>
          (case rb_ops (Opts (db s)) (txTsEntryMap (db s)) (txTsOrigEntryMap sp) of
             None \<Rightarrow> None
           | Some notifOps \<Rightarrow>
               if txCmdsLen sp > length (txCmds (db s)) then None
               else case rb_fill (txTsEntryHGetAll (db s))
                           (rb_clear (txTsEntryMap (db s)), txTsEntryHGetAll (db s)) of
                   None \<Rightarrow> None
                 | Some (m, h) \<Rightarrow>
                     (case rb_cvl x sp (upd_db (\<lambda>d. d\<lparr>txCmds := take (txCmdsLen sp) (txCmds d),
                               txTsEntryMap := m, txTsEntryHGetAll := h\<rparr>) s) of
                        None \<Rightarrow> None
                      | Some (err, s1) \<Rightarrow>
                          let s2 = (if err \<noteq> None then upd_db (\<lambda>d. d\<lparr>db_err := err\<rparr>) s1 else s1);
                              s3 = rb_notify notifOps s2
                          in Some (err, (upd_db (\<lambda>d. d\<lparr>db_cache := \<lparr>cTables = [], cMaps = []\<rparr>\<rparr>) s3)
                                \<lparr>savePoint := None\<rparr>))))"

section \<open>What the recording leaves alone\<close>

lemma doTxSPsave_frame [simp]:
  "world (doTxSPsave ts key s) = world s" "db (doTxSPsave ts key s) = db s"
  "cdbLock (doTxSPsave ts key s) = cdbLock s" "sInfo (doTxSPsave ts key s) = sInfo s"
  "notifs (doTxSPsave ts key s) = notifs s" "dbGlobalStats (doTxSPsave ts key s) = dbGlobalStats s"
  "savePoint (doTxSPsave ts key s) = None \<longleftrightarrow> savePoint s = None"
  by (simp_all add: doTxSPsave_def Let_def split: option.split)

lemma doTxSPsave_lens:
  "savePoint s = Some sp \<Longrightarrow> \<exists>sp'. savePoint (doTxSPsave ts key s) = Some sp' \<and>
     txCmdsLen sp' = txCmdsLen sp \<and> cECDLen sp' = cECDLen sp \<and> cHints sp' = cHints sp"
  by (simp add: doTxSPsave_def Let_def)

lemma doTxSPsaveHGetAll_frame [simp]:
  "world (doTxSPsaveHGetAll ts key v s) = world s" "cdbLock (doTxSPsaveHGetAll ts key v s) = cdbLock s"
  "sInfo (doTxSPsaveHGetAll ts key v s) = sInfo s" "notifs (doTxSPsaveHGetAll ts key v s) = notifs s"
  "savePoint (doTxSPsaveHGetAll ts key v s) = savePoint s"
  "dbGlobalStats (doTxSPsaveHGetAll ts key v s) = dbGlobalStats s"
  "Opts (db (doTxSPsaveHGetAll ts key v s)) = Opts (db s)"
  "tx_state (db (doTxSPsaveHGetAll ts key v s)) = tx_state (db s)"
  "txCmds (db (doTxSPsaveHGetAll ts key v s)) = txCmds (db s)"
  "txTsEntryMap (db (doTxSPsaveHGetAll ts key v s)) = txTsEntryMap (db s)"
  "db_client (db (doTxSPsaveHGetAll ts key v s)) = db_client (db s)"
  "db_cv (db (doTxSPsaveHGetAll ts key v s)) = db_cv (db s)"
  "db_err (db (doTxSPsaveHGetAll ts key v s)) = db_err (db s)"
  "db_stats (db (doTxSPsaveHGetAll ts key v s)) = db_stats (db s)"
  "cvlEditConfigData (db (doTxSPsaveHGetAll ts key v s)) = cvlEditConfigData (db s)"
  "configDBLocked (db (doTxSPsaveHGetAll ts key v s)) = configDBLocked (db s)"
  by (simp_all add: doTxSPsaveHGetAll_def)

lemma doCHintSave_frame [simp]:
  "world (doCHintSave k v s) = world s" "db (doCHintSave k v s) = db s"
  "cdbLock (doCHintSave k v s) = cdbLock s" "sInfo (doCHintSave k v s) = sInfo s"
  "notifs (doCHintSave k v s) = notifs s" "dbGlobalStats (doCHintSave k v s) = dbGlobalStats s"
  by (simp_all add: doCHintSave_def Let_def split: option.split)

lemma clearCVLHint_frame [simp]:
  "world (clearCVLHint k s) = world s" "db (clearCVLHint k s) = db s"
  "cdbLock (clearCVLHint k s) = cdbLock s" "sInfo (clearCVLHint k s) = sInfo s"
  "notifs (clearCVLHint k s) = notifs s"
  by (simp_all add: clearCVLHint_def)

lemma rb_notify_frame [simp]:
  "world (rb_notify cs s) = world s \<and> db (rb_notify cs s) = db s \<and>
   cdbLock (rb_notify cs s) = cdbLock s \<and> savePoint (rb_notify cs s) = savePoint s \<and>
   dbGlobalStats (rb_notify cs s) = dbGlobalStats s"
  by (induction cs s rule: rb_notify.induct) auto

end
