(* ===== verification/DB_Write.thy ===== *)
theory DB_Write
  imports DB_Savepoint
begin

text \<open>
  The write operations of translib/db/db.go: \<open>doCVL\<close>, \<open>doWrite\<close>, \<open>setEntry\<close> and the
  exported functions on top of them.

  A write validates the edit with CVL, then either issues the redis command at once (no
  transaction) or changes the transaction cache and queues the command.
\<close>

section \<open>Validation\<close>

definition edit_of :: "string \<Rightarrow> CVLOperation \<Rightarrow> fields \<Rightarrow> CVLEditConfigData" where
  "edit_of rk op data = \<lparr>VType = VALIDATE_ALL, VOp = op, ceKey = rk, ceData = data\<rparr>"

fun cvl_append ::
  "string \<Rightarrow> (CVLOperation \<times> Value) list \<Rightarrow> goerr option \<times> CVLEditConfigData list \<Rightarrow>
     goerr option \<times> CVLEditConfigData list" where
  "cvl_append rk [] acc = acc"
| "cvl_append rk ((op, v) # ops) (e, l) =
     cvl_append rk ops
       (case op of
          OP_CREATE \<Rightarrow> (e, l @ [edit_of rk op (Flds (Value_Copy v))])
        | OP_UPDATE \<Rightarrow> (e, l @ [edit_of rk op (Flds (Value_Copy v))])
        | OP_DELETE \<Rightarrow>
            (e, l @ [edit_of rk op (if length (Flds v) = 0 then [] else Flds (Value_Copy v))])
        | OP_NONE \<Rightarrow> (Some (GoError (''Unknown Op: '' @ [CHR 0x00])), l))"

text \<open>The last \<open>n\<close> edits are marked as validated.\<close>

definition mark_validated :: "nat \<Rightarrow> CVLEditConfigData list \<Rightarrow> CVLEditConfigData list" where
  "mark_validated n l =
     take (length l - n) l @ map (\<lambda>c. c\<lparr>VType := VALIDATE_NONE\<rparr>) (drop (length l - n) l)"

definition doCVL ::
  "('w, 'z) ext_scheme \<Rightarrow> TableSpec \<Rightarrow> CVLOperation list \<Rightarrow> Key \<Rightarrow> Value list \<Rightarrow> 'w st \<Rightarrow>
     goerr option \<times> 'w st" where
  "doCVL x ts cvlOps key vals s =
     (let d = db s in
      if db_err d \<noteq> None then (db_err d, s)
      else if DisableCVLCheck (Opts d) then (None, s)
      else if tx_state d = txStateNone then (None, s)
      else if length cvlOps \<noteq> length vals then (Some (GoError ''CVL Incorrect args''), s)
      else
        case cvl_append (key2redis (Opts d) ts key) (zip cvlOps vals) (None, cvlEditConfigData d) of
          (Some e, l) \<Rightarrow> (Some e, upd_db (\<lambda>d. d\<lparr>cvlEditConfigData := l\<rparr>) s)
        | (None, l) \<Rightarrow>
            let s1 = upd_db (\<lambda>d. d\<lparr>cvlEditConfigData := l\<rparr>) s in
            (case x_cvl_validate x (world s1) (db s1) (db_cv (db s1)) l of
               (w, ret, cei) \<Rightarrow>
                 if CVL_SUCCESS \<noteq> ret then
                   (Some (TranslibCVLFailure ret cei),
                    upd_db (\<lambda>d. d\<lparr>cvlEditConfigData := take (length l - length cvlOps) l\<rparr>)
                      (s1\<lparr>world := w\<rparr>))
                 else
                   (None, upd_db (\<lambda>d. d\<lparr>cvlEditConfigData := mark_validated (length cvlOps) l\<rparr>)
                            (s1\<lparr>world := w\<rparr>))))"

section \<open>doWrite\<close>

definition markConfigDBUpdated :: "('w, 'z) ext_scheme \<Rightarrow> 'w st \<Rightarrow> goerr option \<times> 'w st" where
  "markConfigDBUpdated x s =
     (case x_do x (world s) (client_of (db s))
             (cSET (ts2redisUpdated (tspec ''*'')) (x_unixnano x (world s))) of
        (w, Inl e) \<Rightarrow> (Some e, s\<lparr>world := w\<rparr>)
      | (w, Inr _) \<Rightarrow> (None, s\<lparr>world := w\<rparr>))"

definition do_cmd :: "('w, 'z) ext_scheme \<Rightarrow> rcmd \<Rightarrow> 'w st \<Rightarrow> goerr option \<times> 'w st" where
  "do_cmd x c s =
     (case x_do x (world s) (client_of (db s)) c of
        (w, Inl e) \<Rightarrow> (Some e, s\<lparr>world := w\<rparr>)
      | (w, Inr _) \<Rightarrow> (None, s\<lparr>world := w\<rparr>))"

text \<open>The command that stands for one operation, \<open>None\<close> for an unknown operation.\<close>

definition op_rcmd :: "Options \<Rightarrow> TableSpec \<Rightarrow> txOp \<Rightarrow> Key \<Rightarrow> Value \<Rightarrow> rcmd option" where
  "op_rcmd opts ts op key v =
     (case op of
        txOpHMSet \<Rightarrow> Some (cHMSET (key2redis opts ts key) (Flds v))
      | txOpHDel \<Rightarrow> Some (cHDEL (key2redis opts ts key) (gkeys (Flds v)))
      | txOpDel \<Rightarrow> Some (cDEL (key2redis opts ts key))
      | txOpNone \<Rightarrow> None)"

definition unknown_op :: goerr where
  "unknown_op = GoError (''Unknown Op: '' @ [CHR 0x00])"

definition doWrite_plain ::
  "('w, 'z) ext_scheme \<Rightarrow> TableSpec \<Rightarrow> txOp \<Rightarrow> Key \<Rightarrow> Value \<Rightarrow> 'w st \<Rightarrow> goerr option \<times> 'w st" where
  "doWrite_plain x ts op key val s =
     (let (e, s1) =
        (case op_rcmd (Opts (db s)) ts op key val of
           None \<Rightarrow> (Some unknown_op, s)
         | Some c \<Rightarrow> do_cmd x c s)
      in if DBNo (Opts (db s)) = ConfigDB \<and> e = None then (e, snd (markConfigDBUpdated x s1))
         else (e, s1))"

definition set_tx_entry :: "string \<Rightarrow> string \<Rightarrow> Value \<Rightarrow> DB \<Rightarrow> DB" where
  "set_tx_entry n k v d = d\<lparr>txTsEntryMap := tx_put n k v (txTsEntryMap d)\<rparr>"

text \<open>
  The change of the transaction cache: the value that goes into the command list comes
  with the error.
\<close>

definition doWrite_cache ::
  "('w, 'z) ext_scheme \<Rightarrow> TableSpec \<Rightarrow> txOp \<Rightarrow> Key \<Rightarrow> Value \<Rightarrow> 'w st \<Rightarrow> (goerr option \<times> Value) \<times> 'w st"
where
  "doWrite_cache x ts op key val s =
     (let n = tsName ts; entry = key2redis (Opts (db s)) ts key in
      if op = txOpHMSet \<or> op = txOpHDel then
        let value = Value_Copy val;
            (e, s1) =
              (case tx_get (txTsEntryMap (db s)) n entry of
                 Some _ \<Rightarrow> (None, s)
               | None \<Rightarrow>
                   let (e, v) = (case x_hgetall x (world s) (client_of (db s)) entry of
                                   Inl e \<Rightarrow> (Some e, []) | Inr v \<Rightarrow> (None, v))
                   in (e, doTxSPsaveHGetAll ts key \<lparr>Flds = v\<rparr>
                            (upd_db (set_tx_entry n entry \<lparr>Flds = v\<rparr>) s)));
            cur = (case tx_get (txTsEntryMap (db s1)) n entry of None \<Rightarrow> [] | Some v \<Rightarrow> Flds v);
            new = (if op = txOpHMSet then gset_all (Flds value) cur
                   else gdel_all (gkeys (Flds value)) cur)
        in ((e, value), upd_db (set_tx_entry n entry \<lparr>Flds = new\<rparr>) s1)
      else if op = txOpDel then
        ((None, \<lparr>Flds = []\<rparr>), upd_db (set_tx_entry n entry \<lparr>Flds = []\<rparr>) s)
      else ((Some unknown_op, \<lparr>Flds = []\<rparr>), s))"

definition ensure_tx_table :: "string \<Rightarrow> DB \<Rightarrow> DB" where
  "ensure_tx_table n d =
     (if ghas (txTsEntryMap d) n then d else d\<lparr>txTsEntryMap := gset n [] (txTsEntryMap d)\<rparr>)"

definition append_cmd :: "txCmd \<Rightarrow> DB \<Rightarrow> DB" where
  "append_cmd c d =
     (let cmds = txCmds d @ [c] in
      d\<lparr>txCmds := cmds,
        db_stats := (db_stats d)\<lparr>AllTables := (AllTables (db_stats d))\<lparr>TxCmdsLen := of_nat (length cmds)\<rparr>\<rparr>\<rparr>)"

definition write_notify :: "TableSpec \<Rightarrow> txOp \<Rightarrow> Key \<Rightarrow> 'w st \<Rightarrow> 'w st" where
  "write_notify ts op key s =
     (if IsSession (Opts (db s)) then
        let op2 =
          (if op = txOpHDel \<and>
              (case tx_get (txTsEntryMap (db s)) (tsName ts) (key2redis (Opts (db s)) ts key) of
                 None \<Rightarrow> True | Some v \<Rightarrow> length (Flds v) = 0)
           then txOpDel else txOpNone)
        in sendSessionNotification ts key op op2 s
      else s)"

definition doWrite_tx ::
  "('w, 'z) ext_scheme \<Rightarrow> TableSpec \<Rightarrow> txOp \<Rightarrow> Key \<Rightarrow> Value \<Rightarrow> 'w st \<Rightarrow> goerr option \<times> 'w st" where
  "doWrite_tx x ts op key val s =
     (case doWrite_cache x ts op key val
             (doTxSPsave ts key (upd_db (ensure_tx_table (tsName ts)) s)) of
        ((Some e, _), s1) \<Rightarrow> (Some e, s1)
      | ((None, value), s1) \<Rightarrow>
          (None, write_notify ts op key
             (upd_db (append_cmd \<lparr>tc_ts = ts, tc_op = op, tc_key = key, tc_value = value\<rparr>) s1)))"

definition lazy_lock :: "('w, 'z) ext_scheme \<Rightarrow> 'w st \<Rightarrow> goerr option \<times> 'w st" where
  "lazy_lock x s =
     (if DBNo (Opts (db s)) = ConfigDB \<and> \<not> IsSession (Opts (db s)) \<and> \<not> configDBLocked (db s) then
        (case lock_op (ConfigDBTryLock x noSessionToken) s of
           (Some e, s1) \<Rightarrow> (Some e, s1)
         | (None, s1) \<Rightarrow> (None, upd_db (\<lambda>d. d\<lparr>configDBLocked := True\<rparr>) s1))
      else (None, s))"

definition doWrite ::
  "('w, 'z) ext_scheme \<Rightarrow> TableSpec \<Rightarrow> txOp \<Rightarrow> Key \<Rightarrow> Value \<Rightarrow> 'w st \<Rightarrow> goerr option \<times> 'w st" where
  "doWrite x ts op k val s =
     (let key = Key_Copy k in
      if IsWriteDisabled (Opts (db s)) then
        (Some (GoError ''Write to DB disabled during this operation''), s)
      else if db_err (db s) \<noteq> None then (db_err (db s), s)
      else case lazy_lock x s of
        (Some e, s1) \<Rightarrow> (Some e, s1)
      | (None, s1) \<Rightarrow>
          if IsSession (Opts (db s1)) \<and> TxCmdsLim (Opts (db s1)) \<noteq> 0 \<and>
             int (length (txCmds (db s1))) \<ge> TxCmdsLim (Opts (db s1))
          then (Some TranslibDBTxCmdsLim, s1)
          else
            (case tx_state (db s1) of
               txStateNone \<Rightarrow> doWrite_plain x ts op key val s1
             | txStateWatch \<Rightarrow> doWrite_tx x ts op key val (upd_db (\<lambda>d. d\<lparr>tx_state := txStateSet\<rparr>) s1)
             | txStateSet \<Rightarrow> doWrite_tx x ts op key val s1
             | txStateMultiExec \<Rightarrow>
                 (Some (GoError ''Cannot issue {Set|Mod|Delete}Entry in txStateMultiExec''), s1)))"

section \<open>The exported operations\<close>

definition DeleteEntry ::
  "('w, 'z) ext_scheme \<Rightarrow> TableSpec \<Rightarrow> Key \<Rightarrow> 'w st \<Rightarrow> goerr option \<times> 'w st" where
  "DeleteEntry x ts key s =
     (if \<not> IsOpen (db s) then (Some ConnectionClosed, s)
      else case doCVL x ts [OP_DELETE] key [\<lparr>Flds = []\<rparr>] s of
        (Some e, s1) \<Rightarrow> (Some e, s1)
      | (None, s1) \<Rightarrow> doWrite x ts txOpDel key \<lparr>Flds = []\<rparr> s1)"

text \<open>The fields of \<open>current\<close> that \<open>value\<close> does not have, with empty contents.\<close>

fun complement :: "fields \<Rightarrow> fields \<Rightarrow> fields \<Rightarrow> fields" where
  "complement [] value acc = acc"
| "complement ((k, _) # current) value acc =
     complement current value (if \<not> ghas value k then gset k [] acc else acc)"

definition setEntry ::
  "('w, 'z) ext_scheme \<Rightarrow> TableSpec \<Rightarrow> Key \<Rightarrow> Value \<Rightarrow> bool \<Rightarrow> 'w st \<Rightarrow> goerr option \<times> 'w st" where
  "setEntry x ts key value isCreate s =
     (if length (Flds value) = 0 then
        (if NoDelete ts then (None, s) else DeleteEntry x ts key s)
      else
        let ((valueCurrent, e), s1) =
              (if \<not> isCreate then GetEntry x ts key s else ((\<lparr>Flds = []\<rparr>, None), s));
            valueComplement =
              (if \<not> isCreate \<and> e = None then complement (Flds valueCurrent) (Flds value) [] else [])
        in
          case (if \<not> isCreate \<and> e = None then
                  (if length valueComplement = 0 then doCVL x ts [OP_UPDATE] key [value] s1
                   else doCVL x ts [OP_UPDATE, OP_DELETE] key [value, \<lparr>Flds = valueComplement\<rparr>] s1)
                else doCVL x ts [OP_CREATE] key [value] s1) of
            (Some e, s2) \<Rightarrow> (Some e, s2)
          | (None, s2) \<Rightarrow>
              (case doWrite x ts txOpHMSet key value s2 of
                 (Some e, s3) \<Rightarrow> (Some e, s3)
               | (None, s3) \<Rightarrow>
                   if length valueComplement \<noteq> 0
                   then doWrite x ts txOpHDel key \<lparr>Flds = valueComplement\<rparr> s3
                   else (None, s3)))"

definition CreateEntry ::
  "('w, 'z) ext_scheme \<Rightarrow> TableSpec \<Rightarrow> Key \<Rightarrow> Value \<Rightarrow> 'w st \<Rightarrow> goerr option \<times> 'w st" where
  "CreateEntry x ts key value s =
     (if \<not> IsOpen (db s) then (Some ConnectionClosed, s) else setEntry x ts key value True s)"

definition SetEntry ::
  "('w, 'z) ext_scheme \<Rightarrow> TableSpec \<Rightarrow> Key \<Rightarrow> Value \<Rightarrow> 'w st \<Rightarrow> goerr option \<times> 'w st" where
  "SetEntry x ts key value s =
     (if \<not> IsOpen (db s) then (Some ConnectionClosed, s) else setEntry x ts key value False s)"

definition ModEntry ::
  "('w, 'z) ext_scheme \<Rightarrow> TableSpec \<Rightarrow> Key \<Rightarrow> Value \<Rightarrow> 'w st \<Rightarrow> goerr option \<times> 'w st" where
  "ModEntry x ts key value s =
     (if \<not> IsOpen (db s) then (Some ConnectionClosed, s)
      else if length (Flds value) = 0 then
        (if NoDelete ts then (None, s) else DeleteEntry x ts key s)
      else case doCVL x ts [OP_UPDATE] key [value] s of
        (Some e, s1) \<Rightarrow> (Some e, s1)
      | (None, s1) \<Rightarrow> doWrite x ts txOpHMSet key value s1)"

definition DeleteEntryFields ::
  "('w, 'z) ext_scheme \<Rightarrow> TableSpec \<Rightarrow> Key \<Rightarrow> Value \<Rightarrow> 'w st \<Rightarrow> goerr option \<times> 'w st" where
  "DeleteEntryFields x ts key value s =
     (if \<not> IsOpen (db s) then (Some ConnectionClosed, s)
      else case doCVL x ts [OP_DELETE] key [value] s of
        (Some e, s1) \<Rightarrow> (Some e, s1)
      | (None, s1) \<Rightarrow> doWrite x ts txOpHDel key value s1)"

definition Publish :: "('w, 'z) ext_scheme \<Rightarrow> string \<Rightarrow> string \<Rightarrow> 'w st \<Rightarrow> goerr option \<times> 'w st" where
  "Publish x channel message s =
     (if \<not> IsOpen (db s) then (Some ConnectionClosed, s) else do_cmd x (cPUBLISH channel message) s)"

text \<open>The error is the one of the last deletion.\<close>

fun delete_each ::
  "('w, 'z) ext_scheme \<Rightarrow> TableSpec \<Rightarrow> Key list \<Rightarrow> goerr option \<Rightarrow> 'w st \<Rightarrow> goerr option \<times> 'w st" where
  "delete_each x ts [] e s = (e, s)"
| "delete_each x ts (k # ks) e s =
     (case DeleteEntry x ts k s of (e', s') \<Rightarrow> delete_each x ts ks e' s')"

definition DeleteKeys ::
  "('w, 'z) ext_scheme \<Rightarrow> TableSpec \<Rightarrow> Key \<Rightarrow> 'w st \<Rightarrow> (goerr option \<times> 'w st) option" where
  "DeleteKeys x ts key s =
     (if \<not> IsOpen (db s) then Some (Some ConnectionClosed, s)
      else map_option (\<lambda>((redisKeys, e), s1). delete_each x ts redisKeys e s1) (GetKeysPattern x ts key s))"

fun delete_until ::
  "('w, 'z) ext_scheme \<Rightarrow> TableSpec \<Rightarrow> Key list \<Rightarrow> 'w st \<Rightarrow> goerr option \<times> 'w st" where
  "delete_until x ts [] s = (None, s)"
| "delete_until x ts (k # ks) s =
     (case DeleteEntry x ts k s of
        (Some e, s') \<Rightarrow> (Some e, s')
      | (None, s') \<Rightarrow> delete_until x ts ks s')"

definition DeleteTable ::
  "('w, 'z) ext_scheme \<Rightarrow> TableSpec \<Rightarrow> 'w st \<Rightarrow> (goerr option \<times> 'w st) option" where
  "DeleteTable x ts s =
     (if \<not> IsOpen (db s) then Some (Some ConnectionClosed, s)
      else map_option (\<lambda>((keys, e), s1). if e \<noteq> None then (e, s1) else delete_until x ts keys s1)
             (GetKeys x ts s))"

end
