(* ===== verification/DB_Tx.thy ===== *)
theory DB_Tx
  imports DB_Write
begin

text \<open>
  The transactions of translib/db/db.go: start, watch, commit, abort, and the functions
  that map them to the savepoint inside of a configuration session.

  An operation that decodes redis keys is an option, \<open>None\<close> for the panic of
  \<open>redis2key\<close>.
\<close>

section \<open>Watch\<close>

definition Tables2TableSpecs :: "string list \<Rightarrow> TableSpec list" where
  "Tables2TableSpecs tables = map tspec tables"

text \<open>
  The keys that a pattern finds are passed on as \<open>Key\<close> values, not as redis names.
\<close>

fun watch_keys ::
  "('w, 'z) ext_scheme \<Rightarrow> (TableSpec \<times> Key) list \<Rightarrow> 'w st \<Rightarrow> goerr option \<times> watch_arg list \<Rightarrow>
     (goerr option \<times> watch_arg list) option" where
  "watch_keys x [] s acc = Some acc"
| "watch_keys x ((ts, key) # w) s (first_e, args) =
     (let redisKey = key2redis (Opts (db s)) ts key in
      if \<not> strContains redisKey ''*'' then watch_keys x w s (first_e, args @ [WName redisKey])
      else case x_keys x (world s) (client_of (db s)) redisKey of
          Inl e \<Rightarrow> watch_keys x w s (if first_e = None then Some e else first_e, args)
        | Inr redisKeys \<Rightarrow>
            (case those (map (redis2key (Opts (db s)) ts) redisKeys) of
               None \<Rightarrow> None
             | Some ks \<Rightarrow> watch_keys x w s (first_e, args @ map WKey ks)))"

definition performWatch ::
  "('w, 'z) ext_scheme \<Rightarrow> (TableSpec \<times> Key) list \<Rightarrow> TableSpec list \<Rightarrow> 'w st \<Rightarrow>
     (goerr option \<times> 'w st) option" where
  "performWatch x w tss s =
     (case watch_keys x w s (None, []) of
        None \<Rightarrow> None
      | Some (first_e, args0) \<Rightarrow>
          let args = args0 @ map (\<lambda>ts. WName (ts2redisUpdated ts)) tss;
              (first_e', s1) =
                (if args = [] then (first_e, s)
                 else case do_cmd x (cWATCH args) s of
                     (Some e, s1) \<Rightarrow> (if first_e = None then Some e else first_e, s1)
                   | (None, s1) \<Rightarrow> (first_e, s1))
          in Some (first_e', upd_db (\<lambda>d. d\<lparr>tx_state := txStateWatch\<rparr>) s1))"

section \<open>Start\<close>

fun store_hints :: "hints \<Rightarrow> 'w st \<Rightarrow> goerr option \<times> 'w st" where
  "store_hints [] s = (None, s)"
| "store_hints ((k, v) # hs) s =
     (case StoreCVLHint k v s of
        (Some e, s1) \<Rightarrow> (Some e, s1)
      | (None, s1) \<Rightarrow> store_hints hs s1)"

definition startTx ::
  "('w, 'z) ext_scheme \<Rightarrow> (TableSpec \<times> Key) list \<Rightarrow> TableSpec list \<Rightarrow> 'w st \<Rightarrow>
     (goerr option \<times> 'w st) option" where
  "startTx x w tss s =
     (if DBNo (Opts (db s)) \<noteq> ConfigDB then
        Some (Some (TranslibDBNotSupported ''Transactions are only supported on ConfigDB''), s)
      else
        let s1 = upd_db (\<lambda>d. d\<lparr>txTsEntryMap := [], txTsEntryHGetAll := []\<rparr>) s in
        case NewValidationSession x s1 of
          (Inl e, s2) \<Rightarrow> Some (Some e, upd_db (\<lambda>d. d\<lparr>db_cv := None\<rparr>) s2)
        | (Inr c, s2) \<Rightarrow>
            let s3 = upd_db (\<lambda>d. d\<lparr>db_cv := Some c\<rparr>) s2 in
            if tx_state (db s3) \<noteq> txStateNone then
              Some (Some (GoError ''Transaction already in progress''), s3)
            else case store_hints (cvlHintsB4Open (db s3)) s3 of
                (Some e, s4) \<Rightarrow> Some (Some e, s4)
              | (None, s4) \<Rightarrow> performWatch x w tss (upd_db (\<lambda>d. d\<lparr>cvlHintsB4Open := []\<rparr>) s4))"

definition AppendWatchTx ::
  "('w, 'z) ext_scheme \<Rightarrow> (TableSpec \<times> Key) list \<Rightarrow> TableSpec list \<Rightarrow> 'w st \<Rightarrow>
     (goerr option \<times> 'w st) option" where
  "AppendWatchTx x w tss s =
     (if tx_state (db s) = txStateNone then Some (Some (GoError ''Transaction has not started''), s)
      else performWatch x w tss s)"

section \<open>Commit and abort\<close>

text \<open>The part that both end with.\<close>

definition tx_close :: "('w, 'z) ext_scheme \<Rightarrow> 'w st \<Rightarrow> 'w st" where
  "tx_close x s =
     (let s1 = upd_db (\<lambda>d. d\<lparr>tx_state := txStateNone, txCmds := [], cvlEditConfigData := [],
                 txTsEntryMap := [], txTsEntryHGetAll := []\<rparr>) s
      in case db_cv (db s1) of
           None \<Rightarrow> s1
         | Some cv \<Rightarrow> (upd_db (\<lambda>d. d\<lparr>db_cv := None\<rparr>) s1)\<lparr>world := fst (x_cvl_close x (world s1) cv)\<rparr>)"

fun send_cmds ::
  "('w, 'z) ext_scheme \<Rightarrow> txCmd list \<Rightarrow> (TableSpec, bool) gomap \<Rightarrow> 'w st \<Rightarrow>
     (goerr option \<times> (TableSpec, bool) gomap) \<times> 'w st" where
  "send_cmds x [] tsmap s = ((None, tsmap), s)"
| "send_cmds x (c # cs) tsmap s =
     (let tsmap' = gset (tc_ts c) True tsmap;
          (e, s1) =
            (case op_rcmd (Opts (db s)) (tc_ts c) (tc_op c) (tc_key c) (tc_value c) of
               None \<Rightarrow> (Some unknown_op, s)
             | Some r \<Rightarrow> do_cmd x r s)
      in if e \<noteq> None then ((e, tsmap'), s1) else send_cmds x cs tsmap' s1)"

fun flag_tables :: "('w, 'z) ext_scheme \<Rightarrow> TableSpec list \<Rightarrow> 'w st \<Rightarrow> goerr option \<times> 'w st" where
  "flag_tables x [] s = (None, s)"
| "flag_tables x (ts # tss) s =
     (case do_cmd x (cSET (ts2redisUpdated ts) ''1'') s of
        (Some e, s1) \<Rightarrow> (Some e, s1)
      | (None, s1) \<Rightarrow> flag_tables x tss s1)"

definition tx_state_error :: "string \<Rightarrow> txState \<Rightarrow> goerr option" where
  "tx_state_error multi st =
     (case st of
        txStateNone \<Rightarrow> Some (GoError ''StartTx() not done. No Transaction active.'')
      | txStateWatch \<Rightarrow> None
      | txStateSet \<Rightarrow> None
      | txStateMultiExec \<Rightarrow> Some (GoError multi))"

definition commit_body :: "('w, 'z) ext_scheme \<Rightarrow> 'w st \<Rightarrow> goerr option \<times> 'w st" where
  "commit_body x s =
     (case do_cmd x cMULTI s of
        (Some e, s1) \<Rightarrow> (Some e, s1)
      | (None, s1) \<Rightarrow>
          (case send_cmds x (txCmds (db s1)) [] s1 of
             ((Some e, _), s2) \<Rightarrow> (Some e, s2)
           | ((None, tsmap), s2) \<Rightarrow>
               (case flag_tables x (gkeys tsmap) s2 of
                  (Some e, s3) \<Rightarrow> (Some e, s3)
                | (None, s3) \<Rightarrow>
                    (case markConfigDBUpdated x s3 of
                       (Some e, s4) \<Rightarrow> (Some e, s4)
                     | (None, s4) \<Rightarrow>
                         (case do_cmd x cEXEC s4 of
                            (Some _, s5) \<Rightarrow> (Some TranslibTransactionFail, s5)
                          | (None, s5) \<Rightarrow> (None, s5))))))"

definition commitTx :: "('w, 'z) ext_scheme \<Rightarrow> 'w st \<Rightarrow> goerr option \<times> 'w st" where
  "commitTx x s =
     (let e0 = tx_state_error ''Cannot issue MULTI in txStateMultiExec'' (tx_state (db s));
          e1 = (if db_err (db s) \<noteq> None then db_err (db s) else e0);
          (e, s1) = (if e1 \<noteq> None then (e1, s) else commit_body x s)
      in (e, tx_close x s1))"

definition abortTx :: "('w, 'z) ext_scheme \<Rightarrow> 'w st \<Rightarrow> goerr option \<times> 'w st" where
  "abortTx x s =
     (let e0 = tx_state_error ''Cannot issue UNWATCH in txStateMultiExec'' (tx_state (db s));
          (e, s1) = (if e0 \<noteq> None then (e0, s) else do_cmd x cUNWATCH s)
      in (e, tx_close x s1))"

section \<open>The exported operations\<close>

definition StartSessTx ::
  "('w, 'z) ext_scheme \<Rightarrow> (TableSpec \<times> Key) list \<Rightarrow> TableSpec list \<Rightarrow> 'w st \<Rightarrow>
     (goerr option \<times> 'w st) option" where
  "StartSessTx x w tss s = startTx x w tss s"

definition CommitSessTx :: "('w, 'z) ext_scheme \<Rightarrow> 'w st \<Rightarrow> goerr option \<times> 'w st" where
  "CommitSessTx x s = commitTx x s"

definition AbortSessTx :: "('w, 'z) ext_scheme \<Rightarrow> 'w st \<Rightarrow> goerr option \<times> 'w st" where
  "AbortSessTx x s = abortTx x s"

definition StartTx ::
  "('w, 'z) ext_scheme \<Rightarrow> (TableSpec \<times> Key) list \<Rightarrow> TableSpec list \<Rightarrow> 'w st \<Rightarrow>
     (goerr option \<times> 'w st) option" where
  "StartTx x w tss s = (if IsSession (Opts (db s)) then Some (DeclareSP s) else startTx x w tss s)"

definition CommitTx :: "('w, 'z) ext_scheme \<Rightarrow> 'w st \<Rightarrow> goerr option \<times> 'w st" where
  "CommitTx x s =
     (case (if IsSession (Opts (db s)) then ReleaseSP s else commitTx x s) of
        (e, s1) \<Rightarrow> (e, clearCVLHint [] s1))"

definition AbortTx :: "('w, 'z) ext_scheme \<Rightarrow> 'w st \<Rightarrow> (goerr option \<times> 'w st) option" where
  "AbortTx x s =
     (if IsSession (Opts (db s)) then Rollback2SP x s
      else Some (abortTx x (clearCVLHint [] s)))"

section \<open>Opening and closing a connection\<close>

definition newDB_object :: "Options \<Rightarrow> nat option \<Rightarrow> DBStatsConfig \<Rightarrow> DBCacheConfig \<Rightarrow> DB" where
  "newDB_object opt rc sc cc =
     \<lparr>db_client = rc, Opts = opt, tx_state = txStateNone, txCmds = [], txTsEntryMap = [],
      txTsEntryHGetAll = [], db_cv = None, cvlHintsB4Open = [], cvlEditConfigData = [],
      db_err = None, sCIP = False, dbStatsConfig = sc, dbCacheConfig = cc,
      db_stats = zeroDBStats, db_cache = \<lparr>cTables = [], cMaps = []\<rparr>, onCReg = [],
      configDBLocked = False\<rparr>"

text \<open>
  The checks of \<open>NewDB\<close> after the client is there, on the new object.  \<open>Int()\<close> of the
  GET result is 0 with an error when the value is absent or is not a number.
\<close>

definition close_client :: "('w, 'z) ext_scheme \<Rightarrow> 'w st \<Rightarrow> 'w st" where
  "close_client x s = s\<lparr>world := fst (x_close x (world s) (client_of (db s)))\<rparr>"

definition get_int :: "goerr + string \<Rightarrow> int" where
  "get_int r = (case r of Inl _ \<Rightarrow> 0 | Inr v \<Rightarrow> (case Atoi v of (i, None) \<Rightarrow> i | (_, Some _) \<Rightarrow> 0))"

definition newDB_configdb :: "('w, 'z) ext_scheme \<Rightarrow> 'w st \<Rightarrow> goerr option \<times> 'w st" where
  "newDB_configdb x s =
     (let d = db s; opt = Opts d in
      if DBNo opt \<noteq> ConfigDB then (None, s)
      else if length (InitIndicator opt) \<noteq> 0 \<and>
              get_int (x_get x (world s) (client_of d) (InitIndicator opt)) \<noteq> 1 then
        (Some TranslibDBNotInit, close_client x s)
      else
        case (if \<not> IsSession opt \<and> \<not> IsWriteDisabled opt \<and> \<not> ConfigDBLazyLock opt then
                (case lock_op (ConfigDBTryLock x noSessionToken) s of
                   (Some e, s1) \<Rightarrow> (Some e, close_client x s1)
                 | (None, s1) \<Rightarrow> (None, upd_db (\<lambda>d. d\<lparr>configDBLocked := True\<rparr>) s1))
              else (None, s)) of
          (Some e, s1) \<Rightarrow> (Some e, s1)
        | (None, s1) \<Rightarrow> (None, if IsSession opt then registerSessionDB s1 else s1))"

definition newDB_checks :: "('w, 'z) ext_scheme \<Rightarrow> 'w st \<Rightarrow> goerr option \<times> 'w st" where
  "newDB_checks x s0 =
     (if db_client (db s0) = None then (Some TranslibDBCannotOpen, s0)
      else
        let opt0 = Opts (db s0);
            opt = (if IsCacheEnabled opt0 \<and> IsOnChangeEnabled opt0
                   then opt0\<lparr>IsCacheEnabled := False\<rparr> else opt0);
            s = upd_db (\<lambda>d. d\<lparr>Opts := opt\<rparr>) s0 in
        if IsOnChangeEnabled opt \<and> \<not> IsWriteDisabled opt then (Some TranslibDBCannotOpen, s)
        else
          let pc = (PerConnection (dbCacheConfig (db s)) \<and> IsWriteDisabled opt \<and> IsCacheEnabled opt \<and>
                    \<not> IsSession opt);
              s1 = upd_db (\<lambda>d. d\<lparr>dbCacheConfig := (dbCacheConfig d)\<lparr>PerConnection := pc\<rparr>\<rparr>) s in
          if IsSession opt \<and> IsOnChangeEnabled opt then
            (Some (TranslibDBNotSupported ''Subscription on Config Session not supported''), close_client x s1)
          else if IsSession opt \<and> DBNo opt \<noteq> ConfigDB then
            (Some (TranslibDBNotSupported ''Non-Config DB on Config Session not supported''), close_client x s1)
          else newDB_configdb x (if IsOnChangeEnabled opt then upd_db (\<lambda>d. d\<lparr>onCReg := []\<rparr>) s1 else s1))"

definition NewDB ::
  "('w, 'z) ext_scheme \<Rightarrow> Options \<Rightarrow> DBStatsConfig \<Rightarrow> DBCacheConfig \<Rightarrow> 'w st \<Rightarrow> goerr option \<times> 'w st" where
  "NewDB x opt sc cc s =
     (case x_client x (world s) (DBNo opt) (ForceNewRedisConnection opt) of
        (w, rc) \<Rightarrow>
          (case newDB_checks x (s\<lparr>world := w, db := newDB_object opt rc sc cc\<rparr>) of
             (e, s1) \<Rightarrow>
               let dur = (if TimeStats sc then x_dur x (world s1) else 0) in
               (e, s1\<lparr>dbGlobalStats :=
                    Global_updateStats (DBNum_index (DBNo opt)) True dur (db_stats (db s1)) (dbGlobalStats s1)\<rparr>)))"

definition DeleteDB :: "('w, 'z) ext_scheme \<Rightarrow> 'w st \<Rightarrow> goerr option \<times> 'w st" where
  "DeleteDB x s =
     (let s1 = (if configDBLocked (db s) then
                  upd_db (\<lambda>d. d\<lparr>configDBLocked := False\<rparr>)
                    (snd (lock_op (ConfigDBUnlock x noSessionToken) s))
                else s) in
      if \<not> IsOpen (db s1) then (Some ConnectionClosed, s1)
      else
        let s2 = s1\<lparr>dbGlobalStats :=
              Global_updateStats (DBNum_index (DBNo (Opts (db s1)))) False 0 (db_stats (db s1)) (dbGlobalStats s1)\<rparr>;
            s3 = (if IsSession (Opts (db s2)) then unRegisterSessionDB s2 else s2)
        in case x_close x (world s3) (client_of (db s3)) of
             (w, e) \<Rightarrow> (e, upd_db (\<lambda>d. d\<lparr>db_client := None\<rparr>) (s3\<lparr>world := w\<rparr>)))"

end
