(* ===== verification/TL_Version.thy ===== *)
theory TL_Version
  imports DB_Value "HOL-Library.Word"
begin

text \<open>
  API versions (\<open>translib/version.go\<close>) and the checks on the user of a request
  (\<open>translib/authorize.go\<close>).

  \<open>fmt.Sscanf\<close> is written out for the one format that the source uses, on ASCII text: an
  operand skips blanks (a newline is an error), reads decimal digits and must fit 32 bits;
  text behind the last operand is not read.
\<close>

section \<open>Versions\<close>

datatype Version = Version (Major: "32 word") (Minor: "32 word") (Patch: "32 word")

definition zeroVersion :: Version where
  "zeroVersion = Version 0 0 0"

definition IsNull :: "Version \<Rightarrow> bool" where
  "IsNull v \<longleftrightarrow> Major v = 0 \<and> Minor v = 0 \<and> Patch v = 0"

definition uint_text :: "32 word \<Rightarrow> string" where
  "uint_text w = nat_digits (unat w)"

definition Version_String :: "Version \<Rightarrow> string" where
  "Version_String v = uint_text (Major v) @ ''.'' @ uint_text (Minor v) @ ''.'' @ uint_text (Patch v)"

definition GreaterThan :: "Version \<Rightarrow> Version \<Rightarrow> bool" where
  "GreaterThan v other \<longleftrightarrow>
     Major v > Major other \<or>
     Major v = Major other \<and> Minor v > Minor other \<or>
     Major v = Major other \<and> Minor v = Minor other \<and> Patch v > Patch other"

definition GetCompatibleBaseVersion :: "Version \<Rightarrow> Version" where
  "GetCompatibleBaseVersion v =
     (if Major v = 0 then v
      else if Major v = 1 then Version 1 0 0
      else Version (Major v - 1) 0 0)"

subsection \<open>Reading a version\<close>

definition is_blank :: "char \<Rightarrow> bool" where
  "is_blank c \<longleftrightarrow> c \<in> {CHR '' '', CHR 0x09, CHR 0x0B, CHR 0x0C, CHR 0x0D}"

fun skip_space :: "string \<Rightarrow> goerr + string" where
  "skip_space [] = Inr []"
| "skip_space (c # s) =
     (if c = CHR 0x0A then Inl (GoError ''unexpected newline'')
      else if is_blank c then skip_space s else Inr (c # s))"

fun scan_digits :: "string \<Rightarrow> string \<times> string" where
  "scan_digits [] = ([], [])"
| "scan_digits (c # s) =
     (if char_digit c = None then ([], c # s) else (case scan_digits s of (t, r) \<Rightarrow> (c # t, r)))"

definition scan_uint32 :: "string \<Rightarrow> goerr + (32 word \<times> string)" where
  "scan_uint32 s =
     (case skip_space s of
        Inl e \<Rightarrow> Inl e
      | Inr s1 \<Rightarrow>
          if s1 = [] then Inl (GoError ''unexpected EOF'')
          else case scan_digits s1 of (tok, r) \<Rightarrow>
            if tok = [] then Inl (GoError ''expected integer'')
            else let n = the (parse_digits 0 tok) in
              if n \<ge> 2 ^ 64 then
                Inl (GoError (''strconv.ParseUint: parsing '' @ tok @ '': value out of range''))
              else if n \<ge> 2 ^ 32 then Inl (GoError (''unsigned integer overflow on token '' @ tok))
              else Inr (of_nat n, r))"

fun scan_dot :: "string \<Rightarrow> goerr + string" where
  "scan_dot [] = Inl (GoError ''unexpected EOF'')"
| "scan_dot (c # s) = (if c = CHR ''.'' then Inr s else Inl (GoError ''input does not match format''))"

text \<open>The operands are stored one by one, so those in front of a failing one stay.\<close>

definition sscanf_version :: "string \<Rightarrow> Version \<Rightarrow> Version \<times> goerr option" where
  "sscanf_version s v =
     (case scan_uint32 s of
        Inl e \<Rightarrow> (v, Some e)
      | Inr (a, s1) \<Rightarrow>
          (let v1 = Version a (Minor v) (Patch v) in
           case scan_dot s1 of
             Inl e \<Rightarrow> (v1, Some e)
           | Inr s2 \<Rightarrow>
               (case scan_uint32 s2 of
                  Inl e \<Rightarrow> (v1, Some e)
                | Inr (b, s3) \<Rightarrow>
                    (let v2 = Version a b (Patch v) in
                     case scan_dot s3 of
                       Inl e \<Rightarrow> (v2, Some e)
                     | Inr s4 \<Rightarrow>
                         (case scan_uint32 s4 of
                            Inl e \<Rightarrow> (v2, Some e)
                          | Inr (c, _) \<Rightarrow> (Version a b c, None))))))"

definition Version_Set :: "string \<Rightarrow> Version \<Rightarrow> Version \<times> goerr option" where
  "Version_Set s v =
     (case sscanf_version s v of
        (v1, err) \<Rightarrow>
          (v1, if err = None \<and> IsNull v1
               then Some (GoError (''Invalid version '' @ [CHR 0x22] @ s @ [CHR 0x22])) else err))"

definition NewVersion :: "string \<Rightarrow> Version \<times> goerr option" where
  "NewVersion s = Version_Set s zeroVersion"

section \<open>Client versions\<close>

text \<open>
  The two package variables \<open>theYangBundleVersion\<close> and \<open>theYangBaseVersion\<close>; the config
  file, read and decoded, is an argument.
\<close>

record yang_versions =
  theYangBundleVersion :: Version
  theYangBaseVersion :: Version

definition initYangVersionConfigFromFile :: "goerr + Version \<Rightarrow> yang_versions \<Rightarrow> goerr option \<times> yang_versions" where
  "initYangVersionConfigFromFile file yv =
     (case file of
        Inl e \<Rightarrow> (Some e, yv)
      | Inr v \<Rightarrow> (None, \<lparr>theYangBundleVersion = v, theYangBaseVersion = GetCompatibleBaseVersion v\<rparr>))"

definition validateClientVersionForYangAPI :: "yang_versions \<Rightarrow> Version \<Rightarrow> goerr option" where
  "validateClientVersionForYangAPI yv clientVer =
     (if GreaterThan (theYangBaseVersion yv) clientVer \<or> GreaterThan clientVer (theYangBundleVersion yv) then
        Some (TranslibUnsupportedClientVersion (Version_String clientVer)
               (Version_String (theYangBundleVersion yv)) (Version_String (theYangBaseVersion yv)))
      else None)"

definition validateClientVersionForNonYangAPI :: "Version \<Rightarrow> goerr option" where
  "validateClientVersionForNonYangAPI clientVer = None"

text \<open>\<open>native\<close> is the flag \<open>isNative\<close> of the application module.\<close>

definition validateClientVersion :: "yang_versions \<Rightarrow> Version \<Rightarrow> bool \<Rightarrow> goerr option" where
  "validateClientVersion yv clientVer native =
     (if IsNull clientVer then None
      else if native then validateClientVersionForNonYangAPI clientVer
      else validateClientVersionForYangAPI yv clientVer)"

section \<open>Users\<close>

record UserRoles =
  ur_Name :: string
  ur_Roles :: "string list"

fun has_admin :: "string list \<Rightarrow> bool" where
  "has_admin [] = False"
| "has_admin (r # rs) = (if r = ''admin'' then True else has_admin rs)"

text \<open>The loop is the same for a set request and for a bulk request.\<close>

definition isAuthorizedForSet :: "bool \<Rightarrow> UserRoles \<Rightarrow> bool" where
  "isAuthorizedForSet authEnabled user = (if \<not> authEnabled then True else has_admin (ur_Roles user))"

definition isAuthorizedForBulk :: "bool \<Rightarrow> UserRoles \<Rightarrow> bool" where
  "isAuthorizedForBulk authEnabled user = (if \<not> authEnabled then True else has_admin (ur_Roles user))"

definition isAuthorizedForGet :: "bool \<Rightarrow> UserRoles \<Rightarrow> bool" where
  "isAuthorizedForGet authEnabled user = (if \<not> authEnabled then True else True)"

definition isAuthorizedForSubscribe :: "bool \<Rightarrow> UserRoles \<Rightarrow> bool" where
  "isAuthorizedForSubscribe authEnabled user = (if \<not> authEnabled then True else True)"

definition isAuthorizedForIsSubscribe :: "bool \<Rightarrow> UserRoles \<Rightarrow> bool" where
  "isAuthorizedForIsSubscribe authEnabled user = (if \<not> authEnabled then True else True)"

definition isAuthorizedForAction :: "bool \<Rightarrow> UserRoles \<Rightarrow> bool" where
  "isAuthorizedForAction authEnabled user = (if \<not> authEnabled then True else True)"

lemma has_admin_iff: "has_admin rs \<longleftrightarrow> ''admin'' \<in> set rs"
  by (induction rs) auto

section \<open>The order of versions\<close>

instantiation Version :: linorder
begin

definition less_Version_def: "v < w \<longleftrightarrow> GreaterThan (w :: Version) v"

definition less_eq_Version_def: "v \<le> w \<longleftrightarrow> \<not> GreaterThan (v :: Version) w"

instance
proof
  fix a b c :: Version
  show "(a < b) = (a \<le> b \<and> \<not> b \<le> a)"
    by (auto simp: less_Version_def less_eq_Version_def GreaterThan_def)
  show "a \<le> a" by (simp add: less_eq_Version_def GreaterThan_def)
  show "a \<le> b \<Longrightarrow> b \<le> c \<Longrightarrow> a \<le> c"
    by (auto simp: less_eq_Version_def GreaterThan_def)
  show "a \<le> b \<Longrightarrow> b \<le> a \<Longrightarrow> a = b"
    by (cases a; cases b) (auto simp: less_eq_Version_def GreaterThan_def)
  show "a \<le> b \<or> b \<le> a" by (auto simp: less_eq_Version_def GreaterThan_def)
qed

end

lemma base_le: "GetCompatibleBaseVersion v \<le> v"
proof (cases "Major v = 0 \<or> Major v = 1")
  case True
  then show ?thesis
    by (auto simp: GetCompatibleBaseVersion_def less_eq_Version_def GreaterThan_def)
next
  case False
  then have "Major v - 1 < Major v"
    by (simp add: word_less_nat_alt unat_minus_one unat_gt_0)
  then show ?thesis using False
    by (simp add: GetCompatibleBaseVersion_def less_eq_Version_def GreaterThan_def)
qed

text \<open>The check accepts exactly the interval from the base to the bundle version.\<close>

lemma validate_iff:
  "validateClientVersion yv c native = None \<longleftrightarrow>
     IsNull c \<or> native \<or> theYangBaseVersion yv \<le> c \<and> c \<le> theYangBundleVersion yv"
  by (auto simp: validateClientVersion_def validateClientVersionForYangAPI_def
      validateClientVersionForNonYangAPI_def less_eq_Version_def)

section \<open>Printing and reading\<close>

lemma scan_digits_nat:
  "scan_digits s = (t, r) \<Longrightarrow> s = t @ r" 
  by (induction s arbitrary: t r) (auto split: if_splits prod.splits)

lemma scan_digits_append:
  assumes "\<forall>c \<in> set t. char_digit c \<noteq> None" "r = [] \<or> char_digit (hd r) = None"
  shows "scan_digits (t @ r) = (t, r)"
  using assms by (induction t) (cases r; auto)+

lemma char_digit_nat_digits: "c \<in> set (nat_digits n) \<Longrightarrow> char_digit c \<noteq> None"
proof (induction n rule: nat_digits.induct)
  case (1 n)
  show ?case
  proof (cases "n < 10")
    case True
    then show ?thesis using 1(2) by (subst (asm) nat_digits.simps) (simp add: char_digit_digit_char)
  next
    case False
    then show ?thesis using 1 by (subst (asm) (2) nat_digits.simps) (auto simp: char_digit_digit_char)
  qed
qed

lemma char_digit_not_blank: "char_digit c \<noteq> None \<Longrightarrow> c \<noteq> CHR 0x0A \<and> \<not> is_blank c"
  by (auto simp: is_blank_def char_digit_def)

lemma skip_space_nat_digits: "skip_space (nat_digits n @ r) = Inr (nat_digits n @ r)"
proof (cases "nat_digits n")
  case Nil
  then show ?thesis by (simp add: nat_digits_ne)
next
  case (Cons c s)
  then have "char_digit c \<noteq> None" using char_digit_nat_digits[of c n] by simp
  then show ?thesis using Cons char_digit_not_blank by simp
qed

lemma scan_uint32_text:
  assumes "r = [] \<or> char_digit (hd r) = None"
  shows "scan_uint32 (uint_text w @ r) = Inr (w, r)"
proof -
  have "unat w < 2 ^ 32" using unsigned_less[of w, where ?'a = nat] by simp
  then have "\<not> 2 ^ 64 \<le> unat w" "\<not> 2 ^ 32 \<le> unat w" by simp_all
  moreover have "scan_digits (nat_digits (unat w) @ r) = (nat_digits (unat w), r)"
    using assms char_digit_nat_digits by (intro scan_digits_append) blast+
  ultimately show ?thesis
    by (simp add: scan_uint32_def uint_text_def skip_space_nat_digits nat_digits_ne parse_nat_digits Let_def)
qed

lemma char_digit_dot: "char_digit (CHR ''.'') = None"
  by (simp add: char_digit_def)

lemma sscanf_String: "sscanf_version (Version_String v) w = (v, None)"
  using scan_uint32_text[of "[]" "Patch v"]
  by (simp add: sscanf_version_def Version_String_def scan_uint32_text char_digit_dot Let_def)

lemma Version_Set_String: "\<not> IsNull v \<Longrightarrow> Version_Set (Version_String v) w = (v, None)"
  by (simp add: Version_Set_def sscanf_String)

end
