(* ===== verification/Go_Str.thy ===== *)
theory Go_Str
  imports DB_Value
begin

text \<open>Further functions of package \<open>strings\<close>, on character lists.\<close>

function strReplaceAll_ne :: "string \<Rightarrow> string \<Rightarrow> string \<Rightarrow> string" where
  "strReplaceAll_ne old new s =
     (if old = [] then s
      else case cut old s of None \<Rightarrow> s | Some (a, b) \<Rightarrow> a @ new @ strReplaceAll_ne old new b)"
  by pat_completeness auto
termination
  by (relation "measure (\<lambda>(old, new, s). length s)") (auto dest: cut_shorter)

declare strReplaceAll_ne.simps [simp del]

text \<open>\<open>strings.Replace(s, old, new, -1)\<close>; an empty \<open>old\<close> matches at each end of each character.\<close>

definition strReplaceAll :: "string \<Rightarrow> string \<Rightarrow> string \<Rightarrow> string" where
  "strReplaceAll s old new =
     (if old = [] then new @ concat (map (\<lambda>c. c # new) s) else strReplaceAll_ne old new s)"

lemma strReplaceAll_none:
  assumes "\<not> strContains s old"
  shows "strReplaceAll s old new = s"
proof -
  have "old \<noteq> []"
  proof
    assume "old = []"
    then show False using assms strContains_iff[of s "[]"] by (metis append_Nil)
  qed
  moreover have "cut old s = None" using assms unfolding strContains_def by blast
  ultimately have "strReplaceAll_ne old new s = s" by (subst strReplaceAll_ne.simps) simp
  with \<open>old \<noteq> []\<close> show ?thesis by (simp add: strReplaceAll_def)
qed

definition strTrimPrefix :: "string \<Rightarrow> string \<Rightarrow> string" where
  "strTrimPrefix s p = (case strip_prefix p s of Some r \<Rightarrow> r | None \<Rightarrow> s)"

text \<open>The part before and the part after the last occurrence of a separator (\<open>LastIndex\<close>).\<close>

definition cut_last :: "string \<Rightarrow> string \<Rightarrow> (string \<times> string) option" where
  "cut_last sep s = map_option (\<lambda>(a, b). (rev b, rev a)) (cut (rev sep) (rev s))"

definition strTrim_char :: "char \<Rightarrow> string \<Rightarrow> string" where
  "strTrim_char c s = rev (dropWhile (\<lambda>d. d = c) (rev (dropWhile (\<lambda>d. d = c) s)))"

end
