(* ===== verification/TL_Path.thy ===== *)
theory TL_Path
  imports DB_Value
begin

text \<open>
  Paths: package \<open>translib/path\<close> and the path parser of \<open>translib/path_utils.go\<close>.

  A \<open>gnmi.Path\<close> holds pointers to its elements.  The elements live in a heap, a list that
  an address indexes; the operations that change elements work on it.  An operation that
  only reads works on the elements themselves, which \<open>deref\<close> looks up.  A nil path is
  \<open>None\<close>.  Index expressions that Go refuses end in \<open>Panics\<close>.

  The loops over the characters of a string visit runes; here they visit bytes, which makes
  no difference, as all the characters that they look for are ASCII and an escape in front
  of a rune of several bytes skips its first byte, none of the others being special.
\<close>

section \<open>Paths\<close>

record PathElem =
  peName :: string
  peKey :: "(string, string) gomap"

record Path =
  Elem :: "PathElem list"
  Origin :: string
  Target :: string

record PathRef =
  ElemRef :: "nat list"
  OriginRef :: string
  TargetRef :: string

definition emptyPath :: Path where
  "emptyPath = \<lparr>Elem = [], Origin = [], Target = []\<rparr>"

definition deref :: "PathElem list \<Rightarrow> PathRef \<Rightarrow> Path" where
  "deref h p = \<lparr>Elem = map (\<lambda>a. h ! a) (ElemRef p), Origin = OriginRef p, Target = TargetRef p\<rparr>"

definition path_Len :: "Path option \<Rightarrow> int" where
  "path_Len p = (case p of None \<Rightarrow> 0 | Some q \<Rightarrow> int (length (Elem q)))"

text \<open>The index expression \<open>p.Elem[i]\<close>.\<close>

definition elem_at :: "Path option \<Rightarrow> int \<Rightarrow> PathElem outcome" where
  "elem_at p i =
     (case p of None \<Rightarrow> Panics
      | Some q \<Rightarrow> if 0 \<le> i \<and> i < int (length (Elem q)) then Ret (Elem q ! nat i) else Panics)"

fun key_has_wildcard :: "(string, string) gomap \<Rightarrow> bool" where
  "key_has_wildcard [] = False"
| "key_has_wildcard ((k, v) # ks) = (if v = ''*'' then True else key_has_wildcard ks)"

fun elems_have_wildcard :: "PathElem list \<Rightarrow> bool" where
  "elems_have_wildcard [] = False"
| "elems_have_wildcard (e # es) = (if key_has_wildcard (peKey e) then True else elems_have_wildcard es)"

definition HasWildcardKey :: "Path option \<Rightarrow> bool" where
  "HasWildcardKey p = (case p of None \<Rightarrow> False | Some q \<Rightarrow> elems_have_wildcard (Elem q))"

definition HasWildcardAtKey :: "Path option \<Rightarrow> int \<Rightarrow> bool outcome" where
  "HasWildcardAtKey p index =
     (if index \<ge> path_Len p then Ret False
      else bind (elem_at p index) (\<lambda>e. Ret (key_has_wildcard (peKey e))))"

text \<open>\<open>peq\<close> is \<open>util.PathElemsEqual\<close> of package ygot.\<close>

fun elems_equal :: "(PathElem \<Rightarrow> PathElem \<Rightarrow> bool) \<Rightarrow> PathElem list \<Rightarrow> PathElem list \<Rightarrow> bool" where
  "elems_equal peq (e # es) (f # fs) = (if \<not> peq e f then False else elems_equal peq es fs)"
| "elems_equal peq _ _ = True"

definition path_Equals :: "(PathElem \<Rightarrow> PathElem \<Rightarrow> bool) \<Rightarrow> Path option \<Rightarrow> Path option \<Rightarrow> bool" where
  "path_Equals peq p1 p2 =
     (if path_Len p1 \<noteq> path_Len p2 then False
      else if path_Len p1 = 0 then True
      else elems_equal peq (Elem (the p1)) (Elem (the p2)))"

text \<open>\<open>parse\<close> is \<open>ygot.StringToStructuredPath\<close>.\<close>

definition path_New :: "(string \<Rightarrow> goerr + Path) \<Rightarrow> string \<Rightarrow> goerr + Path" where
  "path_New parse pathStr =
     (if length pathStr = 0 \<or> pathStr = ''/'' then Inr emptyPath else parse pathStr)"

text \<open>\<open>show_path\<close> is \<open>ygot.PathToString\<close>.\<close>

definition path_String :: "(Path \<Rightarrow> goerr + string) \<Rightarrow> Path option \<Rightarrow> string" where
  "path_String show_path path =
     (case path of
        None \<Rightarrow> ''<nil>''
      | Some p \<Rightarrow> (case show_path p of Inr s \<Rightarrow> s | Inl e \<Rightarrow> ''<invalid>''))"

definition GetElemAt :: "Path option \<Rightarrow> int \<Rightarrow> string outcome" where
  "GetElemAt path index =
     (if index < path_Len path then bind (elem_at path index) (\<lambda>e. Ret (peName e)) else Ret [])"

definition HasElemAt :: "Path option \<Rightarrow> int \<Rightarrow> string \<Rightarrow> bool outcome" where
  "HasElemAt path index elem =
     (if index < path_Len path then bind (elem_at path index) (\<lambda>e. Ret (peName e = elem)) else Ret False)"

section \<open>Matching\<close>

fun keys_match :: "(string, string) gomap \<Rightarrow> (string, string) gomap \<Rightarrow> bool" where
  "keys_match [] pk = True"
| "keys_match ((k, tv) # tk) pk =
     (case gget pk k of
        None \<Rightarrow> False
      | Some pv \<Rightarrow> if tv \<noteq> ''*'' \<and> tv \<noteq> pv then False else keys_match tk pk)"

definition elem_matches :: "PathElem \<Rightarrow> PathElem \<Rightarrow> bool" where
  "elem_matches p t =
     (if peName t \<noteq> peName p then False
      else if length (peKey t) \<noteq> length (peKey p) then False
      else keys_match (peKey t) (peKey p))"

fun elems_match :: "PathElem list \<Rightarrow> PathElem list \<Rightarrow> bool" where
  "elems_match ps [] = True"
| "elems_match (p # ps) (t # ts) = (if elem_matches p t then elems_match ps ts else False)"
| "elems_match [] (t # ts) = False"

definition path_Matches :: "Path option \<Rightarrow> Path option \<Rightarrow> bool outcome" where
  "path_Matches path template =
     (if path_Len path = 0 \<or> path_Len path < path_Len template then Ret False
      else case template of
        None \<Rightarrow> Panics
      | Some t \<Rightarrow> Ret (elems_match (Elem (the path)) (Elem t)))"

section \<open>Building and changing paths\<close>

definition path_Copy :: "PathRef option \<Rightarrow> PathRef option" where
  "path_Copy path =
     (case path of None \<Rightarrow> None
      | Some p \<Rightarrow> Some \<lparr>ElemRef = ElemRef p, OriginRef = [], TargetRef = []\<rparr>)"

definition cloneElem :: "PathElem \<Rightarrow> PathElem" where
  "cloneElem pe = \<lparr>peName = peName pe, peKey = gset_all (peKey pe) []\<rparr>"

fun clone_elems :: "nat list \<Rightarrow> PathElem list \<Rightarrow> nat list \<times> PathElem list" where
  "clone_elems [] h = ([], h)"
| "clone_elems (a # as) h =
     (case clone_elems as (h @ [cloneElem (h ! a)]) of (bs, h') \<Rightarrow> (length h # bs, h'))"

definition path_Clone :: "PathRef option \<Rightarrow> PathElem list \<Rightarrow> PathRef option \<times> PathElem list" where
  "path_Clone path h =
     (case path of None \<Rightarrow> (None, h)
      | Some p \<Rightarrow> (case clone_elems (ElemRef p) h of
          (bs, h') \<Rightarrow> (Some \<lparr>ElemRef = bs, OriginRef = [], TargetRef = []\<rparr>, h')))"

definition SubPath :: "PathRef option \<Rightarrow> int \<Rightarrow> int \<Rightarrow> PathRef outcome" where
  "SubPath path startIndex endIndex =
     (let es = (case path of None \<Rightarrow> [] | Some p \<Rightarrow> ElemRef p);
          n = int (length es);
          mk = (\<lambda>l. \<lparr>ElemRef = l, OriginRef = [], TargetRef = []\<rparr>) in
      if n = 0 \<or> startIndex < 0 \<or> endIndex > n then Ret (mk [])
      else if endIndex < startIndex then Panics
      else Ret (mk (take (nat (endIndex - startIndex)) (drop (nat startIndex) es))))"

definition orEmpty :: "PathRef option \<Rightarrow> PathRef" where
  "orEmpty path = (case path of None \<Rightarrow> \<lparr>ElemRef = [], OriginRef = [], TargetRef = []\<rparr> | Some p \<Rightarrow> p)"

fun append_names :: "string list \<Rightarrow> PathRef \<Rightarrow> PathElem list \<Rightarrow> PathRef \<times> PathElem list" where
  "append_names [] p h = (p, h)"
| "append_names (e # es) p h =
     append_names es (p\<lparr>ElemRef := ElemRef p @ [length h]\<rparr>) (h @ [\<lparr>peName = e, peKey = []\<rparr>])"

definition AppendElems :: "PathRef option \<Rightarrow> string list \<Rightarrow> PathElem list \<Rightarrow> PathRef \<times> PathElem list" where
  "AppendElems path elems h = append_names elems (orEmpty path) h"

definition AppendPathStr ::
  "(string \<Rightarrow> goerr + PathElem list) \<Rightarrow> PathRef option \<Rightarrow> string \<Rightarrow> PathElem list \<Rightarrow>
     (PathRef \<times> goerr option) \<times> PathElem list" where
  "AppendPathStr parse path suffix h =
     (let p = orEmpty path in
      case parse suffix of
        Inl e \<Rightarrow> ((p, Some e), h)
      | Inr es \<Rightarrow> ((p\<lparr>ElemRef := ElemRef p @ [length h..<length h + length es]\<rparr>, None), h @ es))"

text \<open>The loop index is the number of elements merged so far; \<open>sz\<close> is the length at the start.\<close>

fun merge_loop ::
  "nat \<Rightarrow> int \<Rightarrow> string list \<Rightarrow> int \<Rightarrow> PathRef \<Rightarrow> PathElem list \<Rightarrow> (int \<times> PathRef \<times> PathElem list) outcome" where
  "merge_loop i sz [] index p h = Ret (int i, p, h)"
| "merge_loop i sz (e # es) index p h =
     (if index \<ge> sz then
        merge_loop (Suc i) sz es index (p\<lparr>ElemRef := ElemRef p @ [length h]\<rparr>) (h @ [\<lparr>peName = e, peKey = []\<rparr>])
      else bind (elem_at (Some (deref h p)) index) (\<lambda>x.
        if e \<noteq> peName x then Ret (int i, p, h) else merge_loop (Suc i) sz es (index + 1) p h))"

definition MergeElemsAt ::
  "PathRef option \<Rightarrow> int \<Rightarrow> string list \<Rightarrow> PathElem list \<Rightarrow> (int \<times> PathRef option \<times> PathElem list) outcome" where
  "MergeElemsAt path index elems h =
     (case path of
        None \<Rightarrow> Ret (0, None, h)
      | Some p \<Rightarrow> bind (merge_loop 0 (int (length (ElemRef p))) elems index p h)
          (\<lambda>(n, p', h'). Ret (n, Some p', h')))"

definition SetKey :: "nat option \<Rightarrow> string \<Rightarrow> string \<Rightarrow> PathElem list \<Rightarrow> PathElem list" where
  "SetKey elem name value h =
     (case elem of None \<Rightarrow> h
      | Some a \<Rightarrow> h[a := (h ! a)\<lparr>peKey := gset name value (peKey (h ! a))\<rparr>])"

definition SetKeyAt :: "PathRef option \<Rightarrow> int \<Rightarrow> string \<Rightarrow> string \<Rightarrow> PathElem list \<Rightarrow> PathElem list outcome" where
  "SetKeyAt path index name value h =
     (let es = (case path of None \<Rightarrow> [] | Some p \<Rightarrow> ElemRef p) in
      if index < int (length es) then
        (if index < 0 then Panics else Ret (SetKey (Some (es ! nat index)) name value h))
      else Ret h)"

definition strip_module :: "string \<Rightarrow> string" where
  "strip_module n = (case cut '':'' n of None \<Rightarrow> n | Some (a, b) \<Rightarrow> b)"

definition RemoveModulePrefix :: "PathRef option \<Rightarrow> PathElem list \<Rightarrow> PathElem list" where
  "RemoveModulePrefix path h =
     (case path of None \<Rightarrow> h
      | Some p \<Rightarrow> fold (\<lambda>a h. h[a := (h ! a)\<lparr>peName := strip_module (peName (h ! a))\<rparr>]) (ElemRef p) h)"

section \<open>Path strings\<close>

abbreviation "bslash \<equiv> CHR 0x5C"

definition wildcard_at :: "string \<Rightarrow> bool" where
  "wildcard_at s = (case s of c # d # _ \<Rightarrow> c = CHR ''*'' \<and> d = CHR '']'' | _ \<Rightarrow> False)"

text \<open>\<open>s\<close> is the string from the index on.\<close>

definition hasWildcardKeyAt :: "string \<Rightarrow> bool" where
  "hasWildcardKeyAt s =
     (if length s > 2 \<and> hd s = bslash then wildcard_at (tl s) else wildcard_at s)"

fun wildcard_scan :: "bool \<Rightarrow> bool \<Rightarrow> bool \<Rightarrow> string \<Rightarrow> bool" where
  "wildcard_scan inKey inValue inEscape [] = False"
| "wildcard_scan inKey inValue inEscape (c # s) =
     (if inEscape then wildcard_scan inKey inValue False s
      else if c = bslash then wildcard_scan inKey inValue True s
      else if c = CHR ''['' then wildcard_scan (if \<not> inValue then True else inKey) inValue False s
      else if c = CHR ''='' then
        (if inKey then (if hasWildcardKeyAt s then True else wildcard_scan False True False s)
         else wildcard_scan inKey inValue False s)
      else if c = CHR '']'' then wildcard_scan inKey False False s
      else wildcard_scan inKey inValue False s)"

definition StrHasWildcardKey :: "string \<Rightarrow> bool" where
  "StrHasWildcardKey p = wildcard_scan False False False p"

fun last_slash :: "nat \<Rightarrow> nat \<Rightarrow> bool \<Rightarrow> bool \<Rightarrow> string \<Rightarrow> nat" where
  "last_slash i ls inEscape inKey [] = ls"
| "last_slash i ls inEscape inKey (c # s) =
     (if inEscape then last_slash (Suc i) ls False inKey s
      else if c = CHR ''/'' \<and> \<not> inKey then last_slash (Suc i) i inEscape inKey s
      else if c = CHR ''['' then last_slash (Suc i) ls inEscape True s
      else if c = CHR '']'' then last_slash (Suc i) ls inEscape False s
      else if c = bslash then last_slash (Suc i) ls True inKey s
      else last_slash (Suc i) ls inEscape inKey s)"

definition SplitLastElem :: "string \<Rightarrow> string \<times> string" where
  "SplitLastElem p0 =
     (let p = strTrimSuffix p0 ''/''; ls = last_slash 0 0 False False p in (take ls p, drop ls p))"

section \<open>Path information (\<open>path_utils.go\<close>)\<close>

record PathInfo =
  piPath :: string
  Template :: string
  Vars :: "(string, string) gomap"

definition HasVar :: "PathInfo \<Rightarrow> string \<Rightarrow> bool" where
  "HasVar p name = ghas (Vars p) name"

definition Var :: "PathInfo \<Rightarrow> string \<Rightarrow> string" where
  "Var p name = (case gget (Vars p) name of None \<Rightarrow> [] | Some v \<Rightarrow> v)"

definition StringVar :: "PathInfo \<Rightarrow> string \<Rightarrow> string \<Rightarrow> string" where
  "StringVar p name defalt = (case gget (Vars p) name of Some v \<Rightarrow> v | None \<Rightarrow> defalt)"

definition IntVar :: "PathInfo \<Rightarrow> string \<Rightarrow> int \<times> goerr option" where
  "IntVar p name = (if length (Var p name) = 0 then (0, None) else Atoi (Var p name))"

definition HasPrefix :: "PathInfo \<Rightarrow> string \<Rightarrow> bool" where
  "HasPrefix p s = strHasPrefix (Template p) s"

definition HasSuffix :: "PathInfo \<Rightarrow> string \<Rightarrow> bool" where
  "HasSuffix p s = strHasSuffix (Template p) s"

text \<open>\<open>readUntil\<close>: the text read and the rest of the reader.\<close>

fun readUntil :: "bool \<Rightarrow> char \<Rightarrow> string \<Rightarrow> string \<times> string" where
  "readUntil escaped delim [] = ([], [])"
| "readUntil escaped delim (c # r) =
     (if c = delim \<and> \<not> escaped then ([], r)
      else if c = bslash \<and> \<not> escaped then readUntil True delim r
      else (case readUntil False delim r of (b, r') \<Rightarrow> (c # b, r')))"

definition numbered :: "string \<Rightarrow> nat \<Rightarrow> string" where
  "numbered namePrefix k = namePrefix @ ''#'' @ nat_digits k"

lemma nat_digits_inj: "nat_digits a = nat_digits b \<Longrightarrow> a = b"
  by (metis option.inject parse_nat_digits)

lemma numbered_inj: "inj (numbered p)"
  by (auto simp: inj_def numbered_def dest: nat_digits_inj)

lemma taken_finite: "finite {j. j \<ge> k \<and> ghas vars (numbered p j)}"
proof -
  have "{j. ghas vars (numbered p j)} = numbered p -` set (gkeys vars)"
    by (auto simp: ghas_def in_gkeys)
  then have "finite {j. ghas vars (numbered p j)}"
    by (simp add: finite_vimageI numbered_inj)
  then show ?thesis by (rule finite_subset[rotated]) auto
qed

text \<open>The loop that looks for a free name, at its step \<open>k\<close>; the taken names are finitely many.\<close>

function free_name :: "(string, string) gomap \<Rightarrow> string \<Rightarrow> nat \<Rightarrow> string \<Rightarrow> string" where
  "free_name vars namePrefix k name =
     (if ghas vars name then free_name vars namePrefix (Suc k) (numbered namePrefix k) else name)"
  by pat_completeness auto
termination
proof (relation "measure (\<lambda>(vars, p, k, name).
    2 * card {j. j \<ge> k \<and> ghas vars (numbered p j)} + (if ghas vars name then 1 else 0))", goal_cases)
  case (2 vars p k name)
  let ?T = "\<lambda>k. {j. j \<ge> k \<and> ghas vars (numbered p j)}"
  have "card (?T (Suc k)) \<le> card (?T k)"
    by (rule card_mono[OF taken_finite]) auto
  moreover have "card (?T (Suc k)) < card (?T k)" if "ghas vars (numbered p k)"
  proof (rule psubset_card_mono[OF taken_finite])
    have "k \<in> ?T k" "k \<notin> ?T (Suc k)" using that by auto
    then show "?T (Suc k) \<subset> ?T k" by (metis (no_types, lifting) Collect_mono Suc_leD psubsetI)
  qed
  ultimately show ?case using 2 by auto
qed simp

declare free_name.simps [simp del]

lemma readUntil_shorter: "readUntil b d s = (n, r) \<Longrightarrow> length r \<le> length s"
  by (induction b d s arbitrary: n r rule: readUntil.induct)
     (auto split: if_splits prod.splits simp: le_SucI)

text \<open>The loop of \<open>NewPathInfo\<close> on what is left of the path, the template so far, the variables so far.\<close>

function path_info :: "string \<Rightarrow> string \<Rightarrow> (string, string) gomap \<Rightarrow> string \<times> (string, string) gomap" where
  "path_info [] template vars = (template, vars)"
| "path_info (c # s) template vars =
     (if c \<noteq> CHR ''['' then path_info s (template @ [c]) vars
      else
        let (name, r1) = readUntil False (CHR ''='') s;
            (val, r2) = readUntil False (CHR '']'') r1;
            name' = free_name vars name 2 name in
        if length name' \<noteq> 0 then path_info r2 (template @ ''{}'') (gset name' val vars)
        else path_info r2 template vars)"
  by pat_completeness auto
termination
proof (relation "measure (\<lambda>(s, t, v). length s)", goal_cases)
  case (3 c s t vars x n r1 y val r2 name')
  then have "readUntil False (CHR ''='') s = (n, r1)" "readUntil False (CHR '']'') r1 = (val, r2)" by simp_all
  from this[THEN readUntil_shorter] show ?case by simp
next
  case (4 c s t vars x n r1 y val r2 name')
  then have "readUntil False (CHR ''='') s = (n, r1)" "readUntil False (CHR '']'') r1 = (val, r2)" by simp_all
  from this[THEN readUntil_shorter] show ?case by simp
qed simp_all

definition NewPathInfo :: "string \<Rightarrow> PathInfo" where
  "NewPathInfo path =
     (case path_info path [] [] of (t, vars) \<Rightarrow> \<lparr>piPath = path, Template = t, Vars = vars\<rparr>)"

end
