(* ===== verification/TL_Binder.thy ===== *)
theory TL_Binder
  imports Go_Str TL_Path
begin

text \<open>
  The request binder (\<open>translib/request_binder.go\<close>): it turns the URI and the payload of a
  request into a tree of Go objects and a target node in it.

  The tree, its nodes and its schema belong to the package ygot and to the generated
  bindings.  They are the parameter \<open>ygot\<close>: \<open>'r\<close> is the whole tree below the device, \<open>'n\<close>
  a reference to a node (or to a field value), \<open>'e\<close> a schema entry.
\<close>

section \<open>What the binder calls\<close>

record ('r, 'n, 'e) ygot =
  yg_device :: 'r
  yg_StringToPath :: "string \<Rightarrow> goerr + PathElem list"
  yg_GetOrCreateNode :: "'r \<Rightarrow> PathElem list \<Rightarrow> 'r \<times> (goerr + ('n \<times> 'e))"
  yg_GetNode :: "'r \<Rightarrow> PathElem list \<Rightarrow> goerr + ('n \<times> 'e) list"
  yg_GetNodeAt :: "'r \<Rightarrow> 'e \<Rightarrow> 'n \<Rightarrow> PathElem list \<Rightarrow> goerr + ('n \<times> 'e) list"
  yg_IsLeaf :: "'e \<Rightarrow> bool"
  yg_IsLeafList :: "'e \<Rightarrow> bool"
  yg_IsContainer :: "'e \<Rightarrow> bool"
  yg_IsList :: "'e \<Rightarrow> bool"
  yg_is_map :: "'r \<Rightarrow> 'n \<Rightarrow> bool"
  yg_is_struct :: "'r \<Rightarrow> 'n \<Rightarrow> bool"
  yg_is_validated :: "'r \<Rightarrow> 'n \<Rightarrow> bool"
  yg_fields :: "'r \<Rightarrow> 'n \<Rightarrow> (string \<times> 'n) list"
  yg_Unmarshal :: "string \<Rightarrow> 'n \<Rightarrow> 'r \<Rightarrow> 'r \<times> goerr option"
  yg_Validate :: "'r \<Rightarrow> 'n \<Rightarrow> goerr option"
  yg_ValidateDevice :: "'r \<Rightarrow> goerr option"
  yg_errText :: "goerr \<Rightarrow> string"

section \<open>The binder\<close>

definition op_GET :: int where "op_GET = 1"
definition op_CREATE :: int where "op_CREATE = 2"
definition op_REPLACE :: int where "op_REPLACE = 3"
definition op_UPDATE :: int where "op_UPDATE = 4"
definition op_DELETE :: int where "op_DELETE = 5"

lemmas opcodes = op_GET_def op_CREATE_def op_REPLACE_def op_UPDATE_def op_DELETE_def

text \<open>A payload that the request does not have is a nil pointer.\<close>

record 'e requestBinder =
  rb_uri :: string
  rb_payload :: "string option"
  rb_opcode :: int
  pathParent :: "PathElem list option"
  targetNodePath :: "PathElem list option"
  targetNodeSchema :: "'e option"
  targetNodeListInst :: bool
  isSonicModel :: bool

definition getRequestBinder :: "string \<Rightarrow> string option \<Rightarrow> int \<Rightarrow> 'e requestBinder" where
  "getRequestBinder uri payload opcode =
     \<lparr>rb_uri = uri, rb_payload = payload, rb_opcode = opcode, pathParent = None, targetNodePath = None,
      targetNodeSchema = None, targetNodeListInst = False, isSonicModel = False\<rparr>"

definition syntax_error :: "int \<Rightarrow> goerr \<Rightarrow> goerr option" where
  "syntax_error code e = Some (TranslibSyntaxValidationError code e)"

text \<open>Reading through the nil pointer of a payload panics.\<close>

definition unMarshallPayload ::
  "('r, 'n, 'e) ygot \<Rightarrow> 'e requestBinder \<Rightarrow> 'n \<Rightarrow> 'r \<Rightarrow> (goerr option \<times> 'r) outcome" where
  "unMarshallPayload yg rb workObj r =
     (if \<not> yg_is_struct yg r workObj then
        Ret (syntax_error 400 (GoError ''Error in casting the target object''), r)
      else case rb_payload rb of
        None \<Rightarrow> Panics
      | Some p \<Rightarrow>
          if length p = 0 then Ret (syntax_error 400 (GoError ''Request payload is empty''), r)
          else case yg_Unmarshal yg p workObj r of
            (r1, None) \<Rightarrow> Ret (None, r1)
          | (r1, Some e) \<Rightarrow> Ret (syntax_error 400 e, r1))"

definition READONLY :: string where
  "READONLY = ''ERROR_READONLY_OBJECT_FOUND''"

definition validateObjectType :: "('r, 'n, 'e) ygot \<Rightarrow> 'e requestBinder \<Rightarrow> goerr option \<Rightarrow> goerr option" where
  "validateObjectType yg rb errObj =
     (case errObj of
        None \<Rightarrow> None
      | Some e \<Rightarrow>
          let errStr = yg_errText yg e in
          if rb_opcode rb = op_GET \<or> isSonicModel rb then
            (let tmpStr = strReplaceAll errStr READONLY [] in
             if length tmpStr > 0 then Some (GoError tmpStr) else None)
          else if strContains errStr READONLY then
            Some (GoError ''SET operation not allowed on the read-only object'')
          else Some (GoError errStr))"

definition validateRequest :: "('r, 'n, 'e) ygot \<Rightarrow> 'e requestBinder \<Rightarrow> 'r \<Rightarrow> goerr option" where
  "validateRequest yg rb r =
     (if isSonicModel rb then None
      else case pathParent rb of
        None \<Rightarrow>
          if rb_opcode rb = op_UPDATE \<or> rb_opcode rb = op_REPLACE
          then validateObjectType yg rb (yg_ValidateDevice yg r) else Some (GoError ''Path is empty'')
      | Some [] \<Rightarrow>
          if rb_opcode rb = op_UPDATE \<or> rb_opcode rb = op_REPLACE
          then validateObjectType yg rb (yg_ValidateDevice yg r) else Some (GoError ''Path is empty'')
      | Some (e # es) \<Rightarrow>
          (case yg_StringToPath yg (peName e) of
             Inl err \<Rightarrow> Some err
           | Inr path \<Rightarrow>
               (case yg_GetNode yg r path of
                  Inl err \<Rightarrow> Some err
                | Inr [] \<Rightarrow> Some (GoError ''Invalid base URI node'')
                | Inr ((n, s) # _) \<Rightarrow>
                    if yg_is_validated yg r n then validateObjectType yg rb (yg_Validate yg r n)
                    else Some (GoError ''Invalid Object in the binding: Not able to cast to type ValidatedGoStruct''))))"

text \<open>The names lose their module prefix; the first one tells a sonic model.\<close>

definition strip_names :: "PathElem list \<Rightarrow> PathElem list" where
  "strip_names es = map (\<lambda>e. e\<lparr>peName := last (strSplit (peName e) '':'')\<rparr>) es"

definition first_is_sonic :: "PathElem list \<Rightarrow> bool" where
  "first_is_sonic es = (case es of [] \<Rightarrow> False | e # _ \<Rightarrow> strHasPrefix (hd (strSplit (peName e) '':'')) ''sonic-'')"

text \<open>The path that the target object is created at, and the binder with the parts of the path.\<close>

definition split_target :: "PathElem list \<Rightarrow> 'e requestBinder \<Rightarrow> ('e requestBinder \<times> PathElem list) outcome" where
  "split_target path rb =
     (if rb_opcode rb = op_UPDATE \<or> rb_opcode rb = op_REPLACE then
        (if path = [] then Panics
         else
           let rb1 = (if length (peKey (last path)) > 0 then rb\<lparr>targetNodeListInst := True\<rparr> else rb);
               rb2 = rb1\<lparr>targetNodePath := Some [last path], pathParent := Some (butlast path)\<rparr> in
           Ret (rb2, if targetNodeListInst rb2 then butlast path else path))
      else Ret (rb, path))"

definition unMarshallUri ::
  "('r, 'n, 'e) ygot \<Rightarrow> 'e requestBinder \<Rightarrow> 'r \<Rightarrow> ((goerr + 'n) \<times> 'e requestBinder \<times> 'r) outcome" where
  "unMarshallUri yg rb r =
     (if length (rb_uri rb) = 0 then Ret (Inl (GoError ''Error: URI is empty''), rb, r)
      else case yg_StringToPath yg (rb_uri rb) of
        Inl e \<Rightarrow> Ret (Inl e, rb, r)
      | Inr path0 \<Rightarrow>
          let path = strip_names path0;
              rb1 = rb\<lparr>pathParent := Some path, isSonicModel := isSonicModel rb \<or> first_is_sonic path0\<rparr> in
          bind (split_target path rb1) (\<lambda>(rb2, targetPath).
            case yg_GetOrCreateNode yg r targetPath of
              (r1, Inl e) \<Rightarrow> Ret (Inl e, rb2, r1)
            | (r1, Inr (ygNode, ygEntry)) \<Rightarrow>
                let rb3 = rb2\<lparr>targetNodeSchema := Some ygEntry\<rparr> in
                if (rb_opcode rb3 = op_GET \<or> rb_opcode rb3 = op_DELETE) \<and>
                   \<not> yg_IsLeaf yg ygEntry \<and> \<not> yg_IsLeafList yg ygEntry then
                  (case validateRequest yg rb3 r1 of
                     Some e \<Rightarrow> Ret (Inl e, rb3, r1)
                   | None \<Rightarrow> Ret (Inr ygNode, rb3, r1))
                else Ret (Inr ygNode, rb3, r1)))"

subsection \<open>Update and replace\<close>

text \<open>The node that the payload is unmarshalled into, with its schema.\<close>

definition payload_node ::
  "('r, 'n, 'e) ygot \<Rightarrow> 'e requestBinder \<Rightarrow> 'n \<Rightarrow> 'r \<Rightarrow> goerr + ('n \<times> 'e option)" where
  "payload_node yg rb workObj r =
     (case pathParent rb of
        Some pp \<Rightarrow>
          if \<not> targetNodeListInst rb then
            (case yg_GetNode yg r pp of
               Inl e \<Rightarrow> Inl (TranslibSyntaxValidationError 400 e)
             | Inr [] \<Rightarrow> Inl (TranslibSyntaxValidationError 400 (GoError ''Invalid URI''))
             | Inr ((n, s) # _) \<Rightarrow> Inr (n, Some s))
          else Inr (workObj, targetNodeSchema rb)
      | None \<Rightarrow> Inr (workObj, targetNodeSchema rb))"

fun find_field :: "string \<Rightarrow> (string \<times> 'n) list \<Rightarrow> 'n option" where
  "find_field nm [] = None"
| "find_field nm ((tag, v) # fs) = (if tag = nm then Some v else find_field nm fs)"

text \<open>The target inside of that node.\<close>

definition find_target ::
  "('r, 'n, 'e) ygot \<Rightarrow> 'e requestBinder \<Rightarrow> 'n \<Rightarrow> 'e \<Rightarrow> 'r \<Rightarrow> goerr + 'n" where
  "find_target yg rb node ygEntry r =
     (let tp = (case targetNodePath rb of None \<Rightarrow> [] | Some p \<Rightarrow> p);
          none = Inl (TranslibSyntaxValidationError 400 (GoError ''Target node not found.'')) in
      if yg_IsContainer yg ygEntry \<and> \<not> targetNodeListInst rb then
        (case tp of
           [] \<Rightarrow> none
         | t # _ \<Rightarrow> (case find_field (peName t) (yg_fields yg r node) of None \<Rightarrow> none | Some v \<Rightarrow> Inr v))
      else if yg_IsList yg ygEntry \<or> targetNodeListInst rb then
        (case yg_GetNodeAt yg r ygEntry node tp of
           Inl e \<Rightarrow> Inl (TranslibSyntaxValidationError 400 e)
         | Inr [] \<Rightarrow> Inl (TranslibSyntaxValidationError 400 (GoError ''Invalid URI''))
         | Inr ((n, s) # _) \<Rightarrow> Inr n)
      else none)"

definition unMarshall_modify ::
  "('r, 'n, 'e) ygot \<Rightarrow> 'e requestBinder \<Rightarrow> 'n \<Rightarrow> 'r \<Rightarrow> ((goerr + 'n) \<times> 'r) outcome" where
  "unMarshall_modify yg rb workObj r =
     (case payload_node yg rb workObj r of
        Inl e \<Rightarrow> Ret (Inl e, r)
      | Inr (node, ygEntry) \<Rightarrow>
          bind (unMarshallPayload yg rb node r) (\<lambda>(err, r1).
            case err of
              Some e \<Rightarrow> Ret (Inl (TranslibSyntaxValidationError 400 e), r1)
            | None \<Rightarrow>
                (case (case ygEntry of None \<Rightarrow> Inr workObj | Some s \<Rightarrow> find_target yg rb node s r1) of
                   Inl e \<Rightarrow> Ret (Inl e, r1)
                 | Inr target \<Rightarrow>
                     if yg_is_validated yg r1 node \<and> \<not> isSonicModel rb then
                       (case validateObjectType yg rb (yg_Validate yg r1 node) of
                          Some e \<Rightarrow> Ret (Inl (TranslibSyntaxValidationError 400 e), r1)
                        | None \<Rightarrow> Ret (Inr target, r1))
                     else Ret (Inr target, r1))))"

subsection \<open>The whole request\<close>

text \<open>The result is the root object and the target, and the binder with what it found out.\<close>

definition unMarshall ::
  "('r, 'n, 'e) ygot \<Rightarrow> 'e requestBinder \<Rightarrow> ((goerr + ('r \<times> 'n)) \<times> 'e requestBinder) outcome" where
  "unMarshall yg rb0 =
     bind (unMarshallUri yg rb0 (yg_device yg)) (\<lambda>(w, rb, r).
       case w of
         Inl e \<Rightarrow> Ret (Inl (TranslibSyntaxValidationError 404 e), rb)
       | Inr workObj \<Rightarrow>
           if rb_opcode rb = op_GET \<or> rb_opcode rb = op_DELETE then Ret (Inr (r, workObj), rb)
           else if rb_opcode rb = op_CREATE then
             (if yg_is_map yg r workObj then
                Ret (Inl (TranslibSyntaxValidationError 400 (GoError ''URI doesn't have keys in the request'')), rb)
              else bind (unMarshallPayload yg rb workObj r) (\<lambda>(err, r1).
                case err of
                  Some e \<Rightarrow> Ret (Inl (TranslibSyntaxValidationError 400 e), rb)
                | None \<Rightarrow>
                    (case validateRequest yg rb r1 of
                       Some e \<Rightarrow> Ret (Inl (TranslibSyntaxValidationError 400 e), rb)
                     | None \<Rightarrow> Ret (Inr (r1, workObj), rb))))
           else if rb_opcode rb = op_UPDATE \<or> rb_opcode rb = op_REPLACE then
             bind (unMarshall_modify yg rb workObj r) (\<lambda>(t, r1).
               case t of Inl e \<Rightarrow> Ret (Inl e, rb) | Inr target \<Rightarrow> Ret (Inr (r1, target), rb))
           else
             Ret (Inl (TranslibSyntaxValidationError 400 (GoError ''Unknown HTTP METHOD in the request'')), rb))"

section \<open>What the binder promises\<close>

text \<open>A request that only reads, or removes, does not look at the payload and cannot panic.\<close>

lemma split_target_reads: "rb_opcode rb = op_GET \<or> rb_opcode rb = op_DELETE \<or> rb_opcode rb = op_CREATE \<Longrightarrow>
    split_target path rb = Ret (rb, path)"
  by (auto simp: split_target_def opcodes)

lemma unMarshallUri_opcode:
  "unMarshallUri yg rb r = Ret (w, rb', r') \<Longrightarrow> rb_opcode rb' = rb_opcode rb \<and> rb_payload rb' = rb_payload rb"
  by (auto simp: unMarshallUri_def split_target_def Let_def bind_Ret_iff
      split: if_splits sum.splits prod.splits option.splits)

lemma unMarshallUri_reads:
  "rb_opcode rb = op_GET \<or> rb_opcode rb = op_DELETE \<or> rb_opcode rb = op_CREATE \<Longrightarrow>
    \<exists>v. unMarshallUri yg rb r = Ret v"
  by (auto simp: unMarshallUri_def split_target_reads Let_def split: sum.splits prod.splits option.splits)

lemma unMarshall_reads:
  assumes "opcode = op_GET \<or> opcode = op_DELETE"
  shows "\<exists>v. unMarshall yg (getRequestBinder uri payload opcode) = Ret v"
proof -
  let ?rb = "getRequestBinder uri payload opcode :: 'c requestBinder"
  obtain w rb r where u: "unMarshallUri yg ?rb (yg_device yg) = Ret (w, rb, r)"
    using unMarshallUri_reads[of ?rb yg "yg_device yg"] assms by (auto simp: getRequestBinder_def)
  have "rb_opcode rb = opcode" using unMarshallUri_opcode[OF u] by (simp add: getRequestBinder_def)
  then show ?thesis using u assms by (cases w) (auto simp: unMarshall_def)
qed

text \<open>An update of the root, a URI without elements, panics: there is no last element.\<close>

lemma unMarshall_root_panics:
  assumes "yg_StringToPath yg uri = Inr []" "uri \<noteq> []" "opcode = op_UPDATE \<or> opcode = op_REPLACE"
  shows "unMarshall yg (getRequestBinder uri payload opcode) = Panics"
  using assms by (auto simp: unMarshall_def unMarshallUri_def getRequestBinder_def split_target_def strip_names_def)

text \<open>The read-only mark: a write of such an object fails, a read passes over the mark.\<close>

lemma validateObjectType_write:
  assumes "rb_opcode rb \<noteq> op_GET" "\<not> isSonicModel rb" "strContains (yg_errText yg e) READONLY"
  shows "validateObjectType yg rb (Some e) = Some (GoError ''SET operation not allowed on the read-only object'')"
  using assms by (simp add: validateObjectType_def Let_def)

lemma validateObjectType_write_None:
  "rb_opcode rb \<noteq> op_GET \<Longrightarrow> \<not> isSonicModel rb \<Longrightarrow> validateObjectType yg rb e = None \<longleftrightarrow> e = None"
  by (auto simp: validateObjectType_def Let_def split: option.split)

end
