(* ===== verification/TL_Utils.thy ===== *)
theory TL_Utils
  imports DB_Value "HOL-Library.Word"
begin

unbundle bit_operations_syntax

text \<open>
  Helpers of \<open>translib/app_utils.go\<close>, \<open>translib/utils/utils.go\<close> and
  \<open>translib/utils/bits.go\<close>.

  Removing an element from a slice shifts the elements inside of the caller's array, so the
  operation returns that array next to the shorter slice.
\<close>

section \<open>Lists of strings\<close>

fun contains :: "string list \<Rightarrow> string \<Rightarrow> bool" where
  "contains [] str = False"
| "contains (v # sl) str = (if v = str then True else contains sl str)"

text \<open>The index at which the loop stops, if it does.\<close>

fun index_of :: "nat \<Rightarrow> string list \<Rightarrow> string \<Rightarrow> nat option" where
  "index_of i [] str = None"
| "index_of i (v # sl) str = (if v = str then Some i else index_of (Suc i) sl str)"

text \<open>\<open>append(sl[:i], sl[i+1:]...)\<close> inside of the array that holds \<open>sl\<close>.\<close>

definition cut_index :: "nat \<Rightarrow> string list \<Rightarrow> string list \<times> string list" where
  "cut_index i sl =
     (let res = take i sl @ drop (Suc i) sl in (res, res @ drop (length res) sl))"

definition removeElement :: "string list \<Rightarrow> string \<Rightarrow> string list \<times> string list" where
  "removeElement sl str = (case index_of 0 sl str of None \<Rightarrow> (sl, sl) | Some i \<Rightarrow> cut_index i sl)"

definition RemoveElement :: "string list \<Rightarrow> string \<Rightarrow> string list \<times> string list" where
  "RemoveElement sl str = (case index_of 0 sl str of None \<Rightarrow> (sl, sl) | Some i \<Rightarrow> cut_index i sl)"

fun set_members :: "string list \<Rightarrow> (string, unit) gomap \<Rightarrow> (string, unit) gomap" where
  "set_members [] mb = mb"
| "set_members (n # ns) mb = set_members ns (gset n () mb)"

fun not_members :: "(string, unit) gomap \<Rightarrow> string list \<Rightarrow> string list" where
  "not_members mb [] = []"
| "not_members mb (n # ns) = (if ghas mb n then not_members mb ns else n # not_members mb ns)"

definition VlanDifference :: "string list \<Rightarrow> string list \<Rightarrow> string list" where
  "VlanDifference vlanList1 vlanList2 = not_members (set_members vlanList2 []) vlanList1"

lemma contains_iff: "contains sl str \<longleftrightarrow> str \<in> set sl"
  by (induction sl) auto

lemma index_of_spec:
  "index_of i sl str = (if str \<in> set sl then Some (i + length (takeWhile (\<lambda>v. v \<noteq> str) sl)) else None)"
  by (induction i sl str rule: index_of.induct) auto

lemma take_drop_remove1:
  "str \<in> set sl \<Longrightarrow>
    (let i = length (takeWhile (\<lambda>v. v \<noteq> str) sl) in take i sl @ drop (Suc i) sl) = remove1 str sl"
  by (induction sl) (auto simp: Let_def)

text \<open>The result is the list without the first occurrence; the array ends in the old last element.\<close>

lemma RemoveElement_spec:
  "fst (RemoveElement sl str) = remove1 str sl"
  "snd (RemoveElement sl str) = remove1 str sl @ (if str \<in> set sl then [last sl] else [])"
proof -
  have l: "drop (length sl - 1) sl = [last sl]" if "str \<in> set sl"
    using that by (metis append_butlast_last_id append_eq_conv_conj empty_iff length_butlast list.set(1))
  show "fst (RemoveElement sl str) = remove1 str sl"
    using take_drop_remove1[of str sl]
    by (simp add: RemoveElement_def index_of_spec cut_index_def Let_def remove1_idem)
  show "snd (RemoveElement sl str) = remove1 str sl @ (if str \<in> set sl then [last sl] else [])"
    using take_drop_remove1[of str sl] l
    by (simp add: RemoveElement_def index_of_spec cut_index_def Let_def remove1_idem length_remove1)
qed

lemma removeElement_same: "removeElement = RemoveElement"
  by (simp add: removeElement_def RemoveElement_def fun_eq_iff)

lemma gget_set_members: "ghas (set_members ns mb) n \<longleftrightarrow> n \<in> set ns \<or> ghas mb n"
  by (induction ns mb rule: set_members.induct) (auto simp: ghas_def)

lemma VlanDifference_filter: "VlanDifference a b = filter (\<lambda>v. v \<notin> set b) a"
proof -
  have "not_members mb ns = filter (\<lambda>v. \<not> ghas mb v) ns" for mb ns
    by (induction ns) auto
  then have "VlanDifference a b = filter (\<lambda>v. \<not> ghas (set_members b []) v) a"
    by (simp add: VlanDifference_def)
  then show ?thesis by (simp only: gget_set_members) (simp add: ghas_def)
qed

section \<open>VLAN ranges\<close>

text \<open>
  The loop counts in 64-bit integers and appends to a slice; it may not end, so it is a
  partial function.
\<close>

definition inc64 :: "int \<Rightarrow> int" where
  "inc64 i = (if i = 2 ^ 63 - 1 then - (2 ^ 63) else i + 1)"

partial_function (option) vlan_loop :: "int \<Rightarrow> int \<Rightarrow> string list \<Rightarrow> string list option" where
  "vlan_loop vid high lst =
     (if vid \<le> high then vlan_loop (inc64 vid) high (lst @ [''Vlan'' @ Itoa vid]) else Some lst)"

declare vlan_loop.simps [code]

text \<open>The result is the error and the list; \<open>None\<close> when the call does not return.\<close>

definition ExtractVlanIdsFromRange :: "string \<Rightarrow> string list \<Rightarrow> (goerr option \<times> string list) option" where
  "ExtractVlanIdsFromRange rngStr vlanLst =
     (let res0 = (if strContains rngStr ''..'' then strSplit rngStr ''..'' else []);
          res = (if strContains rngStr ''-'' then strSplit rngStr ''-'' else res0) in
      if length res \<noteq> 0 then
        map_option (\<lambda>l. (None, l)) (vlan_loop (fst (Atoi (res ! 0))) (fst (Atoi (res ! 1))) vlanLst)
      else Some (None, vlanLst))"

text \<open>What the loop computes when the upper end is below the largest integer.\<close>

lemma vlan_loop_range:
  assumes "high < 2 ^ 63 - 1"
  shows "vlan_loop low high lst = Some (lst @ map (\<lambda>i. ''Vlan'' @ Itoa i) [low..high])"
proof (induction "nat (high - low + 1)" arbitrary: low lst)
  case 0
  then show ?case by (subst vlan_loop.simps) simp
next
  case (Suc n)
  then have le: "low \<le> high" by simp
  then have inc: "inc64 low = low + 1" using assms by (simp add: inc64_def)
  have "vlan_loop (low + 1) high (lst @ [''Vlan'' @ Itoa low]) =
      Some ((lst @ [''Vlan'' @ Itoa low]) @ map (\<lambda>i. ''Vlan'' @ Itoa i) [low + 1..high])"
    by (rule Suc.hyps(1)) (use Suc.hyps(2) in simp)
  then show ?case using le by (subst vlan_loop.simps) (simp add: inc upto_rec1)
qed

lemma inc64_le: "vid \<le> 2 ^ 63 - 1 \<Longrightarrow> inc64 vid \<le> 2 ^ 63 - 1"
  by (simp add: inc64_def)

text \<open>With the largest integer as the upper end the counter wraps and the loop goes on.\<close>

lemma vlan_loop_never:
  assumes "vid \<le> 2 ^ 63 - 1"
  shows "vlan_loop vid (2 ^ 63 - 1) lst = None"
proof (rule ccontr)
  assume "vlan_loop vid (2 ^ 63 - 1) lst \<noteq> None"
  then obtain r where r: "vlan_loop vid (2 ^ 63 - 1) lst = Some r" by blast
  have "high = 2 ^ 63 - 1 \<longrightarrow> vid \<le> 2 ^ 63 - 1 \<longrightarrow> False" if "vlan_loop vid high lst = Some r" for vid high lst r
    using that
  proof (induction rule: vlan_loop.raw_induct[rotated, consumes 1])
    case (1 vlan_loop vid high lst r)
    then show ?case using inc64_le by (metis (no_types, lifting))
  qed
  with r assms show False by blast
qed

section \<open>Bits\<close>

type_synonym Bits = "8 word"

definition Bits_Set :: "Bits \<Rightarrow> Bits \<Rightarrow> Bits" where
  "Bits_Set b flags = b OR flags"

definition Bits_Unset :: "Bits \<Rightarrow> Bits \<Rightarrow> Bits" where
  "Bits_Unset b flags = b AND NOT flags"

definition Bits_Reset :: "Bits \<Rightarrow> Bits" where
  "Bits_Reset b = 0"

definition Bits_Empty :: "Bits \<Rightarrow> bool" where
  "Bits_Empty b \<longleftrightarrow> b \<noteq> 0"

definition Bits_Has :: "Bits \<Rightarrow> Bits \<Rightarrow> bool" where
  "Bits_Has b flags \<longleftrightarrow> b AND flags = flags"

definition Bits_HasAny :: "Bits \<Rightarrow> Bits \<Rightarrow> bool" where
  "Bits_HasAny b flags \<longleftrightarrow> b AND flags \<noteq> 0"

lemma Bits_Has_Set: "Bits_Has (Bits_Set b f) f"
  by (rule bit_word_eqI[THEN iffD2[OF Bits_Has_def]]) (auto simp: Bits_Set_def bit_simps)

lemma Bits_HasAny_Unset: "\<not> Bits_HasAny (Bits_Unset b f) f"
  by (auto simp: Bits_HasAny_def Bits_Unset_def intro!: bit_word_eqI simp: bit_simps)

lemma Bits_Has_iff: "Bits_Has b f \<longleftrightarrow> (\<forall>n < 8. bit f n \<longrightarrow> bit b n)"
  unfolding Bits_Has_def by (subst bit_eq_iff) (auto simp: bit_simps)

section \<open>Kinds of errors\<close>

definition CVL_SEMANTIC_KEY_NOT_EXIST :: int where
  "CVL_SEMANTIC_KEY_NOT_EXIST = 1017"

definition isNotFoundError :: "goerr option \<Rightarrow> bool" where
  "isNotFoundError err =
     (case err of
        Some (TranslibRedisClientEntryNotExist _) \<Rightarrow> True
      | Some (NotFoundError _) \<Rightarrow> True
      | _ \<Rightarrow> False)"

definition isBulkNotFoundError :: "goerr option \<Rightarrow> bool" where
  "isBulkNotFoundError err =
     (case err of
        Some (TranslibRedisClientEntryNotExist _) \<Rightarrow> True
      | Some (NotFoundError _) \<Rightarrow> True
      | Some (TranslibCVLFailure code _) \<Rightarrow> if code = CVL_SEMANTIC_KEY_NOT_EXIST then True else False
      | _ \<Rightarrow> False)"

definition createEmptyDbValue :: "string \<Rightarrow> Value" where
  "createEmptyDbValue fieldName = \<lparr>Flds = [(fieldName, [])]\<rparr>"

lemma isNotFoundError_IsNotFound: "isNotFoundError e = IsNotFound e"
  by (cases e rule: IsNotFound.cases) (simp_all add: isNotFoundError_def)

end
