(* ===== verification/TL_App.thy ===== *)
theory TL_App
  imports DB_Tx TL_Version TL_Binder TL_Utils
begin

text \<open>
  Application modules (\<open>translib/app_interface.go\<close>): the map from path prefixes to modules,
  the choice of the module for a request and its initialization (\<open>getAppModule\<close> and
  \<open>appInitialize\<close> of \<open>translib/translib.go\<close>).

  A module is an object behind the interface \<open>appInterface\<close>: here a state of type \<open>'a\<close> and
  the record \<open>appInterface\<close> of its methods, which is a parameter.  The methods work on the
  connection that they are given; they may fail, and they change their own object.
\<close>

section \<open>Data\<close>

record appInfo =
  appType :: string
  ygotRootType :: string
  isNative :: bool
  tablesToWatch :: "TableSpec list"

record appOptions =
  ao_depth :: nat
  ao_content :: string
  ao_fields :: "string list"
  ao_deleteEmptyEntry :: bool
  ao_ctxt :: "nat option"

definition zeroAppOptions :: appOptions where
  "zeroAppOptions = \<lparr>ao_depth = 0, ao_content = [], ao_fields = [], ao_deleteEmptyEntry = False, ao_ctxt = None\<rparr>"

record ('r, 'n, 'e) appData =
  ad_path :: string
  ad_payload :: string
  ad_ygotRoot :: "'r option"
  ad_ygotTarget :: "'n option"
  ad_ygSchema :: "'e option"
  ad_appOptions :: appOptions

definition setOptions :: "appOptions option \<Rightarrow> ('r, 'n, 'e) appData \<Rightarrow> ('r, 'n, 'e) appData" where
  "setOptions opts data = (case opts of None \<Rightarrow> data | Some o' \<Rightarrow> data\<lparr>ad_appOptions := o'\<rparr>)"

datatype ErrSource = ProtoErr | AppErr

record SetResponse =
  sr_ErrSrc :: ErrSource
  sr_Err :: "goerr option"

definition zeroSetResponse :: SetResponse where
  "zeroSetResponse = \<lparr>sr_ErrSrc = ProtoErr, sr_Err = None\<rparr>"

text \<open>The value tree of a response is a ygot object, of type \<open>'r\<close>.\<close>

record 'r GetResponse =
  gr_Payload :: string
  gr_ValueTree :: "'r option"
  gr_ErrSrc :: ErrSource

record ActionResponse =
  ar_Payload :: string
  ar_ErrSrc :: ErrSource

datatype TranslibFmtType = TRANSLIB_FMT_IETF_JSON | TRANSLIB_FMT_YGOT

type_synonym watch_keys = "(TableSpec \<times> Key) list"

text \<open>
  The methods.  The connection is the field \<open>db\<close> of the state; the methods of a request that
  reads get an array of connections.  \<open>ai_new\<close> is \<open>reflect.New\<close> with the assertion that the
  type has the methods.
\<close>

type_synonym dbs = "DB option list"

record ('w, 'a, 'r, 'n, 'e) appInterface =
  ai_new :: "string \<Rightarrow> 'a option"
  ai_initialize :: "('r, 'n, 'e) appData \<Rightarrow> 'a \<Rightarrow> 'a"
  ai_translateCreate :: "'a \<Rightarrow> 'w st \<Rightarrow> (watch_keys \<times> goerr option) \<times> 'a \<times> 'w st"
  ai_translateUpdate :: "'a \<Rightarrow> 'w st \<Rightarrow> (watch_keys \<times> goerr option) \<times> 'a \<times> 'w st"
  ai_translateReplace :: "'a \<Rightarrow> 'w st \<Rightarrow> (watch_keys \<times> goerr option) \<times> 'a \<times> 'w st"
  ai_translateDelete :: "'a \<Rightarrow> 'w st \<Rightarrow> (watch_keys \<times> goerr option) \<times> 'a \<times> 'w st"
  ai_translateGet :: "'a \<Rightarrow> dbs \<Rightarrow> 'w st \<Rightarrow> goerr option \<times> 'a \<times> dbs \<times> 'w st"
  ai_translateAction :: "'a \<Rightarrow> dbs \<Rightarrow> 'w st \<Rightarrow> goerr option \<times> 'a \<times> dbs \<times> 'w st"
  ai_processCreate :: "'a \<Rightarrow> 'w st \<Rightarrow> (SetResponse \<times> goerr option) \<times> 'a \<times> 'w st"
  ai_processUpdate :: "'a \<Rightarrow> 'w st \<Rightarrow> (SetResponse \<times> goerr option) \<times> 'a \<times> 'w st"
  ai_processReplace :: "'a \<Rightarrow> 'w st \<Rightarrow> (SetResponse \<times> goerr option) \<times> 'a \<times> 'w st"
  ai_processDelete :: "'a \<Rightarrow> 'w st \<Rightarrow> (SetResponse \<times> goerr option) \<times> 'a \<times> 'w st"
  ai_processGet :: "'a \<Rightarrow> dbs \<Rightarrow> TranslibFmtType \<Rightarrow> 'w st \<Rightarrow> ('r GetResponse \<times> goerr option) \<times> 'a \<times> dbs \<times> 'w st"
  ai_processAction :: "'a \<Rightarrow> dbs \<Rightarrow> 'w st \<Rightarrow> (ActionResponse \<times> goerr option) \<times> 'a \<times> dbs \<times> 'w st"

section \<open>The registry\<close>

type_synonym app_map = "(string, appInfo) gomap"

definition register :: "string \<Rightarrow> appInfo \<Rightarrow> app_map \<Rightarrow> (goerr option \<times> app_map) outcome" where
  "register path info appMap =
     (if \<not> ghas appMap path then Ret (None, gset path info appMap) else Exits)"

record ModelData =
  md_Name :: string
  md_Org :: string
  md_Ver :: string

definition addModel :: "ModelData \<Rightarrow> ModelData list \<Rightarrow> goerr option \<times> ModelData list" where
  "addModel model models = (None, models @ [model])"

definition getModels :: "ModelData list \<Rightarrow> ModelData list" where
  "getModels models = models"

definition GetModels :: "ModelData list \<Rightarrow> ModelData list \<times> goerr option" where
  "GetModels models = (getModels models, None)"

text \<open>The loop over the map, in its iteration order; \<open>None\<close> is a nil pointer.\<close>

fun find_prefix :: "string \<Rightarrow> app_map \<Rightarrow> appInfo option" where
  "find_prefix path [] = None"
| "find_prefix path ((pattern, app) # m) =
     (if \<not> strHasPrefix path pattern then find_prefix path m else Some app)"

definition getAppModuleInfo :: "string \<Rightarrow> app_map \<Rightarrow> appInfo option" where
  "getAppModuleInfo path appMap =
     (case find_prefix path appMap of Some app \<Rightarrow> Some app | None \<Rightarrow> gget appMap ''*'')"

definition getAppInterface :: "('w, 'a, 'r, 'n, 'e) appInterface \<Rightarrow> string \<Rightarrow> 'a outcome" where
  "getAppInterface ai ty = (case ai_new ai ty of None \<Rightarrow> Exits | Some a \<Rightarrow> Ret a)"

definition getAppModule ::
  "('w, 'a, 'r, 'n, 'e) appInterface \<Rightarrow> yang_versions \<Rightarrow> app_map \<Rightarrow> string \<Rightarrow> Version \<Rightarrow>
     (goerr + ('a \<times> appInfo)) outcome" where
  "getAppModule ai yv appMap path clientVer =
     (case getAppModuleInfo path appMap of
        None \<Rightarrow> Panics
      | Some aInfo \<Rightarrow>
          (case validateClientVersion yv clientVer (isNative aInfo) of
             Some e \<Rightarrow> Ret (Inl e)
           | None \<Rightarrow> bind (getAppInterface ai (appType aInfo)) (\<lambda>app. Ret (Inr (app, aInfo)))))"

definition appInitialize ::
  "('w, 'a, 'r, 'n, 'e) appInterface \<Rightarrow> ('r, 'n, 'e) ygot \<Rightarrow> 'a \<Rightarrow> appInfo \<Rightarrow> string \<Rightarrow> string option \<Rightarrow>
     appOptions option \<Rightarrow> int \<Rightarrow> (goerr option \<times> 'a) outcome" where
  "appInitialize ai yg app aInfo path payload opts opCode =
     (let input = (case payload of None \<Rightarrow> [] | Some p \<Rightarrow> p);
          mk = (\<lambda>root target schema. setOptions opts
                 \<lparr>ad_path = path, ad_payload = input, ad_ygotRoot = root, ad_ygotTarget = target,
                  ad_ygSchema = schema, ad_appOptions = zeroAppOptions\<rparr>) in
      if isNative aInfo then Ret (None, ai_initialize ai (mk None None None) app)
      else bind (unMarshall yg (getRequestBinder path payload opCode)) (\<lambda>(res, rb).
        case res of
          Inl e \<Rightarrow> Ret (Some e, app)
        | Inr (root, target) \<Rightarrow>
            Ret (None, ai_initialize ai (mk (Some root) (Some target) (targetNodeSchema rb)) app)))"

section \<open>Properties of the registry\<close>

text \<open>
  No registered pattern is a prefix of another one: then at most one pattern fits a path,
  and the result does not depend on the order of the map.
\<close>

definition prefix_free :: "app_map \<Rightarrow> bool" where
  "prefix_free m \<longleftrightarrow> (\<forall>p \<in> set (gkeys m). \<forall>q \<in> set (gkeys m). strHasPrefix p q \<longrightarrow> p = q)"

lemma strHasPrefix_iff: "strHasPrefix s p \<longleftrightarrow> (\<exists>r. s = p @ r)"
  by (metis option.exhaust_sel option.distinct(1) strHasPrefix_def strip_prefix_Some)

lemma prefixes_comparable:
  "strHasPrefix s p \<Longrightarrow> strHasPrefix s q \<Longrightarrow> strHasPrefix p q \<or> strHasPrefix q p"
  unfolding strHasPrefix_iff by (metis append_eq_append_conv2)

lemma find_prefix_Some:
  "find_prefix path m = Some app \<Longrightarrow> \<exists>p. (p, app) \<in> set m \<and> strHasPrefix path p"
  by (induction path m rule: find_prefix.induct) (auto split: if_splits)

lemma find_prefix_None: "find_prefix path m = None \<longleftrightarrow> (\<forall>p \<in> set (gkeys m). \<not> strHasPrefix path p)"
  by (induction path m rule: find_prefix.induct) (auto simp: gkeys_def)

lemma find_prefix_unique:
  assumes "gok m" "prefix_free m" "gget m p = Some app" "strHasPrefix path p"
  shows "find_prefix path m = Some app"
proof -
  have p: "p \<in> set (gkeys m)" using assms(3) by (simp add: in_gkeys)
  then obtain app' where a: "find_prefix path m = Some app'"
    using find_prefix_None[of path m] assms(4) by (cases "find_prefix path m") auto
  then obtain q where q: "(q, app') \<in> set m" "strHasPrefix path q"
    using find_prefix_Some by blast
  then have "q \<in> set (gkeys m)" by (force simp: gkeys_def)
  then have "q = p" using prefixes_comparable[OF q(2) assms(4)] assms(2) p by (auto simp: prefix_free_def)
  then show ?thesis using a q gok_gget[OF assms(1) q(1)] assms(3) by simp
qed

lemma getAppModuleInfo_order:
  assumes "gok m" "gok m'" "prefix_free m" "geq m m'"
  shows "getAppModuleInfo path m = getAppModuleInfo path m'"
proof -
  have k: "set (gkeys m) = set (gkeys m')" using assms(4) by (simp add: set_gkeys geq_def)
  then have pf: "prefix_free m'" using assms(3) by (simp add: prefix_free_def)
  show ?thesis
  proof (cases "find_prefix path m")
    case None
    then have "find_prefix path m' = None" using k by (simp add: find_prefix_None)
    then show ?thesis using None assms(4) by (simp add: getAppModuleInfo_def geq_def)
  next
    case (Some app)
    then obtain p where p: "(p, app) \<in> set m" "strHasPrefix path p" using find_prefix_Some by blast
    then have "gget m' p = Some app" using gok_gget[OF assms(1) p(1)] assms(4) by (simp add: geq_def)
    then show ?thesis
      using find_prefix_unique[OF assms(2) pf _ p(2)] Some by (simp add: getAppModuleInfo_def)
  qed
qed

end
