(* ===== verification/TL_Requests.thy ===== *)
theory TL_Requests
  imports TL_App
begin

text \<open>
  The requests of \<open>translib/translib.go\<close>.

  The mutex \<open>writeMutex\<close> lets one write request run at a time, which is how the requests are
  modelled: each runs from its start to its end.  A deferred call is written at the places
  where the function returns.

  The environment: what the package calls, the registry, the versions and the settings of
  new connections.
\<close>

record ('w, 'a, 'r, 'n, 'e) tl_env =
  te_db :: "'w ext"
  te_yg :: "('r, 'n, 'e) ygot"
  te_app :: "('w, 'a, 'r, 'n, 'e) appInterface"
  te_versions :: yang_versions
  te_appMap :: app_map
  te_stats :: DBStatsConfig
  te_cache :: DBCacheConfig

record SetRequest =
  sq_Path :: string
  sq_Payload :: string
  sq_User :: UserRoles
  sq_AuthEnabled :: bool
  sq_ClientVersion :: Version
  sq_DeleteEmptyEntry :: bool

record QueryParameters =
  qp_Depth :: nat
  qp_Content :: string
  qp_Fields :: "string list"

record GetRequest =
  gq_Path :: string
  gq_FmtType :: TranslibFmtType
  gq_User :: UserRoles
  gq_AuthEnabled :: bool
  gq_ClientVersion :: Version
  gq_QueryParams :: QueryParameters
  gq_Ctxt :: "nat option"

record ActionRequest =
  aq_Path :: string
  aq_Payload :: string
  aq_User :: UserRoles
  aq_AuthEnabled :: bool
  aq_ClientVersion :: Version

record BulkRequestEntry =
  be_Entry :: SetRequest
  be_Operation :: int
  be_ResourceCheckOnDelete :: bool

record BulkRequest =
  bq_Request :: "BulkRequestEntry list"
  bq_User :: UserRoles
  bq_AuthEnabled :: bool
  bq_ClientVersion :: Version

record BulkResponseEntry =
  br_Entry :: SetResponse
  br_Operation :: int

section \<open>Connections\<close>

datatype dbopt = withWriteDisable | withOnChange | withForceNewRedisConnection

fun apply_dbopt :: "dbopt \<Rightarrow> Options \<Rightarrow> Options" where
  "apply_dbopt withWriteDisable opt = opt\<lparr>IsWriteDisabled := True\<rparr>"
| "apply_dbopt withOnChange opt = opt\<lparr>IsOnChangeEnabled := True\<rparr>"
| "apply_dbopt withForceNewRedisConnection opt = opt\<lparr>ForceNewRedisConnection := True\<rparr>"

definition getDBOptions :: "DBNum \<Rightarrow> dbopt list \<Rightarrow> Options" where
  "getDBOptions dbNo opts =
     (let opt = fold apply_dbopt opts (zeroOptions\<lparr>DBNo := dbNo\<rparr>) in
      if dbNo \<in> {ApplDB, CountersDB, AsicDB, FlexCounterDB, LogLevelDB, ErrorDB} then
        opt\<lparr>TableNameSeparator := '':'', KeySeparator := '':''\<rparr>
      else if dbNo \<in> {ConfigDB, StateDB, SnmpDB} then
        opt\<lparr>TableNameSeparator := ''|'', KeySeparator := ''|''\<rparr>
      else opt)"

definition env_NewDB ::
  "('w, 'a, 'r, 'n, 'e) tl_env \<Rightarrow> DBNum \<Rightarrow> dbopt list \<Rightarrow> 'w st \<Rightarrow> goerr option \<times> 'w st" where
  "env_NewDB v dbNo opts s = NewDB (te_db v) (getDBOptions dbNo opts) (te_stats v) (te_cache v) s"

text \<open>Close the connections of the array; \<open>DeleteDB\<close> is called on each.\<close>

fun closeAllDbs :: "('w, 'z) ext_scheme \<Rightarrow> dbs \<Rightarrow> 'w st \<Rightarrow> dbs \<times> 'w st" where
  "closeAllDbs x [] s = ([], s)"
| "closeAllDbs x (None # ds) s = (case closeAllDbs x ds s of (ds', s') \<Rightarrow> (None # ds', s'))"
| "closeAllDbs x (Some d # ds) s =
     (case closeAllDbs x ds (snd (DeleteDB x (s\<lparr>db := d\<rparr>))) of (ds', s') \<Rightarrow> (None # ds', s'))"

definition all_DBNums :: "DBNum list" where
  "all_DBNums = [ApplDB, AsicDB, CountersDB, LogLevelDB, ConfigDB, FlexCounterDB, StateDB, SnmpDB, ErrorDB, EventDB]"

text \<open>A failed \<open>NewDB\<close> returns its object too, so that it is among those that are closed.\<close>

fun open_dbs ::
  "('w, 'a, 'r, 'n, 'e) tl_env \<Rightarrow> dbopt list \<Rightarrow> DBNum list \<Rightarrow> dbs \<Rightarrow> 'w st \<Rightarrow> (dbs \<times> goerr option) \<times> 'w st" where
  "open_dbs v opts [] dbs s = ((dbs, None), s)"
| "open_dbs v opts (n # ns) dbs s =
     (if length (getDBInstName n) = 0 then open_dbs v opts ns dbs s
      else case env_NewDB v n opts s of
        (err, s1) \<Rightarrow>
          let dbs1 = dbs[DBNum_index n := Some (db s1)] in
          if err \<noteq> None then (case closeAllDbs (te_db v) dbs1 s1 of (dbs2, s2) \<Rightarrow> ((dbs2, err), s2))
          else open_dbs v opts ns dbs1 s1)"

definition getAllDbs ::
  "('w, 'a, 'r, 'n, 'e) tl_env \<Rightarrow> dbopt list \<Rightarrow> 'w st \<Rightarrow> (dbs \<times> goerr option) \<times> 'w st" where
  "getAllDbs v opts s = open_dbs v opts all_DBNums (replicate 10 None) s"

section \<open>Requests that write\<close>

text \<open>
  \<open>Create\<close>, \<open>Update\<close>, \<open>Replace\<close> and \<open>Delete\<close> have the same body; they differ in the name in
  the message, in the arguments of \<open>appInitialize\<close> and in the two methods of the module.

  \<open>set_tx\<close>: from the translation to the end of the transaction.
\<close>

definition set_tx ::
  "('w, 'z) ext_scheme \<Rightarrow> ('a \<Rightarrow> 'w st \<Rightarrow> (watch_keys \<times> goerr option) \<times> 'a \<times> 'w st) \<Rightarrow>
     ('a \<Rightarrow> 'w st \<Rightarrow> (SetResponse \<times> goerr option) \<times> 'a \<times> 'w st) \<Rightarrow> 'a \<Rightarrow> TableSpec list \<Rightarrow> 'w st \<Rightarrow>
     ((SetResponse \<times> goerr option) \<times> 'w st) outcome" where
  "set_tx x translate process app tables s =
     (case translate app s of
        ((keys, Some e), _, s1) \<Rightarrow> Ret ((zeroSetResponse\<lparr>sr_ErrSrc := AppErr\<rparr>, Some e), s1)
      | ((keys, None), app1, s1) \<Rightarrow>
          (case StartTx x keys tables s1 of
             None \<Rightarrow> Panics
           | Some (Some e, s2) \<Rightarrow> Ret ((zeroSetResponse\<lparr>sr_ErrSrc := AppErr\<rparr>, Some e), s2)
           | Some (None, s2) \<Rightarrow>
               (case process app1 s2 of
                  ((resp, Some e), _, s3) \<Rightarrow>
                    (case AbortTx x s3 of
                       None \<Rightarrow> Panics
                     | Some (_, s4) \<Rightarrow> Ret ((resp\<lparr>sr_ErrSrc := AppErr\<rparr>, Some e), s4))
                | ((resp, None), _, s3) \<Rightarrow>
                    (case CommitTx x s3 of
                       (Some e, s4) \<Rightarrow> Ret ((resp\<lparr>sr_ErrSrc := AppErr\<rparr>, Some e), s4)
                     | (None, s4) \<Rightarrow> Ret ((resp, None), s4)))))"

definition set_request ::
  "('w, 'a, 'r, 'n, 'e) tl_env \<Rightarrow> string \<Rightarrow> int \<Rightarrow> string option \<Rightarrow> appOptions option \<Rightarrow>
     ('a \<Rightarrow> 'w st \<Rightarrow> (watch_keys \<times> goerr option) \<times> 'a \<times> 'w st) \<Rightarrow>
     ('a \<Rightarrow> 'w st \<Rightarrow> (SetResponse \<times> goerr option) \<times> 'a \<times> 'w st) \<Rightarrow>
     SetRequest \<Rightarrow> 'w st \<Rightarrow> ((SetResponse \<times> goerr option) \<times> 'w st) outcome" where
  "set_request v name opcode payload opts translate process req s =
     (if \<not> isAuthorizedForSet (sq_AuthEnabled req) (sq_User req) then
        Ret ((zeroSetResponse, Some (AuthorizationError
               (ErrorData (''User is unauthorized for '' @ name @ '' Operation'') [] (sq_Path req) []))), s)
      else bind (getAppModule (te_app v) (te_versions v) (te_appMap v) (sq_Path req) (sq_ClientVersion req))
        (\<lambda>m. case m of
           Inl e \<Rightarrow> Ret ((zeroSetResponse\<lparr>sr_ErrSrc := ProtoErr\<rparr>, Some e), s)
         | Inr (app, aInfo) \<Rightarrow>
             bind (appInitialize (te_app v) (te_yg v) app aInfo (sq_Path req) payload opts opcode)
               (\<lambda>(err, app1). case err of
                  Some e \<Rightarrow> Ret ((zeroSetResponse\<lparr>sr_ErrSrc := AppErr\<rparr>, Some e), s)
                | None \<Rightarrow>
                    (case env_NewDB v ConfigDB [withForceNewRedisConnection] s of
                       (Some e, s1) \<Rightarrow> Ret ((zeroSetResponse\<lparr>sr_ErrSrc := ProtoErr\<rparr>, Some e), s1)
                     | (None, s1) \<Rightarrow>
                         bind (set_tx (te_db v) translate process app1 (tablesToWatch aInfo) s1)
                           (\<lambda>(r, s2). Ret (r, snd (DeleteDB (te_db v) s2)))))))"

definition tl_Create ::
  "('w, 'a, 'r, 'n, 'e) tl_env \<Rightarrow> SetRequest \<Rightarrow> 'w st \<Rightarrow> ((SetResponse \<times> goerr option) \<times> 'w st) outcome" where
  "tl_Create v req s = set_request v ''Create'' op_CREATE (Some (sq_Payload req)) None
     (ai_translateCreate (te_app v)) (ai_processCreate (te_app v)) req s"

definition tl_Update ::
  "('w, 'a, 'r, 'n, 'e) tl_env \<Rightarrow> SetRequest \<Rightarrow> 'w st \<Rightarrow> ((SetResponse \<times> goerr option) \<times> 'w st) outcome" where
  "tl_Update v req s = set_request v ''Update'' op_UPDATE (Some (sq_Payload req)) None
     (ai_translateUpdate (te_app v)) (ai_processUpdate (te_app v)) req s"

definition tl_Replace ::
  "('w, 'a, 'r, 'n, 'e) tl_env \<Rightarrow> SetRequest \<Rightarrow> 'w st \<Rightarrow> ((SetResponse \<times> goerr option) \<times> 'w st) outcome" where
  "tl_Replace v req s = set_request v ''Replace'' op_REPLACE (Some (sq_Payload req)) None
     (ai_translateReplace (te_app v)) (ai_processReplace (te_app v)) req s"

definition tl_Delete ::
  "('w, 'a, 'r, 'n, 'e) tl_env \<Rightarrow> SetRequest \<Rightarrow> 'w st \<Rightarrow> ((SetResponse \<times> goerr option) \<times> 'w st) outcome" where
  "tl_Delete v req s = set_request v ''Delete'' op_DELETE None
     (Some (zeroAppOptions\<lparr>ao_deleteEmptyEntry := sq_DeleteEmptyEntry req\<rparr>))
     (ai_translateDelete (te_app v)) (ai_processDelete (te_app v)) req s"

section \<open>Requests that read, and actions\<close>

definition tl_Get ::
  "('w, 'a, 'r, 'n, 'e) tl_env \<Rightarrow> GetRequest \<Rightarrow> 'w st \<Rightarrow> (('r GetResponse \<times> goerr option) \<times> 'w st) outcome" where
  "tl_Get v req s =
     (let none = (\<lambda>src. \<lparr>gr_Payload = [], gr_ValueTree = None, gr_ErrSrc = src\<rparr>); ai = te_app v in
      if \<not> isAuthorizedForGet (gq_AuthEnabled req) (gq_User req) then
        Ret ((none ProtoErr, Some (AuthorizationError
               (ErrorData ''User is unauthorized for Get Operation'' [] (gq_Path req) []))), s)
      else bind (getAppModule ai (te_versions v) (te_appMap v) (gq_Path req) (gq_ClientVersion req)) (\<lambda>m.
        case m of
          Inl e \<Rightarrow> Ret ((none ProtoErr, Some e), s)
        | Inr (app, aInfo) \<Rightarrow>
            let opts = \<lparr>ao_depth = qp_Depth (gq_QueryParams req), ao_content = qp_Content (gq_QueryParams req),
                        ao_fields = qp_Fields (gq_QueryParams req), ao_deleteEmptyEntry = False,
                        ao_ctxt = gq_Ctxt req\<rparr> in
            bind (appInitialize ai (te_yg v) app aInfo (gq_Path req) None (Some opts) op_GET) (\<lambda>(err, app1).
              case err of
                Some e \<Rightarrow> Ret ((none AppErr, Some e), s)
              | None \<Rightarrow>
                  (case getAllDbs v [withWriteDisable, withForceNewRedisConnection] s of
                     ((dbs, Some e), s1) \<Rightarrow> Ret ((none ProtoErr, Some e), s1)
                   | ((dbs, None), s1) \<Rightarrow>
                       (case ai_translateGet ai app1 dbs s1 of
                          (Some e, _, dbs2, s2) \<Rightarrow>
                            Ret ((none AppErr, Some e), snd (closeAllDbs (te_db v) dbs2 s2))
                        | (None, app2, dbs2, s2) \<Rightarrow>
                            (case ai_processGet ai app2 dbs2 (gq_FmtType req) s2 of
                               (r, _, dbs3, s3) \<Rightarrow> Ret (r, snd (closeAllDbs (te_db v) dbs3 s3))))))))"

definition tl_Action ::
  "('w, 'a, 'r, 'n, 'e) tl_env \<Rightarrow> ActionRequest \<Rightarrow> 'w st \<Rightarrow> ((ActionResponse \<times> goerr option) \<times> 'w st) outcome" where
  "tl_Action v req s =
     (let none = (\<lambda>src. \<lparr>ar_Payload = [], ar_ErrSrc = src\<rparr>); ai = te_app v in
      if \<not> isAuthorizedForAction (aq_AuthEnabled req) (aq_User req) then
        Ret ((none ProtoErr, Some (AuthorizationError
               (ErrorData ''User is unauthorized for Action Operation'' [] (aq_Path req) []))), s)
      else bind (getAppModule ai (te_versions v) (te_appMap v) (aq_Path req) (aq_ClientVersion req)) (\<lambda>m.
        case m of
          Inl e \<Rightarrow> Ret ((none ProtoErr, Some e), s)
        | Inr (app, appInfo) \<Rightarrow>
            let aInfo = appInfo\<lparr>isNative := True\<rparr> in
            bind (appInitialize ai (te_yg v) app aInfo (aq_Path req) (Some (aq_Payload req)) None op_GET) (\<lambda>(err, app1).
              case err of
                Some e \<Rightarrow> Ret ((none AppErr, Some e), s)
              | None \<Rightarrow>
                  (case getAllDbs v [withForceNewRedisConnection] s of
                     ((dbs, Some e), s1) \<Rightarrow> Ret ((none ProtoErr, Some e), s1)
                   | ((dbs, None), s1) \<Rightarrow>
                       (case ai_translateAction ai app1 dbs s1 of
                          (Some e, _, dbs2, s2) \<Rightarrow>
                            Ret ((none AppErr, Some e), snd (closeAllDbs (te_db v) dbs2 s2))
                        | (None, app2, dbs2, s2) \<Rightarrow>
                            (case ai_processAction ai app2 dbs2 s2 of
                               (r, _, dbs3, s3) \<Rightarrow> Ret (r, snd (closeAllDbs (te_db v) dbs3 s3))))))))"

section \<open>Bulk requests\<close>

text \<open>
  How an entry of a bulk request ends: it adds a response and the loop goes on, or it jumps
  to the label \<open>BulkError\<close>.  \<open>appResp\<close> is a variable of the function, so an entry that does
  not set it answers with the one before.
\<close>

datatype bulk_step = BDone SetResponse | BFail SetResponse ErrSource goerr

text \<open>An operation in the place of another one, after the update of a resource that is not there.\<close>

definition bulk_replace ::
  "('w, 'a, 'r, 'n, 'e) tl_env \<Rightarrow> BulkRequestEntry \<Rightarrow> appInfo \<Rightarrow> 'a \<Rightarrow> 'w st \<Rightarrow>
     (((watch_keys \<times> goerr option) \<times> 'a \<times> 'w st)) outcome" where
  "bulk_replace v en aInfo app s =
     bind (appInitialize (te_app v) (te_yg v) app aInfo (sq_Path (be_Entry en)) (Some (sq_Payload (be_Entry en)))
            None op_REPLACE) (\<lambda>(err, app1).
       case err of
         Some e \<Rightarrow> Ret (([], Some e), app1, s)
       | None \<Rightarrow> Ret (ai_translateReplace (te_app v) app1 s))"

text \<open>
  The first switch: the operation that goes on, the keys to watch or the error.  \<open>None\<close> for
  the operation means that the entry is done: a delete of what is not there was ignored.
\<close>

definition bulk_translate ::
  "('w, 'a, 'r, 'n, 'e) tl_env \<Rightarrow> BulkRequestEntry \<Rightarrow> appInfo \<Rightarrow> 'a \<Rightarrow> 'w st \<Rightarrow>
     ((int option \<times> watch_keys \<times> goerr option) \<times> 'a \<times> 'w st) outcome" where
  "bulk_translate v en aInfo app s =
     (let ai = te_app v; oper = be_Operation en in
      if oper = op_DELETE then
        (case ai_translateDelete ai app s of
           ((keys, err), app1, s1) \<Rightarrow>
             if err \<noteq> None \<and> isBulkNotFoundError err \<and> \<not> be_ResourceCheckOnDelete en
             then Ret ((None, [], None), app1, s1)
             else Ret ((Some oper, keys, err), app1, s1))
      else if oper = op_REPLACE then
        (case ai_translateReplace ai app s of ((keys, err), app1, s1) \<Rightarrow> Ret ((Some oper, keys, err), app1, s1))
      else if oper = op_UPDATE then
        (case ai_translateUpdate ai app s of
           ((keys, err), app1, s1) \<Rightarrow>
             if err \<noteq> None \<and> isBulkNotFoundError err then
               bind (bulk_replace v en aInfo app1 s1) (\<lambda>((keys, err), app2, s2).
                 Ret ((Some op_REPLACE, keys, err), app2, s2))
             else Ret ((Some oper, keys, err), app1, s1))
      else if oper = op_CREATE then
        (case ai_translateCreate ai app s of ((keys, err), app1, s1) \<Rightarrow> Ret ((Some oper, keys, err), app1, s1))
      else Ret ((Some oper, [], Some (NotSupported (''Unknown operation '%v'' @ [CHR 0x27]) [Itoa oper])), app, s))"

text \<open>How a method that processes the entry ends it.\<close>

definition bulk_end :: "(SetResponse \<times> goerr option) \<times> 'a \<times> 'w st \<Rightarrow> (bulk_step \<times> 'w st) outcome" where
  "bulk_end r =
     (case r of ((resp, err), _, s1) \<Rightarrow>
        Ret (case err of Some e \<Rightarrow> BFail resp AppErr e | None \<Rightarrow> BDone resp, s1))"

text \<open>The second switch.\<close>

definition bulk_process ::
  "('w, 'a, 'r, 'n, 'e) tl_env \<Rightarrow> BulkRequestEntry \<Rightarrow> appInfo \<Rightarrow> int \<Rightarrow> SetResponse \<Rightarrow> 'a \<Rightarrow> 'w st \<Rightarrow>
     (bulk_step \<times> 'w st) outcome" where
  "bulk_process v en aInfo oper appResp app s =
     (let ai = te_app v in
      if oper = op_DELETE then
        (case ai_processDelete ai app s of
           ((resp, err), app1, s1) \<Rightarrow>
             if err \<noteq> None \<and> isBulkNotFoundError err \<and> \<not> be_ResourceCheckOnDelete en
             then Ret (BDone (resp\<lparr>sr_Err := None\<rparr>), s1)
             else bulk_end ((resp, err), app1, s1))
      else if oper = op_REPLACE then bulk_end (ai_processReplace ai app s)
      else if oper = op_UPDATE then
        (case ai_processUpdate ai app s of
           ((resp, err), app1, s1) \<Rightarrow>
             if err \<noteq> None \<and> isBulkNotFoundError err then
               bind (bulk_replace v en aInfo app1 s1) (\<lambda>((keys, err2), app2, s2).
                 case err2 of
                   Some e \<Rightarrow> Ret (BFail resp AppErr e, s2)
                 | None \<Rightarrow>
                     (case AppendWatchTx (te_db v) keys (tablesToWatch aInfo) s2 of
                        None \<Rightarrow> Panics
                      | Some (Some e, s3) \<Rightarrow> Ret (BFail resp AppErr e, s3)
                      | Some (None, s3) \<Rightarrow> bulk_end (ai_processReplace ai app2 s3)))
             else bulk_end ((resp, err), app1, s1))
      else if oper = op_CREATE then bulk_end (ai_processCreate ai app s)
      else Ret (BFail appResp AppErr (NotSupported (''Unknown operation '%v'' @ [CHR 0x27]) [Itoa oper]), s))"

definition bulk_entry ::
  "('w, 'a, 'r, 'n, 'e) tl_env \<Rightarrow> BulkRequestEntry \<Rightarrow> SetResponse \<Rightarrow> 'w st \<Rightarrow> (bulk_step \<times> 'w st) outcome" where
  "bulk_entry v en appResp s =
     (let req = be_Entry en in
      bind (getAppModule (te_app v) (te_versions v) (te_appMap v) (sq_Path req) (sq_ClientVersion req)) (\<lambda>m.
        case m of
          Inl e \<Rightarrow> Ret (BFail appResp ProtoErr e, s)
        | Inr (app, aInfo) \<Rightarrow>
            bind (if be_Operation en = op_DELETE then
                    appInitialize (te_app v) (te_yg v) app aInfo (sq_Path req) None
                      (Some (zeroAppOptions\<lparr>ao_deleteEmptyEntry := sq_DeleteEmptyEntry req\<rparr>)) (be_Operation en)
                  else appInitialize (te_app v) (te_yg v) app aInfo (sq_Path req) (Some (sq_Payload req)) None
                         (be_Operation en)) (\<lambda>(err, app1).
              case err of
                Some e \<Rightarrow> Ret (BFail appResp AppErr e, s)
              | None \<Rightarrow>
                  bind (bulk_translate v en aInfo app1 s) (\<lambda>((oper, keys, err), app2, s1).
                    case oper of
                      None \<Rightarrow> Ret (BDone (appResp\<lparr>sr_Err := None\<rparr>), s1)
                    | Some oper \<Rightarrow>
                        (case err of
                           Some e \<Rightarrow> Ret (BFail appResp AppErr e, s1)
                         | None \<Rightarrow>
                             (case AppendWatchTx (te_db v) keys (tablesToWatch aInfo) s1 of
                                None \<Rightarrow> Panics
                              | Some (Some e, s2) \<Rightarrow> Ret (BFail appResp AppErr e, s2)
                              | Some (None, s2) \<Rightarrow> bulk_process v en aInfo oper appResp app2 s2))))))"

fun bulk_loop ::
  "('w, 'a, 'r, 'n, 'e) tl_env \<Rightarrow> BulkRequestEntry list \<Rightarrow> SetResponse \<Rightarrow> BulkResponseEntry list \<Rightarrow> 'w st \<Rightarrow>
     ((BulkResponseEntry list \<times> goerr option) \<times> 'w st) outcome" where
  "bulk_loop v [] appResp resp s = (case CommitTx (te_db v) s of (e, s1) \<Rightarrow> Ret ((resp, e), s1))"
| "bulk_loop v (en # ens) appResp resp s =
     bind (bulk_entry v en appResp s) (\<lambda>(r, s1).
       case r of
         BDone appResp1 \<Rightarrow>
           bulk_loop v ens appResp1 (resp @ [\<lparr>br_Entry = appResp1, br_Operation = be_Operation en\<rparr>]) s1
       | BFail appResp1 src e \<Rightarrow>
           (case AbortTx (te_db v) s1 of
              None \<Rightarrow> Panics
            | Some (_, s2) \<Rightarrow>
                Ret ((resp @ [\<lparr>br_Entry = appResp1\<lparr>sr_ErrSrc := src, sr_Err := Some e\<rparr>,
                               br_Operation = be_Operation en\<rparr>], Some e), s2)))"

definition tl_Bulk ::
  "('w, 'a, 'r, 'n, 'e) tl_env \<Rightarrow> BulkRequest \<Rightarrow> 'w st \<Rightarrow>
     ((BulkResponseEntry list \<times> goerr option) \<times> 'w st) outcome" where
  "tl_Bulk v req s =
     (if \<not> isAuthorizedForBulk (bq_AuthEnabled req) (bq_User req) then
        Ret (([], Some (AuthorizationError (ErrorData ''User is unauthorized for Action Operation'' [] [] []))), s)
      else case env_NewDB v ConfigDB [withForceNewRedisConnection] s of
        (Some e, s1) \<Rightarrow> Ret (([], Some e), s1)
      | (None, s1) \<Rightarrow>
          (case StartTx (te_db v) [] [] s1 of
             None \<Rightarrow> Panics
           | Some (Some e, s2) \<Rightarrow> Ret (([], Some e), snd (DeleteDB (te_db v) s2))
           | Some (None, s2) \<Rightarrow>
               bind (bulk_loop v (bq_Request req) zeroSetResponse [] s2)
                 (\<lambda>(r, s3). Ret (r, snd (DeleteDB (te_db v) s3)))))"

end
