(* ===== verification/DB_TxView.thy ===== *)
theory DB_TxView
  imports DB_Tx
begin

text \<open>
  What a transaction means: the value of an entry that a reader sees inside of the
  transaction is the value that results from running the queued commands on the content
  of redis, and a successful commit makes it the content.

  The contract of a store that logs its changes is the locale \<open>logged_store\<close>; the write
  operations of package db are shown to implement it.
\<close>

section \<open>The commands of redis\<close>

text \<open>
  Documented behaviour of the commands on the hashes of a database; a hash without fields
  is an absent key.
\<close>

fun exec_cmd :: "rcmd \<Rightarrow> (string \<Rightarrow> fields) \<Rightarrow> (string \<Rightarrow> fields)" where
  "exec_cmd (cHMSET k fs) b = b(k := gset_all fs (b k))"
| "exec_cmd (cHDEL k fs) b = b(k := gdel_all fs (b k))"
| "exec_cmd (cDEL k) b = b(k := [])"
| "exec_cmd (cSET k v) b = b(k := [])"
| "exec_cmd _ b = b"

text \<open>
  What is relied on of the server: HGETALL answers with the content; the commands that
  do not write to this database, the clients and the CVL sessions leave the content alone.
\<close>

definition redis_server :: "('w, 'z) ext_scheme \<Rightarrow> ('w \<Rightarrow> string \<Rightarrow> fields) \<Rightarrow> bool" where
  "redis_server x content \<longleftrightarrow>
     (\<forall>w c k. x_hgetall x w c k = Inr (content w k)) \<and>
     (\<forall>w c args. content (fst (x_do x w c (cWATCH args))) = content w) \<and>
     (\<forall>w c. content (fst (x_do x w c cUNWATCH)) = content w) \<and>
     (\<forall>w c k f v. content (fst (x_do x w c (cHSETNX k f v))) = content w) \<and>
     (\<forall>w n b. content (fst (x_client x w n b)) = content w) \<and>
     (\<forall>w c. content (fst (x_close x w c)) = content w) \<and>
     (\<forall>w d. content (fst (x_cvl_open x w d)) = content w) \<and>
     (\<forall>w c. content (fst (x_cvl_close x w c)) = content w) \<and>
     (\<forall>w d c l. content (fst (x_cvl_validate x w d c l)) = content w)"

lemma redis_serverD:
  assumes "redis_server x content"
  shows "x_hgetall x w c k = Inr (content w k)"
    "content (fst (x_do x w c (cWATCH args))) = content w"
    "content (fst (x_do x w c cUNWATCH)) = content w"
    "content (fst (x_do x w c (cHSETNX k f v))) = content w"
    "content (fst (x_client x w n b)) = content w"
    "content (fst (x_close x w c)) = content w"
    "content (fst (x_cvl_open x w d)) = content w"
    "content (fst (x_cvl_close x w c)) = content w"
    "content (fst (x_cvl_validate x w d cv l)) = content w"
  using assms by (simp_all add: redis_server_def)

lemma redis_server_E:
  assumes "redis_server x content"
  shows "x_do x w c (cHSETNX k f v) = (w1, r) \<Longrightarrow> content w1 = content w"
    "x_client x w n b = (w2, r2) \<Longrightarrow> content w2 = content w"
    "x_close x w c = (w3, r3) \<Longrightarrow> content w3 = content w"
    "x_cvl_validate x w d cv l = (w4, r4) \<Longrightarrow> content w4 = content w"
  using redis_serverD[OF assms] by (metis fst_conv)+

section \<open>The lock leaves the database alone\<close>

lemma tryLock_content:
  assumes "redis_server x content"
  shows "content (snd (snd (tryLock x ls w))) = content w"
  using assms
  by (auto simp: tryLock_def getStateDB_def Let_def redis_serverD
      split: prod.split sum.split option.split reply.split)
     (metis redis_server_E(1,2))+

lemma tryLock_loop_content:
  assumes "redis_server x content"
  shows "content (fst (snd (tryLock_loop x n ls w))) = content w"
proof (induction n arbitrary: ls w)
  case (Suc n)
  obtain e ls' w' where t: "tryLock x ls w = (e, ls', w')" by (cases "tryLock x ls w") auto
  have "content w' = content w" using tryLock_content[OF assms, of ls w] t by simp
  then show ?case using t Suc by (auto split: option.split)
qed simp

lemma ConfigDBTryLock_content:
  assumes "redis_server x content"
  shows "content (fst (snd (ConfigDBTryLock x tok w c))) = content w"
  using tryLock_loop_content[OF assms] by (auto simp: ConfigDBTryLock_def split: option.split)

lemma lazy_lock_frame:
  assumes "lazy_lock x s = (e, s')"
  shows "Opts (db s') = Opts (db s)" "tx_state (db s') = tx_state (db s)"
    "txCmds (db s') = txCmds (db s)" "txTsEntryMap (db s') = txTsEntryMap (db s)"
    "txTsEntryHGetAll (db s') = txTsEntryHGetAll (db s)"
    "db_client (db s') = db_client (db s)" "savePoint s' = savePoint s" "sInfo s' = sInfo s"
    "notifs s' = notifs s" "cvlEditConfigData (db s') = cvlEditConfigData (db s)"
    "db_err (db s') = db_err (db s)" "db_cv (db s') = db_cv (db s)"
  using assms
  by (auto simp: lazy_lock_def lock_op_def split: if_splits prod.splits option.splits)

lemma lazy_lock_content:
  assumes "redis_server x content" "lazy_lock x s = (e, s')"
  shows "content (world s') = content (world s)"
proof -
  obtain e' w c where t: "ConfigDBTryLock x noSessionToken (world s) (cdbLock s) = (e', w, c)"
    by (cases "ConfigDBTryLock x noSessionToken (world s) (cdbLock s)") auto
  have "content w = content (world s)"
    using ConfigDBTryLock_content[OF assms(1), of noSessionToken "world s" "cdbLock s"] t by simp
  then show ?thesis using assms(2) t
    by (auto simp: lazy_lock_def lock_op_def split: if_splits option.splits)
qed

section \<open>Replaying commands\<close>

definition exec_tx :: "Options \<Rightarrow> txCmd \<Rightarrow> (string \<Rightarrow> fields) \<Rightarrow> (string \<Rightarrow> fields)" where
  "exec_tx opts c =
     (case op_rcmd opts (tc_ts c) (tc_op c) (tc_key c) (tc_value c) of
        None \<Rightarrow> (\<lambda>b. b)
      | Some r \<Rightarrow> exec_cmd r)"

text \<open>The transaction cache is kept per table; so is its meaning.\<close>

definition tsem :: "Options \<Rightarrow> txCmd \<Rightarrow> (string \<Rightarrow> string \<Rightarrow> fields) \<Rightarrow> (string \<Rightarrow> string \<Rightarrow> fields)" where
  "tsem opts c v = v(tsName (tc_ts c) := exec_tx opts c (v (tsName (tc_ts c))))"

abbreviation cmd_rk :: "Options \<Rightarrow> txCmd \<Rightarrow> string" where
  "cmd_rk opts c \<equiv> key2redis opts (tc_ts c) (tc_key c)"

lemma exec_tx_other: "cmd_rk opts c \<noteq> k \<Longrightarrow> exec_tx opts c b k = b k"
  by (cases "tc_op c") (auto simp: exec_tx_def op_rcmd_def)

lemma exec_tx_cong: "b k = b' k \<Longrightarrow> exec_tx opts c b k = exec_tx opts c b' k"
  by (cases "tc_op c") (auto simp: exec_tx_def op_rcmd_def)

text \<open>When one table alone writes a redis key, the two meanings agree on the key.\<close>

lemma fold_tsem:
  assumes "\<forall>c \<in> set cs. cmd_rk opts c = k \<longrightarrow> tsName (tc_ts c) = t" "v t k = b k"
  shows "fold (tsem opts) cs v t k = fold (exec_tx opts) cs b k"
  using assms
proof (induction cs arbitrary: v b)
  case (Cons c cs)
  have "tsem opts c v t k = exec_tx opts c b k"
  proof (cases "tsName (tc_ts c) = t")
    case True
    then show ?thesis using Cons.prems(2) by (simp add: tsem_def exec_tx_cong[of "v t" k b])
  next
    case False
    then show ?thesis using Cons.prems by (auto simp: tsem_def exec_tx_other)
  qed
  then show ?case using Cons by simp
qed simp

section \<open>A store that logs its changes\<close>

locale logged_store =
  fixes inv :: "'s \<Rightarrow> bool"
    and step :: "'e \<Rightarrow> 's \<Rightarrow> 's"
    and log :: "'s \<Rightarrow> 'c list"
    and obs :: "'s \<Rightarrow> 'v"
    and sem :: "'c \<Rightarrow> 'v \<Rightarrow> 'v"
  assumes step_inv: "inv s \<Longrightarrow> inv (step e s)"
    and step_log: "inv s \<Longrightarrow>
      \<exists>cs. log (step e s) = log s @ cs \<and> obs (step e s) = fold sem cs (obs s)"
begin

lemma run_inv: "inv s \<Longrightarrow> inv (fold step es s)"
  by (induction es arbitrary: s) (auto simp: step_inv)

lemma run_log:
  "inv s \<Longrightarrow> \<exists>cs. log (fold step es s) = log s @ cs \<and> obs (fold step es s) = fold sem cs (obs s)"
proof (induction es arbitrary: s)
  case (Cons e es)
  obtain cs where cs: "log (step e s) = log s @ cs" "obs (step e s) = fold sem cs (obs s)"
    using step_log[OF Cons.prems] by blast
  obtain ds where "log (fold step es (step e s)) = log (step e s) @ ds"
    "obs (fold step es (step e s)) = fold sem ds (obs (step e s))"
    using Cons.IH[OF step_inv[OF Cons.prems]] by blast
  then show ?case using cs by (intro exI[of _ "cs @ ds"]) simp
qed simp

lemma run_from_empty:
  assumes "inv s" "log s = []"
  shows "obs (fold step es s) = fold sem (log (fold step es s)) (obs s)"
  using run_log[OF assms(1), of es] assms(2) by auto

end

section \<open>One write\<close>

definition tview :: "('w \<Rightarrow> string \<Rightarrow> fields) \<Rightarrow> 'w st \<Rightarrow> string \<Rightarrow> string \<Rightarrow> fields" where
  "tview content s = view (content (world s)) (db s)"

lemma view_cong: "txTsEntryMap d = txTsEntryMap d' \<Longrightarrow> view b d = view b d'"
  by (intro ext) (simp add: view_def)

lemma view_set_tx_entry:
  "view b (set_tx_entry n k v d) = (view b d)(n := (view b d n)(k := Flds v))"
  by (intro ext) (simp add: view_def set_tx_entry_def)

lemma set_tx_entry_frame [simp]:
  "Opts (set_tx_entry n k v d) = Opts d" "tx_state (set_tx_entry n k v d) = tx_state d"
  "txCmds (set_tx_entry n k v d) = txCmds d" "db_client (set_tx_entry n k v d) = db_client d"
  "db_err (set_tx_entry n k v d) = db_err d" "db_cv (set_tx_entry n k v d) = db_cv d"
  "txTsEntryMap (set_tx_entry n k v d) = tx_put n k v (txTsEntryMap d)"
  "txTsEntryHGetAll (set_tx_entry n k v d) = txTsEntryHGetAll d"
  "cvlEditConfigData (set_tx_entry n k v d) = cvlEditConfigData d"
  "configDBLocked (set_tx_entry n k v d) = configDBLocked d"
  by (simp_all add: set_tx_entry_def)

lemma tx_get_ensure [simp]: "tx_get (txTsEntryMap (ensure_tx_table n d)) t k = tx_get (txTsEntryMap d) t k"
  by (auto simp: ensure_tx_table_def tx_get_def ghas_def)

lemma ensure_tx_table_frame [simp]:
  "Opts (ensure_tx_table n d) = Opts d" "tx_state (ensure_tx_table n d) = tx_state d"
  "txCmds (ensure_tx_table n d) = txCmds d" "db_client (ensure_tx_table n d) = db_client d"
  "db_err (ensure_tx_table n d) = db_err d" "db_cv (ensure_tx_table n d) = db_cv d"
  "txTsEntryHGetAll (ensure_tx_table n d) = txTsEntryHGetAll d"
  "cvlEditConfigData (ensure_tx_table n d) = cvlEditConfigData d"
  "configDBLocked (ensure_tx_table n d) = configDBLocked d"
  by (simp_all add: ensure_tx_table_def)

lemma view_ensure [simp]: "view b (ensure_tx_table n d) = view b d"
  by (intro ext) (simp add: view_def)

lemma append_cmd_frame [simp]:
  "Opts (append_cmd c d) = Opts d" "tx_state (append_cmd c d) = tx_state d"
  "txCmds (append_cmd c d) = txCmds d @ [c]" "db_client (append_cmd c d) = db_client d"
  "db_err (append_cmd c d) = db_err d" "db_cv (append_cmd c d) = db_cv d"
  "txTsEntryMap (append_cmd c d) = txTsEntryMap d"
  "txTsEntryHGetAll (append_cmd c d) = txTsEntryHGetAll d"
  "cvlEditConfigData (append_cmd c d) = cvlEditConfigData d"
  "configDBLocked (append_cmd c d) = configDBLocked d"
  by (simp_all add: append_cmd_def Let_def)

lemma view_append_cmd [simp]: "view b (append_cmd c d) = view b d"
  by (rule view_cong) simp

lemma write_notify_frame [simp]:
  "world (write_notify ts op key s) = world s" "db (write_notify ts op key s) = db s"
  "cdbLock (write_notify ts op key s) = cdbLock s" "savePoint (write_notify ts op key s) = savePoint s"
  by (simp_all add: write_notify_def Let_def)

lemma Value_Copy_Copy [simp]: "Value_Copy (Value_Copy v) = Value_Copy v"
  by (simp add: Value_Copy_ok)

lemma exec_tx_set:
  "tc_op c = txOpHMSet \<Longrightarrow> exec_tx opts c b = b(cmd_rk opts c := gset_all (Flds (tc_value c)) (b (cmd_rk opts c)))"
  "tc_op c = txOpHDel \<Longrightarrow> exec_tx opts c b = b(cmd_rk opts c := gdel_all (gkeys (Flds (tc_value c))) (b (cmd_rk opts c)))"
  "tc_op c = txOpDel \<Longrightarrow> exec_tx opts c b = b(cmd_rk opts c := [])"
  by (simp_all add: exec_tx_def op_rcmd_def)

lemma doWrite_cache_frame:
  assumes "doWrite_cache x ts op key val s = ((e, value), s')"
  shows "world s' = world s" "savePoint s' = savePoint s" "Opts (db s') = Opts (db s)"
    "tx_state (db s') = tx_state (db s)" "txCmds (db s') = txCmds (db s)"
    "db_client (db s') = db_client (db s)" "db_cv (db s') = db_cv (db s)"
    "cvlEditConfigData (db s') = cvlEditConfigData (db s)" "db_err (db s') = db_err (db s)"
    "cdbLock s' = cdbLock s"
  using assms
  by (auto simp: doWrite_cache_def Let_def split: if_splits option.splits sum.splits)

lemma doWrite_cache_view:
  assumes "redis_server x content" "doWrite_cache x ts op key val s = ((e, value), s')"
  shows "tview content s' =
     (if e = None
      then tsem (Opts (db s)) \<lparr>tc_ts = ts, tc_op = op, tc_key = key, tc_value = value\<rparr> (tview content s)
      else tview content s)"
proof (cases "op = txOpHMSet \<or> op = txOpHDel")
  case True
  let ?k = "key2redis (Opts (db s)) ts key"
  let ?cur = "view (content (world s)) (db s) (tsName ts) ?k"
  have w: "world s' = world s" using doWrite_cache_frame[OF assms(2)] by simp
  have "e = None" "value = Value_Copy val"
    and m: "view (content (world s)) (db s') = (view (content (world s)) (db s))(tsName ts :=
      (view (content (world s)) (db s) (tsName ts))(?k :=
        (if op = txOpHMSet then gset_all (Flds value) ?cur else gdel_all (gkeys (Flds value)) ?cur)))"
    using assms(2) True
    by (auto simp: doWrite_cache_def Let_def redis_serverD[OF assms(1)] view_def fun_eq_iff
        split: option.splits)
  then show ?thesis using True w by (auto simp: tview_def tsem_def exec_tx_set)
next
  case False
  then have "op = txOpDel \<or> op = txOpNone" by (cases op) auto
  then show ?thesis using assms(2) False
    by (auto simp: doWrite_cache_def Let_def tview_def tsem_def exec_tx_set view_set_tx_entry)
qed

lemma doWrite_cache_value:
  assumes "doWrite_cache x ts op key val s = ((e, v), s')" "op = txOpHMSet \<or> op = txOpHDel"
  shows "v = Value_Copy val"
  using assms by (auto simp: doWrite_cache_def Let_def split: prod.splits)

lemma txok_put: "txok m \<Longrightarrow> gok (Flds v) \<Longrightarrow> txok (tx_put t k v m)"
  by (simp add: txok_def)

lemma doWrite_cache_txok:
  assumes "redis_server x content" "doWrite_cache x ts op key val s = ((e, value), s')"
    and "\<forall>k. gok (content (world s) k)" "txok (txTsEntryMap (db s))"
  shows "txok (txTsEntryMap (db s'))"
proof -
  have "gok (Flds v)" if "tx_get (txTsEntryMap (db s)) t k = Some v" for t k v
    using assms(4) that by (auto simp: txok_def)
  then show ?thesis
    using assms(2-4)
    by (auto simp: doWrite_cache_def Let_def redis_serverD[OF assms(1)] intro!: txok_put
        split: if_splits option.splits)
qed

lemma doWrite_tx_view:
  assumes "redis_server x content" "doWrite_tx x ts op key val s = (e, s')"
  shows "\<exists>cs. txCmds (db s') = txCmds (db s) @ cs \<and>
     tview content s' = fold (tsem (Opts (db s))) cs (tview content s)"
    "content (world s') = content (world s)" "Opts (db s') = Opts (db s)"
    "tx_state (db s') = tx_state (db s)" "db_client (db s') = db_client (db s)"
    "\<forall>k. gok (content (world s) k) \<Longrightarrow> txok (txTsEntryMap (db s)) \<Longrightarrow> txok (txTsEntryMap (db s'))"
    "e = None \<Longrightarrow> tview content s' =
       tsem (Opts (db s)) \<lparr>tc_ts = ts, tc_op = op, tc_key = key, tc_value = Value_Copy val\<rparr> (tview content s)"
proof -
  let ?s0 = "doTxSPsave ts key (upd_db (ensure_tx_table (tsName ts)) s)"
  obtain e1 vl s1 where c: "doWrite_cache x ts op key val ?s0 = ((e1, vl), s1)"
    by (cases "doWrite_cache x ts op key val ?s0") auto
  note f = doWrite_cache_frame[OF c]
  have v0: "tview content ?s0 = tview content s"
    by (simp add: tview_def)
  note v = doWrite_cache_view[OF assms(1) c]
  have "e = e1" using assms(2) c by (auto simp: doWrite_tx_def split: option.splits)
  show "\<exists>cs. txCmds (db s') = txCmds (db s) @ cs \<and>
     tview content s' = fold (tsem (Opts (db s))) cs (tview content s)"
  proof (cases e1)
    case None
    let ?c = "\<lparr>tc_ts = ts, tc_op = op, tc_key = key, tc_value = vl\<rparr>"
    have "txCmds (db s') = txCmds (db s) @ [?c]"
      "tview content s' = tview content s1"
      using assms(2) c None f by (auto simp: doWrite_tx_def tview_def intro: view_cong)
    then show ?thesis using v v0 None by (intro exI[of _ "[?c]"]) simp
  next
    case (Some err)
    then have "s' = s1" using assms(2) c by (simp add: doWrite_tx_def)
    then show ?thesis using v v0 f Some by simp
  qed
  show "content (world s') = content (world s)" "Opts (db s') = Opts (db s)"
    "tx_state (db s') = tx_state (db s)" "db_client (db s') = db_client (db s)"
    using assms(2) c f by (cases e1; auto simp: doWrite_tx_def)+
  show "txok (txTsEntryMap (db s'))" if g: "\<forall>k. gok (content (world s) k)" "txok (txTsEntryMap (db s))"
  proof -
    have "txok (txTsEntryMap (db s1))"
      using g by (intro doWrite_cache_txok[OF assms(1) c]) (auto simp: txok_def)
    then show ?thesis using assms(2) c by (cases e1) (auto simp: doWrite_tx_def)
  qed
  show "tview content s' =
      tsem (Opts (db s)) \<lparr>tc_ts = ts, tc_op = op, tc_key = key, tc_value = Value_Copy val\<rparr> (tview content s)"
    if "e = None"
  proof -
    have e1: "e1 = None" using that \<open>e = e1\<close> by simp
    have "tview content s' = tview content s1"
      using assms(2) c e1 f by (auto simp: doWrite_tx_def tview_def)
    moreover have "tsem (Opts (db s)) \<lparr>tc_ts = ts, tc_op = op, tc_key = key, tc_value = vl\<rparr> w =
        tsem (Opts (db s)) \<lparr>tc_ts = ts, tc_op = op, tc_key = key, tc_value = Value_Copy val\<rparr> w" for w
      using doWrite_cache_value[OF c] by (cases op) (auto simp: tsem_def exec_tx_def op_rcmd_def)
    ultimately show ?thesis using v v0 e1 by simp
  qed
qed

section \<open>Every write operation only appends to the log\<close>

definition in_tx :: "DB \<Rightarrow> bool" where
  "in_tx d \<longleftrightarrow> tx_state d = txStateWatch \<or> tx_state d = txStateSet"

text \<open>
  One operation inside of a transaction, whether it succeeds or not: the commands that it
  queues are exactly what changes the view, and redis does not change.
\<close>

definition tx_step :: "('w \<Rightarrow> string \<Rightarrow> fields) \<Rightarrow> 'w st \<Rightarrow> 'w st \<Rightarrow> bool" where
  "tx_step content s s' \<longleftrightarrow>
     (\<exists>cs. txCmds (db s') = txCmds (db s) @ cs \<and>
        tview content s' = fold (tsem (Opts (db s))) cs (tview content s)) \<and>
     content (world s') = content (world s) \<and> Opts (db s') = Opts (db s) \<and>
     db_client (db s') = db_client (db s) \<and>
     (in_tx (db s) \<longrightarrow> in_tx (db s')) \<and>
     ((\<forall>k. gok (content (world s) k)) \<longrightarrow> txok (txTsEntryMap (db s)) \<longrightarrow> txok (txTsEntryMap (db s')))"

lemma tx_step_refl [simp]: "tx_step content s s"
  by (simp add: tx_step_def)

lemma tx_step_trans:
  assumes "tx_step content s s'" "tx_step content s' s''"
  shows "tx_step content s s''"
proof -
  obtain cs where cs: "txCmds (db s') = txCmds (db s) @ cs"
    "tview content s' = fold (tsem (Opts (db s))) cs (tview content s)"
    using assms(1) by (auto simp: tx_step_def)
  obtain ds where ds: "txCmds (db s'') = txCmds (db s') @ ds"
    "tview content s'' = fold (tsem (Opts (db s'))) ds (tview content s')"
    using assms(2) by (auto simp: tx_step_def)
  have "txCmds (db s'') = txCmds (db s) @ (cs @ ds)"
    "tview content s'' = fold (tsem (Opts (db s))) (cs @ ds) (tview content s)"
    using cs ds assms by (auto simp: tx_step_def)
  then show ?thesis using assms unfolding tx_step_def by metis
qed

lemma tx_step_in_tx: "tx_step content s s' \<Longrightarrow> in_tx (db s) \<Longrightarrow> in_tx (db s')"
  by (simp add: tx_step_def)

lemma tx_step_frame:
  assumes "txCmds (db s') = txCmds (db s)" "txTsEntryMap (db s') = txTsEntryMap (db s)"
    "content (world s') = content (world s)" "Opts (db s') = Opts (db s)"
    "tx_state (db s') = tx_state (db s)" "db_client (db s') = db_client (db s)"
  shows "tx_step content s s'"
  using assms view_cong[of "db s'" "db s"]
  by (auto simp: tx_step_def tview_def in_tx_def intro: exI[of _ "[]"])

lemma tx_step_same:
  assumes "same_tx (db s) (db s')" "same_pkg s s'"
  shows "tx_step content s s'"
  using assms by (intro tx_step_frame) (auto simp: same_tx_def same_pkg_def)

lemma doWrite_step:
  assumes "redis_server x content" "in_tx (db s)" "doWrite x ts op key val s = (e, s')"
  shows "tx_step content s s'"
proof (cases "IsWriteDisabled (Opts (db s)) \<or> db_err (db s) \<noteq> None")
  case True
  then have "s' = s" using assms(3) by (auto simp: doWrite_def Let_def split: if_splits)
  then show ?thesis by simp
next
  case False
  obtain e1 s1 where l: "lazy_lock x s = (e1, s1)" by (cases "lazy_lock x s") auto
  have s1: "tx_step content s s1"
    by (intro tx_step_frame) (simp_all add: lazy_lock_frame[OF l] lazy_lock_content[OF assms(1) l])
  have tx1: "in_tx (db s1)" by (rule tx_step_in_tx[OF s1 assms(2)])
  consider "s' = s1"
    | s2 where "tx_step content s1 s2" "in_tx (db s2)" "doWrite_tx x ts op (Key_Copy key) val s2 = (e, s')"
  proof (cases "e1 = None \<and> \<not> (IsSession (Opts (db s1)) \<and> TxCmdsLim (Opts (db s1)) \<noteq> 0 \<and>
             int (length (txCmds (db s1))) \<ge> TxCmdsLim (Opts (db s1)))")
    case True
    let ?s2 = "if tx_state (db s1) = txStateWatch then upd_db (\<lambda>d. d\<lparr>tx_state := txStateSet\<rparr>) s1 else s1"
    have "tview content ?s2 = tview content s1"
      by (auto simp: tview_def intro: view_cong)
    then have "tx_step content s1 ?s2"
      using tx1 by (auto simp: tx_step_def in_tx_def txok_def)
    moreover have "doWrite_tx x ts op (Key_Copy key) val ?s2 = (e, s')"
      using assms(3) False True l tx1 by (auto simp: doWrite_def Let_def in_tx_def)
    ultimately show ?thesis using that(2) tx1 tx_step_in_tx by blast
  next
    case False
    then show ?thesis using that(1) assms(3) l \<open>\<not> (IsWriteDisabled _ \<or> _)\<close>
      by (auto simp: doWrite_def Let_def split: option.splits if_splits)
  qed
  then show ?thesis
  proof cases
    case 1
    then show ?thesis using s1 by simp
  next
    case (2 s2)
    have "tx_step content s2 s'"
      using doWrite_tx_view[OF assms(1) 2(3)] 2(2) by (auto simp: tx_step_def in_tx_def)
    then show ?thesis using s1 2(1) tx_step_trans by blast
  qed
qed

text \<open>What a successful write does to the view.\<close>

lemma doWrite_ok:
  assumes "redis_server x content" "in_tx (db s)" "doWrite x ts op key val s = (None, s')"
  shows "tview content s' =
     tsem (Opts (db s)) \<lparr>tc_ts = ts, tc_op = op, tc_key = Key_Copy key, tc_value = Value_Copy val\<rparr>
       (tview content s)"
proof -
  obtain e1 s1 where l: "lazy_lock x s = (e1, s1)" by (cases "lazy_lock x s") auto
  note f = lazy_lock_frame[OF l] lazy_lock_content[OF assms(1) l]
  let ?s2 = "if tx_state (db s1) = txStateWatch then upd_db (\<lambda>d. d\<lparr>tx_state := txStateSet\<rparr>) s1 else s1"
  have v: "tview content ?s2 = tview content s"
    using f by (auto simp: tview_def intro!: view_cong)
  have "doWrite_tx x ts op (Key_Copy key) val ?s2 = (None, s')"
    using assms(2,3) l f(2)
    by (auto simp: doWrite_def Let_def in_tx_def split: if_splits option.splits)
  from doWrite_tx_view(7)[OF assms(1) this] v f(1) show ?thesis by (auto split: if_splits)
qed

lemma doCVL_step:
  assumes "redis_server x content" "doCVL x ts ops key vals s = (e, s')"
  shows "tx_step content s s'"
  using assms(2) redis_server_E(4)[OF assms(1)]
  by (intro tx_step_frame)
     (auto simp: doCVL_def Let_def split: if_splits prod.splits option.splits)

text \<open>The two calls in a row, the second one only after success.\<close>

lemma doCVL_doWrite_step:
  assumes "redis_server x content" "in_tx (db s)"
    and "(case doCVL x ts ops key vals s of (Some e, s1) \<Rightarrow> (Some e, s1)
          | (None, s1) \<Rightarrow> doWrite x ts op key' val s1) = (e, s')"
  shows "tx_step content s s'"
proof -
  obtain e1 s1 where c: "doCVL x ts ops key vals s = (e1, s1)" by (cases "doCVL x ts ops key vals s")
  note s1 = doCVL_step[OF assms(1) c]
  show ?thesis
  proof (cases e1)
    case None
    then have "doWrite x ts op key' val s1 = (e, s')" using assms(3) c by simp
    then show ?thesis using doWrite_step[OF assms(1) tx_step_in_tx[OF s1 assms(2)]] s1 tx_step_trans by blast
  next
    case (Some err)
    then show ?thesis using assms(3) c s1 by simp
  qed
qed

lemma DeleteEntry_step:
  assumes "redis_server x content" "in_tx (db s)" "DeleteEntry x ts key s = (e, s')"
  shows "tx_step content s s'"
  using assms doCVL_doWrite_step[OF assms(1,2)]
  by (auto simp: DeleteEntry_def split: if_splits)

lemma ModEntry_step:
  assumes "redis_server x content" "in_tx (db s)" "ModEntry x ts key v s = (e, s')"
  shows "tx_step content s s'"
  using assms doCVL_doWrite_step[OF assms(1,2)] DeleteEntry_step[OF assms(1,2)]
  by (auto simp: ModEntry_def split: if_splits)

lemma DeleteEntryFields_step:
  assumes "redis_server x content" "in_tx (db s)" "DeleteEntryFields x ts key v s = (e, s')"
  shows "tx_step content s s'"
  using assms doCVL_doWrite_step[OF assms(1,2)]
  by (auto simp: DeleteEntryFields_def split: if_splits)

lemma GetEntry_step: "GetEntry x ts key s = (r, s') \<Longrightarrow> tx_step content s s'"
  using GetEntry_same[where x = x and ts = ts and key = key and s = s] tx_step_same by (metis snd_conv)

text \<open>The tail of \<open>setEntry\<close>: two writes in a row.\<close>

lemma two_writes_step:
  assumes "redis_server x content" "in_tx (db s)"
    and "(case doWrite x ts op key val s of (Some e, s3) \<Rightarrow> (Some e, s3)
          | (None, s3) \<Rightarrow> if b then doWrite x ts op' key val' s3 else (None, s3)) = (e, s')"
  shows "tx_step content s s'"
proof -
  obtain e1 s1 where c: "doWrite x ts op key val s = (e1, s1)" by (cases "doWrite x ts op key val s")
  note s1 = doWrite_step[OF assms(1,2) c]
  show ?thesis
    using assms(3) c s1 tx_step_trans[OF s1 doWrite_step[OF assms(1) tx_step_in_tx[OF s1 assms(2)]]]
    by (auto split: option.splits if_splits)
qed

lemma doCVL_two_writes_step:
  assumes "redis_server x content" "in_tx (db s)"
    and "(case doCVL x ts ops key0 vals s of (Some e, s2) \<Rightarrow> (Some e, s2)
          | (None, s2) \<Rightarrow>
             (case doWrite x ts op key val s2 of (Some e, s3) \<Rightarrow> (Some e, s3)
              | (None, s3) \<Rightarrow> if b then doWrite x ts op' key val' s3 else (None, s3))) = (e, s')"
  shows "tx_step content s s'"
proof -
  obtain e1 s1 where c: "doCVL x ts ops key0 vals s = (e1, s1)" by (cases "doCVL x ts ops key0 vals s")
  note s1 = doCVL_step[OF assms(1) c]
  show ?thesis
    using assms(3) c s1 tx_step_trans[OF s1 two_writes_step[OF assms(1) tx_step_in_tx[OF s1 assms(2)]]]
    by (cases e1) (auto simp del: split_paired_All)
qed

lemma setEntry_step:
  assumes "redis_server x content" "in_tx (db s)" "setEntry x ts key v b s = (e, s')"
  shows "tx_step content s s'"
proof (cases "length (Flds v) = 0")
  case True
  then show ?thesis using assms DeleteEntry_step[OF assms(1,2)]
    by (auto simp: setEntry_def split: if_splits)
next
  case False
  obtain cur e1 s1 where g: "(if \<not> b then GetEntry x ts key s else ((\<lparr>Flds = []\<rparr>, None), s)) = ((cur, e1), s1)"
    by (metis surj_pair)
  have s1: "tx_step content s s1"
    using g GetEntry_step[where x = x and ts = ts and key = key and s = s] by (auto split: if_splits)
  note two = doCVL_two_writes_step[OF assms(1) tx_step_in_tx[OF s1 assms(2)]]
  have "tx_step content s1 s'"
    using assms(3) False
    unfolding setEntry_def g Let_def prod.case
    by (auto split: if_splits elim!: two)
  then show ?thesis by (rule tx_step_trans[OF s1])
qed

section \<open>Deleting many entries\<close>

lemma GetKeysPattern_same:
  assumes "GetKeysPattern x ts pat s = Some (r, s')"
  shows "same_tx (db s) (db s')" "same_pkg s s'"
  using assms
  by (auto simp: GetKeysPattern_def Let_def split: if_splits option.splits sum.splits)

lemma GetKeys_same:
  assumes "GetKeys x ts s = Some (r, s')"
  shows "same_tx (db s) (db s')" "same_pkg s s'"
  using assms by (auto simp: GetKeys_def Let_def split: if_splits dest: GetKeysPattern_same)

lemma delete_each_step:
  assumes "redis_server x content" "in_tx (db s)" "delete_each x ts ks e s = (e', s')"
  shows "tx_step content s s'"
  using assms(2,3)
proof (induction ks arbitrary: e s)
  case (Cons k ks)
  obtain e1 s1 where d: "DeleteEntry x ts k s = (e1, s1)" by (cases "DeleteEntry x ts k s")
  note s1 = DeleteEntry_step[OF assms(1) Cons.prems(1) d]
  have "tx_step content s1 s'"
    using Cons.IH[OF tx_step_in_tx[OF s1 Cons.prems(1)]] Cons.prems(2) d by simp
  then show ?case by (rule tx_step_trans[OF s1])
qed simp

lemma delete_until_step:
  assumes "redis_server x content" "in_tx (db s)" "delete_until x ts ks s = (e', s')"
  shows "tx_step content s s'"
  using assms(2,3)
proof (induction ks arbitrary: s)
  case (Cons k ks)
  obtain e1 s1 where d: "DeleteEntry x ts k s = (e1, s1)" by (cases "DeleteEntry x ts k s")
  note s1 = DeleteEntry_step[OF assms(1) Cons.prems(1) d]
  show ?case
  proof (cases e1)
    case None
    then have "tx_step content s1 s'"
      using Cons.IH[OF tx_step_in_tx[OF s1 Cons.prems(1)]] Cons.prems(2) d by simp
    then show ?thesis by (rule tx_step_trans[OF s1])
  qed (use Cons.prems(2) d s1 in simp)
qed simp

lemma DeleteKeys_step:
  assumes "redis_server x content" "in_tx (db s)" "DeleteKeys x ts pat s = Some (e, s')"
  shows "tx_step content s s'"
proof (cases "IsOpen (db s)")
  case True
  then obtain ks e1 s1 where g: "GetKeysPattern x ts pat s = Some ((ks, e1), s1)"
    "delete_each x ts ks e1 s1 = (e, s')"
    using assms(3) by (auto simp: DeleteKeys_def)
  have s1: "tx_step content s s1" by (rule tx_step_same[OF GetKeysPattern_same[OF g(1)]])
  show ?thesis
    by (rule tx_step_trans[OF s1 delete_each_step[OF assms(1) tx_step_in_tx[OF s1 assms(2)] g(2)]])
qed (use assms(3) in \<open>simp add: DeleteKeys_def\<close>)

lemma DeleteTable_step:
  assumes "redis_server x content" "in_tx (db s)" "DeleteTable x ts s = Some (e, s')"
  shows "tx_step content s s'"
proof (cases "IsOpen (db s)")
  case True
  then obtain ks e1 s1 where g: "GetKeys x ts s = Some ((ks, e1), s1)"
    "(if e1 \<noteq> None then (e1, s1) else delete_until x ts ks s1) = (e, s')"
    using assms(3) by (auto simp: DeleteTable_def)
  have s1: "tx_step content s s1" by (rule tx_step_same[OF GetKeys_same[OF g(1)]])
  show ?thesis
    using g(2) s1 tx_step_trans[OF s1 delete_until_step[OF assms(1) tx_step_in_tx[OF s1 assms(2)]]]
    by (auto split: if_splits)
qed (use assms(3) in \<open>simp add: DeleteTable_def\<close>)

section \<open>Sequences of operations\<close>

datatype edit =
    ECreate TableSpec Key Value
  | ESet TableSpec Key Value
  | EMod TableSpec Key Value
  | EDelete TableSpec Key
  | EDelFields TableSpec Key Value
  | EGet TableSpec Key

fun apply_edit :: "('w, 'z) ext_scheme \<Rightarrow> edit \<Rightarrow> 'w st \<Rightarrow> 'w st" where
  "apply_edit x (ECreate ts k v) s = snd (CreateEntry x ts k v s)"
| "apply_edit x (ESet ts k v) s = snd (SetEntry x ts k v s)"
| "apply_edit x (EMod ts k v) s = snd (ModEntry x ts k v s)"
| "apply_edit x (EDelete ts k) s = snd (DeleteEntry x ts k s)"
| "apply_edit x (EDelFields ts k v) s = snd (DeleteEntryFields x ts k v s)"
| "apply_edit x (EGet ts k) s = snd (GetEntry x ts k s)"

lemma apply_edit_step:
  assumes "redis_server x content" "in_tx (db s)"
  shows "tx_step content s (apply_edit x e s)"
  using setEntry_step[OF assms prod.collapse[symmetric]] ModEntry_step[OF assms prod.collapse[symmetric]]
    DeleteEntry_step[OF assms prod.collapse[symmetric]]
    DeleteEntryFields_step[OF assms prod.collapse[symmetric]] GetEntry_step[OF prod.collapse[symmetric]]
  by (cases e) (simp_all add: CreateEntry_def SetEntry_def)

definition tx_inv :: "('w, 'z) ext_scheme \<Rightarrow> ('w \<Rightarrow> string \<Rightarrow> fields) \<Rightarrow> (string \<Rightarrow> fields) \<Rightarrow> Options \<Rightarrow>
    'w st \<Rightarrow> bool" where
  "tx_inv x content base opts s \<longleftrightarrow>
     redis_server x content \<and> in_tx (db s) \<and> content (world s) = base \<and> Opts (db s) = opts"

interpretation txs: logged_store "tx_inv x content base opts" "apply_edit x"
  "\<lambda>s. txCmds (db s)" "tview content" "tsem opts" for x content base opts
proof
  fix s e
  assume i: "tx_inv x content base opts s"
  then have st: "tx_step content s (apply_edit x e s)"
    by (intro apply_edit_step) (auto simp: tx_inv_def)
  then show "tx_inv x content base opts (apply_edit x e s)"
    using i by (auto simp: tx_inv_def tx_step_def)
  show "\<exists>cs. txCmds (db (apply_edit x e s)) = txCmds (db s) @ cs \<and>
      tview content (apply_edit x e s) = fold (tsem opts) cs (tview content s)"
    using st i by (auto simp: tx_inv_def tx_step_def)
qed

section \<open>Commit\<close>

fun queueable :: "rcmd \<Rightarrow> bool" where
  "queueable (cHMSET _ _) = True"
| "queueable (cHDEL _ _) = True"
| "queueable (cDEL _) = True"
| "queueable (cSET _ _) = True"
| "queueable _ = False"

text \<open>
  Documented behaviour of MULTI and EXEC: after MULTI a command is queued, EXEC runs the
  queue as a whole or answers with an error and runs nothing.  \<open>q w c\<close> is the queue of a
  client.
\<close>

definition server_multi :: "('w, 'z) ext_scheme \<Rightarrow> ('w \<Rightarrow> string \<Rightarrow> fields) \<Rightarrow> ('w \<Rightarrow> nat \<Rightarrow> rcmd list option) \<Rightarrow> bool" where
  "server_multi x content q \<longleftrightarrow>
     (\<forall>w c w' r. x_do x w c cMULTI = (w', r) \<longrightarrow>
        content w' = content w \<and> (\<forall>v. r = Inr v \<longrightarrow> q w' c = Some []))"

definition server_queue :: "('w, 'z) ext_scheme \<Rightarrow> ('w \<Rightarrow> string \<Rightarrow> fields) \<Rightarrow> ('w \<Rightarrow> nat \<Rightarrow> rcmd list option) \<Rightarrow> bool" where
  "server_queue x content q \<longleftrightarrow>
     (\<forall>w c k w' r l. q w c = Some l \<longrightarrow> queueable k \<longrightarrow> x_do x w c k = (w', r) \<longrightarrow>
        content w' = content w \<and> (\<forall>v. r = Inr v \<longrightarrow> q w' c = Some (l @ [k])))"

definition server_exec :: "('w, 'z) ext_scheme \<Rightarrow> ('w \<Rightarrow> string \<Rightarrow> fields) \<Rightarrow> ('w \<Rightarrow> nat \<Rightarrow> rcmd list option) \<Rightarrow> bool" where
  "server_exec x content q \<longleftrightarrow>
     (\<forall>w c w' r l. q w c = Some l \<longrightarrow> x_do x w c cEXEC = (w', r) \<longrightarrow>
        content w' = (case r of Inl _ \<Rightarrow> content w | Inr _ \<Rightarrow> fold exec_cmd l (content w)))"

definition tx_server ::
  "('w, 'z) ext_scheme \<Rightarrow> ('w \<Rightarrow> string \<Rightarrow> fields) \<Rightarrow> ('w \<Rightarrow> nat \<Rightarrow> rcmd list option) \<Rightarrow> bool" where
  "tx_server x content q \<longleftrightarrow> server_multi x content q \<and> server_queue x content q \<and> server_exec x content q"

lemma tx_server_multi:
  "tx_server x content q \<Longrightarrow> x_do x w c cMULTI = (w', r) \<Longrightarrow>
      content w' = content w \<and> (\<forall>v. r = Inr v \<longrightarrow> q w' c = Some [])"
  by (simp add: tx_server_def server_multi_def)

lemma tx_server_queue:
  "tx_server x content q \<Longrightarrow> q w c = Some l \<Longrightarrow> queueable k \<Longrightarrow> x_do x w c k = (w', r) \<Longrightarrow>
      content w' = content w \<and> (\<forall>v. r = Inr v \<longrightarrow> q w' c = Some (l @ [k]))"
  by (simp add: tx_server_def server_queue_def)

lemma tx_server_exec:
  "tx_server x content q \<Longrightarrow> q w c = Some l \<Longrightarrow> x_do x w c cEXEC = (w', r) \<Longrightarrow>
      content w' = (case r of Inl _ \<Rightarrow> content w | Inr _ \<Rightarrow> fold exec_cmd l (content w))"
  by (simp add: tx_server_def server_exec_def)

lemma do_cmd_frame:
  assumes "do_cmd x k s = (e, s')"
  shows "db s' = db s" "savePoint s' = savePoint s" "sInfo s' = sInfo s" "notifs s' = notifs s"
    "cdbLock s' = cdbLock s"
  using assms by (auto simp: do_cmd_def split: prod.splits sum.splits)

lemma do_cmd_queue:
  assumes "tx_server x content q" "do_cmd x k s = (e, s')" "queueable k"
    "q (world s) (client_of (db s)) = Some l"
  shows "content (world s') = content (world s)"
    "e = None \<Longrightarrow> q (world s') (client_of (db s')) = Some (l @ [k])"
proof -
  obtain w' r where "x_do x (world s) (client_of (db s)) k = (w', r)" by (metis surj_pair)
  then show "content (world s') = content (world s)"
    "e = None \<Longrightarrow> q (world s') (client_of (db s')) = Some (l @ [k])"
    using assms(2) tx_server_queue[OF assms(1,4,3)] by (auto simp: do_cmd_def split: sum.splits)
qed

lemma do_cmd_multi:
  assumes "tx_server x content q" "do_cmd x cMULTI s = (e, s')"
  shows "content (world s') = content (world s)"
    "e = None \<Longrightarrow> q (world s') (client_of (db s')) = Some []"
proof -
  obtain w' r where "x_do x (world s) (client_of (db s)) cMULTI = (w', r)" by (metis surj_pair)
  then show "content (world s') = content (world s)"
    "e = None \<Longrightarrow> q (world s') (client_of (db s')) = Some []"
    using assms(2) tx_server_multi[OF assms(1)] by (auto simp: do_cmd_def split: sum.splits)
qed

lemma do_cmd_exec:
  assumes "tx_server x content q" "do_cmd x cEXEC s = (e, s')"
    "q (world s) (client_of (db s)) = Some l"
  shows "content (world s') = (if e = None then fold exec_cmd l (content (world s)) else content (world s))"
proof -
  obtain w' r where "x_do x (world s) (client_of (db s)) cEXEC = (w', r)" by (metis surj_pair)
  then show ?thesis using assms(2) tx_server_exec[OF assms(1,3)] by (auto simp: do_cmd_def split: sum.splits)
qed

lemma op_rcmd_queueable: "op_rcmd opts ts op key v = Some r \<Longrightarrow> queueable r"
  by (cases op) (auto simp: op_rcmd_def)

text \<open>The queue after the commands of the transaction: exactly these, in order.\<close>

lemma send_cmds_queue:
  assumes "tx_server x content q" "send_cmds x cs m s = ((e, m'), s')"
    "q (world s) (client_of (db s)) = Some l"
  shows "content (world s') = content (world s) \<and> db s' = db s \<and>
    (e = None \<longrightarrow> (\<exists>rs. q (world s') (client_of (db s')) = Some (l @ rs) \<and>
        fold exec_cmd rs = fold (exec_tx (Opts (db s))) cs))"
  using assms(2,3)
proof (induction cs arbitrary: m s l)
  case Nil
  then show ?case by (auto intro: exI[of _ "[]"])
next
  case (Cons c cs)
  show ?case
  proof (cases "op_rcmd (Opts (db s)) (tc_ts c) (tc_op c) (tc_key c) (tc_value c)")
    case None
    then show ?thesis using Cons.prems by auto
  next
    case (Some r)
    obtain e1 s1 where d: "do_cmd x r s = (e1, s1)" by (cases "do_cmd x r s")
    note q1 = do_cmd_queue[OF assms(1) d op_rcmd_queueable[OF Some] Cons.prems(2)]
    have db1: "db s1 = db s" using do_cmd_frame[OF d] by simp
    show ?thesis
    proof (cases e1)
      case None
      have ih: "content (world s') = content (world s1) \<and> db s' = db s1 \<and>
          (e = None \<longrightarrow> (\<exists>rs. q (world s') (client_of (db s')) = Some ((l @ [r]) @ rs) \<and>
            fold exec_cmd rs = fold (exec_tx (Opts (db s1))) cs))"
        using Cons.prems(1) Some d None by (intro Cons.IH[OF _ q1(2)[OF None]]) simp
      have ex: "exec_tx (Opts (db s)) c = exec_cmd r" using Some by (simp add: exec_tx_def)
      show ?thesis
      proof (intro conjI impI)
        assume "e = None"
        then obtain rs where rs: "q (world s') (client_of (db s')) = Some ((l @ [r]) @ rs)"
          "fold exec_cmd rs = fold (exec_tx (Opts (db s1))) cs"
          using ih by blast
        then show "\<exists>rs. q (world s') (client_of (db s')) = Some (l @ rs) \<and>
            fold exec_cmd rs = fold (exec_tx (Opts (db s))) (c # cs)"
          using ex db1 by (intro exI[of _ "r # rs"]) simp
      qed (use ih db1 q1(1) in auto)
    next
      case (Some err)
      then show ?thesis
        using Cons.prems(1) \<open>op_rcmd _ _ _ _ _ = _\<close> d db1 q1(1) by auto
    qed
  qed
qed

text \<open>The names of the update marks.\<close>

definition is_mark :: "string \<Rightarrow> bool" where
  "is_mark k \<longleftrightarrow> strHasPrefix k ''CONFIG_DB_UPDATED''"

lemma strHasPrefix_append [simp]: "strHasPrefix (p @ s) p"
  by (induction p) (auto simp: strHasPrefix_def)

lemma is_mark_ts2redisUpdated: "is_mark (ts2redisUpdated ts)"
proof (cases "strContains (tsName ts) ''*''")
  case True
  have "strHasPrefix (''CONFIG_DB_UPDATED'' @ []) ''CONFIG_DB_UPDATED''" by (rule strHasPrefix_append)
  then show ?thesis using True by (simp only: is_mark_def ts2redisUpdated_def if_True append_Nil2)
next
  case False
  have "strHasPrefix (''CONFIG_DB_UPDATED'' @ (''_'' @ tsName ts)) ''CONFIG_DB_UPDATED''"
    by (rule strHasPrefix_append)
  then show ?thesis using False
    by (simp only: is_mark_def ts2redisUpdated_def if_False append.simps)
qed

lemma fold_set_mark:
  assumes "\<And>b k. \<not> is_mark k \<Longrightarrow> fold exec_cmd rs b k = b k" "is_mark m"
  shows "\<not> is_mark k \<Longrightarrow> fold exec_cmd (cSET m v # rs) b k = b k"
  using assms by auto

lemma flag_tables_queue:
  assumes "tx_server x content q" "flag_tables x tss s = (e, s')"
    "q (world s) (client_of (db s)) = Some l"
  shows "content (world s') = content (world s) \<and> db s' = db s \<and>
    (e = None \<longrightarrow> (\<exists>rs. q (world s') (client_of (db s')) = Some (l @ rs) \<and>
        (\<forall>b k. \<not> is_mark k \<longrightarrow> fold exec_cmd rs b k = b k)))"
  using assms(2,3)
proof (induction tss arbitrary: s l)
  case Nil
  then show ?case by (auto intro: exI[of _ "[]"])
next
  case (Cons ts tss)
  let ?r = "cSET (ts2redisUpdated ts) ''1''"
  obtain e1 s1 where d: "do_cmd x ?r s = (e1, s1)" by (cases "do_cmd x ?r s")
  note q1 = do_cmd_queue[OF assms(1) d _ Cons.prems(2)]
  have db1: "db s1 = db s" using do_cmd_frame[OF d] by simp
  show ?case
  proof (cases e1)
    case None
    have ih: "content (world s') = content (world s1) \<and> db s' = db s1 \<and>
          (e = None \<longrightarrow> (\<exists>rs. q (world s') (client_of (db s')) = Some ((l @ [?r]) @ rs) \<and>
            (\<forall>b k. \<not> is_mark k \<longrightarrow> fold exec_cmd rs b k = b k)))"
    proof (rule Cons.IH)
      show "flag_tables x tss s1 = (e, s')" using Cons.prems(1) d None by simp
      show "q (world s1) (client_of (db s1)) = Some (l @ [?r])" using q1(2)[OF _ None] by simp
    qed
    show ?thesis
    proof (intro conjI impI)
      assume "e = None"
      then obtain rs where rs: "q (world s') (client_of (db s')) = Some ((l @ [?r]) @ rs)"
        "\<And>b k. \<not> is_mark k \<Longrightarrow> fold exec_cmd rs b k = b k"
        using ih by blast
      then show "\<exists>rs. q (world s') (client_of (db s')) = Some (l @ rs) \<and>
          (\<forall>b k. \<not> is_mark k \<longrightarrow> fold exec_cmd rs b k = b k)"
        using fold_set_mark[OF rs(2) is_mark_ts2redisUpdated] by (intro exI[of _ "?r # rs"]) simp
    qed (use ih db1 q1(1) in auto)
  next
    case (Some err)
    then show ?thesis using Cons.prems(1) d db1 q1(1) by auto
  qed
qed

lemma markConfigDBUpdated_do: "markConfigDBUpdated x s =
    do_cmd x (cSET (ts2redisUpdated (tspec ''*'')) (x_unixnano x (world s))) s"
  by (simp add: markConfigDBUpdated_def do_cmd_def)

text \<open>All or nothing.\<close>

lemma commit_body_content:
  assumes "tx_server x content q" "commit_body x s = (e, s')"
  shows "db s' = db s"
    "e \<noteq> None \<Longrightarrow> content (world s') = content (world s)"
    "e = None \<Longrightarrow> \<not> is_mark k \<Longrightarrow>
       content (world s') k = fold (exec_tx (Opts (db s))) (txCmds (db s)) (content (world s)) k"
proof -
  obtain e1 s1 where c1: "do_cmd x cMULTI s = (e1, s1)" by (cases "do_cmd x cMULTI s")
  have d1: "db s1 = db s" using do_cmd_frame[OF c1] by simp
  note q1 = do_cmd_multi[OF assms(1) c1]
  have all: "db s' = db s \<and> (e \<noteq> None \<longrightarrow> content (world s') = content (world s)) \<and>
    (e = None \<longrightarrow> (\<forall>k. \<not> is_mark k \<longrightarrow>
       content (world s') k = fold (exec_tx (Opts (db s))) (txCmds (db s)) (content (world s)) k))"
  proof (cases e1)
    case (Some err)
    then show ?thesis using assms(2) c1 d1 q1(1) by (auto simp: commit_body_def)
  next
    case n1: None
    obtain e2 m s2 where c2: "send_cmds x (txCmds (db s1)) [] s1 = ((e2, m), s2)" by (metis surj_pair)
    note q2 = send_cmds_queue[OF assms(1) c2 q1(2)[OF n1]]
    show ?thesis
    proof (cases e2)
      case (Some err)
      then show ?thesis using assms(2) c1 n1 c2 d1 q1(1) q2 by (auto simp: commit_body_def)
    next
      case n2: None
      obtain rs where rs: "q (world s2) (client_of (db s2)) = Some rs"
        "fold exec_cmd rs = fold (exec_tx (Opts (db s))) (txCmds (db s))"
        using q2 n2 d1 by auto
      obtain e3 s3 where c3: "flag_tables x (gkeys m) s2 = (e3, s3)" by (metis surj_pair)
      note q3 = flag_tables_queue[OF assms(1) c3 rs(1)]
      show ?thesis
      proof (cases e3)
        case (Some err)
        then show ?thesis using assms(2) c1 n1 c2 n2 c3 d1 q1(1) q2 q3 by (auto simp: commit_body_def)
      next
        case n3: None
        obtain rs3 where rs3: "q (world s3) (client_of (db s3)) = Some (rs @ rs3)"
          "\<And>b k. \<not> is_mark k \<Longrightarrow> fold exec_cmd rs3 b k = b k"
          using q3 n3 by auto
        let ?r = "cSET (ts2redisUpdated (tspec ''*'')) (x_unixnano x (world s3))"
        obtain e4 s4 where c4: "do_cmd x ?r s3 = (e4, s4)" by (metis surj_pair)
        note q4 = do_cmd_queue[OF assms(1) c4 _ rs3(1)]
        have d4: "db s4 = db s3" using do_cmd_frame[OF c4] by simp
        show ?thesis
        proof (cases e4)
          case (Some err)
          then show ?thesis using assms(2) c1 n1 c2 n2 c3 n3 c4 d1 q1(1) q2 q3 q4(1) d4
            by (auto simp: commit_body_def markConfigDBUpdated_do)
        next
          case n4: None
          obtain e5 s5 where c5: "do_cmd x cEXEC s4 = (e5, s5)" by (metis surj_pair)
          have d5: "db s5 = db s4" using do_cmd_frame[OF c5] by simp
          have q5: "content (world s5) =
              (if e5 = None then fold exec_cmd ((rs @ rs3) @ [?r]) (content (world s4)) else content (world s4))"
            by (rule do_cmd_exec[OF assms(1) c5 q4(2)]) (simp_all add: n4)
          have "s' = s5" "e = None \<longleftrightarrow> e5 = None"
            using assms(2) c1 n1 c2 n2 c3 n3 c4 n4 c5
            by (auto simp: commit_body_def markConfigDBUpdated_do split: option.splits)
          then show ?thesis
            using d1 q1(1) q2 q3 q4(1) d4 d5 q5 rs(2) rs3(2) is_mark_ts2redisUpdated[of "tspec ''*''"]
            by (auto)
        qed
      qed
    qed
  qed
  show "db s' = db s"
    "e \<noteq> None \<Longrightarrow> content (world s') = content (world s)"
    "e = None \<Longrightarrow> \<not> is_mark k \<Longrightarrow>
       content (world s') k = fold (exec_tx (Opts (db s))) (txCmds (db s)) (content (world s)) k"
    using all by blast+
qed

section \<open>Transactions as a whole\<close>

lemma tx_close_db:
  "db (tx_close x s) = (db s)\<lparr>tx_state := txStateNone, txCmds := [], cvlEditConfigData := [],
     txTsEntryMap := [], txTsEntryHGetAll := [], db_cv := None\<rparr>"
  by (simp add: tx_close_def Let_def split: option.split)

lemma tx_close_content: "redis_server x content \<Longrightarrow> content (world (tx_close x s)) = content (world s)"
  by (simp add: tx_close_def Let_def redis_serverD split: option.split)

lemma commitTx_body:
  assumes "in_tx (db s)" "db_err (db s) = None"
  shows "commitTx x s = (fst (commit_body x s), tx_close x (snd (commit_body x s)))"
  using assms by (auto simp: commitTx_def Let_def in_tx_def tx_state_error_def split: prod.split)

lemma commitTx_content:
  assumes "redis_server x content" "tx_server x content q" "in_tx (db s)" "db_err (db s) = None"
    and "commitTx x s = (e, s')"
  shows "e \<noteq> None \<Longrightarrow> content (world s') = content (world s)"
    "e = None \<Longrightarrow> \<not> is_mark k \<Longrightarrow>
       content (world s') k = fold (exec_tx (Opts (db s))) (txCmds (db s)) (content (world s)) k"
proof -
  obtain e1 s1 where b: "commit_body x s = (e1, s1)" by (metis surj_pair)
  have "e = e1" "content (world s') = content (world s1)"
    using assms(5) by (auto simp: commitTx_body[OF assms(3,4)] b tx_close_content[OF assms(1)])
  then show "e \<noteq> None \<Longrightarrow> content (world s') = content (world s)"
    "e = None \<Longrightarrow> \<not> is_mark k \<Longrightarrow>
       content (world s') k = fold (exec_tx (Opts (db s))) (txCmds (db s)) (content (world s)) k"
    using commit_body_content[OF assms(2) b] by auto
qed

text \<open>Each redis key is written through one table.\<close>

definition one_table :: "Options \<Rightarrow> txCmd list \<Rightarrow> bool" where
  "one_table opts cs \<longleftrightarrow>
     (\<forall>c \<in> set cs. \<forall>c' \<in> set cs. cmd_rk opts c = cmd_rk opts c' \<longrightarrow> tsName (tc_ts c) = tsName (tc_ts c'))"

lemma one_table_wf:
  assumes "\<forall>c \<in> set cs. wf_key (opts, tc_ts c) (tc_key c)"
  shows "one_table opts cs"
  unfolding one_table_def
proof (intro ballI impI)
  fix c c'
  assume "c \<in> set cs" "c' \<in> set cs" "cmd_rk opts c = cmd_rk opts c'"
  then show "tsName (tc_ts c) = tsName (tc_ts c')"
    using assms by (intro key2redis_table_inj[of opts "tc_ts c" "tc_key c" "tc_ts c'" "tc_key c'"]) auto
qed

lemma view_of_empty: "txTsEntryMap d = [] \<Longrightarrow> view b d = (\<lambda>t. b)"
  by (intro ext) (simp add: view_def tx_get_def)

text \<open>
  Reading inside of a transaction that began empty gives what a commit of the queue would
  give.
\<close>

lemma run_view:
  assumes "tx_inv x content base opts s" "txCmds (db s) = []" "txTsEntryMap (db s) = []"
  shows "tview content (fold (apply_edit x) es s) =
     fold (tsem opts) (txCmds (db (fold (apply_edit x) es s))) (\<lambda>t. base)"
    "tx_inv x content base opts (fold (apply_edit x) es s)"
proof -
  have "tview content s = (\<lambda>t. base)"
    using assms by (simp add: tview_def view_of_empty tx_inv_def)
  then show "tview content (fold (apply_edit x) es s) =
     fold (tsem opts) (txCmds (db (fold (apply_edit x) es s))) (\<lambda>t. base)"
    using txs.run_from_empty[OF assms(1,2)] by simp
  show "tx_inv x content base opts (fold (apply_edit x) es s)"
    by (rule txs.run_inv[OF assms(1)])
qed

lemma fold_tsem_other:
  assumes "\<forall>c \<in> set cs. cmd_rk opts c = k \<longrightarrow> tsName (tc_ts c) \<noteq> t"
  shows "fold (tsem opts) cs v t k = v t k"
  using assms
proof (induction cs arbitrary: v)
  case (Cons c cs)
  have "tsem opts c v t k = v t k"
    using Cons.prems by (cases "tsName (tc_ts c) = t") (auto simp: tsem_def exec_tx_other)
  then show ?case using Cons by simp
qed simp

section \<open>What each operation does to its entry\<close>

definition tview_upd ::
  "string \<Rightarrow> string \<Rightarrow> (fields \<Rightarrow> fields) \<Rightarrow> (string \<Rightarrow> string \<Rightarrow> fields) \<Rightarrow> (string \<Rightarrow> string \<Rightarrow> fields)" where
  "tview_upd t k f v = v(t := (v t)(k := f (v t k)))"

lemma tview_upd_at [simp]: "tview_upd t k f v t k = f (v t k)"
  by (simp add: tview_upd_def)

lemma tview_upd_other: "t' \<noteq> t \<or> k' \<noteq> k \<Longrightarrow> tview_upd t k f v t' k' = v t' k'"
  by (auto simp: tview_upd_def)

lemma tsem_upd:
  "tsem opts \<lparr>tc_ts = ts, tc_op = txOpHMSet, tc_key = key, tc_value = v\<rparr> w =
     tview_upd (tsName ts) (key2redis opts ts key) (gset_all (Flds v)) w"
  "tsem opts \<lparr>tc_ts = ts, tc_op = txOpHDel, tc_key = key, tc_value = v\<rparr> w =
     tview_upd (tsName ts) (key2redis opts ts key) (gdel_all (gkeys (Flds v))) w"
  "tsem opts \<lparr>tc_ts = ts, tc_op = txOpDel, tc_key = key, tc_value = v\<rparr> w =
     tview_upd (tsName ts) (key2redis opts ts key) (\<lambda>_. []) w"
  by (simp_all add: tsem_def exec_tx_set tview_upd_def)

lemma doCVL_view:
  assumes "redis_server x content" "doCVL x ts ops key vals s = (e, s')"
  shows "tview content s' = tview content s" "Opts (db s') = Opts (db s)" "in_tx (db s) \<Longrightarrow> in_tx (db s')"
proof -
  have "txTsEntryMap (db s') = txTsEntryMap (db s)" "content (world s') = content (world s)"
    using assms(2) redis_server_E(4)[OF assms(1)]
    by (auto simp: doCVL_def Let_def split: if_splits prod.splits option.splits)
  then show "tview content s' = tview content s" by (auto simp: tview_def intro: view_cong)
  show "Opts (db s') = Opts (db s)" "in_tx (db s) \<Longrightarrow> in_tx (db s')"
    using doCVL_step[OF assms] by (auto simp: tx_step_def)
qed

lemma doCVL_doWrite_ok:
  assumes "redis_server x content" "in_tx (db s)"
    and "(case doCVL x ts ops key vals s of (Some e, s1) \<Rightarrow> (Some e, s1)
          | (None, s1) \<Rightarrow> doWrite x ts op key' val s1) = (None, s')"
  shows "tview content s' =
     tsem (Opts (db s)) \<lparr>tc_ts = ts, tc_op = op, tc_key = key', tc_value = Value_Copy val\<rparr> (tview content s)"
proof -
  obtain e1 s1 where c: "doCVL x ts ops key vals s = (e1, s1)" by (cases "doCVL x ts ops key vals s")
  note v = doCVL_view[OF assms(1) c]
  have "doWrite x ts op key' val s1 = (None, s')" using assms(3) c by (auto split: option.splits)
  from doWrite_ok[OF assms(1) v(3)[OF assms(2)] this] v show ?thesis by simp
qed

lemma DeleteEntry_ok:
  assumes "redis_server x content" "in_tx (db s)" "DeleteEntry x ts key s = (None, s')"
  shows "tview content s' = tview_upd (tsName ts) (key2redis (Opts (db s)) ts key) (\<lambda>_. []) (tview content s)"
  using assms(3) doCVL_doWrite_ok[OF assms(1,2)]
  by (auto simp: DeleteEntry_def tsem_upd split: if_splits)

lemma ModEntry_ok:
  assumes "redis_server x content" "in_tx (db s)" "ModEntry x ts key v s = (None, s')" "Flds v \<noteq> []"
  shows "tview content s' = tview_upd (tsName ts) (key2redis (Opts (db s)) ts key)
     (gset_all (Flds (Value_Copy v))) (tview content s)"
  using assms(3,4) doCVL_doWrite_ok[OF assms(1,2)]
  by (auto simp: ModEntry_def tsem_upd split: if_splits)

lemma DeleteEntryFields_ok:
  assumes "redis_server x content" "in_tx (db s)" "DeleteEntryFields x ts key v s = (None, s')"
  shows "tview content s' = tview_upd (tsName ts) (key2redis (Opts (db s)) ts key)
     (gdel_all (gkeys (Flds (Value_Copy v)))) (tview content s)"
  using assms(3) doCVL_doWrite_ok[OF assms(1,2)]
  by (auto simp: DeleteEntryFields_def tsem_upd split: if_splits)

lemma complement_spec:
  "gget (complement cur v acc) f \<noteq> None \<longleftrightarrow> gget acc f \<noteq> None \<or> gget cur f \<noteq> None \<and> gget v f = None"
  by (induction cur v acc rule: complement.induct) (auto simp: ghas_def)

lemma gok_complement: "gok acc \<Longrightarrow> gok (complement cur v acc)"
  by (induction cur v acc rule: complement.induct) auto

lemma two_writes_ok:
  assumes "redis_server x content" "in_tx (db s)"
    and "(case doWrite x ts txOpHMSet key val s of (Some e, s3) \<Rightarrow> (Some e, s3)
          | (None, s3) \<Rightarrow> if b then doWrite x ts txOpHDel key val' s3 else (None, s3)) = (None, s')"
  shows "tview content s' = tview_upd (tsName ts) (key2redis (Opts (db s)) ts key)
     (\<lambda>cur. (if b then gdel_all (gkeys (Flds (Value_Copy val'))) else (\<lambda>m. m))
        (gset_all (Flds (Value_Copy val)) cur)) (tview content s)"
proof -
  obtain e1 s1 where c: "doWrite x ts txOpHMSet key val s = (e1, s1)" by (cases "doWrite x ts txOpHMSet key val s")
  have e1: "e1 = None" using assms(3) c by (auto split: option.splits)
  have v1: "tview content s1 = tview_upd (tsName ts) (key2redis (Opts (db s)) ts key)
      (gset_all (Flds (Value_Copy val))) (tview content s)"
    using doWrite_ok[OF assms(1,2) c[unfolded e1]] by (simp add: tsem_upd)
  have st: "in_tx (db s1)" "Opts (db s1) = Opts (db s)"
    using doWrite_step[OF assms(1,2) c] assms(2) by (auto simp: tx_step_def)
  show ?thesis
  proof (cases b)
    case True
    then have "doWrite x ts txOpHDel key val' s1 = (None, s')" using assms(3) c e1 by simp
    from doWrite_ok[OF assms(1) st(1) this] v1 st(2) True show ?thesis
      by (simp add: tsem_upd tview_upd_def)
  next
    case False
    then show ?thesis using assms(3) c e1 v1 by simp
  qed
qed

text \<open>\<open>SetEntry\<close> makes the entry equal to the value.\<close>

lemma GetEntry_tview:
  assumes "redis_server x content" "IsOpen (db s)" "\<not> use_cache (db s) (tsName ts)"
    "txok (txTsEntryMap (db s))"
  shows "fst (GetEntry x ts key s) =
     (let v = tview content s (tsName ts) (key2redis (Opts (db s)) ts key) in
      (\<lparr>Flds = v\<rparr>, if v = [] then Some (TranslibRedisClientEntryNotExist (key2redis (Opts (db s)) ts key)) else None))"
  using assms getEntry_view[of x s ts key "content (world s)" False]
  by (simp add: GetEntry_def redis_serverD[OF assms(1)] tview_def)

lemma gget_set_then_delete:
  assumes "gok v" "\<And>f. gget c f \<noteq> None \<longleftrightarrow> gget cur f \<noteq> None \<and> gget v f = None"
  shows "gget (gdel_all (gkeys c) (gset_all v cur)) f = gget v f"
  using assms(2)[of f] by (auto simp: gget_gset_all[OF assms(1)] in_gkeys split: option.split)

lemma SetEntry_ok:
  assumes "redis_server x content" "in_tx (db s)" "SetEntry x ts key v s = (None, s')"
    "Flds v \<noteq> []" "gok (Flds v)" "\<not> use_cache (db s) (tsName ts)" "txok (txTsEntryMap (db s))"
  shows "\<exists>g. tview content s' = tview_upd (tsName ts) (key2redis (Opts (db s)) ts key) g (tview content s) \<and>
     (\<forall>f. gget (g (tview content s (tsName ts) (key2redis (Opts (db s)) ts key))) f = gget (Flds v) f)"
proof -
  let ?k = "key2redis (Opts (db s)) ts key"
  let ?cur = "tview content s (tsName ts) ?k"
  have o: "IsOpen (db s)" and se: "setEntry x ts key v False s = (None, s')"
    using assms(3) by (auto simp: SetEntry_def split: if_splits)
  obtain r s1 where g: "GetEntry x ts key s = (r, s1)" by (metis surj_pair)
  have r: "r = (\<lparr>Flds = ?cur\<rparr>, if ?cur = [] then Some (TranslibRedisClientEntryNotExist ?k) else None)"
    using GetEntry_tview[OF assms(1) o assms(6,7), of key] g by (simp add: Let_def)
  have st: "tx_step content s s1" using GetEntry_step[OF g] .
  have s1: "tview content s1 = tview content s" "Opts (db s1) = Opts (db s)" "in_tx (db s1)"
  proof -
    have "same_tx (db s) (db s1)" "same_pkg s s1"
      using GetEntry_same[where x = x and ts = ts and key = key and s = s] g by simp_all
    then show "tview content s1 = tview content s" "Opts (db s1) = Opts (db s)"
      by (auto simp: tview_def same_tx_def same_pkg_def intro: view_cong)
    show "in_tx (db s1)" by (rule tx_step_in_tx[OF st assms(2)])
  qed
  define comp where "comp = (if ?cur = [] then [] else complement ?cur (Flds v) [])"
  obtain ops vals where "(case doCVL x ts ops key vals s1 of (Some e, s2) \<Rightarrow> (Some e, s2)
      | (None, s2) \<Rightarrow>
         (case doWrite x ts txOpHMSet key v s2 of (Some e, s3) \<Rightarrow> (Some e, s3)
          | (None, s3) \<Rightarrow> if length comp \<noteq> 0 then doWrite x ts txOpHDel key \<lparr>Flds = comp\<rparr> s3 else (None, s3)))
      = (None, s')"
  proof (cases "?cur = []")
    case True
    then have c0: "comp = []" by (simp add: comp_def)
    show ?thesis using True se assms(4) g r that[unfolded c0, of "[OP_CREATE]" "[v]"]
      by (simp add: setEntry_def)
  next
    case False
    then have c: "complement ?cur (Flds v) [] = comp" by (simp add: comp_def)
    show ?thesis
    proof (cases "comp = []")
      case c0: True
      show ?thesis using False c[unfolded c0] se assms(4) g r that[unfolded c0, of "[OP_UPDATE]" "[v]"]
        by (simp add: setEntry_def)
    next
      case n: False
      then show ?thesis using False c se assms(4) g r that[of "[OP_UPDATE, OP_DELETE]" "[v, \<lparr>Flds = comp\<rparr>]"]
        by (simp add: setEntry_def)
    qed
  qed
  then obtain s2 where s2: "doCVL x ts ops key vals s1 = (None, s2)"
    "(case doWrite x ts txOpHMSet key v s2 of (Some e, s3) \<Rightarrow> (Some e, s3)
          | (None, s3) \<Rightarrow> if length comp \<noteq> 0 then doWrite x ts txOpHDel key \<lparr>Flds = comp\<rparr> s3 else (None, s3))
      = (None, s')"
    by (cases "doCVL x ts ops key vals s1") (auto split: option.splits)
  note v2 = doCVL_view[OF assms(1) s2(1)]
  let ?g = "\<lambda>cur. (if length comp \<noteq> 0 then gdel_all (gkeys (Flds (Value_Copy \<lparr>Flds = comp\<rparr>))) else (\<lambda>m. m))
      (gset_all (Flds (Value_Copy v)) cur)"
  have "tview content s' = tview_upd (tsName ts) ?k ?g (tview content s)"
    using two_writes_ok[OF assms(1) v2(3)[OF s1(3)] s2(2)] v2(1,2) s1 by simp
  moreover have "gget (?g ?cur) f = gget (Flds v) f" for f
  proof -
    have c: "gget comp f \<noteq> None \<longleftrightarrow> gget ?cur f \<noteq> None \<and> gget (Flds v) f = None" for f
      using complement_spec[of ?cur "Flds v" "[]" f] by (simp add: comp_def)
    have gc: "Value_Copy \<lparr>Flds = comp\<rparr> = \<lparr>Flds = comp\<rparr>" "Value_Copy v = v"
      using assms(5) by (simp_all add: Value_Copy_ok comp_def gok_complement)
    have "gget (gdel_all (gkeys comp) (gset_all (Flds v) ?cur)) f = gget (Flds v) f"
      by (rule gget_set_then_delete[OF assms(5) c])
    then show ?thesis by (cases "comp = []") (simp_all add: gc gkeys_def)
  qed
  ultimately show ?thesis by blast
qed

end
