(* ===== verification/DB_Memory.thy ===== *)
theory DB_Memory
  imports DB_TxView
begin

text \<open>
  A concrete server, in memory: a map from keys to hashes and the queue of a transaction.
  It shows that the hypotheses on the redis server can hold, and runs the examples.
\<close>

type_synonym mem = "(string, fields) gomap \<times> rcmd list option"

definition mcontent :: "mem \<Rightarrow> string \<Rightarrow> fields" where
  "mcontent w k = (case gget (fst w) k of None \<Rightarrow> [] | Some f \<Rightarrow> f)"

fun mexec :: "rcmd \<Rightarrow> (string, fields) gomap \<Rightarrow> (string, fields) gomap" where
  "mexec (cHMSET k fs) m = gset k (gset_all fs (case gget m k of None \<Rightarrow> [] | Some f \<Rightarrow> f)) m"
| "mexec (cHDEL k fs) m = gset k (gdel_all fs (case gget m k of None \<Rightarrow> [] | Some f \<Rightarrow> f)) m"
| "mexec (cDEL k) m = gdel k m"
| "mexec (cSET k v) m = gdel k m"
| "mexec _ m = m"

fun mem_do :: "mem \<Rightarrow> nat \<Rightarrow> rcmd \<Rightarrow> mem \<times> (goerr + reply)" where
  "mem_do (m, q) c cMULTI = ((m, Some []), Inr ROther)"
| "mem_do (m, q) c cEXEC =
     (case q of
        None \<Rightarrow> ((m, q), Inl (RedisError ''ERR EXEC without MULTI''))
      | Some l \<Rightarrow> ((fold mexec l m, None), Inr ROther))"
| "mem_do (m, q) c (cHSETNX k f v) = ((m, q), Inr (RInt 1))"
| "mem_do (m, q) c r =
     (if queueable r then
        (case q of None \<Rightarrow> ((mexec r m, None), Inr ROther) | Some l \<Rightarrow> ((m, Some (l @ [r])), Inr ROther))
      else ((m, q), Inr ROther))"

definition mem_server :: "mem ext" where
  "mem_server =
     \<lparr>x_do = mem_do, x_hgetall = (\<lambda>w c k. Inr (mcontent w k)),
      x_keys = (\<lambda>w c p. Inr (filter (\<lambda>k. patternMatch k 0 p 0) (gkeys (filter (\<lambda>(k, f). f \<noteq> []) (fst w))))),
      x_hget = (\<lambda>w c k f. case gget (mcontent w k) f of None \<Rightarrow> Inl redis_Nil | Some v \<Rightarrow> Inr v),
      x_get = (\<lambda>w c k. Inl redis_Nil), x_client = (\<lambda>w d b. (w, Some 0)),
      x_close = (\<lambda>w c. (w, None)), x_cvl_open = (\<lambda>w d. (w, Inr 0)),
      x_cvl_close = (\<lambda>w c. (w, 0)), x_cvl_validate = (\<lambda>w d c e. (w, 0, [])),
      x_execName = ''mgmt'', x_dur = (\<lambda>w. 1), x_unixnano = (\<lambda>w. ''1'')\<rparr>"

lemma mexec_content: "mcontent (mexec r m, q) = exec_cmd r (mcontent (m, q'))"
  by (cases r) (auto simp: mcontent_def fun_eq_iff)

lemma fold_mexec_content: "mcontent (fold mexec l m, q) = fold exec_cmd l (mcontent (m, q'))"
proof (induction l arbitrary: m)
  case Nil
  then show ?case by (simp add: mcontent_def fun_eq_iff)
next
  case (Cons r l)
  then show ?case using mexec_content[of r m q' q'] by simp
qed

lemma mcontent_queue: "mcontent (m, q) = mcontent (m, q')"
  by (simp add: mcontent_def fun_eq_iff)

lemma mem_redis: "redis_server mem_server mcontent"
  by (auto simp: redis_server_def mem_server_def)

lemma mem_queue_step: "queueable k \<Longrightarrow> mem_do (m, Some l) c k = ((m, Some (l @ [k])), Inr ROther)"
  by (cases k) auto

lemma mem_tx: "tx_server mem_server mcontent (\<lambda>w c. snd w)"
  unfolding tx_server_def
proof (intro conjI)
  show "server_multi mem_server mcontent (\<lambda>w c. snd w)"
    by (auto simp: server_multi_def mem_server_def intro: mcontent_queue)
  show "server_queue mem_server mcontent (\<lambda>w c. snd w)"
    by (auto simp: server_queue_def mem_server_def mem_queue_step intro: mcontent_queue)
  show "server_exec mem_server mcontent (\<lambda>w c. snd w)"
    by (auto simp: server_exec_def mem_server_def fold_mexec_content[where q' = "Some _"])
qed

text \<open>The same server when another client has changed a watched key: EXEC runs nothing.\<close>

definition mem_watched :: "mem ext" where
  "mem_watched = mem_server\<lparr>x_do := (\<lambda>(m, q) c r.
     if r = cEXEC then ((m, None), Inl (RedisError ''redis: transaction failed'')) else mem_do (m, q) c r)\<rparr>"

lemma mem_watched_redis: "redis_server mem_watched mcontent"
  by (auto simp: redis_server_def mem_watched_def mem_server_def)

lemma mem_watched_tx: "tx_server mem_watched mcontent (\<lambda>w c. snd w)"
  unfolding tx_server_def
proof (intro conjI)
  show "server_multi mem_watched mcontent (\<lambda>w c. snd w)"
    by (auto simp: server_multi_def mem_watched_def intro: mcontent_queue)
  show "server_queue mem_watched mcontent (\<lambda>w c. snd w)"
    by (auto simp: server_queue_def mem_watched_def mem_queue_step split: if_splits intro: mcontent_queue)
  show "server_exec mem_watched mcontent (\<lambda>w c. snd w)"
    by (auto simp: server_exec_def mem_watched_def intro: mcontent_queue)
qed

section \<open>A connection for the examples\<close>

definition ex_opts :: Options where
  "ex_opts = zeroOptions\<lparr>DBNo := ConfigDB, TableNameSeparator := ''|'', KeySeparator := ''|''\<rparr>"

definition ex_stats_cfg :: DBStatsConfig where
  "ex_stats_cfg = \<lparr>TimeStats = False, TableStats = False, MapStats = False\<rparr>"

definition ex_db :: "Options \<Rightarrow> DB" where
  "ex_db opts = newDB_object opts (Some 0) ex_stats_cfg zeroCacheConfig"

definition ex_global :: DBGlobalStats where
  "ex_global = \<lparr>gNew = 0, gDelete = 0, gPeakOpen = 0, gNewTime = 0, gNewPeak = 0, gZeroGetHits = 0,
     gDatabases = replicate 10 zeroDBStats\<rparr>"

definition ex_st :: "Options \<Rightarrow> 'w \<Rightarrow> 'w st" where
  "ex_st opts w = \<lparr>world = w, cdbLock = None, savePoint = None,
     sInfo = \<lparr>sDBs = [], table2sDBs = [], sdb_objs = []\<rparr>, notifs = [], dbGlobalStats = ex_global,
     db = ex_db opts\<rparr>"

definition ex_port :: TableSpec where "ex_port = tspec ''PORT''"

definition ex_key :: "string \<Rightarrow> Key" where "ex_key s = \<lparr>Comp = [s]\<rparr>"

definition ex_mem :: mem where
  "ex_mem = ([(''PORT|Ethernet0'', [(''mtu'', ''9100''), (''speed'', ''40000'')]),
              (''PORT|Ethernet4'', [(''mtu'', ''1500'')])], None)"

text \<open>A started transaction.\<close>

definition ex_tx :: "mem st" where
  "ex_tx = (ex_st ex_opts ex_mem)\<lparr>db := (ex_db ex_opts)\<lparr>tx_state := txStateWatch, db_cv := Some 0\<rparr>\<rparr>"

text \<open>The connection of a configuration session, with a started transaction.\<close>

definition ex_sess_opts :: Options where
  "ex_sess_opts = ex_opts\<lparr>IsSession := True\<rparr>"

definition ex_sess :: "mem st" where
  "ex_sess = (ex_st ex_sess_opts ex_mem)\<lparr>db := (ex_db ex_sess_opts)\<lparr>tx_state := txStateWatch, db_cv := Some 0\<rparr>\<rparr>"

end
