(* ===== verification/DB_Rollback.thy ===== *)
theory DB_Rollback
  imports DB_Memory
begin

text \<open>
  A rollback of a configuration session gives the transaction view of the savepoint back.

  The code rebuilds the transaction cache from the recorded HGETALL results and the
  recorded edits.  The lemmas relate the edits to the queued commands: after operations
  that succeed, both have the same meaning (\<open>sp_inv\<close>); after any operations, what
  the savepoint needs is still there (\<open>sp_grow\<close>).
\<close>

section \<open>Names that a rollback can decode\<close>

lemma cut_Some: "cut sep s = Some (a, b) \<Longrightarrow> s = a @ sep @ b"
proof (induction sep s arbitrary: a b rule: cut.induct)
  case (2 sep c s)
  then show ?case
    by (cases "strip_prefix sep (c # s)") (auto simp: strip_prefix_Some)
qed (simp split: if_splits)

declare splitN_pos_ne [simp]

lemma strJoin_splitN_pos: "strJoin (splitN_pos n sep s) sep = s"
proof (induction n sep s rule: splitN_pos.induct)
  case (2 n sep s)
  then show ?case
    by (auto simp: strJoin_Cons dest: cut_Some split: option.split)
qed simp

lemma strJoin_strSplit: "strJoin (strSplit s [c]) [c] = s"
  by (simp add: strSplit_def strJoin_splitN_pos)

definition wf_name :: "Options \<Rightarrow> TableSpec \<Rightarrow> Key \<Rightarrow> bool" where
  "wf_name opts ts key \<longleftrightarrow>
     (\<exists>c. KeySeparator opts = [c] \<and> TableNameSeparator opts = [c] \<and> c \<notin> set (tsName ts)) \<and>
     Comp key \<noteq> [] \<and> Comp key \<noteq> [[]]"

lemma redis2ts_key_name:
  assumes "wf_name opts ts key"
  shows "\<exists>key'. redis2ts_key opts (key2redis opts ts key) = Some (tspec (tsName ts), key') \<and>
    key2redis opts (tspec (tsName ts)) key' = key2redis opts ts key"
proof -
  obtain c where c: "KeySeparator opts = [c]" "TableNameSeparator opts = [c]" "c \<notin> set (tsName ts)"
    "Comp key \<noteq> []" "Comp key \<noteq> [[]]"
    using assms by (auto simp: wf_name_def)
  let ?j = "strJoin (Comp key) [c]"
  have k: "key2redis opts ts key = tsName ts @ c # ?j" by (rule key2redis_wf[OF c(1,4,5)])
  have "?j \<noteq> []" by (rule strJoin_ne[OF c(4,5)])
  then show ?thesis
    using c by (simp add: k redis2ts_key_def strSplitN_2 key2redis_def strJoin_strSplit)
qed

lemma redis2key_name:
  assumes "wf_name opts ts key"
  shows "redis2key opts (tspec (tsName ts)) (key2redis opts ts key) \<noteq> None"
  using assms by (auto simp: wf_name_def redis2key_def key2redis_wf strSplitN_2)

section \<open>The meaning of an edit\<close>

definition ce_tab :: "Options \<Rightarrow> CVLEditConfigData \<Rightarrow> string" where
  "ce_tab opts c = (case redis2ts_key opts (ceKey c) of None \<Rightarrow> [] | Some (ts, _) \<Rightarrow> tsName ts)"

definition edit_fun :: "CVLEditConfigData \<Rightarrow> fields \<Rightarrow> fields" where
  "edit_fun c cur =
     (case VOp c of
        OP_CREATE \<Rightarrow> gset_all (ceData c) cur
      | OP_UPDATE \<Rightarrow> gset_all (ceData c) cur
      | OP_DELETE \<Rightarrow> if ceData c = [] then [] else gdel_all (gkeys (ceData c)) cur
      | OP_NONE \<Rightarrow> cur)"

definition esem :: "Options \<Rightarrow> CVLEditConfigData \<Rightarrow> (string \<Rightarrow> string \<Rightarrow> fields) \<Rightarrow> (string \<Rightarrow> string \<Rightarrow> fields)" where
  "esem opts c = tview_upd (ce_tab opts c) (ceKey c) (edit_fun c)"

definition touches :: "Options \<Rightarrow> string \<Rightarrow> string \<Rightarrow> CVLEditConfigData \<Rightarrow> bool" where
  "touches opts t k c \<longleftrightarrow> ce_tab opts c = t \<and> ceKey c = k"

definition edit_ok :: "Options \<Rightarrow> CVLEditConfigData \<Rightarrow> bool" where
  "edit_ok opts c \<longleftrightarrow> (\<exists>ts key. redis2ts_key opts (ceKey c) = Some (ts, key) \<and> key2redis opts ts key = ceKey c)"

text \<open>The first edit of the entry empties it, whatever it held.\<close>

definition first_del :: "Options \<Rightarrow> string \<Rightarrow> string \<Rightarrow> CVLEditConfigData list \<Rightarrow> bool" where
  "first_del opts t k es =
     (case filter (touches opts t k) es of [] \<Rightarrow> False | c # _ \<Rightarrow> VOp c = OP_DELETE \<and> ceData c = [])"

lemma first_delI:
  "filter (touches opts t k) es = es' \<Longrightarrow> es' \<noteq> [] \<Longrightarrow> VOp (hd es') = OP_DELETE \<Longrightarrow>
     ceData (hd es') = [] \<Longrightarrow> first_del opts t k es"
  by (cases es') (simp_all add: first_del_def)

lemma esem_at: "esem opts c v t k = (if touches opts t k c then edit_fun c (v t k) else v t k)"
  by (auto simp: esem_def touches_def tview_upd_def)

lemma fold_esem_at:
  "fold (esem opts) es v t k = fold edit_fun (filter (touches opts t k) es) (v t k)"
  by (induction es arbitrary: v) (auto simp: esem_at)

lemma first_del_fold:
  assumes "first_del opts t k es"
  shows "fold (esem opts) es v t k = fold (esem opts) es v' t k"
proof -
  obtain c cs where c: "filter (touches opts t k) es = c # cs" "VOp c = OP_DELETE" "ceData c = []"
    using assms by (auto simp: first_del_def split: list.splits)
  then show ?thesis by (simp add: fold_esem_at edit_fun_def)
qed

lemma first_del_append:
  "filter (touches opts t k) es \<noteq> [] \<Longrightarrow> first_del opts t k (es @ es') = first_del opts t k es"
  by (cases "filter (touches opts t k) es") (simp_all add: first_del_def)

lemma touches_VType [simp]: "touches opts t k (c\<lparr>VType := b\<rparr>) = touches opts t k c"
  by (simp add: touches_def ce_tab_def)

lemma edit_fun_VType [simp]: "edit_fun (c\<lparr>VType := b\<rparr>) = edit_fun c"
  by (rule ext) (simp add: edit_fun_def split: CVLOperation.split)

lemma esem_VType [simp]: "esem opts (c\<lparr>VType := b\<rparr>) = esem opts c"
  by (rule ext) (simp add: esem_def ce_tab_def)

section \<open>Rebuilding the cache\<close>

definition mview :: "txCache \<Rightarrow> string \<Rightarrow> string \<Rightarrow> fields" where
  "mview m t k = (case tx_get m t k of None \<Rightarrow> [] | Some v \<Rightarrow> Flds v)"

lemma ghas_tx_put [simp]: "ghas (tx_put n k v m) t \<longleftrightarrow> t = n \<or> ghas m t"
  by (auto simp: tx_put_def ghas_def)

lemma gget_rb_clear: "gget (rb_clear m) t = map_option (\<lambda>_. []) (gget m t)"
  by (induction m) (auto simp: rb_clear_def)

lemma tx_get_rb_clear [simp]: "tx_get (rb_clear m) t k = None"
  by (simp add: tx_get_def gget_rb_clear split: option.split)

lemma ghas_rb_clear [simp]: "ghas (rb_clear m) t \<longleftrightarrow> ghas m t"
  by (simp add: ghas_def gget_rb_clear)

lemma tx_get_fill_table:
  assumes "gok tb"
  shows "tx_get (rb_fill_table tn tb m) t k =
     (if t = tn then (case gget tb k of Some v \<Rightarrow> Some (Value_Copy v) | None \<Rightarrow> tx_get m t k) else tx_get m t k)"
  using assms
proof (induction tn tb m rule: rb_fill_table.induct)
  case (2 tn k1 v tb m)
  then show ?case by (auto simp: in_gkeys split: option.split)
qed simp

lemma ghas_fill_table [simp]: "ghas (rb_fill_table tn tb m) t \<longleftrightarrow> ghas m t \<or> (t = tn \<and> tb \<noteq> [])"
  by (induction tn tb m rule: rb_fill_table.induct) auto

lemma rb_fill_ok:
  assumes "gok h" "\<forall>(tn, tb) \<in> set h. gok tb \<and> ghas m tn"
  shows "\<exists>m'. rb_fill h (m, h0) = Some (m', h0) \<and>
     (\<forall>t k. tx_get m' t k = (case tx_get h t k of Some v \<Rightarrow> Some (Value_Copy v) | None \<Rightarrow> tx_get m t k)) \<and>
     (\<forall>t. ghas m' t \<longleftrightarrow> ghas m t)"
  using assms
proof (induction h arbitrary: m)
  case Nil
  then show ?case by (simp add: tx_get_def)
next
  case (Cons p h)
  obtain tn tb where p: "p = (tn, tb)" by (cases p)
  let ?m1 = "rb_fill_table tn tb m"
  have gh: "ghas ?m1 t \<longleftrightarrow> ghas m t" for t using Cons.prems(2) by (auto simp: p)
  obtain m' where m': "rb_fill h (?m1, h0) = Some (m', h0)"
    "\<And>t k. tx_get m' t k = (case tx_get h t k of Some v \<Rightarrow> Some (Value_Copy v) | None \<Rightarrow> tx_get ?m1 t k)"
    "\<And>t. ghas m' t \<longleftrightarrow> ghas ?m1 t"
    using Cons.IH[of ?m1] Cons.prems gh by (fastforce simp: p)
  have "tn \<notin> set (gkeys h)" using Cons.prems(1) by (simp add: p)
  then have hn: "tx_get h tn k = None" for k by (simp add: in_gkeys tx_get_def)
  have ph: "tx_get (p # h) t k = (if t = tn then gget tb k else tx_get h t k)" for t k
    by (simp add: tx_get_def p)
  have "gok tb" using Cons.prems(2) by (simp add: p)
  then have "tx_get m' t k = (case tx_get (p # h) t k of Some v \<Rightarrow> Some (Value_Copy v) | None \<Rightarrow> tx_get m t k)" for t k
    using hn by (cases "t = tn") (auto simp: m'(2) ph tx_get_fill_table split: option.split)
  moreover have "rb_fill (p # h) (m, h0) = Some (m', h0)"
    using Cons.prems(2) m'(1) by (auto simp: p)
  ultimately show ?case using m'(3) gh by blast
qed

lemma rb_apply_ok:
  assumes "edit_ok opts c" "ghas m (ce_tab opts c)"
  shows "\<exists>m'. rb_apply opts c m = Some m' \<and> mview m' = esem opts c (mview m) \<and>
     (\<forall>t k. tx_get m' t k = None \<longleftrightarrow> tx_get m t k = None \<and> \<not> touches opts t k c) \<and>
     (\<forall>t. ghas m t \<longrightarrow> ghas m' t)"
proof -
  obtain ts key where r: "redis2ts_key opts (ceKey c) = Some (ts, key)" "key2redis opts ts key = ceKey c"
    using assms(1) by (auto simp: edit_ok_def)
  have t: "ce_tab opts c = tsName ts" by (simp add: ce_tab_def r)
  let ?rk = "key2redis opts ts key"
  let ?m' = "tx_put (tsName ts) ?rk \<lparr>Flds = edit_fun c (mview m (tsName ts) ?rk)\<rparr> m"
  have "rb_apply opts c m = Some ?m'"
    using assms(2) by (simp add: rb_apply_def r(1) t edit_fun_def mview_def Let_def)
  moreover have "mview ?m' = esem opts c (mview m)"
    by (intro ext) (auto simp: esem_at touches_def t r(2)[symmetric] mview_def)
  ultimately show ?thesis by (auto simp: touches_def t r(2))
qed

text \<open>
  The rebuilt cache has the meaning of the edits when each entry that they change was
  recorded or is emptied first.
\<close>

lemma rebuilt_view:
  assumes "\<And>t k. tx_get m t k = None \<longleftrightarrow> tx_get h t k = None \<and> filter (touches opts t k) es = []"
    and "mview m = fold (esem opts) es (\<lambda>t k. case tx_get h t k of None \<Rightarrow> [] | Some v \<Rightarrow> Flds v)"
    and "\<And>t k v. tx_get h t k = Some v \<Longrightarrow> Flds v = base k"
    and "\<And>t k. filter (touches opts t k) es \<noteq> [] \<Longrightarrow> tx_get h t k \<noteq> None \<or> first_del opts t k es"
    and "txTsEntryMap d = m"
  shows "view base d = fold (esem opts) es (\<lambda>t. base)"
proof (intro ext)
  fix t k
  show "view base d t k = fold (esem opts) es (\<lambda>t. base) t k"
  proof (cases "tx_get m t k")
    case None
    then have "filter (touches opts t k) es = []" using assms(1) by blast
    then show ?thesis using None by (simp add: view_def assms(5) fold_esem_at)
  next
    case (Some v)
    then have v: "view base d t k = mview m t k" by (simp add: view_def assms(5) mview_def)
    show ?thesis
    proof (cases "tx_get h t k")
      case (Some u)
      then show ?thesis using v assms(3)[OF Some] by (simp add: assms(2) fold_esem_at)
    next
      case None
      then have "filter (touches opts t k) es \<noteq> []" using Some assms(1) by force
      then have "first_del opts t k es" using assms(4) None by blast
      then show ?thesis unfolding v assms(2) by (rule first_del_fold)
    qed
  qed
qed

section \<open>One write inside of a savepoint\<close>

text \<open>The savepoint's record of original entries can be decoded.\<close>

definition orig_ok :: "Options \<Rightarrow> SavePoint \<Rightarrow> bool" where
  "orig_ok opts sp \<longleftrightarrow>
     (\<forall>(tn, tb) \<in> set (txTsOrigEntryMap sp). \<forall>k \<in> set (gkeys tb). redis2key opts (tspec tn) k \<noteq> None)"

lemma set_gset: "set (gset k v m) \<subseteq> insert (k, v) (set m)"
  by (induction m) (auto simp: gset_def)

lemma doTxSPsave_sp:
  assumes "savePoint s = Some sp" "orig_ok (Opts (db s)) sp" "wf_name (Opts (db s)) ts key"
  shows "\<exists>sp'. savePoint (doTxSPsave ts key s) = Some sp' \<and> txCmdsLen sp' = txCmdsLen sp \<and>
     cECDLen sp' = cECDLen sp \<and> orig_ok (Opts (db s)) sp'"
proof (cases "IsSession (Opts (db s))")
  case True
  let ?k = "key2redis (Opts (db s)) ts key"
  have k: "redis2key (Opts (db s)) (tspec (tsName ts)) ?k \<noteq> None" by (rule redis2key_name[OF assms(3)])
  define tbl where "tbl = (case gget (txTsOrigEntryMap sp) (tsName ts) of None \<Rightarrow> [] | Some t \<Rightarrow> t)"
  have tb: "redis2key (Opts (db s)) (tspec (tsName ts)) j \<noteq> None" if "j \<in> set (gkeys tbl)" for j
  proof -
    have "gget (txTsOrigEntryMap sp) (tsName ts) = Some tbl"
      using that by (cases "gget (txTsOrigEntryMap sp) (tsName ts)") (auto simp: tbl_def gkeys_def)
    then show ?thesis using assms(2) that gget_in_set by (fastforce simp: orig_ok_def)
  qed
  obtain tbl' where sp: "savePoint (doTxSPsave ts key s) =
      Some (sp\<lparr>txTsOrigEntryMap := gset (tsName ts) tbl' (txTsOrigEntryMap sp)\<rparr>)"
    and t': "set (gkeys tbl') \<subseteq> insert ?k (set (gkeys tbl))"
  proof -
    have "set (gkeys (gset ?k v tbl)) \<subseteq> insert ?k (set (gkeys tbl))" for v
      by (auto simp: set_gkeys)
    then show ?thesis using assms(1) True
      by (intro that[of "if ghas tbl ?k then tbl else gset ?k _ tbl"])
         (auto simp: doTxSPsave_def Let_def tbl_def[symmetric])
  qed
  have "orig_ok (Opts (db s)) (sp\<lparr>txTsOrigEntryMap := gset (tsName ts) tbl' (txTsOrigEntryMap sp)\<rparr>)"
    unfolding orig_ok_def
  proof (clarsimp)
    fix tn tb1 j
    assume m: "(tn, tb1) \<in> set (gset (tsName ts) tbl' (txTsOrigEntryMap sp))" "j \<in> set (gkeys tb1)"
    then consider "tn = tsName ts" "tb1 = tbl'" | "(tn, tb1) \<in> set (txTsOrigEntryMap sp)"
      using set_gset by fastforce
    then show "\<exists>y. redis2key (Opts (db s)) (tspec tn) j = Some y"
    proof cases
      case 1
      then have "j = ?k \<or> j \<in> set (gkeys tbl)" using m(2) t' by blast
      then show ?thesis using tb k 1 by blast
    next
      case 2
      then show ?thesis using assms(2) m(2) unfolding orig_ok_def by blast
    qed
  qed
  then show ?thesis using sp by simp
next
  case False
  then show ?thesis using assms by (simp add: doTxSPsave_def)
qed

text \<open>
  What a rollback needs of the present state: a session with its savepoint, recorded
  HGETALL results that are the content of redis, in tables that the cache has.
\<close>

definition sp_base :: "('w \<Rightarrow> string \<Rightarrow> fields) \<Rightarrow> SavePoint \<Rightarrow> 'w st \<Rightarrow> bool" where
  "sp_base content sp s \<longleftrightarrow>
     IsSession (Opts (db s)) \<and> in_tx (db s) \<and> \<not> DisableCVLCheck (Opts (db s)) \<and>
     (\<forall>k. gok (content (world s) k)) \<and>
     (\<exists>sp'. savePoint s = Some sp' \<and> txCmdsLen sp' = txCmdsLen sp \<and> cECDLen sp' = cECDLen sp \<and>
        orig_ok (Opts (db s)) sp') \<and>
     gok (txTsEntryHGetAll (db s)) \<and>
     (\<forall>(tn, tb) \<in> set (txTsEntryHGetAll (db s)). gok tb \<and> ghas (txTsEntryMap (db s)) tn) \<and>
     (\<forall>t k v. tx_get (txTsEntryHGetAll (db s)) t k = Some v \<longrightarrow> Flds v = content (world s) k)"

text \<open>A write in a session either stops before it changes anything, or does all of it.\<close>

lemma gok_tx_put: "gok m \<Longrightarrow> gok (tx_put t k v m)"
  by (simp add: tx_put_def)

lemma tx_put_tables:
  assumes "\<forall>(tn, tb) \<in> set m. gok tb \<and> P tn" "P t"
  shows "\<forall>(tn, tb) \<in> set (tx_put t k v m). gok tb \<and> P tn"
proof -
  have "gok (tx_table m t)"
    using assms(1) gget_in_set by (fastforce simp: tx_table_def split: option.split)
  then show ?thesis
    using assms set_gset[of t "gset k v (tx_table m t)" m] by (fastforce simp: tx_put_def)
qed

lemma doWrite_session:
  assumes "IsSession (Opts (db s))" "in_tx (db s)" "doWrite x ts op key val s = (e, s')" "op \<noteq> txOpNone"
    and "redis_server x content"
  shows "e \<noteq> None \<and> s' = s \<or>
    e = None \<and> (\<exists>b. doWrite_tx x ts op key val (upd_db (\<lambda>d. d\<lparr>tx_state := b\<rparr>) s) = (None, s') \<and>
      in_tx ((db s)\<lparr>tx_state := b\<rparr>))"
proof -
  have l: "lazy_lock x s = (None, s)" using assms(1) by (simp add: lazy_lock_def)
  have ok: "fst (doWrite_tx x ts op key val s1) = None" for s1
    using assms(4,5)
    by (cases op) (auto simp: doWrite_tx_def doWrite_cache_def Let_def redis_serverD split: option.split)
  show ?thesis
  proof (cases "IsWriteDisabled (Opts (db s)) \<or> db_err (db s) \<noteq> None \<or>
      TxCmdsLim (Opts (db s)) \<noteq> 0 \<and> int (length (txCmds (db s))) \<ge> TxCmdsLim (Opts (db s))")
    case True
    then show ?thesis using assms(1,3) l by (auto simp: doWrite_def Let_def split: if_splits)
  next
    case False
    define b where "b = (if tx_state (db s) = txStateWatch then txStateSet else tx_state (db s))"
    have "doWrite_tx x ts op key val (upd_db (\<lambda>d. d\<lparr>tx_state := b\<rparr>) s) = (e, s')"
      using assms(2)
    proof (unfold in_tx_def, elim disjE)
      assume "tx_state (db s) = txStateWatch"
      then show ?thesis using assms(1,3) False l by (auto simp: doWrite_def b_def split: if_splits)
    next
      assume t: "tx_state (db s) = txStateSet"
      have "doWrite_tx x ts op key val s = (e, s')"
        using t assms(1,3) False l by (auto simp: doWrite_def split: if_splits)
      moreover have "upd_db (\<lambda>d. d\<lparr>tx_state := b\<rparr>) s = s" using t by (simp add: b_def upd_db_def)
      ultimately show ?thesis by metis
    qed
    moreover have "in_tx ((db s)\<lparr>tx_state := b\<rparr>)" using assms(2) by (auto simp: in_tx_def b_def)
    ultimately show ?thesis using ok by (metis fst_conv)
  qed
qed

lemma doWrite_cache_session:
  assumes "redis_server x content" "savePoint s \<noteq> None" "IsSession (Opts (db s))" "op \<noteq> txOpNone"
  shows "\<exists>v value1 s1. doWrite_cache x ts op key val s = ((None, value1), s1) \<and>
    (let k = key2redis (Opts (db s)) ts key; n = tsName ts;
         hit = (op \<noteq> txOpDel \<and> tx_get (txTsEntryMap (db s)) n k = None) in
     txTsEntryMap (db s1) = tx_put n k v
       (if hit then tx_put n k \<lparr>Flds = content (world s) k\<rparr> (txTsEntryMap (db s)) else txTsEntryMap (db s)) \<and>
     txTsEntryHGetAll (db s1) =
       (if hit then tx_put n k (Value_Copy \<lparr>Flds = content (world s) k\<rparr>) (txTsEntryHGetAll (db s))
        else txTsEntryHGetAll (db s)))"
proof (cases "op = txOpDel")
  case True
  then show ?thesis by (auto simp: doWrite_cache_def Let_def)
next
  case False
  then have op: "op = txOpHMSet \<or> op = txOpHDel" using assms(4) by (cases op) auto
  show ?thesis
  proof (cases "tx_get (txTsEntryMap (db s)) (tsName ts) (key2redis (Opts (db s)) ts key)")
    case None
    then show ?thesis using op assms(2,3)
      by (auto simp: doWrite_cache_def Let_def redis_serverD[OF assms(1)] doTxSPsaveHGetAll_def)
  next
    case (Some u)
    then show ?thesis using op by (auto simp: doWrite_cache_def Let_def)
  qed
qed

lemma doWrite_tx_sp:
  assumes "redis_server x content" "sp_base content sp s" "wf_name (Opts (db s)) ts key" "op \<noteq> txOpNone"
    and "doWrite_tx x ts op key val s = (None, s')"
  defines "here \<equiv> (\<lambda>t k. t = tsName ts \<and> k = key2redis (Opts (db s)) ts key)"
  shows "sp_base content sp s'"
    "cvlEditConfigData (db s') = cvlEditConfigData (db s)" "db_cv (db s') = db_cv (db s)"
    "db_err (db s') = db_err (db s)"
    "\<exists>c. txCmds (db s') = txCmds (db s) @ [c]"
    "tx_get (txTsEntryMap (db s')) t k = None \<longleftrightarrow> tx_get (txTsEntryMap (db s)) t k = None \<and> \<not> here t k"
    "ghas (txTsEntryMap (db s')) t \<longleftrightarrow> ghas (txTsEntryMap (db s)) t \<or> t = tsName ts"
    "tx_get (txTsEntryHGetAll (db s')) t k = None \<longleftrightarrow>
       tx_get (txTsEntryHGetAll (db s)) t k = None \<and>
       \<not> (here t k \<and> op \<noteq> txOpDel \<and> tx_get (txTsEntryMap (db s)) t k = None)"
proof -
  let ?s1 = "doTxSPsave ts key (upd_db (ensure_tx_table (tsName ts)) s)"
  let ?k = "key2redis (Opts (db s)) ts key"
  have b: "IsSession (Opts (db s))" "\<And>k. gok (content (world s) k)" "gok (txTsEntryHGetAll (db s))"
    using assms(2) by (auto simp: sp_base_def)
  obtain sp1 where sp1: "savePoint s = Some sp1" "txCmdsLen sp1 = txCmdsLen sp" "cECDLen sp1 = cECDLen sp"
    "orig_ok (Opts (db s)) sp1" using assms(2) by (auto simp: sp_base_def)
  have "savePoint (upd_db (ensure_tx_table (tsName ts)) s) = Some sp1" using sp1 by simp
  from doTxSPsave_sp[OF this] sp1 assms(3) obtain sp2 where sp2: "savePoint ?s1 = Some sp2"
    "txCmdsLen sp2 = txCmdsLen sp" "cECDLen sp2 = cECDLen sp" "orig_ok (Opts (db s)) sp2"
    by fastforce
  have ens: "ghas (txTsEntryMap (ensure_tx_table n d)) t \<longleftrightarrow> ghas (txTsEntryMap d) t \<or> t = n" for n d t
    by (auto simp: ensure_tx_table_def ghas_def)
  define hit where "hit \<longleftrightarrow> op \<noteq> txOpDel \<and> tx_get (txTsEntryMap (db s)) (tsName ts) ?k = None"
  define H where "H = (if hit then tx_put (tsName ts) ?k (Value_Copy \<lparr>Flds = content (world s) ?k\<rparr>)
      (txTsEntryHGetAll (db s)) else txTsEntryHGetAll (db s))"
  obtain v value1 s2 where c: "doWrite_cache x ts op key val ?s1 = ((None, value1), s2)"
    and m: "txTsEntryMap (db s2) =
       tx_put (tsName ts) ?k v (if hit then tx_put (tsName ts) ?k \<lparr>Flds = content (world s) ?k\<rparr>
          (txTsEntryMap (ensure_tx_table (tsName ts) (db s))) else txTsEntryMap (ensure_tx_table (tsName ts) (db s)))"
    and h: "txTsEntryHGetAll (db s2) = H"
    using doWrite_cache_session[OF assms(1) _ _ assms(4), of ?s1 ts key val] sp2(1) b(1)
    by (auto simp: Let_def hit_def H_def cong: if_cong)
  note f = doWrite_cache_frame[OF c]
  have s': "s' = write_notify ts op key
      (upd_db (append_cmd \<lparr>tc_ts = ts, tc_op = op, tc_key = key, tc_value = value1\<rparr>) s2)"
    using assms(5) c by (simp add: doWrite_tx_def)
  have mm: "txTsEntryMap (db s') = txTsEntryMap (db s2)"
    "txTsEntryHGetAll (db s') = H" "Opts (db s') = Opts (db s)" "world s' = world s"
    "savePoint s' = Some sp2" "tx_state (db s') = tx_state (db s)"
    using f h sp2 by (simp_all add: s')
  show "cvlEditConfigData (db s') = cvlEditConfigData (db s)" "db_cv (db s') = db_cv (db s)"
    "db_err (db s') = db_err (db s)" "\<exists>c. txCmds (db s') = txCmds (db s) @ [c]"
    using f by (simp_all add: s')
  show "tx_get (txTsEntryMap (db s')) t k = None \<longleftrightarrow> tx_get (txTsEntryMap (db s)) t k = None \<and> \<not> here t k" for t k
    by (auto simp: mm m here_def)
  show gm: "ghas (txTsEntryMap (db s')) t \<longleftrightarrow> ghas (txTsEntryMap (db s)) t \<or> t = tsName ts" for t
    by (auto simp: mm m ens)
  show "tx_get (txTsEntryHGetAll (db s')) t k = None \<longleftrightarrow>
       tx_get (txTsEntryHGetAll (db s)) t k = None \<and>
       \<not> (here t k \<and> op \<noteq> txOpDel \<and> tx_get (txTsEntryMap (db s)) t k = None)" for t k
    by (auto simp: mm H_def hit_def here_def)
  have "\<forall>(tn, tb) \<in> set (txTsEntryHGetAll (db s)). gok tb \<and> ghas (txTsEntryMap (db s')) tn"
    using assms(2) gm by (fastforce simp: sp_base_def)
  then have "\<forall>(tn, tb) \<in> set H. gok tb \<and> ghas (txTsEntryMap (db s')) tn"
  proof (cases hit)
    case True
    then show ?thesis
      using tx_put_tables[where P = "ghas (txTsEntryMap (db s'))" and t = "tsName ts"] gm
        \<open>\<forall>(tn, tb) \<in> set (txTsEntryHGetAll (db s)). _\<close>
      by (simp add: H_def)
  qed (simp add: H_def)
  moreover have "Flds v = content (world s) k" if "tx_get H t k = Some v" for t k v
    using that assms(2) b(2) by (auto simp: H_def sp_base_def Value_Copy_ok split: if_splits)
  moreover have "gok H" using b(3) by (simp add: H_def gok_tx_put)
  ultimately show "sp_base content sp s'"
    using assms(2) sp2 by (auto simp: sp_base_def mm in_tx_def)
qed

section \<open>One operation inside of a savepoint\<close>

definition sp_le :: "('w \<Rightarrow> string \<Rightarrow> fields) \<Rightarrow> 'w st \<Rightarrow> 'w st \<Rightarrow> bool" where
  "sp_le content s s' \<longleftrightarrow>
     (\<exists>es. cvlEditConfigData (db s') = cvlEditConfigData (db s) @ es) \<and>
     (\<exists>cs. txCmds (db s') = txCmds (db s) @ cs) \<and>
     (\<forall>t k. tx_get (txTsEntryHGetAll (db s)) t k \<noteq> None \<longrightarrow> tx_get (txTsEntryHGetAll (db s')) t k \<noteq> None) \<and>
     (\<forall>t. ghas (txTsEntryMap (db s)) t \<longrightarrow> ghas (txTsEntryMap (db s')) t) \<and>
     Opts (db s') = Opts (db s) \<and> content (world s') = content (world s) \<and> db_cv (db s') = db_cv (db s)"

lemma sp_le_refl [simp]: "sp_le content s s"
  by (simp add: sp_le_def)

lemma sp_le_trans: "sp_le content s s' \<Longrightarrow> sp_le content s' s'' \<Longrightarrow> sp_le content s s''"
  unfolding sp_le_def by (metis append.assoc)

lemma doWrite_sp:
  assumes "redis_server x content" "sp_base content sp s" "wf_name (Opts (db s)) ts key" "op \<noteq> txOpNone"
    and "doWrite x ts op key val s = (e, s')"
  shows "sp_base content sp s' \<and> sp_le content s s'"
    "e = None \<Longrightarrow> cvlEditConfigData (db s') = cvlEditConfigData (db s) \<and>
      (tx_get (txTsEntryMap (db s')) t k = None \<longleftrightarrow> tx_get (txTsEntryMap (db s)) t k = None \<and>
         \<not> (t = tsName ts \<and> k = key2redis (Opts (db s)) ts key)) \<and>
      (ghas (txTsEntryMap (db s')) t \<longleftrightarrow> ghas (txTsEntryMap (db s)) t \<or> t = tsName ts) \<and>
      (tx_get (txTsEntryHGetAll (db s')) t k = None \<longleftrightarrow> tx_get (txTsEntryHGetAll (db s)) t k = None \<and>
         \<not> ((t = tsName ts \<and> k = key2redis (Opts (db s)) ts key) \<and> op \<noteq> txOpDel \<and>
            tx_get (txTsEntryMap (db s)) t k = None))"
proof -
  have b: "IsSession (Opts (db s))" "in_tx (db s)" using assms(2) by (auto simp: sp_base_def)
  from doWrite_session[OF b assms(5,4,1)]
  have "sp_base content sp s' \<and> sp_le content s s' \<and> (e = None \<longrightarrow>
      cvlEditConfigData (db s') = cvlEditConfigData (db s) \<and>
      (\<forall>t k. (tx_get (txTsEntryMap (db s')) t k = None \<longleftrightarrow> tx_get (txTsEntryMap (db s)) t k = None \<and>
         \<not> (t = tsName ts \<and> k = key2redis (Opts (db s)) ts key)) \<and>
      (ghas (txTsEntryMap (db s')) t \<longleftrightarrow> ghas (txTsEntryMap (db s)) t \<or> t = tsName ts) \<and>
      (tx_get (txTsEntryHGetAll (db s')) t k = None \<longleftrightarrow> tx_get (txTsEntryHGetAll (db s)) t k = None \<and>
         \<not> ((t = tsName ts \<and> k = key2redis (Opts (db s)) ts key) \<and> op \<noteq> txOpDel \<and>
            tx_get (txTsEntryMap (db s)) t k = None))))"
  proof (elim disjE conjE exE)
    assume "e \<noteq> None" "s' = s"
    then show ?thesis using assms(2) by auto
  next
    fix b
    let ?s = "upd_db (\<lambda>d. d\<lparr>tx_state := b\<rparr>) s"
    assume w: "doWrite_tx x ts op key val ?s = (None, s')" and t: "in_tx ((db s)\<lparr>tx_state := b\<rparr>)"
    have sb: "sp_base content sp ?s" using assms(2) t by (auto simp: sp_base_def in_tx_def)
    have wf: "wf_name (Opts (db ?s)) ts key" using assms(3) by simp
    note r = doWrite_tx_sp[OF assms(1) sb wf assms(4) w]
    have "Opts (db s') = Opts (db s)" "content (world s') = content (world s)"
      using doWrite_tx_view[OF assms(1) w] by simp_all
    then show ?thesis
      using r(1-5) r(6)[of _ _] r(7) r(8) by (auto simp: sp_le_def)
  qed
  then show "sp_base content sp s' \<and> sp_le content s s'"
    "e = None \<Longrightarrow> cvlEditConfigData (db s') = cvlEditConfigData (db s) \<and>
      (tx_get (txTsEntryMap (db s')) t k = None \<longleftrightarrow> tx_get (txTsEntryMap (db s)) t k = None \<and>
         \<not> (t = tsName ts \<and> k = key2redis (Opts (db s)) ts key)) \<and>
      (ghas (txTsEntryMap (db s')) t \<longleftrightarrow> ghas (txTsEntryMap (db s)) t \<or> t = tsName ts) \<and>
      (tx_get (txTsEntryHGetAll (db s')) t k = None \<longleftrightarrow> tx_get (txTsEntryHGetAll (db s)) t k = None \<and>
         \<not> ((t = tsName ts \<and> k = key2redis (Opts (db s)) ts key) \<and> op \<noteq> txOpDel \<and>
            tx_get (txTsEntryMap (db s)) t k = None))"
    by blast+
qed

text \<open>The validation appends the edits, or leaves the list as it was.\<close>

definition edits_of :: "string \<Rightarrow> (CVLOperation \<times> Value) list \<Rightarrow> CVLEditConfigData list" where
  "edits_of rk ovs = map (\<lambda>(op, v). edit_of rk op (Flds (Value_Copy v))) ovs"

lemma cvl_append_edits:
  "\<forall>(op, v) \<in> set ovs. op \<noteq> OP_NONE \<Longrightarrow> cvl_append rk ovs (None, l) = (None, l @ edits_of rk ovs)"
proof (induction ovs arbitrary: l)
  case (Cons p ovs)
  obtain op v where p: "p = (op, v)" by (cases p)
  have "Flds v = [] \<Longrightarrow> Flds (Value_Copy v) = []" by (simp add: Value_Copy_empty)
  then show ?case using Cons by (cases op) (auto simp: p edits_of_def)
qed (simp add: edits_of_def)

lemma mark_validated_append:
  "n = length es \<Longrightarrow> mark_validated n (l @ es) = l @ map (\<lambda>c. c\<lparr>VType := VALIDATE_NONE\<rparr>) es"
  by (simp add: mark_validated_def)

lemma doCVL_sp:
  assumes "redis_server x content" "sp_base content sp s" "length ops = length vals" "OP_NONE \<notin> set ops"
    and "doCVL x ts ops key vals s = (e, s')"
  shows "sp_base content sp s' \<and> sp_le content s s'"
    "txTsEntryMap (db s') = txTsEntryMap (db s)" "txTsEntryHGetAll (db s') = txTsEntryHGetAll (db s)"
    "e = None \<Longrightarrow> cvlEditConfigData (db s') = cvlEditConfigData (db s) @
       map (\<lambda>c. c\<lparr>VType := VALIDATE_NONE\<rparr>) (edits_of (key2redis (Opts (db s)) ts key) (zip ops vals))"
proof -
  have t: "tx_state (db s) \<noteq> txStateNone" "\<not> DisableCVLCheck (Opts (db s))"
    using assms(2) by (auto simp: sp_base_def in_tx_def)
  let ?es = "edits_of (key2redis (Opts (db s)) ts key) (zip ops vals)"
  have ap: "cvl_append (key2redis (Opts (db s)) ts key) (zip ops vals) (None, cvlEditConfigData (db s)) =
      (None, cvlEditConfigData (db s) @ ?es)"
    using assms(4) by (intro cvl_append_edits) (auto dest: set_zip_leftD)
  have len: "length ?es = length ops" using assms(3) by (simp add: edits_of_def)
  have r: "db_err (db s) \<noteq> None \<and> s' = s \<and> e \<noteq> None \<or>
     (\<exists>w l. content w = content (world s) \<and>
        s' = upd_db (\<lambda>d. d\<lparr>cvlEditConfigData := l\<rparr>) (s\<lparr>world := w\<rparr>) \<and>
        (if e = None then l = cvlEditConfigData (db s) @ map (\<lambda>c. c\<lparr>VType := VALIDATE_NONE\<rparr>) ?es
         else l = cvlEditConfigData (db s)))"
  proof (cases "db_err (db s)")
    case None
    obtain w ret cei where v: "x_cvl_validate x (world s) ((db s)\<lparr>cvlEditConfigData := cvlEditConfigData (db s) @ ?es\<rparr>)
        (db_cv (db s)) (cvlEditConfigData (db s) @ ?es) = (w, ret, cei)"
      by (metis surj_pair)
    then have "content w = content (world s)" using redis_server_E(4)[OF assms(1)] by blast
    then show ?thesis
      using assms(3,5) t None ap v len
      by (auto simp: doCVL_def Let_def mark_validated_append upd_db_def split: if_splits)
  next
    case (Some err)
    then show ?thesis using assms(5) by (auto simp: doCVL_def Let_def)
  qed
  then show "sp_base content sp s' \<and> sp_le content s s'"
    "txTsEntryMap (db s') = txTsEntryMap (db s)" "txTsEntryHGetAll (db s') = txTsEntryHGetAll (db s)"
    using assms(2) by (auto simp: sp_base_def sp_le_def in_tx_def split: if_splits)
  show "e = None \<Longrightarrow> cvlEditConfigData (db s') = cvlEditConfigData (db s) @
       map (\<lambda>c. c\<lparr>VType := VALIDATE_NONE\<rparr>) ?es"
    using r by auto
qed

text \<open>Some writes in a row to one entry.\<close>

fun writes ::
  "('w, 'z) ext_scheme \<Rightarrow> TableSpec \<Rightarrow> Key \<Rightarrow> (txOp \<times> Value) list \<Rightarrow> 'w st \<Rightarrow> goerr option \<times> 'w st" where
  "writes x ts key [] s = (None, s)"
| "writes x ts key ((op, v) # ws) s =
     (case doWrite x ts op key v s of
        (Some e, s1) \<Rightarrow> (Some e, s1)
      | (None, s1) \<Rightarrow> writes x ts key ws s1)"

definition cmds_of :: "TableSpec \<Rightarrow> Key \<Rightarrow> (txOp \<times> Value) list \<Rightarrow> txCmd list" where
  "cmds_of ts key ws = map (\<lambda>(op, v). \<lparr>tc_ts = ts, tc_op = op, tc_key = key, tc_value = Value_Copy v\<rparr>) ws"

lemma writes_sp:
  assumes "redis_server x content" "sp_base content sp s" "wf_name (Opts (db s)) ts key"
    "\<forall>(op, v) \<in> set ws. op \<noteq> txOpNone" "writes x ts key ws s = (e, s')"
  shows "sp_base content sp s' \<and> sp_le content s s'"
  using assms(2-5)
proof (induction ws arbitrary: s)
  case (Cons p ws)
  obtain op v where p: "p = (op, v)" by (cases p)
  obtain e1 s1 where d: "doWrite x ts op key v s = (e1, s1)" by (metis surj_pair)
  have op: "op \<noteq> txOpNone" using Cons.prems(3) by (simp add: p)
  have w: "sp_base content sp s1 \<and> sp_le content s s1"
    by (rule doWrite_sp(1)[OF assms(1) Cons.prems(1,2) op d])
  show ?case
  proof (cases e1)
    case None
    then have "writes x ts key ws s1 = (e, s')" using Cons.prems(4) d by (simp add: p)
    moreover have "wf_name (Opts (db s1)) ts key" using w Cons.prems(2) by (simp add: sp_le_def)
    ultimately show ?thesis
      using Cons.IH[of s1] Cons.prems(3) w sp_le_trans by auto
  next
    case (Some err)
    then show ?thesis using Cons.prems(4) d w by (simp add: p)
  qed
qed simp

lemma writes_ok:
  assumes "redis_server x content" "sp_base content sp s" "wf_name (Opts (db s)) ts key"
    "\<forall>(op, v) \<in> set ws. op \<noteq> txOpNone" "ws \<noteq> []" "writes x ts key ws s = (None, s')"
  defines "here \<equiv> (\<lambda>t k. t = tsName ts \<and> k = key2redis (Opts (db s)) ts key)"
  shows "cvlEditConfigData (db s') = cvlEditConfigData (db s) \<and>
     tview content s' = fold (tsem (Opts (db s))) (cmds_of ts key ws) (tview content s) \<and>
     (\<forall>t k. (tx_get (txTsEntryMap (db s')) t k = None \<longleftrightarrow> tx_get (txTsEntryMap (db s)) t k = None \<and> \<not> here t k) \<and>
        (ghas (txTsEntryMap (db s')) t \<longleftrightarrow> ghas (txTsEntryMap (db s)) t \<or> t = tsName ts) \<and>
        (tx_get (txTsEntryHGetAll (db s')) t k = None \<longleftrightarrow> tx_get (txTsEntryHGetAll (db s)) t k = None \<and>
           \<not> (here t k \<and> fst (hd ws) \<noteq> txOpDel \<and> tx_get (txTsEntryMap (db s)) t k = None)))"
  unfolding here_def using assms(2-6)
proof (induction ws arbitrary: s)
  case (Cons p ws)
  obtain op v where p: "p = (op, v)" by (cases p)
  obtain e1 s1 where d0: "doWrite x ts op key v s = (e1, s1)" by (metis surj_pair)
  have e1: "e1 = None" using Cons.prems(5) d0 by (auto simp: p split: option.splits)
  note d = d0[unfolded e1]
  have w: "writes x ts key ws s1 = (None, s')" using Cons.prems(5) d by (simp add: p)
  have op: "op \<noteq> txOpNone" using Cons.prems(3) by (simp add: p)
  have in_tx: "in_tx (db s)" using Cons.prems(1) by (simp add: sp_base_def)
  note r1 = doWrite_sp(1)[OF assms(1) Cons.prems(1,2) op d]
  note r2 = doWrite_sp(2)[OF assms(1) Cons.prems(1,2) op d refl]
  have v1: "tview content s1 = tsem (Opts (db s))
      \<lparr>tc_ts = ts, tc_op = op, tc_key = key, tc_value = Value_Copy v\<rparr> (tview content s)"
    using doWrite_ok[OF assms(1) in_tx d] by simp
  have o1: "Opts (db s1) = Opts (db s)" using r1 by (simp add: sp_le_def)
  show ?case
  proof (cases "ws = []")
    case True
    then have "s' = s1" using w by simp
    then show ?thesis using r2 v1 by (simp add: True p cmds_of_def)
  next
    case False
    have wf1: "wf_name (Opts (db s1)) ts key" using o1 Cons.prems(2) by simp
    note ih = Cons.IH[OF conjunct1[OF r1] wf1 _ False w]
    have ih': "cvlEditConfigData (db s') = cvlEditConfigData (db s1)"
      "tview content s' = fold (tsem (Opts (db s))) (cmds_of ts key ws) (tview content s1)"
      "\<And>t k. tx_get (txTsEntryMap (db s')) t k = None \<longleftrightarrow> tx_get (txTsEntryMap (db s1)) t k = None \<and>
          \<not> (t = tsName ts \<and> k = key2redis (Opts (db s)) ts key)"
      "\<And>t. ghas (txTsEntryMap (db s')) t \<longleftrightarrow> ghas (txTsEntryMap (db s1)) t \<or> t = tsName ts"
      "\<And>t k. tx_get (txTsEntryHGetAll (db s')) t k = None \<longleftrightarrow> tx_get (txTsEntryHGetAll (db s1)) t k = None \<and>
           \<not> ((t = tsName ts \<and> k = key2redis (Opts (db s)) ts key) \<and> fst (hd ws) \<noteq> txOpDel \<and>
              tx_get (txTsEntryMap (db s1)) t k = None)"
      using ih Cons.prems(3) by (auto simp: o1)
    show ?thesis
      unfolding ih'(3,4,5) using r2 v1 ih'(1,2) by (auto simp: p cmds_of_def)
  qed
qed simp

text \<open>An edit and the write that goes with it.\<close>

fun matches :: "CVLOperation \<times> Value \<Rightarrow> txOp \<times> Value \<Rightarrow> bool" where
  "matches (OP_CREATE, v) (op, w) \<longleftrightarrow> op = txOpHMSet \<and> w = v"
| "matches (OP_UPDATE, v) (op, w) \<longleftrightarrow> op = txOpHMSet \<and> w = v"
| "matches (OP_DELETE, v) (op, w) \<longleftrightarrow>
     (if Flds v = [] then op = txOpDel else op = txOpHDel \<and> w = v)"
| "matches (OP_NONE, v) _ \<longleftrightarrow> False"

lemma edit_fun_edit_of:
  "edit_fun (edit_of rk OP_CREATE l) = gset_all l" "edit_fun (edit_of rk OP_UPDATE l) = gset_all l"
  "edit_fun (edit_of rk OP_DELETE l) = (if l = [] then (\<lambda>_. []) else gdel_all (gkeys l))"
  "ceKey (edit_of rk op l) = rk"
  by (rule ext | simp add: edit_fun_def edit_of_def)+

lemma esem_edit:
  assumes "matches ov ow" "wf_name opts ts key"
  shows "esem opts (edit_of (key2redis opts ts key) (fst ov) (Flds (Value_Copy (snd ov)))) =
     tsem opts \<lparr>tc_ts = ts, tc_op = fst ow, tc_key = key, tc_value = Value_Copy (snd ow)\<rparr>"
proof -
  obtain key' where "redis2ts_key opts (key2redis opts ts key) = Some (tspec (tsName ts), key')"
    using redis2ts_key_name[OF assms(2)] by blast
  then have t: "ce_tab opts (edit_of (key2redis opts ts key) o1 l) = tsName ts" for o1 l
    by (simp add: ce_tab_def edit_of_def)
  obtain o1 v o2 w where [simp]: "ov = (o1, v)" "ow = (o2, w)" by (metis surj_pair)
  have e: "Flds (Value_Copy v) = [] \<longleftrightarrow> Flds v = []" by (rule Value_Copy_empty)
  show ?thesis
    using assms(1) e
    by (cases o1) (auto simp: esem_def t tsem_upd edit_fun_edit_of fun_eq_iff split: if_splits)
qed

lemma fold_esem_edits:
  assumes "list_all2 matches ovs ows" "wf_name opts ts key"
  shows "fold (esem opts) (map (\<lambda>c. c\<lparr>VType := VALIDATE_NONE\<rparr>) (edits_of (key2redis opts ts key) ovs)) v =
     fold (tsem opts) (cmds_of ts key ows) v"
  using assms(1)
proof (induction ovs ows arbitrary: v rule: list_all2_induct)
  case (Cons a as b bs)
  have "esem opts (edit_of (key2redis opts ts key) (fst a) (Flds (Value_Copy (snd a)))) =
     tsem opts \<lparr>tc_ts = ts, tc_op = fst b, tc_key = key, tc_value = Value_Copy (snd b)\<rparr>"
    by (rule esem_edit[OF Cons.hyps(1) assms(2)])
  then show ?case using Cons.IH by (simp add: edits_of_def cmds_of_def split_beta)
qed (simp add: edits_of_def cmds_of_def)

lemma matches_ops:
  assumes "list_all2 matches ovs ws"
  shows "\<forall>(op, v) \<in> set ws. op \<noteq> txOpNone"
proof -
  have "op \<noteq> txOpNone" if "matches a (op, v)" for a op v
    using that by (cases "(a, (op, v))" rule: matches.cases) (auto split: if_splits)
  then have m: "matches a b \<Longrightarrow> (case b of (op, v) \<Rightarrow> op \<noteq> txOpNone)" for a b by (cases b) auto
  show ?thesis using assms by (induction ovs ws rule: list_all2_induct) (auto dest: m)
qed

section \<open>The invariant between edits and commands\<close>

definition sp_inv :: "('w \<Rightarrow> string \<Rightarrow> fields) \<Rightarrow> 'w st \<Rightarrow> bool" where
  "sp_inv content s \<longleftrightarrow>
     (let opts = Opts (db s); es = cvlEditConfigData (db s); m = txTsEntryMap (db s);
          h = txTsEntryHGetAll (db s) in
      fold (esem opts) es (\<lambda>t. content (world s)) = tview content s \<and>
      (\<forall>c \<in> set es. edit_ok opts c \<and> ghas m (ce_tab opts c) \<and> VType c = VALIDATE_NONE) \<and>
      (\<forall>t k. tx_get m t k \<noteq> None \<longrightarrow> tx_get h t k \<noteq> None \<or> filter (touches opts t k) es \<noteq> []) \<and>
      (\<forall>t k. filter (touches opts t k) es \<noteq> [] \<longrightarrow> tx_get h t k \<noteq> None \<or> first_del opts t k es))"

lemma sp_invI:
  assumes "Opts (db s) = opts" "cvlEditConfigData (db s) = es" "content (world s) = cont"
    and "fold (esem opts) es (\<lambda>t. cont) = tview content s"
    and "\<And>c. c \<in> set es \<Longrightarrow> edit_ok opts c \<and> ghas (txTsEntryMap (db s)) (ce_tab opts c) \<and> VType c = VALIDATE_NONE"
    and "\<And>t k. tx_get (txTsEntryMap (db s)) t k \<noteq> None \<Longrightarrow>
        tx_get (txTsEntryHGetAll (db s)) t k \<noteq> None \<or> filter (touches opts t k) es \<noteq> []"
    and "\<And>t k. filter (touches opts t k) es \<noteq> [] \<Longrightarrow>
        tx_get (txTsEntryHGetAll (db s)) t k \<noteq> None \<or> first_del opts t k es"
  shows "sp_inv content s"
  using assms(4-) unfolding sp_inv_def Let_def assms(1-3) by blast

lemma sp_inv_step:
  assumes "redis_server x content" "sp_base content sp s" "sp_inv content s" "wf_name (Opts (db s)) ts key"
    and "doCVL x ts ops key vals s = (None, s1)" "writes x ts key ws s1 = (None, s')"
    and "length ops = length vals" "list_all2 matches (zip ops vals) ws" "ws \<noteq> []" "OP_NONE \<notin> set ops"
  shows "sp_inv content s'"
proof -
  let ?o = "Opts (db s)" and ?k = "key2redis (Opts (db s)) ts key"
  let ?es = "map (\<lambda>c. c\<lparr>VType := VALIDATE_NONE\<rparr>) (edits_of ?k (zip ops vals))"
  note c = doCVL_sp[OF assms(1,2,7,10,5)]
  have E1: "cvlEditConfigData (db s1) = cvlEditConfigData (db s) @ ?es" by (rule c(4)[OF refl])
  have o1: "Opts (db s1) = ?o" "content (world s1) = content (world s)" using c(1) by (simp_all add: sp_le_def)
  have v1: "tview content s1 = tview content s" using doCVL_view[OF assms(1,5)] by simp
  note nn = matches_ops[OF assms(8)]
  have wf1: "wf_name (Opts (db s1)) ts key" using assms(4) o1 by simp
  have sb1: "sp_base content sp s1" using c(1) by simp
  note w = writes_ok[OF assms(1) sb1 wf1 nn assms(9,6), unfolded o1 c(2,3)]
  note w0 = writes_sp[OF assms(1) sb1 wf1 nn assms(6)]
  have o2: "Opts (db s') = ?o" "content (world s') = content (world s)"
    using w0 o1 by (simp_all add: sp_le_def)
  have E: "cvlEditConfigData (db s') = cvlEditConfigData (db s) @ ?es" using w E1 by simp
  have M: "tx_get (txTsEntryMap (db s')) t k = None \<longleftrightarrow> tx_get (txTsEntryMap (db s)) t k = None \<and>
        \<not> (t = tsName ts \<and> k = ?k)"
    and G: "ghas (txTsEntryMap (db s')) t \<longleftrightarrow> ghas (txTsEntryMap (db s)) t \<or> t = tsName ts"
    and H: "tx_get (txTsEntryHGetAll (db s')) t k = None \<longleftrightarrow> tx_get (txTsEntryHGetAll (db s)) t k = None \<and>
        \<not> ((t = tsName ts \<and> k = ?k) \<and> fst (hd ws) \<noteq> txOpDel \<and> tx_get (txTsEntryMap (db s)) t k = None)"
    for t k
    using w by auto
  obtain key' where rk: "redis2ts_key ?o ?k = Some (tspec (tsName ts), key')"
    "key2redis ?o (tspec (tsName ts)) key' = ?k"
    using redis2ts_key_name[OF assms(4)] by blast
  have ce: "ceKey c1 = ?k \<and> ce_tab ?o c1 = tsName ts \<and> edit_ok ?o c1 \<and> VType c1 = VALIDATE_NONE"
    if "c1 \<in> set ?es" for c1
    using that rk by (auto simp: edits_of_def edit_of_def ce_tab_def edit_ok_def)
  have tch: "touches ?o t k c1 \<longleftrightarrow> t = tsName ts \<and> k = ?k" if "c1 \<in> set ?es" for c1 t k
    using ce[OF that] by (auto simp: touches_def)
  have fes: "filter (touches ?o t k) ?es = (if t = tsName ts \<and> k = ?k then ?es else [])" for t k
  proof (cases "t = tsName ts \<and> k = ?k")
    case True
    then have "\<forall>c1 \<in> set ?es. touches ?o t k c1" using tch by blast
    then show ?thesis using True by (metis filter_True)
  next
    case False
    then have "\<forall>c1 \<in> set ?es. \<not> touches ?o t k c1" using tch by blast
    then show ?thesis using False by (metis filter_False)
  qed
  obtain a as b bs where ab: "zip ops vals = a # as" "ws = b # bs" "matches a b"
    using assms(8,9) by (cases "zip ops vals"; cases ws) auto
  have ne: "?es \<noteq> []" by (simp add: ab(1) edits_of_def)
  have del: "VOp (hd ?es) = OP_DELETE \<and> ceData (hd ?es) = []" if "fst (hd ws) = txOpDel"
    using ab that
    by (cases "(a, b)" rule: matches.cases)
       (auto simp: edits_of_def edit_of_def Value_Copy_empty split: if_splits)
  let ?E = "cvlEditConfigData (db s)"
  have i: "fold (esem ?o) ?E (\<lambda>t. content (world s)) = tview content s"
    "\<And>c1. c1 \<in> set ?E \<Longrightarrow> edit_ok ?o c1 \<and> ghas (txTsEntryMap (db s)) (ce_tab ?o c1) \<and> VType c1 = VALIDATE_NONE"
    "\<And>t k. tx_get (txTsEntryMap (db s)) t k \<noteq> None \<Longrightarrow>
        tx_get (txTsEntryHGetAll (db s)) t k \<noteq> None \<or> filter (touches ?o t k) ?E \<noteq> []"
    "\<And>t k. filter (touches ?o t k) ?E \<noteq> [] \<Longrightarrow>
        tx_get (txTsEntryHGetAll (db s)) t k \<noteq> None \<or> first_del ?o t k ?E"
    using assms(3) by (auto simp: sp_inv_def Let_def)
  have "fold (esem ?o) (?E @ ?es) (\<lambda>t. content (world s)) = tview content s'"
    using w v1 i(1) fold_esem_edits[OF assms(8,4)] by simp
  moreover have "edit_ok ?o c1 \<and> ghas (txTsEntryMap (db s')) (ce_tab ?o c1) \<and> VType c1 = VALIDATE_NONE"
    if "c1 \<in> set (?E @ ?es)" for c1
  proof (cases "c1 \<in> set ?es")
    case True
    from ce[OF this] show ?thesis by (metis G)
  next
    case False
    then have "c1 \<in> set ?E" using that by (metis Un_iff set_append)
    from i(2)[OF this] show ?thesis by (metis G)
  qed
  moreover have "tx_get (txTsEntryHGetAll (db s')) t k \<noteq> None \<or> filter (touches ?o t k) (?E @ ?es) \<noteq> []"
    if "tx_get (txTsEntryMap (db s')) t k \<noteq> None" for t k
    using that i(3)[of t k] M[of t k] H[of t k] fes[of t k] ne by auto
  moreover have "tx_get (txTsEntryHGetAll (db s')) t k \<noteq> None \<or> first_del ?o t k (?E @ ?es)"
    if "filter (touches ?o t k) (?E @ ?es) \<noteq> []" for t k
  proof (cases "filter (touches ?o t k) ?E = []")
    case False
    then show ?thesis using i(4)[OF False] H[of t k] by (auto simp: first_del_append)
  next
    case True
    then have here: "t = tsName ts \<and> k = ?k" using that fes[of t k] by (auto split: if_splits)
    show ?thesis
    proof (cases "tx_get (txTsEntryHGetAll (db s')) t k")
      case None
      then have "tx_get (txTsEntryHGetAll (db s)) t k = None" and
        "fst (hd ws) = txOpDel \<or> tx_get (txTsEntryMap (db s)) t k \<noteq> None" using H[of t k] here by auto
      then have "fst (hd ws) = txOpDel" using i(3)[of t k] True by blast
      then have d: "VOp (hd ?es) = OP_DELETE" "ceData (hd ?es) = []" using del by blast+
      have f: "filter (touches ?o t k) (?E @ ?es) = ?es"
        using True fes[of t k] here by (simp only: filter_append append_Nil if_True simp_thms)
      have "first_del ?o t k (?E @ ?es)" by (rule first_delI[OF f ne d])
      then show ?thesis ..
    next
      case (Some a)
      then show ?thesis by (simp only: option.simps not_False_eq_True simp_thms)
    qed
  qed
  ultimately show ?thesis by (rule sp_invI[where content = content, OF o2(1) E o2(2)])
qed

section \<open>The exported operations\<close>

text \<open>All of them are a validation followed by the writes.\<close>

definition vop ::
  "('w, 'z) ext_scheme \<Rightarrow> TableSpec \<Rightarrow> Key \<Rightarrow> CVLOperation list \<Rightarrow> Value list \<Rightarrow> (txOp \<times> Value) list \<Rightarrow>
     'w st \<Rightarrow> goerr option \<times> 'w st" where
  "vop x ts key ops vals ws s =
     (case doCVL x ts ops key vals s of
        (Some e, s1) \<Rightarrow> (Some e, s1)
      | (None, s1) \<Rightarrow> writes x ts key ws s1)"

lemma writes_one [simp]: "writes x ts key [(op, v)] s = doWrite x ts op key v s"
  by (cases "doWrite x ts op key v s") (auto split: option.split)

lemma DeleteEntry_vop:
  "IsOpen (db s) \<Longrightarrow> DeleteEntry x ts key s =
     vop x ts key [OP_DELETE] [\<lparr>Flds = []\<rparr>] [(txOpDel, \<lparr>Flds = []\<rparr>)] s"
  by (auto simp: DeleteEntry_def vop_def split: prod.split option.split)

lemma ModEntry_vop:
  "IsOpen (db s) \<Longrightarrow> Flds v \<noteq> [] \<Longrightarrow> ModEntry x ts key v s = vop x ts key [OP_UPDATE] [v] [(txOpHMSet, v)] s"
  by (auto simp: ModEntry_def vop_def split: prod.split option.split)

lemma DeleteEntryFields_vop:
  "IsOpen (db s) \<Longrightarrow> DeleteEntryFields x ts key v s = vop x ts key [OP_DELETE] [v] [(txOpHDel, v)] s"
  by (auto simp: DeleteEntryFields_def vop_def split: prod.split option.split)

lemma setEntry_vop:
  assumes "Flds v \<noteq> []"
  shows "\<exists>s1 ops vals ws. setEntry x ts key v b s = vop x ts key ops vals ws s1 \<and>
    (s1 = s \<or> s1 = snd (GetEntry x ts key s)) \<and> length ops = length vals \<and>
    list_all2 matches (zip ops vals) ws \<and> ws \<noteq> [] \<and> OP_NONE \<notin> set ops"
proof -
  obtain cur e s1 where g: "(if \<not> b then GetEntry x ts key s else ((\<lparr>Flds = []\<rparr>, None), s)) = ((cur, e), s1)"
    by (metis surj_pair)
  have s1: "s1 = s \<or> s1 = snd (GetEntry x ts key s)" using g by (auto split: if_splits)
  define comp where "comp = (if \<not> b \<and> e = None then complement (Flds cur) (Flds v) [] else [])"
  have se: "setEntry x ts key v b s =
     (case (if \<not> b \<and> e = None then
                  (if length comp = 0 then doCVL x ts [OP_UPDATE] key [v] s1
                   else doCVL x ts [OP_UPDATE, OP_DELETE] key [v, \<lparr>Flds = comp\<rparr>] s1)
                else doCVL x ts [OP_CREATE] key [v] s1) of
            (Some e, s2) \<Rightarrow> (Some e, s2)
          | (None, s2) \<Rightarrow>
              (case doWrite x ts txOpHMSet key v s2 of
                 (Some e, s3) \<Rightarrow> (Some e, s3)
               | (None, s3) \<Rightarrow>
                   if length comp \<noteq> 0
                   then doWrite x ts txOpHDel key \<lparr>Flds = comp\<rparr> s3
                   else (None, s3)))"
    using assms unfolding setEntry_def g Let_def prod.case comp_def
    by (simp only: length_0_conv if_False)
  show ?thesis
  proof (cases "comp = []")
    case True
    define op where "op = (if \<not> b \<and> e = None then OP_UPDATE else OP_CREATE)"
    have "setEntry x ts key v b s = vop x ts key [op] [v] [(txOpHMSet, v)] s1"
      unfolding se True vop_def op_def by (auto intro!: prod.case_cong option.case_cong split: prod.split option.split)
    then show ?thesis using s1 by (intro exI[of _ s1] exI[of _ "[op]"] exI[of _ "[v]"]) (auto simp: op_def)
  next
    case False
    then have c: "\<not> b" "e = None" by (auto simp: comp_def split: if_splits)
    have "setEntry x ts key v b s = vop x ts key [OP_UPDATE, OP_DELETE] [v, \<lparr>Flds = comp\<rparr>]
        [(txOpHMSet, v), (txOpHDel, \<lparr>Flds = comp\<rparr>)] s1"
      unfolding se vop_def using False c by (auto split: prod.split option.split)
    then show ?thesis using s1 False
      by (intro exI[of _ s1] exI[of _ "[OP_UPDATE, OP_DELETE]"] exI[of _ "[v, \<lparr>Flds = comp\<rparr>]"]) auto
  qed
qed

lemma vop_sp:
  assumes "redis_server x content" "sp_base content sp s" "wf_name (Opts (db s)) ts key"
    "length ops = length vals" "OP_NONE \<notin> set ops" "\<forall>(op, v) \<in> set ws. op \<noteq> txOpNone"
    "vop x ts key ops vals ws s = (e, s')"
  shows "sp_base content sp s' \<and> sp_le content s s'"
proof -
  obtain e1 s1 where d: "doCVL x ts ops key vals s = (e1, s1)" by (metis surj_pair)
  note c = doCVL_sp(1)[OF assms(1,2,4,5) d]
  show ?thesis
  proof (cases e1)
    case None
    then have "writes x ts key ws s1 = (e, s')" using assms(7) d by (simp add: vop_def)
    moreover have "wf_name (Opts (db s1)) ts key" using c assms(3) by (simp add: sp_le_def)
    ultimately show ?thesis
      using writes_sp[OF assms(1) _ _ assms(6)] c sp_le_trans by blast
  next
    case (Some err)
    then show ?thesis using assms(7) d c by (simp add: vop_def)
  qed
qed

lemma vop_ok:
  assumes "redis_server x content" "sp_base content sp s" "sp_inv content s" "wf_name (Opts (db s)) ts key"
    "vop x ts key ops vals ws s = (None, s')"
    "length ops = length vals" "list_all2 matches (zip ops vals) ws" "ws \<noteq> []" "OP_NONE \<notin> set ops"
  shows "sp_inv content s'"
proof -
  obtain e1 s1 where d: "doCVL x ts ops key vals s = (e1, s1)" by (metis surj_pair)
  then have "e1 = None" "writes x ts key ws s1 = (None, s')"
    using assms(5) by (auto simp: vop_def split: option.splits)
  then show ?thesis using sp_inv_step[OF assms(1-4) _ _ assms(6-9)] d by blast
qed

lemma same_sp:
  assumes "same_tx (db s) (db s')" "same_pkg s s'"
  shows "sp_base content sp s' = sp_base content sp s" "sp_inv content s' = sp_inv content s" "sp_le content s s'"
  using assms view_cong[of "db s'" "db s"]
  by (simp_all add: sp_base_def sp_inv_def sp_le_def same_tx_def same_pkg_def in_tx_def tview_def)

text \<open>The error of an operation; a read has none that matters here.\<close>

fun edit_err :: "('w, 'z) ext_scheme \<Rightarrow> edit \<Rightarrow> 'w st \<Rightarrow> goerr option" where
  "edit_err x (ECreate ts k v) s = fst (CreateEntry x ts k v s)"
| "edit_err x (ESet ts k v) s = fst (SetEntry x ts k v s)"
| "edit_err x (EMod ts k v) s = fst (ModEntry x ts k v s)"
| "edit_err x (EDelete ts k) s = fst (DeleteEntry x ts k s)"
| "edit_err x (EDelFields ts k v) s = fst (DeleteEntryFields x ts k v s)"
| "edit_err x (EGet ts k) s = None"

fun edit_named :: "Options \<Rightarrow> edit \<Rightarrow> bool" where
  "edit_named opts (ECreate ts k v) = wf_name opts ts k"
| "edit_named opts (ESet ts k v) = wf_name opts ts k"
| "edit_named opts (EMod ts k v) = wf_name opts ts k"
| "edit_named opts (EDelete ts k) = wf_name opts ts k"
| "edit_named opts (EDelFields ts k v) = wf_name opts ts k"
| "edit_named opts (EGet ts k) = True"

text \<open>\<open>DeleteEntryFields\<close> without fields records an edit that a rollback takes for the deletion of the entry.\<close>

fun edit_fields :: "edit \<Rightarrow> bool" where
  "edit_fields (EDelFields ts k v) = (Flds v \<noteq> [])"
| "edit_fields _ = True"

lemma DeleteEntry_sp:
  assumes "redis_server x content" "sp_base content sp s" "wf_name (Opts (db s)) ts k"
    "DeleteEntry x ts k s = (e, s')"
  shows "sp_base content sp s' \<and> sp_le content s s'" "e = None \<Longrightarrow> sp_inv content s \<Longrightarrow> sp_inv content s'"
proof -
  have "sp_base content sp s' \<and> sp_le content s s' \<and> (e = None \<longrightarrow> sp_inv content s \<longrightarrow> sp_inv content s')"
  proof (cases "IsOpen (db s)")
    case True
    note v = assms(4)[unfolded DeleteEntry_vop[OF True]]
    show ?thesis using vop_sp[OF assms(1-3) _ _ _ v] vop_ok[OF assms(1,2) _ assms(3)] v by auto
  next
    case False
    then show ?thesis using assms(2,4) by (auto simp: DeleteEntry_def)
  qed
  then show "sp_base content sp s' \<and> sp_le content s s'" "e = None \<Longrightarrow> sp_inv content s \<Longrightarrow> sp_inv content s'"
    by blast+
qed

lemma setEntry_sp:
  assumes "redis_server x content" "sp_base content sp s" "wf_name (Opts (db s)) ts k"
    "setEntry x ts k v b s = (e, s')"
  shows "sp_base content sp s' \<and> sp_le content s s' \<and> (e = None \<longrightarrow> sp_inv content s \<longrightarrow> sp_inv content s')"
proof (cases "Flds v = []")
  case True
  then show ?thesis
    using assms(2,4) DeleteEntry_sp[OF assms(1-3)] by (auto simp: setEntry_def split: if_splits)
next
  case False
  obtain s1 ops vals ws where v: "setEntry x ts k v b s = vop x ts k ops vals ws s1"
    "s1 = s \<or> s1 = snd (GetEntry x ts k s)" "length ops = length vals"
    "list_all2 matches (zip ops vals) ws" "ws \<noteq> []" "OP_NONE \<notin> set ops"
    using setEntry_vop[OF False] by metis
  have st: "same_tx (db s) (db s1)" "same_pkg s s1" using v(2) by auto
  note sm = same_sp[OF st]
  have wf: "wf_name (Opts (db s1)) ts k" using assms(3) st by (simp add: same_tx_def)
  have sb: "sp_base content sp s1" using sm(1) assms(2) by simp
  have "sp_base content sp s' \<and> sp_le content s1 s'"
    by (rule vop_sp[OF assms(1) sb wf v(3,6) matches_ops[OF v(4)] assms(4)[unfolded v(1)]])
  moreover have "sp_inv content s'" if "e = None" "sp_inv content s"
    using vop_ok[OF assms(1) sb _ wf _ v(3-6)] that assms(4) v(1) sm(2) by simp
  ultimately show ?thesis using sm(3) sp_le_trans by blast
qed

lemma apply_edit_sp:
  assumes "redis_server x content" "sp_base content sp s" "edit_named (Opts (db s)) ed"
  shows "sp_base content sp (apply_edit x ed s) \<and> sp_le content s (apply_edit x ed s)"
    "edit_err x ed s = None \<Longrightarrow> edit_fields ed \<Longrightarrow> sp_inv content s \<Longrightarrow> sp_inv content (apply_edit x ed s)"
proof -
  have "sp_base content sp (apply_edit x ed s) \<and> sp_le content s (apply_edit x ed s) \<and>
    (edit_err x ed s = None \<longrightarrow> edit_fields ed \<longrightarrow> sp_inv content s \<longrightarrow> sp_inv content (apply_edit x ed s))"
  proof (cases ed)
    case (ECreate ts k v)
    then show ?thesis
      using assms(2,3) setEntry_sp[OF assms(1,2) _ prod.collapse[symmetric]] by (auto simp: CreateEntry_def)
  next
    case (ESet ts k v)
    then show ?thesis
      using assms(2,3) setEntry_sp[OF assms(1,2) _ prod.collapse[symmetric]] by (auto simp: SetEntry_def)
  next
    case (EMod ts k v)
    then have wf: "wf_name (Opts (db s)) ts k" using assms(3) by simp
    show ?thesis
    proof (cases "IsOpen (db s) \<and> Flds v \<noteq> []")
      case True
      then have m: "ModEntry x ts k v s = vop x ts k [OP_UPDATE] [v] [(txOpHMSet, v)] s"
        by (simp add: ModEntry_vop)
      show ?thesis
        using vop_sp[OF assms(1,2) wf _ _ _ prod.collapse[symmetric], of "[OP_UPDATE]" "[v]" "[(txOpHMSet, v)]"]
          vop_ok[OF assms(1,2) _ wf, of "[OP_UPDATE]" "[v]" "[(txOpHMSet, v)]" "snd (ModEntry x ts k v s)"]
        by (cases "ModEntry x ts k v s") (auto simp: EMod m)
    next
      case False
      then show ?thesis
        using assms(2) DeleteEntry_sp[OF assms(1,2) wf prod.collapse[symmetric]] by (auto simp: EMod ModEntry_def)
    qed
  next
    case (EDelete ts k)
    then show ?thesis
      using assms(3) DeleteEntry_sp[OF assms(1,2) _ prod.collapse[symmetric]] by auto
  next
    case (EDelFields ts k v)
    then have wf: "wf_name (Opts (db s)) ts k" using assms(3) by simp
    show ?thesis
    proof (cases "IsOpen (db s)")
      case True
      then have m: "DeleteEntryFields x ts k v s = vop x ts k [OP_DELETE] [v] [(txOpHDel, v)] s"
        by (simp add: DeleteEntryFields_vop)
      show ?thesis
        using vop_sp[OF assms(1,2) wf _ _ _ prod.collapse[symmetric], of "[OP_DELETE]" "[v]" "[(txOpHDel, v)]"]
          vop_ok[OF assms(1,2) _ wf, of "[OP_DELETE]" "[v]" "[(txOpHDel, v)]" "snd (DeleteEntryFields x ts k v s)"]
        by (cases "DeleteEntryFields x ts k v s") (auto simp: EDelFields m)
    next
      case False
      then show ?thesis using assms(2) by (auto simp: EDelFields DeleteEntryFields_def)
    qed
  next
    case (EGet ts k)
    have st: "same_tx (db s) (db (snd (GetEntry x ts k s)))" "same_pkg s (snd (GetEntry x ts k s))"
      by simp_all
    show ?thesis
      using assms(2) same_sp[OF st, where content = content] by (simp add: EGet)
  qed
  then show "sp_base content sp (apply_edit x ed s) \<and> sp_le content s (apply_edit x ed s)"
    "edit_err x ed s = None \<Longrightarrow> edit_fields ed \<Longrightarrow> sp_inv content s \<Longrightarrow> sp_inv content (apply_edit x ed s)"
    by blast+
qed

section \<open>The rollback\<close>

lemma rb_ops_table_ok:
  "\<forall>k \<in> set (gkeys otbl). redis2key opts (tspec otn) k \<noteq> None \<Longrightarrow> rb_ops_table opts otn tbl otbl \<noteq> None"
  by (induction otbl) (auto simp: gkeys_def Let_def)

lemma rb_ops_ok:
  "\<forall>(tn, tb) \<in> set orig. \<forall>k \<in> set (gkeys tb). redis2key opts (tspec tn) k \<noteq> None \<Longrightarrow> rb_ops opts m orig \<noteq> None"
proof (induction orig)
  case (Cons p orig)
  obtain tn tb where p: "p = (tn, tb)" by (cases p)
  show ?case
    using Cons rb_ops_table_ok[of tb opts tn] by (auto simp: p split: option.split) (metis option.distinct(1))
qed simp

definition with_edits :: "txCache \<Rightarrow> CVLEditConfigData list \<Rightarrow> 'w \<Rightarrow> 'w st \<Rightarrow> 'w st" where
  "with_edits m l w s = upd_db (\<lambda>d. d\<lparr>txTsEntryMap := m, cvlEditConfigData := l\<rparr>) (s\<lparr>world := w\<rparr>)"

lemma rb_replay_ok:
  assumes "redis_server x content"
    and "ix + n \<le> length (cvlEditConfigData (db s))"
    and "\<forall>c \<in> set (take n (drop ix (cvlEditConfigData (db s)))).
           edit_ok (Opts (db s)) c \<and> ghas (txTsEntryMap (db s)) (ce_tab (Opts (db s)) c) \<and> VType c = VALIDATE_NONE"
  shows "\<exists>e s'. rb_replay x ix n s = Some (e, s') \<and>
    (e = None \<longrightarrow>
      (\<exists>m w. content w = content (world s) \<and> s' = with_edits m (cvlEditConfigData (db s)) w s \<and>
        mview m = fold (esem (Opts (db s))) (take n (drop ix (cvlEditConfigData (db s)))) (mview (txTsEntryMap (db s))) \<and>
        (\<forall>t k. tx_get m t k = None \<longleftrightarrow> tx_get (txTsEntryMap (db s)) t k = None \<and>
           filter (touches (Opts (db s)) t k) (take n (drop ix (cvlEditConfigData (db s)))) = []) \<and>
        (\<forall>t. ghas (txTsEntryMap (db s)) t \<longrightarrow> ghas m t)))"
  using assms(2,3)
proof (induction n arbitrary: ix s)
  case 0
  have "with_edits (txTsEntryMap (db s)) (cvlEditConfigData (db s)) (world s) s = s"
    by (simp add: with_edits_def upd_db_def)
  then show ?case by (auto intro!: exI[of _ "txTsEntryMap (db s)"] exI[of _ "world s"])
next
  case (Suc n)
  let ?l = "cvlEditConfigData (db s)" and ?o = "Opts (db s)"
  have ix: "ix < length ?l" using Suc.prems(1) by simp
  let ?c = "?l ! ix"
  have dr: "take (Suc n) (drop ix ?l) = ?c # take n (drop (Suc ix) ?l)"
    using ix by (simp add: Cons_nth_drop_Suc[symmetric])
  have c: "edit_ok ?o ?c" "ghas (txTsEntryMap (db s)) (ce_tab ?o ?c)" "VType ?c = VALIDATE_NONE"
    using Suc.prems(2) by (simp_all add: dr)
  let ?l1 = "?l[ix := ?c\<lparr>VType := VALIDATE_ALL\<rparr>]"
  let ?s1 = "upd_db (\<lambda>d. d\<lparr>cvlEditConfigData := ?l1\<rparr>) s"
  obtain w ret cei where v: "x_cvl_validate x (world ?s1) (db ?s1) (db_cv (db ?s1)) (take (Suc ix) ?l1) = (w, ret, cei)"
    by (metis surj_pair)
  have cw: "content w = content (world s)" using redis_server_E(4)[OF assms(1) v] by simp
  have restored: "?l1[ix := (?l1 ! ix)\<lparr>VType := VALIDATE_NONE\<rparr>] = ?l"
  proof -
    have "?c\<lparr>VType := VALIDATE_NONE\<rparr> = ?c" using c(3) by simp
    then show ?thesis using ix by simp
  qed
  have c1: "edit_ok ?o (?l1 ! ix)" "ghas (txTsEntryMap (db s)) (ce_tab ?o (?l1 ! ix))"
    using c(1,2) ix by (simp_all add: edit_ok_def ce_tab_def)
  obtain m1 where m1: "rb_apply ?o (?l1 ! ix) (txTsEntryMap (db s)) = Some m1"
    "mview m1 = esem ?o (?l1 ! ix) (mview (txTsEntryMap (db s)))"
    "\<And>t k. tx_get m1 t k = None \<longleftrightarrow> tx_get (txTsEntryMap (db s)) t k = None \<and> \<not> touches ?o t k (?l1 ! ix)"
    "\<And>t. ghas (txTsEntryMap (db s)) t \<Longrightarrow> ghas m1 t"
    using rb_apply_ok[OF c1] by blast
  show ?case
  proof (cases "ret = CVL_SUCCESS")
    case False
    then show ?thesis using ix v by (simp add: Let_def)
  next
    case True
    let ?s2 = "with_edits m1 ?l w s"
    have st: "rb_replay x ix (Suc n) s = rb_replay x (Suc ix) n ?s2"
    proof -
      have "upd_db (\<lambda>d. d\<lparr>txTsEntryMap := m1, cvlEditConfigData := ?l1[ix := (?l1 ! ix)\<lparr>VType := VALIDATE_NONE\<rparr>]\<rparr>)
          (?s1\<lparr>world := w\<rparr>) = ?s2"
        unfolding restored by (simp add: with_edits_def upd_db_def)
      then show ?thesis using ix v True m1(1) by (simp add: Let_def)
    qed
    have d2: "Opts (db ?s2) = ?o" "cvlEditConfigData (db ?s2) = ?l" "txTsEntryMap (db ?s2) = m1" "world ?s2 = w"
      by (simp_all add: with_edits_def)
    have "\<forall>c \<in> set (take n (drop (Suc ix) ?l)). edit_ok ?o c \<and> ghas m1 (ce_tab ?o c) \<and> VType c = VALIDATE_NONE"
      using Suc.prems(2) m1(4) unfolding dr by auto
    then obtain e s' where r: "rb_replay x (Suc ix) n ?s2 = Some (e, s')"
      "e = None \<longrightarrow> (\<exists>m w'. content w' = content w \<and> s' = with_edits m ?l w' ?s2 \<and>
        mview m = fold (esem ?o) (take n (drop (Suc ix) ?l)) (mview m1) \<and>
        (\<forall>t k. tx_get m t k = None \<longleftrightarrow> tx_get m1 t k = None \<and>
           filter (touches ?o t k) (take n (drop (Suc ix) ?l)) = []) \<and>
        (\<forall>t. ghas m1 t \<longrightarrow> ghas m t))"
      using Suc.IH[of "Suc ix" ?s2] Suc.prems(1) unfolding d2 by auto
    have tc: "touches ?o t k (?l1 ! ix) = touches ?o t k ?c" "esem ?o (?l1 ! ix) = esem ?o ?c" for t k
      using ix by simp_all
    have "\<exists>m w. content w = content (world s) \<and> s' = with_edits m ?l w s \<and>
        mview m = fold (esem ?o) (take (Suc n) (drop ix ?l)) (mview (txTsEntryMap (db s))) \<and>
        (\<forall>t k. tx_get m t k = None \<longleftrightarrow> tx_get (txTsEntryMap (db s)) t k = None \<and>
           filter (touches ?o t k) (take (Suc n) (drop ix ?l)) = []) \<and>
        (\<forall>t. ghas (txTsEntryMap (db s)) t \<longrightarrow> ghas m t)" if "e = None"
    proof -
      from that obtain m w' where mw: "content w' = content w" "s' = with_edits m ?l w' ?s2"
        "mview m = fold (esem ?o) (take n (drop (Suc ix) ?l)) (mview m1)"
        "\<And>t k. tx_get m t k = None \<longleftrightarrow> tx_get m1 t k = None \<and>
           filter (touches ?o t k) (take n (drop (Suc ix) ?l)) = []"
        "\<And>t. ghas m1 t \<Longrightarrow> ghas m t"
        using r(2) by blast
      have "content w' = content (world s)" using mw(1) cw by simp
      moreover have "s' = with_edits m ?l w' s" using mw(2) by (simp add: with_edits_def upd_db_def)
      moreover have "mview m = fold (esem ?o) (take (Suc n) (drop ix ?l)) (mview (txTsEntryMap (db s)))"
        unfolding dr using mw(3) m1(2) tc by simp
      moreover have "tx_get m t k = None \<longleftrightarrow> tx_get (txTsEntryMap (db s)) t k = None \<and>
          filter (touches ?o t k) (take (Suc n) (drop ix ?l)) = []" for t k
        unfolding dr using mw(4) m1(3) tc by auto
      moreover have "ghas m t" if "ghas (txTsEntryMap (db s)) t" for t using that mw(5) m1(4) by blast
      ultimately show ?thesis by blast
    qed
    then show ?thesis using st r(1) by (metis (no_types, lifting))
  qed
qed

lemma with_edits_sel [simp]:
  "Opts (db (with_edits m l w s)) = Opts (db s)" "cvlEditConfigData (db (with_edits m l w s)) = l"
  "txTsEntryMap (db (with_edits m l w s)) = m" "world (with_edits m l w s) = w"
  "txTsEntryHGetAll (db (with_edits m l w s)) = txTsEntryHGetAll (db s)"
  "txCmds (db (with_edits m l w s)) = txCmds (db s)"
  "savePoint (with_edits m l w s) = savePoint s" "tx_state (db (with_edits m l w s)) = tx_state (db s)"
  "db_client (db (with_edits m l w s)) = db_client (db s)" "db_cv (db (with_edits m l w s)) = db_cv (db s)"
  by (simp_all add: with_edits_def)

text \<open>
  The edits up to the savepoint are validated again, in a new validation session, and
  applied to the rebuilt cache.
\<close>

lemma rb_cvl_ok:
  assumes "redis_server x content" "cvlEditConfigData (db s) = es @ rest" "length es = cECDLen sp"
    and "\<forall>c \<in> set es. edit_ok (Opts (db s)) c \<and> ghas (txTsEntryMap (db s)) (ce_tab (Opts (db s)) c) \<and>
          VType c = VALIDATE_NONE"
    and "db_cv (db s) \<noteq> None"
  shows "\<exists>e s'. rb_cvl x sp s = Some (e, s') \<and>
    (e = None \<longrightarrow>
      (\<exists>m w c. content w = content (world s) \<and>
        s' = with_edits m es w (upd_db (\<lambda>d. d\<lparr>db_cv := Some c\<rparr>) s) \<and>
        mview m = fold (esem (Opts (db s))) es (mview (txTsEntryMap (db s))) \<and>
        (\<forall>t k. tx_get m t k = None \<longleftrightarrow> tx_get (txTsEntryMap (db s)) t k = None \<and>
           filter (touches (Opts (db s)) t k) es = []) \<and>
        (\<forall>t. ghas (txTsEntryMap (db s)) t \<longrightarrow> ghas m t)))"
proof -
  obtain cv where cv: "db_cv (db s) = Some cv" using assms(5) by blast
  obtain w1 ret where cl: "x_cvl_close x (world s) cv = (w1, ret)" by (metis surj_pair)
  have w1: "content w1 = content (world s)" using assms(1) cl by (metis fst_conv redis_server_def)
  let ?s1 = "s\<lparr>world := w1\<rparr>"
  obtain nv s2 where n: "NewValidationSession x ?s1 = (nv, s2)" by (metis surj_pair)
  have s2: "\<exists>w2. s2 = s\<lparr>world := w2\<rparr> \<and> content w2 = content (world s)"
  proof (cases "DBNo (Opts (db s)) = ConfigDB")
    case True
    obtain w2 r where o: "x_cvl_open x w1 (db s) = (w2, r)" by (metis surj_pair)
    have "content w2 = content w1" using assms(1) o by (metis fst_conv redis_server_def)
    then show ?thesis using n True o w1
      by (intro exI[of _ w2]) (simp add: NewValidationSession_def split: sum.splits)
  next
    case False
    then show ?thesis using n w1 by (auto simp: NewValidationSession_def)
  qed
  then obtain w2 where w2: "s2 = s\<lparr>world := w2\<rparr>" "content w2 = content (world s)" by blast
  show ?thesis
  proof (cases "ret = CVL_SUCCESS")
    case False
    then show ?thesis by (simp add: rb_cvl_def cv cl)
  next
    case True
    show ?thesis
    proof (cases nv)
      case (Inl e)
      then show ?thesis using True by (simp add: rb_cvl_def cv cl n)
    next
      case (Inr c)
      let ?s3 = "upd_db (\<lambda>d. d\<lparr>db_cv := Some c\<rparr>) s2"
      have q: "Opts (db ?s3) = Opts (db s)" "cvlEditConfigData (db ?s3) = es @ rest"
        "txTsEntryMap (db ?s3) = txTsEntryMap (db s)" "world ?s3 = w2"
        "take (cECDLen sp) (drop 0 (es @ rest)) = es" "0 + cECDLen sp \<le> length (es @ rest)"
        using assms(2,3) by (simp_all add: w2(1))
      note r0 = rb_replay_ok[OF assms(1), of 0 "cECDLen sp" ?s3, unfolded q(1-5), OF q(6) assms(4)]
      then obtain e s' where r: "rb_replay x 0 (cECDLen sp) ?s3 = Some (e, s')"
        "e = None \<longrightarrow> (\<exists>m w. content w = content w2 \<and> s' = with_edits m (es @ rest) w ?s3 \<and>
          mview m = fold (esem (Opts (db s))) es (mview (txTsEntryMap (db s))) \<and>
          (\<forall>t k. tx_get m t k = None \<longleftrightarrow> tx_get (txTsEntryMap (db s)) t k = None \<and>
             filter (touches (Opts (db s)) t k) es = []) \<and>
          (\<forall>t. ghas (txTsEntryMap (db s)) t \<longrightarrow> ghas m t))" by blast
      have u: "rb_cvl x sp s = (case e of Some e' \<Rightarrow> Some (Some e', s') | None \<Rightarrow>
          if cECDLen sp > length (cvlEditConfigData (db s')) then None
          else Some (None, upd_db (\<lambda>d. d\<lparr>cvlEditConfigData := take (cECDLen sp) (cvlEditConfigData d)\<rparr>) s'))"
        using True r(1) by (simp add: rb_cvl_def cv cl n Inr split: option.split)
      show ?thesis
      proof (cases e)
        case (Some e')
        then show ?thesis using u by simp
      next
        case None
        then obtain m w where m: "content w = content w2" "s' = with_edits m (es @ rest) w ?s3"
          "mview m = fold (esem (Opts (db s))) es (mview (txTsEntryMap (db s)))"
          "\<forall>t k. tx_get m t k = None \<longleftrightarrow> tx_get (txTsEntryMap (db s)) t k = None \<and>
             filter (touches (Opts (db s)) t k) es = []"
          "\<forall>t. ghas (txTsEntryMap (db s)) t \<longrightarrow> ghas m t" using r(2) by blast
        have "upd_db (\<lambda>d. d\<lparr>cvlEditConfigData := take (cECDLen sp) (cvlEditConfigData d)\<rparr>) s' =
            with_edits m es w (upd_db (\<lambda>d. d\<lparr>db_cv := Some c\<rparr>) s)"
          using assms(3) by (simp add: m(2) w2(1) with_edits_def upd_db_def)
        moreover have "\<not> cECDLen sp > length (cvlEditConfigData (db s'))" using assms(3) by (simp add: m(2))
        ultimately have "rb_cvl x sp s = Some (None, with_edits m es w (upd_db (\<lambda>d. d\<lparr>db_cv := Some c\<rparr>) s))"
          by (simp add: u None)
        moreover have "content w = content (world s)" using m(1) w2(2) by simp
        ultimately show ?thesis using m(3-5) by blast
      qed
    qed
  qed
qed

end
