(* ===== verification/DB_Restore.thy ===== *)
theory DB_Restore
  imports DB_Rollback
begin

text \<open>
  A rollback to a savepoint (\<open>db_savepoint.go\<close>, \<open>Rollback2SP\<close>): it never panics in a
  session whose cache is sound, and when it succeeds the transaction sees exactly the
  database that it saw when the savepoint was declared.
\<close>

section \<open>Where a savepoint may be declared\<close>

text \<open>
  A session whose transaction is in progress, with its validation session open, and
  whose records (HGETALL results and edits) describe its view.
\<close>

definition sp_ready :: "('w \<Rightarrow> string \<Rightarrow> fields) \<Rightarrow> 'w st \<Rightarrow> bool" where
  "sp_ready content s \<longleftrightarrow>
     IsSession (Opts (db s)) \<and> in_tx (db s) \<and> \<not> DisableCVLCheck (Opts (db s)) \<and>
     (\<forall>k. gok (content (world s) k)) \<and> db_cv (db s) \<noteq> None \<and>
     gok (txTsEntryHGetAll (db s)) \<and>
     (\<forall>(tn, tb) \<in> set (txTsEntryHGetAll (db s)). gok tb \<and> ghas (txTsEntryMap (db s)) tn) \<and>
     (\<forall>t k v. tx_get (txTsEntryHGetAll (db s)) t k = Some v \<longrightarrow> Flds v = content (world s) k) \<and>
     sp_inv content s"

lemma DeclareSP_base:
  assumes "sp_ready content s" "savePoint s = None"
  shows "fst (DeclareSP s) = None"
    "sp_base content \<lparr>txCmdsLen = length (txCmds (db s)), cECDLen = length (cvlEditConfigData (db s)),
        txTsOrigEntryMap = [], cHints = []\<rparr> (snd (DeclareSP s))"
    "sp_inv content (snd (DeclareSP s))" "db (snd (DeclareSP s)) = db s" "world (snd (DeclareSP s)) = world s"
  using assms by (auto simp: sp_ready_def DeclareSP_def sp_base_def orig_ok_def sp_inv_def Let_def tview_def)

section \<open>The state after a rollback\<close>

lemma Rollback2SP_ok:
  assumes "redis_server x content" "sp_base content sp s" "db_cv (db s) \<noteq> None"
    and "cvlEditConfigData (db s) = es @ rest" "length es = cECDLen sp"
    and "txCmds (db s) = cs @ crest" "length cs = txCmdsLen sp"
    and "\<forall>c \<in> set es. edit_ok (Opts (db s)) c \<and> ghas (txTsEntryMap (db s)) (ce_tab (Opts (db s)) c) \<and>
          VType c = VALIDATE_NONE"
    and "\<And>t k. filter (touches (Opts (db s)) t k) es \<noteq> [] \<Longrightarrow>
          tx_get (txTsEntryHGetAll (db s)) t k \<noteq> None \<or> first_del (Opts (db s)) t k es"
  shows "\<exists>e s'. Rollback2SP x s = Some (e, s') \<and> savePoint s' = None \<and>
    (e = None \<longrightarrow>
       tview content s' = fold (esem (Opts (db s))) es (\<lambda>t. content (world s)) \<and>
       content (world s') = content (world s) \<and> Opts (db s') = Opts (db s) \<and>
       txCmds (db s') = cs \<and> cvlEditConfigData (db s') = es \<and> sp_ready content s')"
proof -
  let ?o = "Opts (db s)" and ?h = "txTsEntryHGetAll (db s)"
  obtain sp' where sp': "savePoint s = Some sp'" "txCmdsLen sp' = txCmdsLen sp" "cECDLen sp' = cECDLen sp"
    "orig_ok ?o sp'" using assms(2) by (auto simp: sp_base_def)
  have b: "IsSession ?o" "in_tx (db s)" "\<not> DisableCVLCheck ?o" "\<And>k. gok (content (world s) k)" "gok ?h"
    "\<forall>(tn, tb) \<in> set ?h. gok tb \<and> ghas (txTsEntryMap (db s)) tn"
    "\<And>t k v. tx_get ?h t k = Some v \<Longrightarrow> Flds v = content (world s) k"
    using assms(2) by (auto simp: sp_base_def)
  obtain ops where ops: "rb_ops ?o (txTsEntryMap (db s)) (txTsOrigEntryMap sp') = Some ops"
    using rb_ops_ok[of "txTsOrigEntryMap sp'" ?o "txTsEntryMap (db s)"] sp'(4) by (auto simp: orig_ok_def)
  obtain m where m: "rb_fill ?h (rb_clear (txTsEntryMap (db s)), ?h) = Some (m, ?h)"
    "\<And>t k. tx_get m t k = (case tx_get ?h t k of Some v \<Rightarrow> Some (Value_Copy v) | None \<Rightarrow> None)"
    "\<And>t. ghas m t \<longleftrightarrow> ghas (txTsEntryMap (db s)) t"
    using rb_fill_ok[OF b(5), of "rb_clear (txTsEntryMap (db s))" ?h, unfolded tx_get_rb_clear ghas_rb_clear]
      b(6) by blast
  let ?s1 = "upd_db (\<lambda>d. d\<lparr>txCmds := take (txCmdsLen sp') (txCmds d), txTsEntryMap := m, txTsEntryHGetAll := ?h\<rparr>) s"
  have es: "\<forall>c \<in> set es. edit_ok ?o c \<and> ghas m (ce_tab ?o c) \<and> VType c = VALIDATE_NONE"
    using assms(8) m(3) by simp
  have q: "cvlEditConfigData (db ?s1) = es @ rest" "length es = cECDLen sp'" "Opts (db ?s1) = ?o"
    "txTsEntryMap (db ?s1) = m" "db_cv (db ?s1) = db_cv (db s)" "world ?s1 = world s"
    using assms(4,5) sp'(3) by simp_all
  from rb_cvl_ok[OF assms(1) q(1,2), unfolded q(3-6), OF es assms(3)]
  obtain e s2 where r: "rb_cvl x sp' ?s1 = Some (e, s2)"
    "e = None \<longrightarrow> (\<exists>m' w c. content w = content (world s) \<and>
        s2 = with_edits m' es w (upd_db (\<lambda>d. d\<lparr>db_cv := Some c\<rparr>) ?s1) \<and>
        mview m' = fold (esem ?o) es (mview m) \<and>
        (\<forall>t k. tx_get m' t k = None \<longleftrightarrow> tx_get m t k = None \<and> filter (touches ?o t k) es = []) \<and>
        (\<forall>t. ghas m t \<longrightarrow> ghas m' t))"
    by blast
  let ?s3 = "if e \<noteq> None then upd_db (\<lambda>d. d\<lparr>db_err := e\<rparr>) s2 else s2"
  let ?s' = "(upd_db (\<lambda>d. d\<lparr>db_cache := \<lparr>cTables = [], cMaps = []\<rparr>\<rparr>) (rb_notify ops ?s3))\<lparr>savePoint := None\<rparr>"
  have R: "Rollback2SP x s = Some (e, ?s')"
    using b(1) sp'(1,2) ops m(1) r(1) assms(6,7) by (simp add: Rollback2SP_def Let_def)
  have "tview content ?s' = fold (esem ?o) es (\<lambda>t. content (world s)) \<and>
       content (world ?s') = content (world s) \<and> Opts (db ?s') = ?o \<and>
       txCmds (db ?s') = cs \<and> cvlEditConfigData (db ?s') = es \<and> sp_ready content ?s'" if e: "e = None"
  proof -
    obtain m' w c where m': "content w = content (world s)"
        "s2 = with_edits m' es w (upd_db (\<lambda>d. d\<lparr>db_cv := Some c\<rparr>) ?s1)"
        "mview m' = fold (esem ?o) es (mview m)"
        "\<And>t k. tx_get m' t k = None \<longleftrightarrow> tx_get m t k = None \<and> filter (touches ?o t k) es = []"
        "\<And>t. ghas m t \<Longrightarrow> ghas m' t" using r(2) e by blast
    have W: "world ?s' = w" using e by (simp add: m'(2))
    have D: "Opts (db ?s') = ?o" "cvlEditConfigData (db ?s') = es" "txTsEntryMap (db ?s') = m'"
      "txTsEntryHGetAll (db ?s') = ?h" "txCmds (db ?s') = cs" "tx_state (db ?s') = tx_state (db s)"
      "db_client (db ?s') = db_client (db s)" "db_cv (db ?s') = Some c"
      using e assms(6,7) sp'(2) by (simp_all add: m'(2))
    have C: "content (world ?s') = content (world s)" using W m'(1) by simp
    have N: "tx_get m' t k = None \<longleftrightarrow> tx_get ?h t k = None \<and> filter (touches ?o t k) es = []" for t k
      using m'(4)[of t k] m(2)[of t k] by (auto split: option.splits)
    have VC: "Value_Copy v = v" if "tx_get ?h t k = Some v" for t k v
      using b(4)[of k] b(7)[OF that] by (simp add: Value_Copy_ok)
    have B: "mview m = (\<lambda>t k. case tx_get ?h t k of None \<Rightarrow> [] | Some v \<Rightarrow> Flds v)"
      by (intro ext) (simp add: mview_def m(2) VC split: option.split)
    have V: "tview content ?s' = fold (esem ?o) es (\<lambda>t. content (world s))"
      unfolding tview_def C by (rule rebuilt_view[OF N m'(3)[unfolded B] b(7) assms(9) D(3)])
    have I: "sp_inv content ?s'"
    proof (rule sp_invI[where content = content, OF D(1,2) C V[symmetric]])
      show "edit_ok ?o c1 \<and> ghas (txTsEntryMap (db ?s')) (ce_tab ?o c1) \<and> VType c1 = VALIDATE_NONE"
        if "c1 \<in> set es" for c1 unfolding D(3) using es that m'(5) by blast
      show "tx_get (txTsEntryHGetAll (db ?s')) t k \<noteq> None \<or> filter (touches ?o t k) es \<noteq> []"
        if "tx_get (txTsEntryMap (db ?s')) t k \<noteq> None" for t k
        using that N unfolding D(3,4) by (cases "tx_get ?h t k") simp_all
      show "tx_get (txTsEntryHGetAll (db ?s')) t k \<noteq> None \<or> first_del ?o t k es"
        if "filter (touches ?o t k) es \<noteq> []" for t k
        unfolding D(4) by (rule assms(9)[OF that])
    qed
    have g: "\<forall>(tn, tb) \<in> set ?h. gok tb \<and> ghas m' tn" using b(6) m(3) m'(5) by blast
    have t: "in_tx (db ?s')" using b(2) unfolding in_tx_def D .
    have "sp_ready content ?s'"
      using I t g b(1,3-5,7) unfolding sp_ready_def C unfolding D by blast
    then show ?thesis using V C D by blast
  qed
  then show ?thesis using R by auto
qed

section \<open>Whole sessions\<close>

lemma edits_sp:
  assumes "redis_server x content" "sp_base content sp s" "\<forall>ed \<in> set eds. edit_named (Opts (db s)) ed"
  shows "sp_base content sp (fold (apply_edit x) eds s) \<and> sp_le content s (fold (apply_edit x) eds s)"
  using assms(2,3)
proof (induction eds arbitrary: s)
  case (Cons ed eds)
  let ?s = "apply_edit x ed s"
  have a: "sp_base content sp ?s" "sp_le content s ?s"
    using apply_edit_sp(1)[OF assms(1) Cons.prems(1)] Cons.prems(2) by simp_all
  then have "Opts (db ?s) = Opts (db s)" by (simp add: sp_le_def)
  then have "sp_base content sp (fold (apply_edit x) eds ?s) \<and> sp_le content ?s (fold (apply_edit x) eds ?s)"
    using Cons.IH[OF a(1)] Cons.prems(2) by simp
  then show ?case using a(2) sp_le_trans by auto
qed simp

fun edits_ok :: "('w, 'z) ext_scheme \<Rightarrow> edit list \<Rightarrow> 'w st \<Rightarrow> bool" where
  "edits_ok x [] s = True"
| "edits_ok x (ed # eds) s =
     (edit_named (Opts (db s)) ed \<and> edit_fields ed \<and> edit_err x ed s = None \<and> edits_ok x eds (apply_edit x ed s))"

lemma edits_ok_inv:
  assumes "redis_server x content" "sp_base content sp s" "sp_inv content s" "edits_ok x eds s"
  shows "sp_base content sp (fold (apply_edit x) eds s) \<and> sp_inv content (fold (apply_edit x) eds s) \<and>
     sp_le content s (fold (apply_edit x) eds s)"
  using assms(2-4)
proof (induction eds arbitrary: s)
  case (Cons ed eds)
  let ?s = "apply_edit x ed s"
  have a: "sp_base content sp ?s" "sp_le content s ?s" "sp_inv content ?s"
    using apply_edit_sp[OF assms(1) Cons.prems(1), of ed] Cons.prems(2,3) by simp_all
  then show ?case using Cons.IH[OF a(1,3)] Cons.prems(3) sp_le_trans by auto
qed simp

lemma ready_of_base:
  assumes "sp_base content sp s" "sp_inv content s" "db_cv (db s) \<noteq> None"
  shows "sp_ready content (s\<lparr>savePoint := p\<rparr>)"
  using assms by (auto simp: sp_ready_def sp_base_def sp_inv_def Let_def tview_def)

lemma rollback_restores:
  assumes "redis_server x content" "sp_ready content s" "savePoint s = None"
    and "\<forall>ed \<in> set eds. edit_named (Opts (db s)) ed"
  shows "\<exists>e s2. Rollback2SP x (fold (apply_edit x) eds (snd (DeclareSP s))) = Some (e, s2) \<and>
     savePoint s2 = None \<and>
     (e = None \<longrightarrow> tview content s2 = tview content s \<and> txCmds (db s2) = txCmds (db s) \<and>
        cvlEditConfigData (db s2) = cvlEditConfigData (db s) \<and> sp_ready content s2)"
proof -
  let ?d = "snd (DeclareSP s)" and ?s = "fold (apply_edit x) eds (snd (DeclareSP s))"
  let ?sp = "\<lparr>txCmdsLen = length (txCmds (db s)), cECDLen = length (cvlEditConfigData (db s)),
        txTsOrigEntryMap = [], cHints = []\<rparr>"
  note d = DeclareSP_base[OF assms(2,3)]
  have e: "sp_base content ?sp ?s" "sp_le content ?d ?s"
    using edits_sp[OF assms(1) d(2)] assms(4) d(4) by simp_all
  obtain er cr where r: "cvlEditConfigData (db ?s) = cvlEditConfigData (db s) @ er"
    "txCmds (db ?s) = txCmds (db s) @ cr" using e(2)[unfolded sp_le_def d(4)] by blast
  have o: "Opts (db ?s) = Opts (db s)" "content (world ?s) = content (world s)" "db_cv (db ?s) = db_cv (db s)"
    "\<And>t. ghas (txTsEntryMap (db s)) t \<Longrightarrow> ghas (txTsEntryMap (db ?s)) t"
    "\<And>t k. tx_get (txTsEntryHGetAll (db s)) t k \<noteq> None \<Longrightarrow> tx_get (txTsEntryHGetAll (db ?s)) t k \<noteq> None"
    using e(2) d(4,5) by (simp_all add: sp_le_def)
  have i: "fold (esem (Opts (db s))) (cvlEditConfigData (db s)) (\<lambda>t. content (world s)) = tview content s"
    "\<forall>c \<in> set (cvlEditConfigData (db s)). edit_ok (Opts (db s)) c \<and>
       ghas (txTsEntryMap (db s)) (ce_tab (Opts (db s)) c) \<and> VType c = VALIDATE_NONE"
    "\<And>t k. filter (touches (Opts (db s)) t k) (cvlEditConfigData (db s)) \<noteq> [] \<Longrightarrow>
        tx_get (txTsEntryHGetAll (db s)) t k \<noteq> None \<or> first_del (Opts (db s)) t k (cvlEditConfigData (db s))"
    using assms(2) by (auto simp: sp_ready_def sp_inv_def Let_def)
  have cv: "db_cv (db ?s) \<noteq> None" using assms(2) o(3) by (simp add: sp_ready_def)
  have c: "\<forall>c \<in> set (cvlEditConfigData (db s)). edit_ok (Opts (db ?s)) c \<and>
       ghas (txTsEntryMap (db ?s)) (ce_tab (Opts (db ?s)) c) \<and> VType c = VALIDATE_NONE"
    using i(2) o(4) unfolding o(1) by blast
  have "\<And>t k. filter (touches (Opts (db ?s)) t k) (cvlEditConfigData (db s)) \<noteq> [] \<Longrightarrow>
        tx_get (txTsEntryHGetAll (db ?s)) t k \<noteq> None \<or>
        first_del (Opts (db ?s)) t k (cvlEditConfigData (db s))"
    using i(3) o(5) unfolding o(1) by blast
  from Rollback2SP_ok[OF assms(1) e(1) cv r(1) _ r(2) _ c this]
  show ?thesis unfolding o(1,2) i(1) by fastforce
qed

text \<open>
  The states of a session between its operations on savepoints: it starts with an empty
  transaction; successful edits followed by a release keep it ready, and so does a
  rollback that succeeds, whatever the edits that it takes back.
\<close>

inductive sp_reach :: "('w, 'z) ext_scheme \<Rightarrow> ('w \<Rightarrow> string \<Rightarrow> fields) \<Rightarrow> 'w st \<Rightarrow> bool"
  for x content where
  start: "IsSession (Opts (db s)) \<Longrightarrow> in_tx (db s) \<Longrightarrow> \<not> DisableCVLCheck (Opts (db s)) \<Longrightarrow>
     (\<forall>k. gok (content (world s) k)) \<Longrightarrow> db_cv (db s) \<noteq> None \<Longrightarrow> savePoint s = None \<Longrightarrow>
     txTsEntryMap (db s) = [] \<Longrightarrow> txTsEntryHGetAll (db s) = [] \<Longrightarrow> cvlEditConfigData (db s) = [] \<Longrightarrow>
     sp_reach x content s"
| released: "sp_reach x content s \<Longrightarrow> edits_ok x eds (snd (DeclareSP s)) \<Longrightarrow>
     sp_reach x content (snd (ReleaseSP (fold (apply_edit x) eds (snd (DeclareSP s)))))"
| rolled_back: "sp_reach x content s \<Longrightarrow> (\<forall>ed \<in> set eds. edit_named (Opts (db s)) ed) \<Longrightarrow>
     Rollback2SP x (fold (apply_edit x) eds (snd (DeclareSP s))) = Some (None, s') \<Longrightarrow>
     sp_reach x content s'"

lemma tx_get_empty [simp]: "tx_get [] t k = None"
  by (simp add: tx_get_def)

lemma ready_empty:
  assumes "IsSession (Opts (db s))" "in_tx (db s)" "\<not> DisableCVLCheck (Opts (db s))"
    and "\<forall>k. gok (content (world s) k)" "db_cv (db s) \<noteq> None"
    and "txTsEntryMap (db s) = []" "txTsEntryHGetAll (db s) = []" "cvlEditConfigData (db s) = []"
  shows "sp_ready content s"
proof -
  have "tview content s = (\<lambda>t. content (world s))"
    by (intro ext) (simp add: tview_def view_def assms(6))
  then have "sp_inv content s" by (simp add: sp_inv_def assms(6-8))
  then show ?thesis using assms by (auto simp: sp_ready_def)
qed

lemma sp_reach_ready:
  assumes "redis_server x content" "sp_reach x content s"
  shows "sp_ready content s \<and> savePoint s = None"
  using assms(2)
proof (induction rule: sp_reach.induct)
  case (start s)
  then show ?case by (intro conjI ready_empty)
next
  case (released s eds)
  let ?s = "fold (apply_edit x) eds (snd (DeclareSP s))"
  note r = conjunct1[OF released.IH] conjunct2[OF released.IH]
  note d = DeclareSP_base[OF r]
  obtain sp where e: "sp_base content sp ?s" "sp_inv content ?s" "sp_le content (snd (DeclareSP s)) ?s"
    using edits_ok_inv[OF assms(1) d(2,3) released.hyps(2)] by blast
  have "db_cv (db ?s) \<noteq> None" using e(3) d(4) r(1) by (simp add: sp_le_def sp_ready_def)
  from ready_of_base[OF e(1,2) this, of None] show ?case
    using e(1) by (auto simp: ReleaseSP_def sp_base_def)
next
  case (rolled_back s eds s')
  note r = conjunct1[OF rolled_back.IH] conjunct2[OF rolled_back.IH]
  show ?case using rollback_restores[OF assms(1) r rolled_back.hyps(2)] rolled_back.hyps(3) by auto
qed

end
