(* ===== verification/CS_Types.thy ===== *)
theory CS_Types
  imports DB_Restore
begin

text \<open>
  Configuration sessions (\<open>translib/cs\<close>): the session, the status values and data stores,
  the state of the package and what it calls.  The one session of the process is the
  variable \<open>uCS\<close>; a \<open>Session\<close> is a copy of it that a request works with.
\<close>

section \<open>Status values (\<open>cs_status.go\<close>)\<close>

datatype ErrTag =
    ErrTagNone | ErrTagNameNotFound | ErrTagTokenNotFound | ErrTagInvalidUser | ErrTagInvalidTerminal
  | ErrTagActive | ErrTagNotActive | ErrTagInvalidState | ErrTagUnknown

text \<open>\<open>ErrTagNone\<close> is the empty tag, \<open>CsStatusNil\<close> the nil status.\<close>

datatype CsStatus =
    CsStatusNil
  | CsStatusCreatedSession
  | CsStatusResumedSession
  | CsStatusSuccess
  | CsStatusInvalidSession ErrTag
  | CsStatusNotAllowed
  | CsStatusCommitFailure goerr
  | CsStatusCommitWarning "goerr option" "goerr option"
  | CsStatusCommitSuccess
  | CsStatusAbortWarning goerr
  | CsStatusInternalError "goerr option"

text \<open>An error value is either a status that is an error itself, or one of \<open>tlerr\<close>.\<close>

datatype cs_error = ErrStatus CsStatus | ErrValue goerr

definition Err2CsStatus :: "cs_error option \<Rightarrow> CsStatus" where
  "Err2CsStatus err =
     (case err of
        None \<Rightarrow> CsStatusSuccess
      | Some (ErrStatus st) \<Rightarrow> st
      | Some (ErrValue TranslibInvalidSession) \<Rightarrow> CsStatusInvalidSession ErrTagUnknown
      | Some (ErrValue e) \<Rightarrow> CsStatusInternalError (Some e))"

section \<open>Data stores (\<open>cs_ds.go\<close>)\<close>

datatype DSType = DSRunning | DSCandidate | DSCheckpoint | DSFile

record DataStore =
  ds_Type :: DSType
  ds_Label :: string

definition DataStore_Token :: "DataStore \<Rightarrow> string" where
  "DataStore_Token ds = (case ds_Type ds of DSCandidate \<Rightarrow> ds_Label ds | _ \<Rightarrow> [])"

section \<open>The session (\<open>cs.go\<close>)\<close>

datatype configSessionState =
    cs_STATE_None | cs_STATE_SUSPENDED | cs_STATE_ACTIVE | cs_STATE_CONFIRM_TIMER | cs_STATE_ROLLBACK_REPLACE

definition ccDbTxCmdsLim :: int where "ccDbTxCmdsLim = 10000"

text \<open>
  The connection, the timer and the channel are pointers: numbers of objects, \<open>None\<close> for
  nil.  Times are in nanoseconds, 0 for the zero time.
\<close>

record configSession =
  cs_name :: string
  cs_token :: string
  cs_state :: configSessionState
  cs_username :: string
  cs_roles :: "string list"
  cs_pid :: int
  ccDB :: "nat option"
  startTime :: int
  resumeTime :: int
  exitTime :: int
  lastActiveTime :: int
  commitTimer :: "nat option"
  commitTime :: int
  commitState :: configSessionState
  rollbackCfg :: string
  commitCh :: "nat option"

definition zeroSession :: configSession where
  "zeroSession = \<lparr>cs_name = [], cs_token = [], cs_state = cs_STATE_None, cs_username = [], cs_roles = [],
     cs_pid = 0, ccDB = None, startTime = 0, resumeTime = 0, exitTime = 0, lastActiveTime = 0,
     commitTimer = None, commitTime = 0, commitState = cs_STATE_None, rollbackCfg = [], commitCh = None\<rparr>"

section \<open>Checkpoint history (\<open>cs_cphist.go\<close>)\<close>

record CpHistEntry =
  cp_Label :: string
  cp_Id :: string
  cp_User :: string
  cp_Origin :: string
  cp_Time :: int

definition MAX_HIST :: nat where "MAX_HIST = 10"

section \<open>The state of the package\<close>

text \<open>
  The goroutine that \<open>processCommitTimer\<close> starts waits on its channel and on the timer;
  when the timer expires it reloads the saved configuration and then cleans up.
\<close>

datatype gor_phase = GWait | GReloaded | GDone

record gor =
  g_timer :: nat
  g_ch :: nat
  g_user :: string
  g_cfg :: string
  g_phase :: gor_phase

text \<open>
  \<open>cs_dbs\<close> is the heap of connections; the field \<open>db\<close> of \<open>cs_pkg\<close> is only the receiver of
  the call being made.  A timer is stopped or not.  \<open>mesgs\<close> is what was written to
  terminals.
\<close>

record 'w cs_st =
  cs_pkg :: "'w st"
  cs_dbs :: "(nat, DB) gomap"
  uCS :: "configSession option"
  csTokenCtr :: "32 word"
  cpHistEnts :: "CpHistEntry list"
  is_hist_loaded :: bool
  timers :: "(nat, bool) gomap"
  gors :: "gor list"
  n_ch :: nat
  mesgs :: "(int \<times> string) list"

section \<open>What the package calls\<close>

text \<open>
  The host service, each request with its arguments (the history file is passed as the
  entries that the JSON text encodes); the clock; the test for a live process and for its
  terminal; the history file; the configuration of the database package.
\<close>

datatype hostq =
    QCfgSave string string string string
  | QBroadcast string
  | QCpSave string string
  | QCpRemove string string
  | QCpHistSave string "CpHistEntry list"

record 'w cs_ext =
  y_db :: "'w ext"
  y_host :: "'w \<Rightarrow> hostq \<Rightarrow> 'w \<times> goerr option"
  y_now :: "'w \<Rightarrow> int"
  y_signal :: "'w \<Rightarrow> int \<Rightarrow> bool"
  y_tty :: "'w \<Rightarrow> int \<Rightarrow> goerr option"
  y_hist_file :: "'w \<Rightarrow> CpHistEntry list option"
  y_statsCfg :: DBStatsConfig
  y_cacheCfg :: DBCacheConfig

section \<open>Calls on a connection\<close>

definition the_db :: "nat option \<Rightarrow> 'w cs_st \<Rightarrow> DB" where
  "the_db p S = (case p of None \<Rightarrow> db (cs_pkg S)
     | Some i \<Rightarrow> (case gget (cs_dbs S) i of None \<Rightarrow> db (cs_pkg S) | Some d \<Rightarrow> d))"

definition put_pkg :: "nat option \<Rightarrow> 'w st \<Rightarrow> 'w cs_st \<Rightarrow> 'w cs_st" where
  "put_pkg p s S = (case p of None \<Rightarrow> S\<lparr>cs_pkg := s\<rparr>
     | Some i \<Rightarrow> S\<lparr>cs_pkg := s, cs_dbs := gset i (db s) (cs_dbs S)\<rparr>)"

definition on_db :: "nat option \<Rightarrow> ('w st \<Rightarrow> 'r \<times> 'w st) \<Rightarrow> 'w cs_st \<Rightarrow> 'r \<times> 'w cs_st" where
  "on_db p f S = (case f ((cs_pkg S)\<lparr>db := the_db p S\<rparr>) of (r, s) \<Rightarrow> (r, put_pkg p s S))"

definition on_db_opt ::
  "nat option \<Rightarrow> ('w st \<Rightarrow> ('r \<times> 'w st) option) \<Rightarrow> 'w cs_st \<Rightarrow> ('r \<times> 'w cs_st) outcome" where
  "on_db_opt p f S = (case f ((cs_pkg S)\<lparr>db := the_db p S\<rparr>) of
     None \<Rightarrow> Panics | Some (r, s) \<Rightarrow> Ret (r, put_pkg p s S))"

definition on_pkg :: "('w st \<Rightarrow> 'r \<times> 'w st) \<Rightarrow> 'w cs_st \<Rightarrow> 'r \<times> 'w cs_st" where
  "on_pkg f S = (case f (cs_pkg S) of (r, s) \<Rightarrow> (r, S\<lparr>cs_pkg := s\<rparr>))"

definition on_host :: "('w, 'z) cs_ext_scheme \<Rightarrow> hostq \<Rightarrow> 'w cs_st \<Rightarrow> goerr option \<times> 'w cs_st" where
  "on_host y q S = (case y_host y (world (cs_pkg S)) q of
     (w, e) \<Rightarrow> (e, S\<lparr>cs_pkg := (cs_pkg S)\<lparr>world := w\<rparr>\<rparr>))"

definition now :: "('w, 'z) cs_ext_scheme \<Rightarrow> 'w cs_st \<Rightarrow> int" where
  "now y S = y_now y (world (cs_pkg S))"

end
