(* ===== verification/CS_Session.thy ===== *)
theory CS_Session
  imports CS_Types
begin

text \<open>
  The life of the configuration session: creating, suspending, resuming, committing and
  deleting it (\<open>cs.go\<close>), finding it (\<open>cs_session.go\<close>), its transactions (\<open>cs_tx.go\<close>) and
  its connection (\<open>cs_getdb.go\<close>).  Each function of \<open>cs.go\<close> runs under the package's mutex.
\<close>

section \<open>Transactions (\<open>cs_tx.go\<close>)\<close>

definition csStartTx :: "('w, 'z) cs_ext_scheme \<Rightarrow> nat option \<Rightarrow> 'w cs_st \<Rightarrow> (goerr option \<times> 'w cs_st) outcome" where
  "csStartTx y d = on_db_opt d (StartSessTx (y_db y) [] [tspec ''*''])"

definition csCommitTx :: "('w, 'z) cs_ext_scheme \<Rightarrow> nat option \<Rightarrow> 'w cs_st \<Rightarrow> goerr option \<times> 'w cs_st" where
  "csCommitTx y d = on_db d (CommitSessTx (y_db y))"

definition csAbortTx :: "('w, 'z) cs_ext_scheme \<Rightarrow> nat option \<Rightarrow> 'w cs_st \<Rightarrow> goerr option \<times> 'w cs_st" where
  "csAbortTx y d = on_db d (AbortSessTx (y_db y))"

text \<open>The transactions of the application modules, on the connection \<open>d\<close>.\<close>

definition cs_StartTx ::
  "('w, 'z) cs_ext_scheme \<Rightarrow> configSession \<Rightarrow> nat option \<Rightarrow> (TableSpec \<times> Key) list \<Rightarrow> TableSpec list \<Rightarrow>
     'w cs_st \<Rightarrow> (goerr option \<times> 'w cs_st) outcome" where
  "cs_StartTx y sess d w tss S =
     (if cs_state sess = cs_STATE_None \<and> d = ccDB sess then Ret (on_db d DeclareSP S)
      else on_db_opt d (StartTx (y_db y) w tss) S)"

definition is_uCS_db :: "nat option \<Rightarrow> 'w cs_st \<Rightarrow> bool" where
  "is_uCS_db d S = (case uCS S of None \<Rightarrow> False | Some u \<Rightarrow> d = ccDB u)"

definition cs_CommitTx ::
  "('w, 'z) cs_ext_scheme \<Rightarrow> nat option \<Rightarrow> 'w cs_st \<Rightarrow> goerr option \<times> 'w cs_st" where
  "cs_CommitTx y d S =
     (if is_uCS_db d S then on_db d ReleaseSP S else on_db d (CommitTx (y_db y)) S)"

definition cs_AbortTx ::
  "('w, 'z) cs_ext_scheme \<Rightarrow> nat option \<Rightarrow> 'w cs_st \<Rightarrow> (goerr option \<times> 'w cs_st) outcome" where
  "cs_AbortTx y d S =
     (if is_uCS_db d S then on_db_opt d (Rollback2SP (y_db y)) S else on_db_opt d (AbortTx (y_db y)) S)"

section \<open>Small updates of the session\<close>

definition IsPidActive :: "('w, 'z) cs_ext_scheme \<Rightarrow> configSession \<Rightarrow> 'w cs_st \<Rightarrow> bool" where
  "IsPidActive y cs S =
     (if cs_pid cs = 0 then False else y_signal y (world (cs_pkg S)) (cs_pid cs))"

definition UpdateLastActiveTime :: "('w, 'z) cs_ext_scheme \<Rightarrow> 'w cs_st \<Rightarrow> 'w cs_st" where
  "UpdateLastActiveTime y S =
     (case uCS S of None \<Rightarrow> S | Some u \<Rightarrow> S\<lparr>uCS := Some (u\<lparr>lastActiveTime := now y S\<rparr>)\<rparr>)"

text \<open>A new timer is running.\<close>

definition StartCommitTimer :: "int \<Rightarrow> 'w cs_st \<Rightarrow> nat option \<times> 'w cs_st" where
  "StartCommitTimer timeout S =
     (case uCS S of
        None \<Rightarrow> (None, S)
      | Some u \<Rightarrow>
          let t = length (timers S) in
          (Some t, S\<lparr>timers := gset t True (timers S), uCS := Some (u\<lparr>commitTimer := Some t\<rparr>)\<rparr>))"

definition SetRollbackCfg :: "string \<Rightarrow> 'w cs_st \<Rightarrow> 'w cs_st" where
  "SetRollbackCfg cfg S = (case uCS S of None \<Rightarrow> S | Some u \<Rightarrow> S\<lparr>uCS := Some (u\<lparr>rollbackCfg := cfg\<rparr>)\<rparr>)"

definition SetCommitState :: "configSessionState \<Rightarrow> 'w cs_st \<Rightarrow> 'w cs_st" where
  "SetCommitState st S = (case uCS S of None \<Rightarrow> S | Some u \<Rightarrow> S\<lparr>uCS := Some (u\<lparr>commitState := st\<rparr>)\<rparr>)"

definition SetCommitCh :: "nat \<Rightarrow> 'w cs_st \<Rightarrow> 'w cs_st" where
  "SetCommitCh ch S = (case uCS S of None \<Rightarrow> S | Some u \<Rightarrow> S\<lparr>uCS := Some (u\<lparr>commitCh := Some ch\<rparr>)\<rparr>)"

section \<open>Creating and suspending\<close>

definition newToken :: "int \<Rightarrow> 32 word \<Rightarrow> string" where
  "newToken nano n = Itoa (nano div 1000000000) @ ''-'' @ nat_digits (unat n)"

definition newCS_opts :: Options where
  "newCS_opts = zeroOptions\<lparr>DBNo := ConfigDB, IsSession := True, TxCmdsLim := ccDbTxCmdsLim,
     ForceNewRedisConnection := True\<rparr>"

definition newDB_at ::
  "('w, 'z) cs_ext_scheme \<Rightarrow> Options \<Rightarrow> 'w cs_st \<Rightarrow> (nat \<times> goerr option) \<times> 'w cs_st" where
  "newDB_at y opts S =
     (let p = length (cs_dbs S) in
      case NewDB (y_db y) opts (y_statsCfg y) (y_cacheCfg y) (cs_pkg S) of
        (e, s) \<Rightarrow> ((p, e), put_pkg (Some p) s S))"

definition newCS ::
  "('w, 'z) cs_ext_scheme \<Rightarrow> string \<Rightarrow> string \<Rightarrow> string list \<Rightarrow> int \<Rightarrow> 'w cs_st \<Rightarrow>
     ((goerr + configSession) \<times> 'w cs_st) outcome" where
  "newCS y name username roles pid S =
     (if uCS S \<noteq> None then Ret (Inl TranslibBusy, S)
      else case newDB_at y newCS_opts S of
        ((p, Some err), S1) \<Rightarrow> Ret (Inl err, S1)
      | ((p, None), S1) \<Rightarrow>
          bind (csStartTx y (Some p) S1) (\<lambda>r. case r of
            (Some err, S2) \<Rightarrow> Ret (Inl err, snd (on_db (Some p) (DeleteDB (y_db y)) S2))
          | (None, S2) \<Rightarrow>
              let n = csTokenCtr S2 + 1; token = newToken (now y S2) n; S3 = S2\<lparr>csTokenCtr := n\<rparr> in
              (case on_pkg (lock_op (ConfigDBTryLock (y_db y) token)) S3 of
                 (Some err, S4) \<Rightarrow>
                   Ret (Inl err, snd (on_db (Some p) (DeleteDB (y_db y)) (snd (csAbortTx y (Some p) S4))))
               | (None, S4) \<Rightarrow>
                   let t = now y S4;
                       u = zeroSession\<lparr>cs_name := name, cs_token := token, cs_state := cs_STATE_ACTIVE,
                             cs_username := username, cs_roles := roles, cs_pid := pid, ccDB := Some p,
                             startTime := t, lastActiveTime := t\<rparr>
                   in Ret (Inr u, S4\<lparr>uCS := Some u\<rparr>))))"

definition resumeCS ::
  "('w, 'z) cs_ext_scheme \<Rightarrow> string list \<Rightarrow> int \<Rightarrow> 'w cs_st \<Rightarrow> (configSession option \<times> goerr option) \<times> 'w cs_st" where
  "resumeCS y roles pid S =
     (case uCS S of
        None \<Rightarrow> ((None, Some TranslibBusy), S)
      | Some u \<Rightarrow>
          if cs_state u \<noteq> cs_STATE_SUSPENDED then ((Some u, Some TranslibBusy), S)
          else
            let t = now y S;
                u' = u\<lparr>cs_state := cs_STATE_ACTIVE, cs_roles := roles, cs_pid := pid, resumeTime := t,
                       lastActiveTime := t\<rparr>
            in ((Some u', None), S\<lparr>uCS := Some u'\<rparr>))"

definition suspendCS :: "('w, 'z) cs_ext_scheme \<Rightarrow> 'w cs_st \<Rightarrow> (configSession option \<times> goerr option) \<times> 'w cs_st" where
  "suspendCS y S =
     (case uCS S of
        None \<Rightarrow> ((None, Some TranslibBusy), S)
      | Some u \<Rightarrow>
          if cs_state u \<noteq> cs_STATE_ACTIVE then ((Some u, Some TranslibBusy), S)
          else
            let t = now y S;
                u' = u\<lparr>cs_state := cs_STATE_SUSPENDED, cs_pid := 0, exitTime := t, lastActiveTime := t\<rparr>
            in ((Some u', None), S\<lparr>uCS := Some u'\<rparr>))"

section \<open>Deleting\<close>

definition unlockDB :: "('w, 'z) cs_ext_scheme \<Rightarrow> string \<Rightarrow> 'w cs_st \<Rightarrow> goerr option \<times> 'w cs_st" where
  "unlockDB y token = on_pkg (lock_op (ConfigDBUnlock (y_db y) token))"

definition deleteCS :: "('w, 'z) cs_ext_scheme \<Rightarrow> 'w cs_st \<Rightarrow> (goerr option \<times> goerr option) \<times> 'w cs_st" where
  "deleteCS y S =
     (case uCS S of
        None \<Rightarrow> ((Some TranslibBusy, None), S)
      | Some u \<Rightarrow>
          if cs_state u \<noteq> cs_STATE_ACTIVE \<and> cs_state u \<noteq> cs_STATE_SUSPENDED then ((Some TranslibBusy, None), S)
          else
            let (err, S1) = (if commitState u \<noteq> cs_STATE_CONFIRM_TIMER then csAbortTx y (ccDB u) S else (None, S));
                (errU, S2) = unlockDB y (cs_token u) S1;
                (_, S3) = on_db (ccDB u) (DeleteDB (y_db y)) S2
            in ((err, errU), S3\<lparr>uCS := None\<rparr>))"

text \<open>\<open>cleanCS\<close> reads \<open>uCS\<close> without a check.\<close>

definition cleanCS :: "('w, 'z) cs_ext_scheme \<Rightarrow> 'w cs_st \<Rightarrow> (goerr option \<times> 'w cs_st) outcome" where
  "cleanCS y S =
     (case uCS S of
        None \<Rightarrow> Panics
      | Some u \<Rightarrow>
          (case on_db (ccDB u) (DeleteDB (y_db y)) S of
             (_, S1) \<Rightarrow>
               (case unlockDB y (cs_token u) S1 of
                  (errSc, S2) \<Rightarrow> Ret (errSc, S2\<lparr>uCS := None\<rparr>))))"

section \<open>Finding the session (\<open>cs_session.go\<close>)\<close>

definition GetSession ::
  "('w, 'z) cs_ext_scheme \<Rightarrow> string \<Rightarrow> string \<Rightarrow> string \<Rightarrow> string list \<Rightarrow> int \<Rightarrow> bool \<Rightarrow> bool \<Rightarrow> 'w cs_st \<Rightarrow>
     configSession \<times> CsStatus option" where
  "GetSession y name token username roles pid gsoStrict gsoName S =
     (let session = zeroSession\<lparr>cs_name := name, cs_token := token, cs_username := username,
                       cs_roles := roles, cs_pid := pid\<rparr>
      in if length token = 0 \<and> \<not> gsoName then (session, None)
         else case uCS S of
           Some ucs \<Rightarrow>
             if gsoName \<and> cs_name ucs \<noteq> name then (session, Some (CsStatusInvalidSession ErrTagNameNotFound))
             else if \<not> gsoName \<and> cs_token ucs \<noteq> token then
               (session, Some (CsStatusInvalidSession ErrTagTokenNotFound))
             else if gsoStrict \<and> cs_username ucs \<noteq> username then
               (session, Some (CsStatusInvalidSession ErrTagInvalidUser))
             else if gsoStrict \<and> IsPidActive y ucs S \<and> cs_pid ucs \<noteq> pid then
               (session, Some (CsStatusInvalidSession ErrTagInvalidTerminal))
             else (if gsoStrict \<and> gsoName \<and> cs_pid ucs = 0 then ucs\<lparr>cs_pid := pid\<rparr> else ucs, None)
         | None \<Rightarrow>
             if length token \<noteq> 0 then (session, Some (CsStatusInvalidSession ErrTagTokenNotFound))
             else (session, None))"

definition GetAllSessions :: "'w cs_st \<Rightarrow> configSession list" where
  "GetAllSessions S =
     (case uCS S of Some u \<Rightarrow> if cs_state u \<noteq> cs_STATE_None then [u] else [] | None \<Rightarrow> [])"

definition IsConfigSession :: "configSession \<Rightarrow> bool" where
  "IsConfigSession sess \<longleftrightarrow> cs_state sess \<noteq> cs_STATE_None"

definition IsActive :: "configSession \<Rightarrow> bool" where
  "IsActive sess \<longleftrightarrow> cs_state sess = cs_STATE_ACTIVE"

definition GetState :: "configSession \<Rightarrow> string" where
  "GetState sess =
     (if commitState sess = cs_STATE_CONFIRM_TIMER then ''PENDING CONFIRM''
      else if commitState sess = cs_STATE_ROLLBACK_REPLACE then ''ROLLBACK IN PROGRESS''
      else if IsActive sess then ''ACTIVE''
      else ''INACTIVE'')"

definition TxLen :: "configSession \<Rightarrow> 'w cs_st \<Rightarrow> int" where
  "TxLen sess S =
     (if ccDB sess = None then - 1 else uint (TxCmdsLen (AllTables (db_stats (the_db (ccDB sess) S)))))"

section \<open>The connection of a request (\<open>cs_getdb.go\<close>)\<close>

text \<open>
  The connection, whether it is the session's, and the error.  The function that the
  request calls at its end is \<open>cleanup\<close>.
\<close>

definition GetConfigDB ::
  "('w, 'z) cs_ext_scheme \<Rightarrow> configSession \<Rightarrow> Options option \<Rightarrow> 'w cs_st \<Rightarrow>
     (nat option \<times> bool \<times> goerr option) \<times> 'w cs_st" where
  "GetConfigDB y sess opts S =
     (if cs_state sess = cs_STATE_None then
        let dopts = (case opts of
              Some o1 \<Rightarrow> o1
            | None \<Rightarrow> zeroOptions\<lparr>DBNo := ConfigDB, ForceNewRedisConnection := True\<rparr>)
        in case newDB_at y (dopts\<lparr>DBNo := ConfigDB\<rparr>) S of
             ((p, err), S1) \<Rightarrow> ((Some p, False, err), S1)
      else ((ccDB sess, True, None), S))"

definition cleanup ::
  "('w, 'z) cs_ext_scheme \<Rightarrow> nat option \<Rightarrow> bool \<Rightarrow> 'w cs_st \<Rightarrow> 'w cs_st outcome" where
  "cleanup y d isCS S =
     (if \<not> isCS then Ret (snd (on_db d (DeleteDB (y_db y)) S))
      else
        let S1 = UpdateLastActiveTime y S in
        if HasSP ((cs_pkg S1)\<lparr>db := the_db d S1\<rparr>) then
          bind (on_db_opt d (Rollback2SP (y_db y)) S1) (\<lambda>r. Ret (snd r))
        else Ret S1)"

end
