(* ===== verification/CS_Commit.thy ===== *)
theory CS_Commit
  imports CS_Session
begin

text \<open>
  The requests on a session: start or resume, exit, abort, kill, commit with and without
  a confirmation timer (\<open>cs_start.go\<close>, \<open>cs_exit.go\<close>, \<open>cs_abort.go\<close>, \<open>cs_kill.go\<close>,
  \<open>cs_commit.go\<close>), the checkpoint history (\<open>cs_cphist.go\<close>) and messages (\<open>cs_mesg.go\<close>).
\<close>

section \<open>The checkpoint history\<close>

definition isCpLabelExist :: "string \<Rightarrow> 'w cs_st \<Rightarrow> bool" where
  "isCpLabelExist label S =
     (if length label = 0 then False
      else list_ex (\<lambda>e. label = cp_Label e \<or> label = cp_Id e) (cpHistEnts S))"

definition AddCpHistEntry :: "CpHistEntry \<Rightarrow> 'w cs_st \<Rightarrow> 'w cs_st" where
  "AddCpHistEntry entry S = S\<lparr>cpHistEnts := cpHistEnts S @ [entry]\<rparr>"

definition DeleteFirstCpHistEntry :: "'w cs_st \<Rightarrow> 'w cs_st" where
  "DeleteFirstCpHistEntry S = S\<lparr>cpHistEnts := tl (cpHistEnts S)\<rparr>"

text \<open>
  \<open>DeleteCpHistEntry\<close> ranges over the slice it shortens: the loop runs over all the old
  positions, reading the shared array; a match beyond the present end panics.
\<close>

definition blankCpHistEntry :: CpHistEntry where
  "blankCpHistEntry = \<lparr>cp_Label = [], cp_Id = [], cp_User = [], cp_Origin = [], cp_Time = 0\<rparr>"

fun delete_hist_loop :: "CpHistEntry \<Rightarrow> nat \<Rightarrow> nat \<Rightarrow> CpHistEntry list \<Rightarrow> nat \<Rightarrow> (CpHistEntry list \<times> nat) option" where
  "delete_hist_loop entry idx 0 arr m = Some (arr, m)"
| "delete_hist_loop entry idx (Suc n) arr m =
     (if arr ! idx = entry then
        (if idx \<ge> m then None
         else delete_hist_loop entry (Suc idx) n (arr[idx := arr ! (m - 1), m - 1 := blankCpHistEntry]) (m - 1))
      else delete_hist_loop entry (Suc idx) n arr m)"

definition DeleteCpHistEntry :: "CpHistEntry \<Rightarrow> 'w cs_st \<Rightarrow> 'w cs_st outcome" where
  "DeleteCpHistEntry entry S =
     (let l = cpHistEnts S in
      case delete_hist_loop entry 0 (length l) l (length l) of
        None \<Rightarrow> Panics
      | Some (arr, m) \<Rightarrow> Ret (S\<lparr>cpHistEnts := take m arr\<rparr>))"

definition LoadCpHistEntries :: "('w, 'z) cs_ext_scheme \<Rightarrow> 'w cs_st \<Rightarrow> 'w cs_st" where
  "LoadCpHistEntries y S =
     (case y_hist_file y (world (cs_pkg S)) of None \<Rightarrow> S | Some l \<Rightarrow> S\<lparr>cpHistEnts := l\<rparr>)"

definition SaveCpConfig :: "('w, 'z) cs_ext_scheme \<Rightarrow> string \<Rightarrow> string \<Rightarrow> 'w cs_st \<Rightarrow> goerr option \<times> 'w cs_st" where
  "SaveCpConfig y cpName user = on_host y (QCpSave cpName user)"

definition DeleteCpConfig :: "('w, 'z) cs_ext_scheme \<Rightarrow> string \<Rightarrow> string \<Rightarrow> 'w cs_st \<Rightarrow> goerr option \<times> 'w cs_st" where
  "DeleteCpConfig y cpName user = on_host y (QCpRemove cpName user)"

definition UpdateCpHistFile :: "('w, 'z) cs_ext_scheme \<Rightarrow> string \<Rightarrow> 'w cs_st \<Rightarrow> goerr option \<times> 'w cs_st" where
  "UpdateCpHistFile y user S = on_host y (QCpHistSave user (cpHistEnts S)) S"

definition cp_file :: "string \<Rightarrow> string \<Rightarrow> string" where
  "cp_file label ident = (if length label > 0 then label else ident)"

text \<open>Before a new checkpoint is saved the oldest one goes, when the history is full.\<close>

definition drop_oldest :: "('w, 'z) cs_ext_scheme \<Rightarrow> 'w cs_st \<Rightarrow> 'w cs_st" where
  "drop_oldest y S =
     (if length (cpHistEnts S) \<ge> MAX_HIST then
        let e = cpHistEnts S ! 0 in
        DeleteFirstCpHistEntry (snd (DeleteCpConfig y (cp_file (cp_Label e) (cp_Id e)) (cp_User e) S))
      else S)"

definition CreateCpHistEntry ::
  "('w, 'z) cs_ext_scheme \<Rightarrow> string \<Rightarrow> string \<Rightarrow> string \<Rightarrow> string \<Rightarrow> int \<Rightarrow> 'w cs_st \<Rightarrow> goerr option \<times> 'w cs_st" where
  "CreateCpHistEntry y cpName ident user origin t S =
     (let S1 = (if \<not> is_hist_loaded S then (LoadCpHistEntries y S)\<lparr>is_hist_loaded := True\<rparr> else S);
          S2 = drop_oldest y S1
      in case SaveCpConfig y (cp_file cpName ident) user S2 of
           (Some err, S3) \<Rightarrow> (Some err, S3)
         | (None, S3) \<Rightarrow>
             UpdateCpHistFile y user
               (AddCpHistEntry \<lparr>cp_Label = cpName, cp_Id = ident, cp_User = user, cp_Origin = origin, cp_Time = t\<rparr> S3))"

text \<open>\<open>createCpHistory\<close> reads \<open>uCS\<close> without a check.\<close>

definition createCpHistory :: "('w, 'z) cs_ext_scheme \<Rightarrow> string \<Rightarrow> 'w cs_st \<Rightarrow> (goerr option \<times> 'w cs_st) outcome" where
  "createCpHistory y label S =
     (case uCS S of
        None \<Rightarrow> Panics
      | Some u \<Rightarrow> Ret (CreateCpHistEntry y label (cs_token u) (cs_username u) ''commit'' (commitTime u) S))"

section \<open>Committing the session\<close>

definition set_committed :: "nat option \<Rightarrow> 'w cs_st \<Rightarrow> 'w cs_st" where
  "set_committed p S = snd (on_db p (\<lambda>s. ((), upd_db (\<lambda>d. d\<lparr>Opts := (Opts d)\<lparr>IsCommitted := True\<rparr>\<rparr>) s)) S)"

definition commitCS ::
  "('w, 'z) cs_ext_scheme \<Rightarrow> string \<Rightarrow> bool \<Rightarrow> 'w cs_st \<Rightarrow>
     ((goerr option \<times> goerr option \<times> goerr option) \<times> 'w cs_st) outcome" where
  "commitCS y label isConfirmNeeded S =
     (case uCS S of
        None \<Rightarrow> Ret ((Some TranslibBusy, None, None), S)
      | Some u \<Rightarrow>
          if cs_state u \<noteq> cs_STATE_ACTIVE then Ret ((Some TranslibBusy, None, None), S)
          else case csCommitTx y (ccDB u) S of
            (Some err, S1) \<Rightarrow> Ret ((Some err, None, None), S1)
          | (None, S1) \<Rightarrow>
              let u1 = u\<lparr>commitTime := now y S1\<rparr>; S2 = S1\<lparr>uCS := Some u1\<rparr> in
              if isConfirmNeeded then
                Ret ((None, None, None),
                     set_committed (ccDB u) (S2\<lparr>uCS := Some (u1\<lparr>commitState := cs_STATE_CONFIRM_TIMER\<rparr>)\<rparr>))
              else
                bind (createCpHistory y label S2) (\<lambda>r. case r of
                  (errSh, S3) \<Rightarrow>
                    (case unlockDB y (cs_token u1) (snd (on_db (ccDB u1) (DeleteDB (y_db y)) S3)) of
                       (errSc, S4) \<Rightarrow> Ret ((None, errSc, errSh), S4\<lparr>uCS := None\<rparr>))))"

section \<open>The confirmation timer (\<open>cs_commit.go\<close>)\<close>

definition cs_COMMIT_CONFIRM_TIMEOUT_MIN :: int where "cs_COMMIT_CONFIRM_TIMEOUT_MIN = 30"

definition saveRunningConfig ::
  "('w, 'z) cs_ext_scheme \<Rightarrow> string \<Rightarrow> 'w cs_st \<Rightarrow> (goerr + string) \<times> 'w cs_st" where
  "saveRunningConfig y username S =
     (let dest = ''temp://rollback.cfg.'' @ Itoa (now y S) @ ''.json'' in
      case on_host y (QCfgSave ''running-configuration'' dest [] username) S of
        (Some _, S1) \<Rightarrow> (Inl (GoError ''Failed to save current config''), S1)
      | (None, S1) \<Rightarrow> (Inr dest, S1))"

definition configReload ::
  "('w, 'z) cs_ext_scheme \<Rightarrow> string \<Rightarrow> string \<Rightarrow> 'w cs_st \<Rightarrow> goerr option \<times> 'w cs_st" where
  "configReload y username cfg S =
     on_host y (QCfgSave cfg ''running-configuration'' ''OVERWRITE'' username)
       (snd (on_host y (QBroadcast
          ''Configure session commit aborted. Configuration 'reload' in progress.'') S))"

text \<open>
  Stopping the timer, then sending on the channel: the goroutine that waits on the channel
  ends; without one the send blocks for ever.  A nil timer panics.
\<close>

fun finish_gor :: "nat \<Rightarrow> gor list \<Rightarrow> gor list option" where
  "finish_gor ch [] = None"
| "finish_gor ch (g # gs) =
     (if g_ch g = ch \<and> g_phase g = GWait then Some (g\<lparr>g_phase := GDone\<rparr> # gs)
      else map_option ((#) g) (finish_gor ch gs))"

definition stop_and_send :: "configSession \<Rightarrow> 'w cs_st \<Rightarrow> 'w cs_st outcome" where
  "stop_and_send sess S =
     (case commitTimer sess of
        None \<Rightarrow> Panics
      | Some t \<Rightarrow>
          let S1 = S\<lparr>timers := gset t False (timers S)\<rparr> in
          (case commitCh sess of
             None \<Rightarrow> Blocks
           | Some ch \<Rightarrow> (case finish_gor ch (gors S1) of None \<Rightarrow> Blocks | Some gs \<Rightarrow> Ret (S1\<lparr>gors := gs\<rparr>))))"

definition processCommitConfirm ::
  "('w, 'z) cs_ext_scheme \<Rightarrow> configSession \<Rightarrow> string \<Rightarrow> 'w cs_st \<Rightarrow> ((bool \<times> CsStatus) \<times> 'w cs_st) outcome" where
  "processCommitConfirm y sess label S =
     (if commitState sess \<noteq> cs_STATE_CONFIRM_TIMER then
        Ret ((False, CsStatusCommitFailure (tlerr_New ''Confirm is only applicable after commit with timeout.'' [])), S)
      else
        bind (if commitTimer sess \<noteq> None then stop_and_send sess S else Ret S) (\<lambda>S1.
        bind (createCpHistory y label S1) (\<lambda>r. case r of (errSh, S2) \<Rightarrow>
        bind (cleanCS y S2) (\<lambda>c.
          Ret (case errSh of Some e \<Rightarrow> (False, CsStatusCommitFailure e) | None \<Rightarrow> (True, CsStatusCommitSuccess),
               snd c)))))"

definition processCommitTimer ::
  "configSession \<Rightarrow> int \<Rightarrow> string \<Rightarrow> 'w cs_st \<Rightarrow> (bool \<times> CsStatus) \<times> 'w cs_st" where
  "processCommitTimer sess timeout cfg S =
     (case StartCommitTimer timeout S of
        (None, S1) \<Rightarrow> ((False, CsStatusCommitFailure (tlerr_New ''Failed to start commit confirm timer'' [])), S1)
      | (Some t, S1) \<Rightarrow>
          let ch = n_ch S1; S2 = SetCommitCh ch (S1\<lparr>n_ch := Suc ch\<rparr>) in
          ((True, CsStatusCommitSuccess),
           S2\<lparr>gors := gors S2 @ [\<lparr>g_timer = t, g_ch = ch, g_user = cs_username sess, g_cfg = cfg, g_phase = GWait\<rparr>]\<rparr>))"

text \<open>
  The goroutine takes the expiry of a timer that was not stopped and reloads the saved
  configuration; then it cleans up.  \<open>i\<close> is its place in the list.
\<close>

definition timer_expires :: "('w, 'z) cs_ext_scheme \<Rightarrow> nat \<Rightarrow> 'w cs_st \<Rightarrow> 'w cs_st option" where
  "timer_expires y i S =
     (if i < length (gors S) \<and> g_phase (gors S ! i) = GWait \<and> gget (timers S) (g_timer (gors S ! i)) = Some True then
        let g = gors S ! i;
            S1 = snd (configReload y (g_user g) (g_cfg g) (SetCommitState cs_STATE_ROLLBACK_REPLACE S))
        in Some (S1\<lparr>gors := (gors S1)[i := g\<lparr>g_phase := GReloaded\<rparr>], timers := gset (g_timer g) False (timers S1)\<rparr>)
      else None)"

definition timer_cleans :: "('w, 'z) cs_ext_scheme \<Rightarrow> nat \<Rightarrow> 'w cs_st \<Rightarrow> 'w cs_st outcome option" where
  "timer_cleans y i S =
     (if i < length (gors S) \<and> g_phase (gors S ! i) = GReloaded then
        Some (bind (cleanCS y S) (\<lambda>c. Ret ((snd c)\<lparr>gors := (gors (snd c))[i := (gors (snd c) ! i)\<lparr>g_phase := GDone\<rparr>]\<rparr>)))
      else None)"

definition abortSessionCommit ::
  "('w, 'z) cs_ext_scheme \<Rightarrow> configSession \<Rightarrow> 'w cs_st \<Rightarrow> (goerr option \<times> 'w cs_st) outcome" where
  "abortSessionCommit y sess S =
     bind (stop_and_send sess S) (\<lambda>S1.
       case configReload y (cs_username sess) (rollbackCfg sess) S1 of
         (Some _, S2) \<Rightarrow> Ret (Some (GoError ''Configuration reload failure on commit timeout rollback''), S2)
       | (None, S2) \<Rightarrow> Ret (None, S2))"

section \<open>The requests\<close>

definition Commit ::
  "('w, 'z) cs_ext_scheme \<Rightarrow> configSession \<Rightarrow> string \<Rightarrow> int \<Rightarrow> bool \<Rightarrow> 'w cs_st \<Rightarrow>
     ((bool \<times> CsStatus) \<times> 'w cs_st) outcome" where
  "Commit y sess label timeout confirm S =
     (if \<not> IsConfigSession sess then Ret ((False, CsStatusInvalidSession ErrTagNone), S)
      else if isCpLabelExist label S then
        Ret ((False, CsStatusCommitFailure (InvalidArgs
          ''label: %s already exist. Choose another label'' [label])), S)
      else if cs_state sess \<noteq> cs_STATE_ACTIVE then Ret ((False, CsStatusInvalidSession ErrTagNotActive), S)
      else if confirm then processCommitConfirm y sess label S
      else if commitState sess = cs_STATE_CONFIRM_TIMER then
        Ret ((False, CsStatusCommitFailure (tlerr_New ''Commit timer running'' [])), S)
      else
        let commitConfirmTimer = (timeout \<ge> cs_COMMIT_CONFIRM_TIMEOUT_MIN);
            (saved, S1) = (if commitConfirmTimer then saveRunningConfig y (cs_username sess) S else (Inr [], S)) in
        (case saved of
           Inl err \<Rightarrow> Ret ((False, CsStatusCommitFailure err), S1)
         | Inr cfg \<Rightarrow>
             let S2 = (if commitConfirmTimer then SetRollbackCfg cfg S1 else S1) in
             bind (commitCS y label commitConfirmTimer S2) (\<lambda>r. case r of
               ((Some err, _, _), S3) \<Rightarrow> Ret ((False, CsStatusCommitFailure err), S3)
             | ((None, errSc, errSh), S3) \<Rightarrow>
                 if commitConfirmTimer then Ret (processCommitTimer sess timeout cfg S3)
                 else Ret ((True, if errSc = None \<and> errSh = None then CsStatusCommitSuccess
                                  else CsStatusCommitWarning errSc errSh), S3))))"

definition deleted_status :: "goerr option \<times> goerr option \<Rightarrow> CsStatus" where
  "deleted_status r =
     (case r of
        (Some err, _) \<Rightarrow> CsStatusInternalError (Some err)
      | (None, Some errU) \<Rightarrow> CsStatusAbortWarning errU
      | (None, None) \<Rightarrow> CsStatusSuccess)"

definition Abort ::
  "('w, 'z) cs_ext_scheme \<Rightarrow> configSession \<Rightarrow> 'w cs_st \<Rightarrow> ((bool \<times> CsStatus) \<times> 'w cs_st) outcome" where
  "Abort y sess S =
     (if \<not> IsConfigSession sess then Ret ((False, CsStatusInvalidSession ErrTagNone), S)
      else if cs_state sess \<noteq> cs_STATE_ACTIVE then Ret ((False, CsStatusInvalidSession ErrTagNotActive), S)
      else
        bind (if commitState sess = cs_STATE_CONFIRM_TIMER then abortSessionCommit y sess S else Ret (None, S))
          (\<lambda>r. case r of
             (Some _, S1) \<Rightarrow>
               Ret ((False, CsStatusInternalError (Some (GoError ''Config reload failure on commit abort''))), S1)
           | (None, S1) \<Rightarrow>
               (case deleteCS y S1 of
                  (errs, S2) \<Rightarrow> Ret ((fst errs = None, deleted_status errs), S2))))"

text \<open>\<open>SendMesg\<close>: a text for the terminal of the session's process.\<close>

definition SendMesg ::
  "('w, 'z) cs_ext_scheme \<Rightarrow> configSession \<Rightarrow> string \<Rightarrow> string \<Rightarrow> 'w cs_st \<Rightarrow> goerr option \<times> 'w cs_st" where
  "SendMesg y sess mesg userName S =
     (if IsConfigSession sess \<and> IsPidActive y sess S then
        (case y_tty y (world (cs_pkg S)) (cs_pid sess) of
           Some err \<Rightarrow> (Some err, S)
         | None \<Rightarrow>
             (None, S\<lparr>mesgs := mesgs S @ [(cs_pid sess,
                 CHR 0x0A # CHR 0x0A # ''Message from '' @ userName @ '': '' @ mesg @ [CHR 0x0A, CHR 0x0A])]\<rparr>))
      else (None, S))"

definition Kill_session ::
  "('w, 'z) cs_ext_scheme \<Rightarrow> configSession \<Rightarrow> 'w cs_st \<Rightarrow> ((CsStatus \<times> bool) \<times> 'w cs_st) outcome" where
  "Kill_session y sess S =
     bind (if commitState sess = cs_STATE_CONFIRM_TIMER then abortSessionCommit y sess S else Ret (None, S))
       (\<lambda>r. case r of
          (Some _, S1) \<Rightarrow>
            Ret ((CsStatusInternalError (Some (GoError ''Config reload failure on session clear'')), True), S1)
        | (None, S1) \<Rightarrow>
            if commitState sess = cs_STATE_ROLLBACK_REPLACE then Ret ((CsStatusSuccess, True), S1)
            else (case deleteCS y S1 of (errs, S2) \<Rightarrow> Ret ((deleted_status errs, fst errs = None), S2)))"

definition Kill ::
  "('w, 'z) cs_ext_scheme \<Rightarrow> configSession \<Rightarrow> bool \<Rightarrow> string \<Rightarrow> 'w cs_st \<Rightarrow> (CsStatus \<times> 'w cs_st) outcome" where
  "Kill y sess killActive user S =
     (if \<not> IsConfigSession sess then Ret (CsStatusInvalidSession ErrTagNone, S)
      else case cs_state sess of
        cs_STATE_ACTIVE \<Rightarrow>
          if \<not> killActive \<and> IsPidActive y sess S then Ret (CsStatusInvalidSession ErrTagActive, S)
          else bind (Kill_session y sess S) (\<lambda>r. case r of ((st, notify), S1) \<Rightarrow>
            Ret (st, if notify then snd (SendMesg y sess ''The configure session was cleared'' user S1) else S1))
      | cs_STATE_SUSPENDED \<Rightarrow> bind (Kill_session y sess S) (\<lambda>r. Ret (fst (fst r), snd r))
      | _ \<Rightarrow> Ret (CsStatusInvalidSession ErrTagInvalidState, S))"

definition Exit :: "('w, 'z) cs_ext_scheme \<Rightarrow> configSession \<Rightarrow> 'w cs_st \<Rightarrow> (bool \<times> CsStatus) \<times> 'w cs_st" where
  "Exit y sess S =
     (if \<not> IsConfigSession sess then ((False, CsStatusInvalidSession ErrTagNone), S)
      else if cs_state sess = cs_STATE_ACTIVE then ((True, CsStatusSuccess), snd (suspendCS y S))
      else ((False, CsStatusInvalidSession ErrTagNotActive), S))"

text \<open>\<open>StartOrResume\<close>: the token, the outcome, and the session object, which is updated.\<close>

definition resume_session ::
  "('w, 'z) cs_ext_scheme \<Rightarrow> configSession \<Rightarrow> int \<Rightarrow> 'w cs_st \<Rightarrow>
     (string \<times> bool \<times> CsStatus \<times> configSession) \<times> 'w cs_st" where
  "resume_session y sess pid S =
     (case resumeCS y (cs_roles sess) pid S of
        ((Some cs, None), S1) \<Rightarrow> ((cs_token cs, True, CsStatusResumedSession, cs), S1)
      | ((_, err), S1) \<Rightarrow> (([], False, CsStatusInternalError err, sess), S1))"

definition StartOrResume ::
  "('w, 'z) cs_ext_scheme \<Rightarrow> configSession \<Rightarrow> int \<Rightarrow> 'w cs_st \<Rightarrow>
     ((string \<times> bool \<times> CsStatus \<times> configSession) \<times> 'w cs_st) outcome" where
  "StartOrResume y sess pid S =
     (if IsConfigSession sess then
        (case cs_state sess of
           cs_STATE_ACTIVE \<Rightarrow>
             if IsPidActive y sess S then Ret (([], False, CsStatusNotAllowed, sess), S)
             else Ret (resume_session y sess pid (snd (suspendCS y S)))
         | cs_STATE_SUSPENDED \<Rightarrow> Ret (resume_session y sess pid S)
         | _ \<Rightarrow> Ret (([], False, CsStatusInvalidSession ErrTagNone, sess), S))
      else
        bind (newCS y (cs_name sess) (cs_username sess) (cs_roles sess) pid S) (\<lambda>r. case r of
          (Inr cs, S1) \<Rightarrow> Ret ((cs_token cs, True, CsStatusCreatedSession, cs), S1)
        | (Inl err, S1) \<Rightarrow> Ret (([], False, CsStatusInternalError (Some err), sess), S1)))"

end
