(* ===== verification/CS_Frame.thy ===== *)
theory CS_Frame
  imports CS_Commit
begin

text \<open>
  What the operations of the database package leave alone: the process's configuration
  lock, the client of the connection and its options.  These are the facts that the
  session's own invariant needs of them.
\<close>

section \<open>Operations that only change the server\<close>

definition world_only :: "'w st \<Rightarrow> 'w st \<Rightarrow> bool" where
  "world_only s s' \<longleftrightarrow> s' = s\<lparr>world := world s'\<rparr>"

lemma world_only_refl [simp]: "world_only s s"
  by (simp add: world_only_def)

lemma world_only_upd [simp]: "world_only s (s\<lparr>world := w\<rparr>)"
  by (simp add: world_only_def)

lemma world_only_trans: "world_only s s' \<Longrightarrow> world_only s' s'' \<Longrightarrow> world_only s s''"
  unfolding world_only_def by (metis st.surjective st.update_convs(1))

lemma world_onlyD:
  assumes "world_only s s'"
  shows "db s' = db s" "cdbLock s' = cdbLock s" "savePoint s' = savePoint s" "sInfo s' = sInfo s"
    "notifs s' = notifs s" "dbGlobalStats s' = dbGlobalStats s"
  using assms unfolding world_only_def by (metis st.select_convs st.surjective st.update_convs(1))+

lemma do_cmd_world: "world_only s (snd (do_cmd x c s))"
  by (simp add: do_cmd_def split: prod.split sum.split)

lemma send_cmds_world: "world_only s (snd (send_cmds x cs m s))"
proof (induction x cs m s rule: send_cmds.induct)
  case (2 x c cs m s)
  show ?case
  proof (cases "op_rcmd (Opts (db s)) (tc_ts c) (tc_op c) (tc_key c) (tc_value c)")
    case None
    then show ?thesis by (simp add: Let_def)
  next
    case (Some r)
    obtain e s1 where d: "do_cmd x r s = (e, s1)" by (cases "do_cmd x r s")
    have w: "world_only s s1" using do_cmd_world[of s x r] d by simp
    show ?thesis
    proof (cases e)
      case None
      have "world_only s1 (snd (send_cmds x cs (gset (tc_ts c) True m) s1))"
        using 2[OF refl] Some d None by simp
      then show ?thesis using Some d None world_only_trans[OF w] by (simp add: Let_def)
    next
      case (Some e')
      then show ?thesis using \<open>op_rcmd _ _ _ _ _ = Some r\<close> d w by (simp add: Let_def)
    qed
  qed
qed simp

lemma flag_tables_world: "world_only s (snd (flag_tables x tss s))"
proof (induction x tss s rule: flag_tables.induct)
  case (2 x ts tss s)
  obtain e s1 where d: "do_cmd x (cSET (ts2redisUpdated ts) ''1'') s = (e, s1)" by (metis surj_pair)
  have w: "world_only s s1" using do_cmd_world[of s x "cSET (ts2redisUpdated ts) ''1''"] d by simp
  show ?case
  proof (cases e)
    case None
    then show ?thesis using 2 d world_only_trans[OF w] by simp
  next
    case (Some e')
    then show ?thesis using d w by simp
  qed
qed simp

lemma commit_body_world: "world_only s (snd (commit_body x s))"
proof -
  obtain e1 s1 where c1: "do_cmd x cMULTI s = (e1, s1)" by (metis surj_pair)
  obtain e2 m s2 where c2: "send_cmds x (txCmds (db s1)) [] s1 = ((e2, m), s2)" by (metis surj_pair)
  obtain e3 s3 where c3: "flag_tables x (gkeys m) s2 = (e3, s3)" by (metis surj_pair)
  obtain e4 s4 where c4: "markConfigDBUpdated x s3 = (e4, s4)" by (metis surj_pair)
  obtain e5 s5 where c5: "do_cmd x cEXEC s4 = (e5, s5)" by (metis surj_pair)
  have w1: "world_only s s1" using do_cmd_world[of s x cMULTI] c1 by simp
  have w2: "world_only s s2" using send_cmds_world[of s1 x "txCmds (db s1)" "[]"] c2 world_only_trans[OF w1] by simp
  have w3: "world_only s s3" using flag_tables_world[of s2 x "gkeys m"] c3 world_only_trans[OF w2] by simp
  have w4: "world_only s s4"
    using do_cmd_world[of s3 x] c4 world_only_trans[OF w3] by (metis markConfigDBUpdated_do snd_conv)
  have w5: "world_only s s5" using do_cmd_world[of s4 x cEXEC] c5 world_only_trans[OF w4] by simp
  show ?thesis using w1 w2 w3 w4 w5
    by (simp add: commit_body_def c1 c2 c3 c4 c5 split: option.split)
qed

section \<open>Operations that keep the lock and the connection\<close>

definition keeps_conn :: "'w st \<Rightarrow> 'w st \<Rightarrow> bool" where
  "keeps_conn s s' \<longleftrightarrow> cdbLock s' = cdbLock s \<and> db_client (db s') = db_client (db s) \<and>
     IsSession (Opts (db s')) = IsSession (Opts (db s)) \<and> configDBLocked (db s') = configDBLocked (db s)"

lemma keeps_conn_refl [simp]: "keeps_conn s s"
  by (simp add: keeps_conn_def)

lemma keeps_conn_trans: "keeps_conn s s' \<Longrightarrow> keeps_conn s' s'' \<Longrightarrow> keeps_conn s s''"
  by (simp add: keeps_conn_def)

lemma world_only_keeps: "world_only s s' \<Longrightarrow> keeps_conn s s'"
  by (simp add: keeps_conn_def world_onlyD)

lemma keeps_conn_world [simp]: "keeps_conn s (s'\<lparr>world := w\<rparr>) = keeps_conn s s'"
  by (simp add: keeps_conn_def)

lemma keeps_conn_upd [simp]:
  "(\<And>d. db_client (f d) = db_client d \<and> IsSession (Opts (f d)) = IsSession (Opts d) \<and> configDBLocked (f d) = configDBLocked d) \<Longrightarrow>
    keeps_conn s (upd_db f s') = keeps_conn s s'"
  by (simp add: keeps_conn_def upd_db_def)

lemma keeps_conn_savePoint [simp]: "keeps_conn s (s'\<lparr>savePoint := p\<rparr>) = keeps_conn s s'"
  by (simp add: keeps_conn_def)

lemma keeps_conn_from [simp]: "keeps_conn (s\<lparr>world := w\<rparr>) s' = keeps_conn s s'"
  by (simp add: keeps_conn_def)

lemma tx_close_keeps [simp]: "keeps_conn s (tx_close x s') = keeps_conn s s'"
  by (simp add: tx_close_def Let_def split: option.split)

lemma commitTx_keeps: "keeps_conn s (snd (commitTx x s))"
proof -
  have "keeps_conn s (snd (commit_body x s))" by (rule world_only_keeps[OF commit_body_world])
  then show ?thesis by (cases "commit_body x s") (simp add: commitTx_def Let_def)
qed

lemma abortTx_keeps: "keeps_conn s (snd (abortTx x s))"
proof -
  have "keeps_conn s (snd (do_cmd x cUNWATCH s))" by (rule world_only_keeps[OF do_cmd_world])
  then show ?thesis by (cases "do_cmd x cUNWATCH s") (simp add: abortTx_def Let_def)
qed

lemma performWatch_keeps: "performWatch x w tss s = Some (e, s') \<Longrightarrow> keeps_conn s s'"
proof -
  assume p: "performWatch x w tss s = Some (e, s')"
  obtain e0 args where a: "watch_keys x w s (None, []) = Some (e0, args)"
    using p by (auto simp: performWatch_def split: option.splits)
  let ?args = "args @ map (\<lambda>ts. WName (ts2redisUpdated ts)) tss"
  have k: "keeps_conn s (snd (do_cmd x (cWATCH ?args) s))" by (rule world_only_keeps[OF do_cmd_world])
  show ?thesis
    using p a k by (auto simp: performWatch_def Let_def keeps_conn_def split: if_splits prod.splits option.splits)
qed

lemma NewValidationSession_keeps: "keeps_conn s (snd (NewValidationSession x s))"
  by (simp add: NewValidationSession_def split: prod.split sum.split)

lemma StoreCVLHint_keeps: "keeps_conn s (snd (StoreCVLHint k v s))"
  by (simp add: StoreCVLHint_def Let_def keeps_conn_def)

lemma store_hints_keeps: "keeps_conn s (snd (store_hints hs s))"
proof (induction hs s rule: store_hints.induct)
  case (2 k v hs s)
  obtain e s1 where h: "StoreCVLHint k v s = (e, s1)" by (metis surj_pair)
  have "keeps_conn s s1" using StoreCVLHint_keeps[of s k v] h by simp
  then show ?case using 2 h keeps_conn_trans by (cases e) auto
qed simp

lemma startTx_keeps:
  assumes "startTx x w tss s = Some (e, s')"
  shows "keeps_conn s s'"
proof -
  let ?s1 = "upd_db (\<lambda>d. d\<lparr>txTsEntryMap := [], txTsEntryHGetAll := []\<rparr>) s"
  have k1: "keeps_conn s ?s1" by (simp add: keeps_conn_def)
  obtain r s2 where n: "NewValidationSession x ?s1 = (r, s2)" by (metis surj_pair)
  have k2: "keeps_conn s s2" using NewValidationSession_keeps[of ?s1 x] n keeps_conn_trans[OF k1] by simp
  let ?cv = "\<lambda>c. upd_db (\<lambda>d. d\<lparr>db_cv := c\<rparr>) s2"
  have k3: "keeps_conn s (?cv c)" for c using k2 by (simp add: keeps_conn_def)
  show ?thesis
  proof (cases r)
    case (Inl e1)
    then show ?thesis using assms n k2 k3 by (auto simp: startTx_def split: if_splits)
  next
    case (Inr c)
    obtain e4 s4 where h: "store_hints (cvlHintsB4Open (db (?cv (Some c)))) (?cv (Some c)) = (e4, s4)" by (metis surj_pair)
    have k4: "keeps_conn s s4"
      using store_hints_keeps[of "?cv (Some c)" "cvlHintsB4Open (db (?cv (Some c)))"] h keeps_conn_trans[OF k3] by simp
    let ?s5 = "upd_db (\<lambda>d. d\<lparr>cvlHintsB4Open := []\<rparr>) s4"
    have k5: "keeps_conn s ?s5" using k4 by (simp add: keeps_conn_def)
    show ?thesis
      using assms n Inr h k3[of "Some c"] k4 keeps_conn_trans[OF k5 performWatch_keeps]
      by (auto simp: startTx_def Let_def split: if_splits option.splits)
  qed
qed

lemma rb_notify_keeps: "keeps_conn s (rb_notify cs s)"
  by (simp add: keeps_conn_def)

lemma rb_replay_keeps: "rb_replay x ix n s = Some (e, s') \<Longrightarrow> keeps_conn s s'"
proof (induction n arbitrary: ix s)
  case (Suc n)
  let ?l = "(cvlEditConfigData (db s))[ix := (cvlEditConfigData (db s) ! ix)\<lparr>VType := VALIDATE_ALL\<rparr>]"
  let ?s1 = "upd_db (\<lambda>d. d\<lparr>cvlEditConfigData := ?l\<rparr>) s"
  obtain w ret cei where v: "x_cvl_validate x (world ?s1) (db ?s1) (db_cv (db ?s1)) (take (Suc ix) ?l) = (w, ret, cei)"
    by (metis surj_pair)
  show ?case
  proof (cases "ret = CVL_SUCCESS \<and> ix < length (cvlEditConfigData (db s))")
    case True
    then obtain m where m: "rb_apply (Opts (db ?s1)) (?l ! ix) (txTsEntryMap (db ?s1)) = Some m"
      using Suc.prems v by (auto simp: Let_def split: option.splits)
    let ?s2 = "upd_db (\<lambda>d. d\<lparr>txTsEntryMap := m,
        cvlEditConfigData := ?l[ix := (?l ! ix)\<lparr>VType := VALIDATE_NONE\<rparr>]\<rparr>) (?s1\<lparr>world := w\<rparr>)"
    have "rb_replay x (Suc ix) n ?s2 = Some (e, s')" using Suc.prems v True m by (simp add: Let_def)
    from Suc.IH[OF this] show ?thesis by (rule keeps_conn_trans[rotated]) simp
  next
    case False
    then show ?thesis using Suc.prems v by (auto simp: Let_def split: if_splits)
  qed
qed simp

lemma rb_cvl_keeps:
  assumes "rb_cvl x sp s = Some (e, s')"
  shows "keeps_conn s s'"
proof (cases "db_cv (db s)")
  case None
  then show ?thesis using assms by (simp add: rb_cvl_def)
next
  case (Some cv)
  obtain w ret where c: "x_cvl_close x (world s) cv = (w, ret)" by (metis surj_pair)
  obtain r s2 where n: "NewValidationSession x (s\<lparr>world := w\<rparr>) = (r, s2)" by (metis surj_pair)
  have k2: "keeps_conn s s2"
    using NewValidationSession_keeps[of "s\<lparr>world := w\<rparr>" x] n by (simp add: keeps_conn_def)
  then have k3: "keeps_conn s (upd_db (\<lambda>d. d\<lparr>db_cv := v\<rparr>) s2)" for v by (simp add: keeps_conn_def)
  have k4: "keeps_conn s s3" if "rb_replay x 0 (cECDLen sp) (upd_db (\<lambda>d. d\<lparr>db_cv := Some v\<rparr>) s2) = Some (e3, s3)" for v e3 s3
    using keeps_conn_trans[OF k3 rb_replay_keeps[OF that]] .
  show ?thesis
    using assms Some c n k3 k4
    by (auto simp: rb_cvl_def Let_def split: if_splits sum.splits option.splits)
qed

lemma Rollback2SP_keeps:
  assumes "Rollback2SP x s = Some (e, s')"
  shows "keeps_conn s s'"
proof (cases "IsSession (Opts (db s)) \<and> savePoint s \<noteq> None")
  case True
  then obtain sp where sp: "savePoint s = Some sp" by blast
  obtain ops m h s1 where r: "rb_ops (Opts (db s)) (txTsEntryMap (db s)) (txTsOrigEntryMap sp) = Some ops"
    "rb_cvl x sp (upd_db (\<lambda>d. d\<lparr>txCmds := take (txCmdsLen sp) (txCmds d), txTsEntryMap := m, txTsEntryHGetAll := h\<rparr>) s) =
      Some (e, s1)"
    "s' = (upd_db (\<lambda>d. d\<lparr>db_cache := \<lparr>cTables = [], cMaps = []\<rparr>\<rparr>)
       (rb_notify ops (if e \<noteq> None then upd_db (\<lambda>d. d\<lparr>db_err := e\<rparr>) s1 else s1)))\<lparr>savePoint := None\<rparr>"
    using assms True sp by (auto simp: Rollback2SP_def Let_def split: option.splits if_splits)
  have "keeps_conn s s1"
    using rb_cvl_keeps[OF r(2)] by (simp add: keeps_conn_def)
  then show ?thesis by (simp add: r(3) keeps_conn_def)
next
  case False
  then show ?thesis using assms by (auto simp: Rollback2SP_def split: if_splits)
qed

lemma DeclareSP_keeps: "keeps_conn s (snd (DeclareSP s))"
  by (simp add: DeclareSP_def keeps_conn_def)

lemma ReleaseSP_keeps: "keeps_conn s (snd (ReleaseSP s))"
  by (simp add: ReleaseSP_def keeps_conn_def)

lemma clearCVLHint_keeps: "keeps_conn s (clearCVLHint k s)"
  by (simp add: keeps_conn_def)

section \<open>The lock of the process\<close>

text \<open>Whatever the server answers, \<open>ConfigDBTryLock\<close> and \<open>ConfigDBUnlock\<close> leave \<open>cdbLock\<close> so.\<close>

lemma tryLock_result:
  "tryLock x l w = (e, l', w') \<Longrightarrow> \<not> lkLocked l \<Longrightarrow> if e = None then l' = l\<lparr>lkLocked := True\<rparr> else l' = l"
  by (auto simp: tryLock_def Let_def split: prod.splits sum.splits reply.splits if_splits)

lemma tryLock_loop_result:
  "tryLock_loop x n l w = (e, w', c) \<Longrightarrow> \<not> lkLocked l \<Longrightarrow> n > 0 \<Longrightarrow>
    if e = None then c = Some (l\<lparr>lkLocked := True\<rparr>) else c = None"
proof (induction n arbitrary: l w)
  case (Suc n)
  obtain e1 l1 w1 where t: "tryLock x l w = (e1, l1, w1)" by (metis surj_pair)
  note r = tryLock_result[OF t Suc.prems(2)]
  show ?case
  proof (cases e1)
    case None
    then show ?thesis using Suc.prems(1) t r by auto
  next
    case (Some er)
    then show ?thesis using Suc.prems(1,2) Suc.IH[of l w1] t r
      by (cases "n = 0") (auto split: if_splits)
  qed
qed simp

lemma ConfigDBTryLock_result:
  assumes "ConfigDBTryLock x token w cdb = (e, w', c)"
  shows "if e = None
     then cdb = None \<and> c = Some \<lparr>lkName = configDBLock, lkId = token, lkComm = x_execName x, lkLocked = True\<rparr>
     else c = cdb"
  using assms tryLock_loop_result[of x tryLockAttempt _ w e w' c]
  by (cases cdb) (fastforce simp: ConfigDBTryLock_def tryLockAttempt_def split: if_splits)+

lemma lock_op_try:
  assumes "lock_op (ConfigDBTryLock x token) s = (e, s')"
  shows "db s' = db s" "if e = None
     then cdbLock s = None \<and> (\<exists>l. cdbLock s' = Some l \<and> lkId l = token \<and> lkLocked l \<and> lkName l = configDBLock)
     else cdbLock s' = cdbLock s"
proof -
  obtain e1 w c where r: "ConfigDBTryLock x token (world s) (cdbLock s) = (e1, w, c)" by (metis surj_pair)
  show "db s' = db s" using assms r by (auto simp: lock_op_def)
  show "if e = None
     then cdbLock s = None \<and> (\<exists>l. cdbLock s' = Some l \<and> lkId l = token \<and> lkLocked l \<and> lkName l = configDBLock)
     else cdbLock s' = cdbLock s"
    using assms ConfigDBTryLock_result[OF r] r by (auto simp: lock_op_def split: if_splits)
qed

lemma lock_op_unlock [simp]:
  "cdbLock (snd (lock_op (ConfigDBUnlock x token) s)) = None"
  by (auto simp: lock_op_def ConfigDBUnlock_def split: prod.split option.split)

section \<open>Writes\<close>

text \<open>A connection to the running configuration may take the lock with its first write.\<close>

definition conn_step :: "'w st \<Rightarrow> 'w st \<Rightarrow> bool" where
  "conn_step s s' \<longleftrightarrow> db_client (db s') = db_client (db s) \<and> IsSession (Opts (db s')) = IsSession (Opts (db s)) \<and>
     (configDBLocked (db s') = configDBLocked (db s) \<and> cdbLock s' = cdbLock s \<or>
      \<not> IsSession (Opts (db s)) \<and> \<not> configDBLocked (db s) \<and> configDBLocked (db s') \<and> cdbLock s = None \<and>
        (\<exists>l. cdbLock s' = Some l \<and> lkId l = noSessionToken))"

lemma conn_step_refl [simp]: "conn_step s s"
  by (simp add: conn_step_def)

lemma conn_step_trans: "conn_step s s' \<Longrightarrow> conn_step s' s'' \<Longrightarrow> conn_step s s''"
  by (auto simp: conn_step_def)

lemma keeps_conn_step: "keeps_conn s s' \<Longrightarrow> conn_step s s'"
  by (simp add: keeps_conn_def conn_step_def)

lemma conn_step_session: "IsSession (Opts (db s)) \<Longrightarrow> conn_step s s' \<Longrightarrow> keeps_conn s s'"
  by (simp add: keeps_conn_def conn_step_def)

lemma doCVL_keeps: "keeps_conn s (snd (doCVL x ts ops key vals s))"
  by (auto simp: doCVL_def Let_def split: prod.split option.split)

lemma doWrite_plain_keeps: "keeps_conn s (snd (doWrite_plain x ts op key val s))"
proof (cases "op_rcmd (Opts (db s)) ts op key val")
  case None
  then show ?thesis by (simp add: doWrite_plain_def)
next
  case (Some c)
  obtain e s1 where d: "do_cmd x c s = (e, s1)" by (metis surj_pair)
  have w: "world_only s s1" using do_cmd_world[of s x c] d by simp
  have m: "world_only s1 (snd (markConfigDBUpdated x s1))"
    using do_cmd_world[of s1 x] by (metis markConfigDBUpdated_do)
  show ?thesis using Some d w world_only_keeps[OF w] world_only_keeps[OF world_only_trans[OF w m]]
    by (simp add: doWrite_plain_def)
qed

lemma doWrite_tx_keeps: "keeps_conn s (snd (doWrite_tx x ts op key val s))"
proof -
  let ?s0 = "doTxSPsave ts key (upd_db (ensure_tx_table (tsName ts)) s)"
  obtain e v s1 where c: "doWrite_cache x ts op key val ?s0 = ((e, v), s1)" by (metis surj_pair)
  have k0: "keeps_conn s ?s0" by (simp add: keeps_conn_def ensure_tx_table_def)
  have "configDBLocked (db s1) = configDBLocked (db ?s0)"
    using c by (auto simp: doWrite_cache_def Let_def set_tx_entry_def split: if_splits option.splits sum.splits)
  then have k1: "keeps_conn s s1"
    using doWrite_cache_frame[OF c] k0 by (simp add: keeps_conn_def)
  then have "keeps_conn s (upd_db (append_cmd \<lparr>tc_ts = ts, tc_op = op, tc_key = key, tc_value = v\<rparr>) s1)"
    by (simp add: keeps_conn_def append_cmd_def Let_def)
  then show ?thesis using c k1
    by (auto simp: doWrite_tx_def write_notify_def keeps_conn_def Let_def split: option.split)
qed

lemma lazy_lock_conn: "conn_step s (snd (lazy_lock x s))"
proof (cases "DBNo (Opts (db s)) = ConfigDB \<and> \<not> IsSession (Opts (db s)) \<and> \<not> configDBLocked (db s)")
  case True
  obtain e s1 where l: "lock_op (ConfigDBTryLock x noSessionToken) s = (e, s1)" by (metis surj_pair)
  show ?thesis using lock_op_try[OF l] True l
    by (cases e) (auto simp: lazy_lock_def conn_step_def)
qed (auto simp: lazy_lock_def)

lemma doWrite_conn: "conn_step s (snd (doWrite x ts op key val s))"
proof -
  obtain e s1 where l: "lazy_lock x s = (e, s1)" by (metis surj_pair)
  have c: "conn_step s s1" using lazy_lock_conn[of s x] l by simp
  have "keeps_conn s1 (snd (doWrite_tx x ts op key val (upd_db (\<lambda>d. d\<lparr>tx_state := txStateSet\<rparr>) s1)))"
    using doWrite_tx_keeps[of "upd_db (\<lambda>d. d\<lparr>tx_state := txStateSet\<rparr>) s1"] by (simp add: keeps_conn_def)
  then have "conn_step s (snd (doWrite_tx x ts op key val (upd_db (\<lambda>d. d\<lparr>tx_state := txStateSet\<rparr>) s1)))"
    "conn_step s (snd (doWrite_tx x ts op key val s1))" "conn_step s (snd (doWrite_plain x ts op key val s1))"
    using conn_step_trans[OF c] keeps_conn_step doWrite_tx_keeps doWrite_plain_keeps by blast+
  then show ?thesis
    using c by (simp add: doWrite_def l Key_Copy_id split: option.split txState.split)
qed

text \<open>Several steps in a row, each one only after the success of the one before.\<close>

lemma then_step:
  assumes "conn_step s (snd r)" "\<And>s1. conn_step s1 (snd (f s1))"
  shows "conn_step s (snd (case r of (Some e, s1) \<Rightarrow> (Some e, s1) | (None, s1) \<Rightarrow> f s1))"
proof (cases r)
  case (Pair e s1)
  then have "conn_step s s1" "conn_step s (snd (f s1))"
    using assms conn_step_trans[of s s1 "snd (f s1)"] by simp_all
  then show ?thesis using Pair by (simp split: option.split)
qed

lemma doCVL_conn: "conn_step s (snd (doCVL x ts ops key vals s))"
  by (rule keeps_conn_step[OF doCVL_keeps])

lemmas write_steps = then_step doCVL_conn doWrite_conn

lemma DeleteEntry_conn: "conn_step s (snd (DeleteEntry x ts key s))"
  by (auto simp: DeleteEntry_def intro!: write_steps)

lemma ModEntry_conn: "conn_step s (snd (ModEntry x ts key v s))"
  by (auto simp: ModEntry_def DeleteEntry_conn intro!: write_steps)

lemma DeleteEntryFields_conn: "conn_step s (snd (DeleteEntryFields x ts key v s))"
  by (auto simp: DeleteEntryFields_def intro!: write_steps)

lemma same_keeps: "same_tx (db s) (db s') \<Longrightarrow> same_pkg s s' \<Longrightarrow> keeps_conn s s'"
  by (simp add: keeps_conn_def same_tx_def same_pkg_def)

lemma GetEntry_keeps: "keeps_conn s (snd (GetEntry x ts key s))"
  by (rule same_keeps) simp_all

lemma setEntry_conn: "conn_step s (snd (setEntry x ts key v c s))"
proof (cases "length (Flds v) = 0")
  case True
  then show ?thesis by (simp add: setEntry_def DeleteEntry_conn)
next
  case False
  obtain cur e s1 where g: "(if \<not> c then GetEntry x ts key s else ((\<lparr>Flds = []\<rparr>, None), s)) = ((cur, e), s1)"
    by (metis surj_pair)
  have k1: "conn_step s s1"
    using keeps_conn_step[OF GetEntry_keeps[of s x ts key]] g by (auto split: if_splits)
  let ?vc = "if \<not> c \<and> e = None then complement (Flds cur) (Flds v) [] else []"
  let ?r = "if \<not> c \<and> e = None then
                  (if length ?vc = 0 then doCVL x ts [OP_UPDATE] key [v] s1
                   else doCVL x ts [OP_UPDATE, OP_DELETE] key [v, \<lparr>Flds = ?vc\<rparr>] s1)
                else doCVL x ts [OP_CREATE] key [v] s1"
  let ?f = "\<lambda>s2. case doWrite x ts txOpHMSet key v s2 of
                 (Some e, s3) \<Rightarrow> (Some e, s3)
               | (None, s3) \<Rightarrow>
                   if length ?vc \<noteq> 0 then doWrite x ts txOpHDel key \<lparr>Flds = ?vc\<rparr> s3 else (None, s3)"
  have s: "setEntry x ts key v c s = (case ?r of (Some e, s2) \<Rightarrow> (Some e, s2) | (None, s2) \<Rightarrow> ?f s2)"
    using False g by (simp add: setEntry_def Let_def)
  have r: "conn_step s (snd ?r)"
    by (simp add: conn_step_trans[OF k1 doCVL_conn])
  have f: "conn_step s2 (snd (?f s2))" for s2
    by (rule then_step[OF doWrite_conn]) (simp add: doWrite_conn)
  show ?thesis unfolding s by (rule then_step[OF r f])
qed

lemma apply_edit_conn: "conn_step s (apply_edit x ed s)"
  by (cases ed) (simp_all add: CreateEntry_def SetEntry_def setEntry_conn ModEntry_conn DeleteEntry_conn
      DeleteEntryFields_conn GetEntry_keeps keeps_conn_step)

section \<open>Opening and closing a connection\<close>

lemma newDB_configdb_lock:
  assumes "newDB_configdb x s = (e, s')" "\<not> configDBLocked (db s)"
  shows "Opts (db s') = Opts (db s) \<and> db_client (db s') = db_client (db s) \<and>
    (if configDBLocked (db s')
     then \<not> IsSession (Opts (db s)) \<and> cdbLock s = None \<and> (\<exists>l. cdbLock s' = Some l \<and> lkId l = noSessionToken)
     else cdbLock s' = cdbLock s)"
proof -
  let ?b = "\<not> IsSession (Opts (db s)) \<and> \<not> IsWriteDisabled (Opts (db s)) \<and> \<not> ConfigDBLazyLock (Opts (db s))"
  obtain e1 s1 where l: "lock_op (ConfigDBTryLock x noSessionToken) s = (e1, s1)" by (metis surj_pair)
  note r = lock_op_try[OF l]
  show ?thesis
    using assms l r
    by (auto simp: newDB_configdb_def Let_def close_client_def registerSessionDB_def
        split: if_splits option.splits)
qed

lemma newDB_checks_lock:
  assumes "newDB_checks x s = (e, s')" "\<not> configDBLocked (db s)"
  shows "IsSession (Opts (db s')) = IsSession (Opts (db s)) \<and> db_client (db s') = db_client (db s) \<and>
    (db_client (db s) = None \<longrightarrow> e \<noteq> None) \<and>
    (if configDBLocked (db s')
     then \<not> IsSession (Opts (db s)) \<and> cdbLock s = None \<and> (\<exists>l. cdbLock s' = Some l \<and> lkId l = noSessionToken)
     else cdbLock s' = cdbLock s)"
proof (cases "db_client (db s) = None")
  case True
  then show ?thesis using assms by (auto simp: newDB_checks_def)
next
  case False
  define opt where "opt = (if IsCacheEnabled (Opts (db s)) \<and> IsOnChangeEnabled (Opts (db s))
      then (Opts (db s))\<lparr>IsCacheEnabled := False\<rparr> else Opts (db s))"
  have o: "IsSession opt = IsSession (Opts (db s))" by (simp add: opt_def)
  have conf: "newDB_configdb x s1 = (e, s') \<Longrightarrow> Opts (db s1) = opt \<Longrightarrow> db_client (db s1) = db_client (db s) \<Longrightarrow>
      cdbLock s1 = cdbLock s \<Longrightarrow> \<not> configDBLocked (db s1) \<Longrightarrow> ?thesis" for s1
    using newDB_configdb_lock[of x s1 e s'] o False by (cases "configDBLocked (db s')") auto
  define s1 where "s1 = upd_db (\<lambda>d. d\<lparr>dbCacheConfig := (dbCacheConfig d)\<lparr>PerConnection :=
      PerConnection (dbCacheConfig (db (upd_db (\<lambda>d. d\<lparr>Opts := opt\<rparr>) s))) \<and> IsWriteDisabled opt \<and>
      IsCacheEnabled opt \<and> \<not> IsSession opt\<rparr>\<rparr>) (upd_db (\<lambda>d. d\<lparr>Opts := opt\<rparr>) s)"
  have s1: "Opts (db s1) = opt" "db_client (db s1) = db_client (db s)" "cdbLock s1 = cdbLock s"
    "configDBLocked (db s1) = configDBLocked (db s)" by (simp_all add: s1_def)
  have n: "newDB_checks x s =
      (if IsOnChangeEnabled opt \<and> \<not> IsWriteDisabled opt then (Some TranslibDBCannotOpen, upd_db (\<lambda>d. d\<lparr>Opts := opt\<rparr>) s)
       else if IsSession opt \<and> IsOnChangeEnabled opt then
            (Some (TranslibDBNotSupported ''Subscription on Config Session not supported''), close_client x s1)
          else if IsSession opt \<and> DBNo opt \<noteq> ConfigDB then
            (Some (TranslibDBNotSupported ''Non-Config DB on Config Session not supported''), close_client x s1)
          else newDB_configdb x (if IsOnChangeEnabled opt then upd_db (\<lambda>d. d\<lparr>onCReg := []\<rparr>) s1 else s1))"
    unfolding newDB_checks_def Let_def s1_def opt_def using False by (simp only: if_False simp_thms)
  show ?thesis
  proof (cases "newDB_checks x s = newDB_configdb x (if IsOnChangeEnabled opt then upd_db (\<lambda>d. d\<lparr>onCReg := []\<rparr>) s1 else s1)")
    case True
    then show ?thesis using assms s1
      by (intro conf[of "if IsOnChangeEnabled opt then upd_db (\<lambda>d. d\<lparr>onCReg := []\<rparr>) s1 else s1"]) simp_all
  next
    case not: False
    then have "s' = upd_db (\<lambda>d. d\<lparr>Opts := opt\<rparr>) s \<or> s' = close_client x s1" "e \<noteq> None"
      using n assms(1) by (auto split: if_splits)
    then show ?thesis using s1 assms(2) o False by (auto simp: close_client_def)
  qed
qed

lemma NewDB_lock:
  assumes "NewDB x opt sc cc s = (e, s')"
  shows "IsSession (Opts (db s')) = IsSession opt \<and> (e = None \<longrightarrow> db_client (db s') \<noteq> None) \<and>
    (if configDBLocked (db s')
     then \<not> IsSession opt \<and> cdbLock s = None \<and> (\<exists>l. cdbLock s' = Some l \<and> lkId l = noSessionToken)
     else cdbLock s' = cdbLock s)"
proof -
  obtain w rc where c: "x_client x (world s) (DBNo opt) (ForceNewRedisConnection opt) = (w, rc)" by (metis surj_pair)
  let ?s0 = "s\<lparr>world := w, db := newDB_object opt rc sc cc\<rparr>"
  obtain e1 s1 where k: "newDB_checks x ?s0 = (e1, s1)" by (metis surj_pair)
  have "\<not> configDBLocked (db ?s0)" by (simp add: newDB_object_def)
  note r = newDB_checks_lock[OF k this]
  have "e = e1 \<and> db s' = db s1 \<and> cdbLock s' = cdbLock s1"
    using assms c k by (auto simp: NewDB_def Let_def)
  then show ?thesis using r by (auto simp: newDB_object_def)
qed

lemma DeleteDB_lock:
  "cdbLock (snd (DeleteDB x s)) = (if configDBLocked (db s) then None else cdbLock s)"
  "\<not> configDBLocked (db (snd (DeleteDB x s)))"
  by (auto simp: DeleteDB_def Let_def unRegisterSessionDB_def split: prod.split)

end
