(* ===== verification/CS_Inv.thy ===== *)
theory CS_Inv
  imports CS_Frame
begin

text \<open>
  The invariant of the package: while there is a session the process holds the
  configuration lock under the session's token, no other connection holds it, and the
  session's own connection is open; without a session the lock is free, or one connection
  to the running configuration holds it.  It is kept by every request, whatever stale copy
  of the session the request works with, by the timer's goroutine and by connections to
  the running configuration that come and go.
\<close>

section \<open>Connections of the heap\<close>

definition locked :: "'w cs_st \<Rightarrow> nat set" where
  "locked S = {p. \<exists>d. gget (cs_dbs S) p = Some d \<and> configDBLocked d}"

definition live :: "'w cs_st \<Rightarrow> nat \<Rightarrow> bool" where
  "live S p \<longleftrightarrow> (\<exists>d. gget (cs_dbs S) p = Some d \<and> db_client d \<noteq> None \<and> IsSession (Opts d))"

definition heap_ok :: "'w cs_st \<Rightarrow> bool" where
  "heap_ok S \<longleftrightarrow> (\<forall>p. gget (cs_dbs S) p \<noteq> None \<longleftrightarrow> p < length (cs_dbs S))"

definition session_ok :: "'w cs_st \<Rightarrow> configSession \<Rightarrow> bool" where
  "session_ok S u \<longleftrightarrow>
     (cs_state u = cs_STATE_ACTIVE \<or> cs_state u = cs_STATE_SUSPENDED \<and> cs_pid u = 0) \<and>
     (\<exists>l. cdbLock (cs_pkg S) = Some l \<and> lkId l = cs_token u \<and> lkLocked l) \<and>
     (\<exists>p. ccDB u = Some p \<and> live S p)"

definition cs_inv :: "'w cs_st \<Rightarrow> bool" where
  "cs_inv S \<longleftrightarrow> heap_ok S \<and>
     (case uCS S of
        None \<Rightarrow> cdbLock (cs_pkg S) = None \<and> locked S = {} \<or>
                (\<exists>p l. locked S = {p} \<and> cdbLock (cs_pkg S) = Some l \<and> lkId l = noSessionToken)
      | Some u \<Rightarrow> locked S = {} \<and> session_ok S u)"

text \<open>Steps that keep all of this.\<close>

definition same_core :: "'w cs_st \<Rightarrow> 'w cs_st \<Rightarrow> bool" where
  "same_core S S' \<longleftrightarrow> cdbLock (cs_pkg S') = cdbLock (cs_pkg S) \<and> locked S' = locked S \<and>
     live S' = live S \<and> (heap_ok S \<longrightarrow> heap_ok S')"

lemma same_core_refl [simp]: "same_core S S"
  by (simp add: same_core_def)

lemma same_core_trans: "same_core S S' \<Longrightarrow> same_core S' S'' \<Longrightarrow> same_core S S''"
  by (simp add: same_core_def)

lemma core_uCS [simp]: "same_core S (S'\<lparr>uCS := u\<rparr>) = same_core S S'"
  by (simp add: same_core_def locked_def live_def [abs_def] heap_ok_def)

lemma core_other [simp]:
  "same_core S (S'\<lparr>timers := a\<rparr>) = same_core S S'" "same_core S (S'\<lparr>gors := b\<rparr>) = same_core S S'"
  "same_core S (S'\<lparr>n_ch := c\<rparr>) = same_core S S'" "same_core S (S'\<lparr>mesgs := d\<rparr>) = same_core S S'"
  "same_core S (S'\<lparr>cpHistEnts := e\<rparr>) = same_core S S'" "same_core S (S'\<lparr>is_hist_loaded := f\<rparr>) = same_core S S'"
  "same_core S (S'\<lparr>csTokenCtr := g\<rparr>) = same_core S S'"
  "same_core S (S'\<lparr>cs_pkg := (cs_pkg S')\<lparr>world := w\<rparr>\<rparr>) = same_core S S'"
  by (simp_all add: same_core_def locked_def live_def [abs_def] heap_ok_def)

lemma session_ok_core: "same_core S S' \<Longrightarrow> session_ok S' u = session_ok S u"
  by (simp add: same_core_def session_ok_def)

lemma cs_inv_core:
  assumes "cs_inv S" "same_core S S'" "uCS S' = uCS S"
  shows "cs_inv S'"
  using assms session_ok_core[OF assms(2)] by (auto simp: cs_inv_def same_core_def split: option.splits)

text \<open>Steps that also change the session, but not what identifies it.\<close>

lemma cs_inv_update:
  assumes "cs_inv S" "same_core S S'" "uCS S = Some u" "uCS S' = Some u'" "session_ok S u \<Longrightarrow> session_ok S u'"
  shows "cs_inv S'"
  using assms(1,3-5) assms(2)[unfolded same_core_def] session_ok_core[OF assms(2), of u']
  by (auto simp: cs_inv_def)

section \<open>Calls on a connection\<close>

lemma gget_put_pkg [simp]:
  "gget (cs_dbs (put_pkg (Some p) s S)) q = (if q = p then Some (db s) else gget (cs_dbs S) q)"
  by (simp add: put_pkg_def)

lemma put_pkg_sel [simp]:
  "cs_pkg (put_pkg p s S) = s" "uCS (put_pkg p s S) = uCS S" "timers (put_pkg p s S) = timers S"
  "gors (put_pkg p s S) = gors S" "n_ch (put_pkg p s S) = n_ch S" "cpHistEnts (put_pkg p s S) = cpHistEnts S"
  "is_hist_loaded (put_pkg p s S) = is_hist_loaded S" "csTokenCtr (put_pkg p s S) = csTokenCtr S"
  by (simp_all add: put_pkg_def split: option.split)

lemma length_gset_new: "gget m k = None \<Longrightarrow> length (gset k v m) = Suc (length m)"
  by (simp add: gset_fresh)

lemma heap_ok_put:
  assumes "heap_ok S" "p \<le> length (cs_dbs S)"
  shows "heap_ok (put_pkg (Some p) s S)"
proof (cases "p < length (cs_dbs S)")
  case True
  then have "gget (cs_dbs S) p \<noteq> None" using assms(1) by (simp add: heap_ok_def)
  then have l: "length (gset p (db s) (cs_dbs S)) = length (cs_dbs S)" by (rule length_gset)
  then show ?thesis using assms(1) True unfolding heap_ok_def by (simp add: put_pkg_def)
next
  case False
  then have "gget (cs_dbs S) p = None" using assms(1) by (metis heap_ok_def)
  then have "length (gset p (db s) (cs_dbs S)) = Suc (length (cs_dbs S))" by (rule length_gset_new)
  then show ?thesis using assms False unfolding heap_ok_def by (simp add: put_pkg_def less_Suc_eq)
qed

lemma locked_put:
  "locked (put_pkg (Some p) s S) = (if configDBLocked (db s) then insert p (locked S) else locked S - {p})"
  by (auto simp: locked_def)

lemma live_put: "live (put_pkg (Some p) s S) q =
    (if q = p then db_client (db s) \<noteq> None \<and> IsSession (Opts (db s)) else live S q)"
  by (simp add: live_def)

lemma the_db_live: "gget (cs_dbs S) p = Some d \<Longrightarrow> the_db (Some p) S = d"
  by (simp add: the_db_def)

lemma put_pkg_core:
  assumes "gget (cs_dbs S) p = Some d" "keeps_conn ((cs_pkg S)\<lparr>db := d\<rparr>) s"
  shows "same_core S (put_pkg (Some p) s S)"
proof -
  have "p < length (cs_dbs S)" if "heap_ok S" using that assms(1) by (metis heap_ok_def option.distinct(1))
  then have "heap_ok S \<Longrightarrow> heap_ok (put_pkg (Some p) s S)" using heap_ok_put[of S p s] by simp
  moreover have "locked (put_pkg (Some p) s S) = locked S"
    using assms by (auto simp: locked_put locked_def keeps_conn_def)
  moreover have "live (put_pkg (Some p) s S) = live S"
    using assms by (auto simp: live_put live_def keeps_conn_def fun_eq_iff)
  ultimately show ?thesis using assms(2) by (simp add: same_core_def keeps_conn_def)
qed

lemma on_db_core:
  assumes "gget (cs_dbs S) p = Some d" "\<And>s. db s = d \<Longrightarrow> keeps_conn s (snd (f s))"
  shows "same_core S (snd (on_db (Some p) f S)) \<and> uCS (snd (on_db (Some p) f S)) = uCS S"
proof -
  obtain r s where f: "f ((cs_pkg S)\<lparr>db := d\<rparr>) = (r, s)" by (metis surj_pair)
  have "keeps_conn ((cs_pkg S)\<lparr>db := d\<rparr>) s" using assms(2)[of "(cs_pkg S)\<lparr>db := d\<rparr>"] f by simp
  from put_pkg_core[OF assms(1) this] show ?thesis
    using f by (simp add: on_db_def the_db_live[OF assms(1)])
qed

lemma on_db_opt_core:
  assumes "gget (cs_dbs S) p = Some d" "on_db_opt (Some p) f S = Ret (r, S')"
    and "\<And>s r s'. db s = d \<Longrightarrow> f s = Some (r, s') \<Longrightarrow> keeps_conn s s'"
  shows "same_core S S' \<and> uCS S' = uCS S"
proof -
  obtain s where f: "f ((cs_pkg S)\<lparr>db := d\<rparr>) = Some (r, s)" "S' = put_pkg (Some p) s S"
    using assms(2) by (auto simp: on_db_opt_def the_db_live[OF assms(1)] split: option.splits)
  have "keeps_conn ((cs_pkg S)\<lparr>db := d\<rparr>) s" using assms(3)[OF _ f(1)] by simp
  from put_pkg_core[OF assms(1) this] show ?thesis by (simp add: f(2))
qed

lemma on_host_core [simp]: "same_core S (snd (on_host y q S)) \<and> uCS (snd (on_host y q S)) = uCS S"
  by (simp add: on_host_def split: prod.split)

section \<open>The end of a session\<close>

lemma live_gget: "live S p \<Longrightarrow> \<exists>d. gget (cs_dbs S) p = Some d"
  by (auto simp: live_def)

text \<open>Deleting the connection and giving the lock back, in either order.\<close>

lemma end_session:
  assumes "cs_inv S" "uCS S = Some u" "ccDB u = Some p"
  shows "cs_inv ((snd (on_db (Some p) (DeleteDB x) (snd (unlockDB y t S))))\<lparr>uCS := None\<rparr>)"
    "cs_inv ((snd (unlockDB y t (snd (on_db (Some p) (DeleteDB x) S))))\<lparr>uCS := None\<rparr>)"
proof -
  have i: "heap_ok S" "locked S = {}" "live S p"
    using assms by (auto simp: cs_inv_def session_ok_def)
  obtain d where d: "gget (cs_dbs S) p = Some d" using live_gget[OF i(3)] by blast
  have nl: "\<not> configDBLocked d" using i(2) d by (auto simp: locked_def)
  have p: "p < length (cs_dbs S)" using i(1) d by (metis heap_ok_def option.distinct(1))
  define S1 where "S1 = snd (unlockDB y t S)"
  have s1: "cdbLock (cs_pkg S1) = None" "cs_dbs S1 = cs_dbs S"
    by (simp_all add: S1_def unlockDB_def on_pkg_def lock_op_unlock[simplified] split: prod.split)
       (metis lock_op_unlock snd_conv)
  have h1: "heap_ok S1" "locked S1 = {}" using i s1(2) by (simp_all add: heap_ok_def locked_def)
  obtain r s where f: "DeleteDB x ((cs_pkg S1)\<lparr>db := d\<rparr>) = (r, s)" by (metis surj_pair)
  have fl: "cdbLock s = None" "\<not> configDBLocked (db s)"
    using DeleteDB_lock[of x "(cs_pkg S1)\<lparr>db := d\<rparr>"] f nl s1(1) by simp_all
  have "snd (on_db (Some p) (DeleteDB x) S1) = put_pkg (Some p) s S1"
    using f s1(2) d by (simp add: on_db_def the_db_live)
  then show "cs_inv ((snd (on_db (Some p) (DeleteDB x) (snd (unlockDB y t S))))\<lparr>uCS := None\<rparr>)"
    using heap_ok_put[OF h1(1), of p s] p s1(2) h1(2) fl locked_put[of p s S1]
    by (simp add: S1_def[symmetric] cs_inv_def heap_ok_def locked_def)
  obtain r2 s2 where g: "DeleteDB x ((cs_pkg S)\<lparr>db := d\<rparr>) = (r2, s2)" by (metis surj_pair)
  have gl: "\<not> configDBLocked (db s2)"
    using DeleteDB_lock[of x "(cs_pkg S)\<lparr>db := d\<rparr>"] g by simp
  have o: "snd (on_db (Some p) (DeleteDB x) S) = put_pkg (Some p) s2 S"
    using g d by (simp add: on_db_def the_db_live)
  define S2 where "S2 = snd (unlockDB y t (put_pkg (Some p) s2 S))"
  have s2: "cdbLock (cs_pkg S2) = None" "cs_dbs S2 = cs_dbs (put_pkg (Some p) s2 S)"
    by (simp_all add: S2_def unlockDB_def on_pkg_def split: prod.split) (metis lock_op_unlock snd_conv)
  have "heap_ok (put_pkg (Some p) s2 S)" "locked (put_pkg (Some p) s2 S) = {}"
    using heap_ok_put[OF i(1), of p s2] p i(2) gl by (simp_all add: locked_put)
  then show "cs_inv ((snd (unlockDB y t (snd (on_db (Some p) (DeleteDB x) S))))\<lparr>uCS := None\<rparr>)"
    using s2 unfolding o S2_def[symmetric] by (simp add: cs_inv_def heap_ok_def locked_def)
qed

section \<open>Each operation keeps the invariant\<close>

lemma cs_inv_db:
  assumes "cs_inv S" "uCS S = Some u"
  obtains p d where "ccDB u = Some p" "gget (cs_dbs S) p = Some d" "IsSession (Opts d)" "db_client d \<noteq> None"
  using assms by (auto simp: cs_inv_def session_ok_def live_def)

lemma suspendCS_inv: "cs_inv S \<Longrightarrow> cs_inv (snd (suspendCS y S))"
proof (cases "uCS S")
  case (Some u)
  assume i: "cs_inv S"
  show ?thesis
  proof (cases "cs_state u = cs_STATE_ACTIVE")
    case True
    then show ?thesis using Some
      by (intro cs_inv_update[OF i _ Some]) (auto simp: suspendCS_def Let_def session_ok_def)
  qed (simp add: suspendCS_def Some i)
qed (simp add: suspendCS_def)

lemma resumeCS_inv: "cs_inv S \<Longrightarrow> cs_inv (snd (resumeCS y roles pid S))"
proof (cases "uCS S")
  case (Some u)
  assume i: "cs_inv S"
  show ?thesis
  proof (cases "cs_state u = cs_STATE_SUSPENDED")
    case True
    then show ?thesis using Some
      by (intro cs_inv_update[OF i _ Some]) (auto simp: resumeCS_def Let_def session_ok_def)
  qed (simp add: resumeCS_def Some i)
qed (simp add: resumeCS_def)

text \<open>Updates of the fields that do not identify the session.\<close>

definition touch :: "(configSession \<Rightarrow> configSession) \<Rightarrow> bool" where
  "touch f \<longleftrightarrow> (\<forall>u. cs_state (f u) = cs_state u \<and> cs_pid (f u) = cs_pid u \<and> cs_token (f u) = cs_token u \<and>
     ccDB (f u) = ccDB u)"

lemma touch_inv:
  assumes "cs_inv S" "touch f" "same_core S S'" "uCS S' = map_option f (uCS S)"
  shows "cs_inv S'"
proof (cases "uCS S")
  case None
  then show ?thesis using assms by (intro cs_inv_core[OF assms(1,3)]) simp
next
  case (Some u)
  then show ?thesis using assms(2,4)
    by (intro cs_inv_update[OF assms(1,3) Some, of "f u"]) (simp_all add: touch_def session_ok_def)
qed

lemma UpdateLastActiveTime_inv: "cs_inv S \<Longrightarrow> cs_inv (UpdateLastActiveTime y S)"
  by (rule touch_inv[where f = "\<lambda>u. u\<lparr>lastActiveTime := now y S\<rparr>"])
     (cases "uCS S"; simp add: touch_def UpdateLastActiveTime_def)+

lemma SetRollbackCfg_inv: "cs_inv S \<Longrightarrow> cs_inv (SetRollbackCfg cfg S)"
  by (rule touch_inv[where f = "\<lambda>u. u\<lparr>rollbackCfg := cfg\<rparr>"])
     (cases "uCS S"; simp add: touch_def SetRollbackCfg_def)+

lemma SetCommitState_inv: "cs_inv S \<Longrightarrow> cs_inv (SetCommitState st S)"
  by (rule touch_inv[where f = "\<lambda>u. u\<lparr>commitState := st\<rparr>"])
     (cases "uCS S"; simp add: touch_def SetCommitState_def)+

lemma SetCommitCh_inv: "cs_inv S \<Longrightarrow> cs_inv (SetCommitCh ch S)"
  by (rule touch_inv[where f = "\<lambda>u. u\<lparr>commitCh := Some ch\<rparr>"])
     (cases "uCS S"; simp add: touch_def SetCommitCh_def)+

lemma StartCommitTimer_inv: "cs_inv S \<Longrightarrow> cs_inv (snd (StartCommitTimer timeout S))"
  by (rule touch_inv[where f = "\<lambda>u. u\<lparr>commitTimer := Some (length (timers S))\<rparr>"])
     (cases "uCS S"; simp add: touch_def StartCommitTimer_def Let_def)+

subsection \<open>The history and the host\<close>

definition quiet :: "'w cs_st \<Rightarrow> 'w cs_st \<Rightarrow> bool" where
  "quiet S S' \<longleftrightarrow> same_core S S' \<and> uCS S' = uCS S"

lemma quiet_refl [simp]: "quiet S S"
  by (simp add: quiet_def)

lemma quiet_trans: "quiet S S' \<Longrightarrow> quiet S' S'' \<Longrightarrow> quiet S S''"
  unfolding quiet_def using same_core_trans by metis

lemma quiet_inv: "cs_inv S \<Longrightarrow> quiet S S' \<Longrightarrow> cs_inv S'"
  unfolding quiet_def using cs_inv_core by blast

lemma quiet_upd [simp]:
  "quiet S (S'\<lparr>timers := a\<rparr>) = quiet S S'" "quiet S (S'\<lparr>gors := b\<rparr>) = quiet S S'"
  "quiet S (S'\<lparr>n_ch := c\<rparr>) = quiet S S'" "quiet S (S'\<lparr>mesgs := d\<rparr>) = quiet S S'"
  "quiet S (S'\<lparr>cpHistEnts := e\<rparr>) = quiet S S'" "quiet S (S'\<lparr>is_hist_loaded := f\<rparr>) = quiet S S'"
  "quiet S (S'\<lparr>csTokenCtr := g\<rparr>) = quiet S S'"
  by (simp_all add: quiet_def)

lemma on_host_quiet [simp]: "quiet S (snd (on_host y q S'')) = quiet S S''"
proof -
  have "quiet S'' (snd (on_host y q S''))" by (simp add: quiet_def)
  moreover have "quiet (snd (on_host y q S'')) S''"
    by (simp add: quiet_def same_core_def on_host_def locked_def live_def [abs_def] heap_ok_def split: prod.split)
  ultimately show ?thesis using quiet_trans by blast
qed

lemma CreateCpHistEntry_quiet [simp]: "quiet S (snd (CreateCpHistEntry y l i u o1 t S))"
proof -
  let ?S1 = "if \<not> is_hist_loaded S then (LoadCpHistEntries y S)\<lparr>is_hist_loaded := True\<rparr> else S"
  have q2: "quiet S (drop_oldest y ?S1)"
    by (simp add: LoadCpHistEntries_def drop_oldest_def DeleteFirstCpHistEntry_def DeleteCpConfig_def Let_def
        split: option.split)
  obtain e S3 where s: "SaveCpConfig y (cp_file l i) u (drop_oldest y ?S1) = (e, S3)" by (metis surj_pair)
  have "quiet S S3"
    using q2 s on_host_quiet[of S y "QCpSave (cp_file l i) u" "drop_oldest y ?S1"] by (simp add: SaveCpConfig_def)
  then show ?thesis
    using s by (simp add: CreateCpHistEntry_def Let_def UpdateCpHistFile_def AddCpHistEntry_def split: option.split)
qed

lemma createCpHistory_quiet: "createCpHistory y label S = Ret (e, S') \<Longrightarrow> quiet S S'"
proof (cases "uCS S")
  case (Some u)
  assume "createCpHistory y label S = Ret (e, S')"
  then have "S' = snd (CreateCpHistEntry y label (cs_token u) (cs_username u) ''commit'' (commitTime u) S)"
    using Some by (auto simp: createCpHistory_def)
  then show ?thesis by simp
qed (simp add: createCpHistory_def)

lemma configReload_quiet [simp]: "quiet S (snd (configReload y u cfg S))"
  by (simp add: configReload_def)

lemma saveRunningConfig_quiet [simp]: "quiet S (snd (saveRunningConfig y u S))"
proof -
  define q where "q = QCfgSave ''running-configuration'' (''temp://rollback.cfg.'' @ Itoa (now y S) @ ''.json'') [] u"
  obtain e S1 where h: "on_host y q S = (e, S1)" by (metis surj_pair)
  have "quiet S S1" using on_host_quiet[of S y q S] h by simp
  then show ?thesis using h by (cases e) (simp_all add: saveRunningConfig_def Let_def q_def)
qed

lemma stop_and_send_quiet: "stop_and_send sess S = Ret S' \<Longrightarrow> quiet S S'"
  by (auto simp: stop_and_send_def Let_def split: option.splits)

lemma abortSessionCommit_quiet: "abortSessionCommit y sess S = Ret (e, S') \<Longrightarrow> quiet S S'"
proof -
  assume a: "abortSessionCommit y sess S = Ret (e, S')"
  then obtain S1 where s: "stop_and_send sess S = Ret S1"
    by (auto simp: abortSessionCommit_def bind_Ret_iff)
  then have "S' = snd (configReload y (cs_username sess) (rollbackCfg sess) S1)"
    using a by (auto simp: abortSessionCommit_def split: prod.splits option.splits)
  then show ?thesis using quiet_trans[OF stop_and_send_quiet[OF s] configReload_quiet] by simp
qed

lemma SendMesg_quiet [simp]: "quiet S (snd (SendMesg y sess m u S))"
  by (simp add: SendMesg_def split: option.split)

subsection \<open>Creating, committing and deleting\<close>

lemma deleteCS_inv: "cs_inv S \<Longrightarrow> cs_inv (snd (deleteCS y S))"
proof (cases "uCS S")
  case None
  assume "cs_inv S"
  then show ?thesis using None by (simp add: deleteCS_def)
next
  case (Some u)
  assume i: "cs_inv S"
  obtain p d where p: "ccDB u = Some p" "gget (cs_dbs S) p = Some d" by (rule cs_inv_db[OF i Some])
  define r where "r = (if commitState u \<noteq> cs_STATE_CONFIRM_TIMER then csAbortTx y (ccDB u) S else (None, S))"
  have q: "quiet S (snd r)"
    using on_db_core[OF p(2), of "AbortSessTx (y_db y)"] by (simp add: r_def csAbortTx_def p(1) AbortSessTx_def abortTx_keeps quiet_def)
  have u: "uCS (snd r) = Some u" using q Some by (simp add: quiet_def)
  show ?thesis
  proof (cases "cs_state u \<noteq> cs_STATE_ACTIVE \<and> cs_state u \<noteq> cs_STATE_SUSPENDED")
    case True
    then show ?thesis using i Some by (simp add: deleteCS_def)
  next
    case False
    have "snd (deleteCS y S) = (snd (on_db (Some p) (DeleteDB (y_db y)) (snd (unlockDB y (cs_token u) (snd r)))))\<lparr>uCS := None\<rparr>"
      using False Some p(1) by (auto simp: deleteCS_def Let_def r_def[symmetric] split: prod.split)
    then show ?thesis using end_session(1)[OF quiet_inv[OF i q] u p(1)] by simp
  qed
qed

lemma cleanCS_inv: "cs_inv S \<Longrightarrow> cleanCS y S = Ret (e, S') \<Longrightarrow> cs_inv S'"
proof -
  assume i: "cs_inv S" and c: "cleanCS y S = Ret (e, S')"
  then obtain u where u: "uCS S = Some u" by (auto simp: cleanCS_def split: option.splits)
  obtain p d where p: "ccDB u = Some p" by (rule cs_inv_db[OF i u])
  have "S' = (snd (unlockDB y (cs_token u) (snd (on_db (Some p) (DeleteDB (y_db y)) S))))\<lparr>uCS := None\<rparr>"
    using c u p by (auto simp: cleanCS_def split: prod.splits)
  then show ?thesis using end_session(2)[OF i u p] by simp
qed

lemma set_committed_live: "live (set_committed p S) = live S" "locked (set_committed p S) = locked S"
  "cdbLock (cs_pkg (set_committed p S)) = cdbLock (cs_pkg S)" "uCS (set_committed p S) = uCS S"
  if "p = Some q" "gget (cs_dbs S) q = Some d"
  using that by (auto simp: set_committed_def on_db_def the_db_live live_put locked_put live_def locked_def fun_eq_iff
      upd_db_def)

lemma commitCS_inv:
  assumes "cs_inv S" "commitCS y label conf S = Ret (r, S')"
  shows "cs_inv S'"
proof (cases "\<exists>u. uCS S = Some u \<and> cs_state u = cs_STATE_ACTIVE")
  case False
  then show ?thesis using assms by (auto simp: commitCS_def split: option.splits if_splits)
next
  case True
  then obtain u where u: "uCS S = Some u" "cs_state u = cs_STATE_ACTIVE" by blast
  obtain p d where p: "ccDB u = Some p" "gget (cs_dbs S) p = Some d" by (rule cs_inv_db[OF assms(1) u(1)])
  obtain e S1 where c: "csCommitTx y (ccDB u) S = (e, S1)" by (metis surj_pair)
  have q: "quiet S S1"
    using on_db_core[OF p(2), of "CommitSessTx (y_db y)"] c
    by (simp add: csCommitTx_def p(1) CommitSessTx_def commitTx_keeps quiet_def)
  have i1: "cs_inv S1" by (rule quiet_inv[OF assms(1) q])
  have u1: "uCS S1 = Some u" using q u(1) by (simp add: quiet_def)
  obtain d1 where d1: "gget (cs_dbs S1) p = Some d1" by (rule cs_inv_db[OF i1 u1]) (use p in auto)
  show ?thesis
  proof (cases e)
    case (Some err)
    then show ?thesis using assms(2) u c i1 by (auto simp: commitCS_def)
  next
    case None
    let ?u1 = "u\<lparr>commitTime := now y S1\<rparr>"
    show ?thesis
    proof (cases conf)
      case True
      let ?S2 = "S1\<lparr>uCS := Some (?u1\<lparr>commitState := cs_STATE_CONFIRM_TIMER\<rparr>)\<rparr>"
      have s: "S' = set_committed (Some p) ?S2"
        using assms(2) u c None True p(1) by (auto simp: commitCS_def Let_def)
      have "cs_inv ?S2"
        by (rule cs_inv_update[OF i1 _ u1, of _ "?u1\<lparr>commitState := cs_STATE_CONFIRM_TIMER\<rparr>"])
           (simp_all add: session_ok_def)
      moreover have "same_core ?S2 S' \<and> uCS S' = uCS ?S2"
        unfolding s set_committed_def using d1
        by (intro on_db_core[of _ _ d1]) (simp_all add: keeps_conn_def)
      ultimately show ?thesis using cs_inv_core by blast
    next
      case False
      let ?S2 = "S1\<lparr>uCS := Some ?u1\<rparr>"
      have i2: "cs_inv ?S2" by (rule cs_inv_update[OF i1 _ u1, of _ ?u1]) (simp_all add: session_ok_def)
      obtain errSh S3 where h: "createCpHistory y label ?S2 = Ret (errSh, S3)"
        "S' = (snd (unlockDB y (cs_token ?u1) (snd (on_db (ccDB ?u1) (DeleteDB (y_db y)) S3))))\<lparr>uCS := None\<rparr>"
        using assms(2) u c None False by (auto simp: commitCS_def Let_def bind_Ret_iff case_prod_beta)
      have q3: "quiet ?S2 S3" by (rule createCpHistory_quiet[OF h(1)])
      have u3: "uCS S3 = Some ?u1" using q3 by (simp add: quiet_def)
      show ?thesis using end_session(2)[OF quiet_inv[OF i2 q3] u3, of p] h(2) p(1) by simp
    qed
  qed
qed

end
