(* ===== verification/CS_Steps.thy ===== *)
theory CS_Steps
  imports CS_Inv
begin

text \<open>
  The package as a step relation: every request, with whatever copy of the session it
  works with, the calls that the application modules make on connections, and the timer's
  goroutine.  Each step keeps the invariant.
\<close>

section \<open>Opening, using and closing connections\<close>

lemma newDB_at_facts:
  assumes "newDB_at y opts S = ((p, e), S1)" "heap_ok S"
  obtains d where "p = length (cs_dbs S)" "gget (cs_dbs S) p = None" "gget (cs_dbs S1) p = Some d"
    "\<And>q. q \<noteq> p \<Longrightarrow> gget (cs_dbs S1) q = gget (cs_dbs S) q" "uCS S1 = uCS S" "heap_ok S1"
    "IsSession (Opts d) = IsSession opts" "e = None \<Longrightarrow> db_client d \<noteq> None"
    "if configDBLocked d then \<not> IsSession opts \<and> cdbLock (cs_pkg S) = None \<and>
        (\<exists>l. cdbLock (cs_pkg S1) = Some l \<and> lkId l = noSessionToken) \<and> locked S1 = insert p (locked S)
     else cdbLock (cs_pkg S1) = cdbLock (cs_pkg S) \<and> locked S1 = locked S"
proof -
  obtain e1 s where n: "NewDB (y_db y) opts (y_statsCfg y) (y_cacheCfg y) (cs_pkg S) = (e1, s)" by (metis surj_pair)
  have p: "p = length (cs_dbs S)" "e = e1" "S1 = put_pkg (Some p) s S"
    using assms(1) n by (auto simp: newDB_at_def Let_def)
  have g: "gget (cs_dbs S) p = None" using assms(2) p(1) by (metis heap_ok_def less_irrefl)
  then have l: "p \<notin> locked S" by (simp add: locked_def)
  note r = NewDB_lock[OF n]
  show thesis
    using r p(2) l
    by (intro that[of "db s"])
       (simp_all add: p(3) locked_put heap_ok_put[OF assms(2)] p(1)[symmetric] g split: if_splits)
qed

lemma newDB_at_inv:
  assumes "cs_inv S" "newDB_at y opts S = ((p, e), S1)"
  shows "cs_inv S1"
proof -
  have h: "heap_ok S" using assms(1) by (simp add: cs_inv_def)
  obtain d where d: "gget (cs_dbs S) p = None" "gget (cs_dbs S1) p = Some d"
    "\<And>q. q \<noteq> p \<Longrightarrow> gget (cs_dbs S1) q = gget (cs_dbs S) q" "uCS S1 = uCS S" "heap_ok S1"
    "if configDBLocked d then \<not> IsSession opts \<and> cdbLock (cs_pkg S) = None \<and>
        (\<exists>l. cdbLock (cs_pkg S1) = Some l \<and> lkId l = noSessionToken) \<and> locked S1 = insert p (locked S)
     else cdbLock (cs_pkg S1) = cdbLock (cs_pkg S) \<and> locked S1 = locked S"
    using newDB_at_facts[OF assms(2) h] by metis
  show ?thesis
  proof (cases "uCS S")
    case None
    then show ?thesis using assms(1) d by (auto simp: cs_inv_def split: if_splits)
  next
    case (Some u)
    obtain q d' where q: "ccDB u = Some q" "gget (cs_dbs S) q = Some d'" by (rule cs_inv_db[OF assms(1) Some])
    then have "live S1 q = live S q" using d(1,3) by (cases "q = p") (simp_all add: live_def)
    then show ?thesis using assms(1) Some d(4-6) q(1)
      by (auto simp: cs_inv_def session_ok_def split: if_splits)
  qed
qed

lemma conn_step_inv:
  assumes "cs_inv S" "gget (cs_dbs S) p = Some d" "conn_step ((cs_pkg S)\<lparr>db := d\<rparr>) s"
  shows "cs_inv (put_pkg (Some p) s S)"
proof (cases "keeps_conn ((cs_pkg S)\<lparr>db := d\<rparr>) s")
  case True
  from put_pkg_core[OF assms(2) this] show ?thesis by (rule cs_inv_core[OF assms(1)]) simp
next
  case False
  then have c: "cdbLock (cs_pkg S) = None" "configDBLocked (db s)"
    "\<exists>l. cdbLock s = Some l \<and> lkId l = noSessionToken"
    using assms(3) by (auto simp: conn_step_def keeps_conn_def)
  have u: "uCS S = None" "locked S = {}" using assms(1) c(1) by (auto simp: cs_inv_def session_ok_def split: option.splits)
  have h: "heap_ok S" using assms(1) by (simp add: cs_inv_def)
  then have "p < length (cs_dbs S)" using assms(2) by (metis heap_ok_def option.distinct(1))
  then show ?thesis using heap_ok_put[OF h, of p s] c u by (simp add: cs_inv_def locked_put)
qed

lemma on_db_inv:
  assumes "cs_inv S" "gget (cs_dbs S) p = Some d" "\<And>s. conn_step s (snd (f s))"
  shows "cs_inv (snd (on_db (Some p) f S))"
proof -
  obtain r s where f: "f ((cs_pkg S)\<lparr>db := d\<rparr>) = (r, s)" by (metis surj_pair)
  then show ?thesis using conn_step_inv[OF assms(1,2), of s] assms(3)[of "(cs_pkg S)\<lparr>db := d\<rparr>"]
    by (simp add: on_db_def the_db_live[OF assms(2)])
qed

lemma on_db_opt_inv:
  assumes "cs_inv S" "gget (cs_dbs S) p = Some d" "on_db_opt (Some p) f S = Ret (r, S')"
    and "\<And>s r s'. f s = Some (r, s') \<Longrightarrow> keeps_conn s s'"
  shows "cs_inv S'"
proof -
  have "same_core S S' \<and> uCS S' = uCS S" by (rule on_db_opt_core[OF assms(2,3)]) (rule assms(4))
  then show ?thesis using cs_inv_core[OF assms(1)] by blast
qed

lemma DeleteDB_inv:
  assumes "cs_inv S" "gget (cs_dbs S) p = Some d" "\<And>u. uCS S = Some u \<Longrightarrow> ccDB u \<noteq> Some p"
  shows "cs_inv (snd (on_db (Some p) (DeleteDB x) S))"
proof -
  obtain r s where f: "DeleteDB x ((cs_pkg S)\<lparr>db := d\<rparr>) = (r, s)" by (metis surj_pair)
  then have S: "snd (on_db (Some p) (DeleteDB x) S) = put_pkg (Some p) s S"
    by (simp add: on_db_def the_db_live[OF assms(2)])
  have r: "cdbLock s = (if configDBLocked d then None else cdbLock (cs_pkg S))" "\<not> configDBLocked (db s)"
    using DeleteDB_lock[of x "(cs_pkg S)\<lparr>db := d\<rparr>"] f by simp_all
  have h: "heap_ok S" using assms(1) by (simp add: cs_inv_def)
  then have "p < length (cs_dbs S)" using assms(2) by (metis heap_ok_def option.distinct(1))
  then have h': "heap_ok (put_pkg (Some p) s S)" using heap_ok_put[OF h] by simp
  show ?thesis
  proof (cases "uCS S")
    case None
    have "configDBLocked d \<longleftrightarrow> p \<in> locked S" using assms(2) by (simp add: locked_def)
    then show ?thesis using assms(1) None h' r unfolding S by (auto simp: cs_inv_def locked_put)
  next
    case (Some u)
    obtain q where q: "ccDB u = Some q" "q \<noteq> p" using cs_inv_db[OF assms(1) Some] assms(3)[OF Some] by metis
    have "\<not> configDBLocked d" using assms(1,2) Some by (auto simp: cs_inv_def locked_def)
    then show ?thesis using assms(1) Some h' r q unfolding S
      by (auto simp: cs_inv_def locked_put session_ok_def live_put)
  qed
qed

section \<open>Requests\<close>

lemma newCS_opts_session [simp]: "IsSession newCS_opts"
  by (simp add: newCS_opts_def)

lemma newCS_inv:
  assumes "cs_inv S" "newCS y name user roles pid S = Ret (r, S')"
  shows "cs_inv S'"
proof (cases "uCS S = None")
  case False
  then show ?thesis using assms by (auto simp: newCS_def)
next
  case True
  have h: "heap_ok S" using assms(1) by (simp add: cs_inv_def)
  obtain p e S1 where n: "newDB_at y newCS_opts S = ((p, e), S1)" by (metis surj_pair)
  obtain d where d: "gget (cs_dbs S1) p = Some d" "uCS S1 = None" "IsSession (Opts d)" "e = None \<Longrightarrow> db_client d \<noteq> None"
    using newDB_at_facts[OF n h] True by (metis newCS_opts_session)
  have i1: "cs_inv S1" by (rule newDB_at_inv[OF assms(1) n])
  show ?thesis
  proof (cases e)
    case (Some er)
    then show ?thesis using assms(2) n True i1 by (simp add: newCS_def)
  next
    case None
    obtain e2 S2 where s2: "csStartTx y (Some p) S1 = Ret (e2, S2)"
      using assms(2) n True None by (auto simp: newCS_def bind_Ret_iff)
    have c2: "same_core S1 S2 \<and> uCS S2 = uCS S1"
      using s2 unfolding csStartTx_def by (rule on_db_opt_core[OF d(1)]) (auto simp: StartSessTx_def dest: startTx_keeps)
    have i2: "cs_inv S2" using c2 by (intro cs_inv_core[OF i1]) simp_all
    have l2: "live S2 p" using c2 d None by (auto simp: same_core_def live_def)
    then obtain d2 where d2: "gget (cs_dbs S2) p = Some d2" by (auto simp: live_def)
    show ?thesis
    proof (cases e2)
      case (Some er)
      then show ?thesis using assms(2) n True None s2 c2 d(2) DeleteDB_inv[OF i2 d2, of "y_db y"]
        by (auto simp: newCS_def)
    next
      case e2: None
      let ?n = "csTokenCtr S2 + 1"
      let ?t = "newToken (now y S2) ?n"
      let ?S3 = "S2\<lparr>csTokenCtr := ?n\<rparr>"
      obtain e4 s where l: "lock_op (ConfigDBTryLock (y_db y) ?t) (cs_pkg S2) = (e4, s)" by (metis surj_pair)
      note r = lock_op_try[OF l]
      let ?S4 = "?S3\<lparr>cs_pkg := s\<rparr>"
      have f: "heap_ok ?S4" "locked ?S4 = locked S2" "live ?S4 p" "uCS ?S4 = None"
        using i2 l2 c2 d(2) by (simp_all add: cs_inv_def heap_ok_def locked_def live_def)
      show ?thesis
      proof (cases e4)
        case (Some er)
        have i4: "cs_inv ?S4" using i2 f r Some c2 d(2) by (auto simp: cs_inv_def)
        have d4: "gget (cs_dbs ?S4) p = Some d2" using d2 by simp
        obtain S5 where S5: "snd (csAbortTx y (Some p) ?S4) = S5" by blast
        have c5: "same_core ?S4 S5 \<and> uCS S5 = uCS ?S4"
          unfolding S5[symmetric] csAbortTx_def
          by (rule on_db_core[OF d4]) (simp add: AbortSessTx_def abortTx_keeps)
        then have "live S5 p" using f(3) by (simp add: same_core_def)
        then obtain d5 where d5: "gget (cs_dbs S5) p = Some d5" by (auto simp: live_def)
        have "cs_inv S5" using c5 by (intro cs_inv_core[OF i4]) simp_all
        from DeleteDB_inv[OF this d5, of "y_db y"] show ?thesis
          using assms(2) n True None s2 e2 l Some c5 f(4) S5
          by (auto simp: newCS_def Let_def on_pkg_def)
      next
        case None4: None
        then have c: "cdbLock (cs_pkg S2) = None" "\<exists>l. cdbLock s = Some l \<and> lkId l = ?t \<and> lkLocked l" using r by auto
        then have "locked S2 = {}" using i2 by (auto simp: cs_inv_def session_ok_def split: option.splits)
        moreover obtain u where "S' = ?S4\<lparr>uCS := Some u\<rparr>" "cs_token u = ?t" "cs_state u = cs_STATE_ACTIVE" "ccDB u = Some p"
          using assms(2) n True None s2 e2 l None4 by (auto simp: newCS_def Let_def on_pkg_def zeroSession_def)
        ultimately show ?thesis using f c(2)
          by (simp add: cs_inv_def session_ok_def heap_ok_def locked_def live_def)
      qed
    qed
  qed
qed
lemma processCommitConfirm_inv:
  "cs_inv S \<Longrightarrow> processCommitConfirm y sess label S = Ret (r, S') \<Longrightarrow> cs_inv S'"
proof -
  assume i: "cs_inv S" and p: "processCommitConfirm y sess label S = Ret (r, S')"
  show ?thesis
  proof (cases "commitState sess = cs_STATE_CONFIRM_TIMER")
    case False
    then show ?thesis using i p by (simp add: processCommitConfirm_def)
  next
    case True
    obtain S1 e S2 e3 where s: "(if commitTimer sess \<noteq> None then stop_and_send sess S else Ret S) = Ret S1"
      "createCpHistory y label S1 = Ret (e, S2)" "cleanCS y S2 = Ret (e3, S')"
      using p True unfolding processCommitConfirm_def by (auto simp: bind_Ret_iff split: prod.splits)
    have "quiet S S1" using s(1) stop_and_send_quiet by (auto split: if_splits)
    then have "cs_inv S2" using quiet_inv[OF i] createCpHistory_quiet[OF s(2)] quiet_inv by blast
    then show ?thesis using cleanCS_inv s(3) by blast
  qed
qed

lemma processCommitTimer_inv: "cs_inv S \<Longrightarrow> cs_inv (snd (processCommitTimer sess timeout cfg S))"
proof -
  assume i: "cs_inv S"
  obtain t S1 where t: "StartCommitTimer timeout S = (t, S1)" by (metis surj_pair)
  have i1: "cs_inv S1" using StartCommitTimer_inv[OF i, of timeout] t by simp
  then have "cs_inv (SetCommitCh (n_ch S1) (S1\<lparr>n_ch := Suc (n_ch S1)\<rparr>))"
    by (intro SetCommitCh_inv quiet_inv[OF i1]) simp
  from quiet_inv[OF this] show ?thesis
    using t i1 by (cases t) (simp_all add: processCommitTimer_def Let_def)
qed

lemma Commit_inv:
  assumes i: "cs_inv S" and c: "Commit y sess label timeout confirm S = Ret (r, S')"
  shows "cs_inv S'"
proof -
  let ?b = "timeout \<ge> cs_COMMIT_CONFIRM_TIMEOUT_MIN"
  obtain sv S1 where s1: "(if ?b then saveRunningConfig y (cs_username sess) S else (Inr [], S)) = (sv, S1)"
    by (metis surj_pair)
  have i1: "cs_inv S1"
    using s1 quiet_inv[OF i saveRunningConfig_quiet[of S y "cs_username sess"]] i by (auto split: if_splits)
  have i2: "cs_inv (if ?b then SetRollbackCfg cfg S1 else S1)" for cfg using i1 SetRollbackCfg_inv by auto
  show ?thesis
  proof (cases "IsConfigSession sess \<and> \<not> isCpLabelExist label S \<and> cs_state sess = cs_STATE_ACTIVE \<and>
      \<not> confirm \<and> commitState sess \<noteq> cs_STATE_CONFIRM_TIMER")
    case False
    then show ?thesis using i c processCommitConfirm_inv[OF i, of y sess label r S']
      by (auto simp: Commit_def simp del: split_paired_All split: if_splits)
  next
    case True
    show ?thesis
    proof (cases sv)
      case (Inl er)
      then show ?thesis using c True s1 i1 by (auto simp: Commit_def Let_def)
    next
      case (Inr cfg)
      define S2 where "S2 = (if ?b then SetRollbackCfg cfg S1 else S1)"
      obtain t S3 where k: "commitCS y label ?b S2 = Ret (t, S3)"
        using c True s1 Inr unfolding S2_def by (auto simp: Commit_def Let_def bind_Ret_iff)
      have "S' = S3 \<or> S' = snd (processCommitTimer sess timeout cfg S3)"
        using c True s1 Inr k by (cases t) (auto simp: Commit_def Let_def S2_def[symmetric] split: option.splits if_splits)
      moreover have "cs_inv S3" by (rule commitCS_inv[OF i2 k[unfolded S2_def]])
      ultimately show ?thesis using processCommitTimer_inv by blast
    qed
  qed
qed

lemma abort_delete_inv:
  assumes "cs_inv S" "(if b then abortSessionCommit y sess S else Ret (None, S)) = Ret (e, S1)"
  shows "cs_inv S1" "cs_inv (snd (deleteCS y S1))"
proof -
  show "cs_inv S1" using assms abortSessionCommit_quiet[of y sess S e S1] quiet_inv by (auto split: if_splits)
  then show "cs_inv (snd (deleteCS y S1))" by (rule deleteCS_inv)
qed

lemma Abort_inv: "cs_inv S \<Longrightarrow> Abort y sess S = Ret (r, S') \<Longrightarrow> cs_inv S'"
proof -
  assume i: "cs_inv S" and a: "Abort y sess S = Ret (r, S')"
  show ?thesis
  proof (cases "IsConfigSession sess \<and> cs_state sess = cs_STATE_ACTIVE")
    case False
    then show ?thesis using i a by (auto simp: Abort_def split: if_splits)
  next
    case True
    then obtain e S1 where s: "(if commitState sess = cs_STATE_CONFIRM_TIMER then abortSessionCommit y sess S else Ret (None, S)) = Ret (e, S1)"
      using a by (auto simp: Abort_def bind_Ret_iff)
    note d = abort_delete_inv[OF i s]
    show ?thesis using a True s d by (cases e) (auto simp: Abort_def case_prod_beta)
  qed
qed

lemma Kill_session_inv: "cs_inv S \<Longrightarrow> Kill_session y sess S = Ret (r, S') \<Longrightarrow> cs_inv S'"
proof -
  assume i: "cs_inv S" and a: "Kill_session y sess S = Ret (r, S')"
  then obtain e S1 where s: "(if commitState sess = cs_STATE_CONFIRM_TIMER then abortSessionCommit y sess S else Ret (None, S)) = Ret (e, S1)"
    by (auto simp: Kill_session_def bind_Ret_iff)
  note d = abort_delete_inv[OF i s]
  show ?thesis using a s d by (cases e) (auto simp: Kill_session_def case_prod_beta split: if_splits)
qed

lemma Kill_inv: "cs_inv S \<Longrightarrow> Kill y sess active user S = Ret (r, S') \<Longrightarrow> cs_inv S'"
proof -
  assume i: "cs_inv S" and k: "Kill y sess active user S = Ret (r, S')"
  show ?thesis
  proof (cases "S' = S")
    case False
    then obtain st b S1 where s: "Kill_session y sess S = Ret ((st, b), S1)"
      "S' = S1 \<or> S' = snd (SendMesg y sess ''The configure session was cleared'' user S1)"
      using k by (fastforce simp: Kill_def bind_Ret_iff split: if_splits configSessionState.splits)
    have "cs_inv S1" by (rule Kill_session_inv[OF i s(1)])
    then show ?thesis using s(2) quiet_inv[OF _ SendMesg_quiet] by blast
  qed (use i in simp)
qed

lemma Exit_inv: "cs_inv S \<Longrightarrow> cs_inv (snd (Exit y sess S))"
  by (simp add: Exit_def suspendCS_inv)

lemma resume_session_inv: "cs_inv S \<Longrightarrow> resume_session y sess pid S = (r, S') \<Longrightarrow> cs_inv S'"
  using resumeCS_inv[of S y "cs_roles sess" pid]
  by (cases "resumeCS y (cs_roles sess) pid S") (auto simp: resume_session_def split: option.splits)

lemma StartOrResume_inv: "cs_inv S \<Longrightarrow> StartOrResume y sess pid S = Ret (r, S') \<Longrightarrow> cs_inv S'"
proof -
  assume i: "cs_inv S" and s: "StartOrResume y sess pid S = Ret (r, S')"
  show ?thesis
  proof (cases "IsConfigSession sess")
    case True
    then show ?thesis using s i resume_session_inv[OF i, of y sess pid r S']
      resume_session_inv[OF suspendCS_inv[OF i, of y], of y sess pid r S']
      by (auto simp: StartOrResume_def split: configSessionState.splits if_splits)
  next
    case False
    then obtain q S1 where q: "newCS y (cs_name sess) (cs_username sess) (cs_roles sess) pid S = Ret (q, S1)"
      using s by (auto simp: StartOrResume_def bind_Ret_iff)
    then have "S' = S1" using s False by (cases q) (simp_all add: StartOrResume_def)
    then show ?thesis using newCS_inv[OF i q] by simp
  qed
qed

section \<open>The timer's goroutine\<close>

lemma timer_expires_inv: "cs_inv S \<Longrightarrow> timer_expires y i S = Some S' \<Longrightarrow> cs_inv S'"
  using quiet_inv[OF SetCommitState_inv, of S cs_STATE_ROLLBACK_REPLACE S']
  by (auto simp: timer_expires_def Let_def split: if_splits)

lemma timer_cleans_inv: "cs_inv S \<Longrightarrow> timer_cleans y i S = Some (Ret S') \<Longrightarrow> cs_inv S'"
proof -
  assume a: "cs_inv S" "timer_cleans y i S = Some (Ret S')"
  then obtain e S1 where c: "cleanCS y S = Ret (e, S1)" "S' = S1\<lparr>gors := (gors S1)[i := (gors S1 ! i)\<lparr>g_phase := GDone\<rparr>]\<rparr>"
    by (auto simp: timer_cleans_def bind_Ret_iff split: if_splits)
  show ?thesis using cleanCS_inv[OF a(1) c(1)] quiet_inv[of S1 S'] c(2) by simp
qed

section \<open>Connections of the application modules\<close>

lemma GetConfigDB_inv: "cs_inv S \<Longrightarrow> cs_inv (snd (GetConfigDB y sess opts S))"
proof (cases "cs_state sess = cs_STATE_None")
  case True
  assume i: "cs_inv S"
  define o1 where "o1 = (case opts of Some o1 \<Rightarrow> o1 | None \<Rightarrow> zeroOptions\<lparr>DBNo := ConfigDB, ForceNewRedisConnection := True\<rparr>)\<lparr>DBNo := ConfigDB\<rparr>"
  obtain p e S1 where n: "newDB_at y o1 S = ((p, e), S1)" by (metis surj_pair)
  then show ?thesis using newDB_at_inv[OF i n] True by (simp add: GetConfigDB_def Let_def o1_def)
qed (simp add: GetConfigDB_def)

lemma cleanup_inv:
  assumes "cs_inv S" "gget (cs_dbs S) p = Some d" "cleanup y (Some p) isCS S = Ret S'"
    and "\<not> isCS \<Longrightarrow> \<not> is_uCS_db (Some p) S"
  shows "cs_inv S'"
proof (cases isCS)
  case False
  then have "\<And>u. uCS S = Some u \<Longrightarrow> ccDB u \<noteq> Some p" using assms(4) by (auto simp: is_uCS_db_def)
  from DeleteDB_inv[OF assms(1,2) this, of "y_db y"] show ?thesis using assms(3) False by (simp add: cleanup_def)
next
  case True
  let ?S1 = "UpdateLastActiveTime y S"
  have i: "cs_inv ?S1" by (rule UpdateLastActiveTime_inv[OF assms(1)])
  have g: "gget (cs_dbs ?S1) p = Some d"
    using assms(2) by (simp add: UpdateLastActiveTime_def split: option.split)
  show ?thesis
  proof (cases "HasSP ((cs_pkg ?S1)\<lparr>db := the_db (Some p) ?S1\<rparr>)")
    case False
    then show ?thesis using assms(3) True i by (simp add: cleanup_def Let_def)
  next
    case sp: True
    then obtain e where "on_db_opt (Some p) (Rollback2SP (y_db y)) ?S1 = Ret (e, S')"
      using assms(3) True by (auto simp: cleanup_def Let_def bind_Ret_iff)
    then show ?thesis by (rule on_db_opt_inv[OF i g]) (rule Rollback2SP_keeps)
  qed
qed

lemma StartTx_keeps: "StartTx x w tss s = Some (r, s') \<Longrightarrow> keeps_conn s s'"
  using DeclareSP_keeps[of s] startTx_keeps[of x w tss s r s'] by (auto simp: StartTx_def split: if_splits)

lemma CommitTx_keeps: "keeps_conn s (snd (CommitTx x s))"
  using keeps_conn_trans[OF ReleaseSP_keeps[of s] clearCVLHint_keeps] keeps_conn_trans[OF commitTx_keeps[of s x] clearCVLHint_keeps]
  by (simp add: CommitTx_def case_prod_beta)

lemma AbortTx_keeps: "AbortTx x s = Some (r, s') \<Longrightarrow> keeps_conn s s'"
  using Rollback2SP_keeps[of x s r s'] keeps_conn_trans[OF clearCVLHint_keeps abortTx_keeps[of "clearCVLHint [] s" x]]
  by (auto simp: AbortTx_def split: if_splits)

lemma cs_StartTx_inv:
  assumes "cs_inv S" "gget (cs_dbs S) p = Some d" "cs_StartTx y sess (Some p) w tss S = Ret (r, S')"
  shows "cs_inv S'"
proof (cases "cs_state sess = cs_STATE_None \<and> Some p = ccDB sess")
  case True
  then have "S' = snd (on_db (Some p) DeclareSP S)" using assms(3) by (simp add: cs_StartTx_def)
  then show ?thesis using on_db_inv[OF assms(1,2) keeps_conn_step[OF DeclareSP_keeps]] by simp
next
  case False
  then have "on_db_opt (Some p) (StartTx (y_db y) w tss) S = Ret (r, S')" using assms(3) by (auto simp: cs_StartTx_def)
  then show ?thesis by (rule on_db_opt_inv[OF assms(1,2)]) (rule StartTx_keeps)
qed

lemma cs_CommitTx_inv:
  assumes "cs_inv S" "gget (cs_dbs S) p = Some d"
  shows "cs_inv (snd (cs_CommitTx y (Some p) S))"
  by (auto simp: cs_CommitTx_def keeps_conn_step ReleaseSP_keeps CommitTx_keeps intro!: on_db_inv[OF assms])

lemma cs_AbortTx_inv:
  assumes "cs_inv S" "gget (cs_dbs S) p = Some d" "cs_AbortTx y (Some p) S = Ret (r, S')"
  shows "cs_inv S'"
proof (cases "is_uCS_db (Some p) S")
  case True
  then have "on_db_opt (Some p) (Rollback2SP (y_db y)) S = Ret (r, S')" using assms(3) by (simp add: cs_AbortTx_def)
  then show ?thesis by (rule on_db_opt_inv[OF assms(1,2)]) (rule Rollback2SP_keeps)
next
  case False
  then have "on_db_opt (Some p) (AbortTx (y_db y)) S = Ret (r, S')" using assms(3) by (simp add: cs_AbortTx_def)
  then show ?thesis by (rule on_db_opt_inv[OF assms(1,2)]) (rule AbortTx_keeps)
qed

section \<open>The step relation\<close>

text \<open>
  \<open>sess\<close> is any copy of a session, however old.  A connection that is closed is not the
  session's own: \<open>GetConfigDB\<close> gives the session's with the flag that keeps it open.
\<close>

inductive cs_step :: "('w, 'z) cs_ext_scheme \<Rightarrow> 'w cs_st \<Rightarrow> 'w cs_st \<Rightarrow> bool" for y where
  step_start: "StartOrResume y sess pid S = Ret (r, S') \<Longrightarrow> cs_step y S S'"
| step_exit: "Exit y sess S = (r, S') \<Longrightarrow> cs_step y S S'"
| step_commit: "Commit y sess label timeout confirm S = Ret (r, S') \<Longrightarrow> cs_step y S S'"
| step_abort: "Abort y sess S = Ret (r, S') \<Longrightarrow> cs_step y S S'"
| step_kill: "Kill y sess active user S = Ret (r, S') \<Longrightarrow> cs_step y S S'"
| step_expire: "timer_expires y i S = Some S' \<Longrightarrow> cs_step y S S'"
| step_clean: "timer_cleans y i S = Some (Ret S') \<Longrightarrow> cs_step y S S'"
| step_open: "GetConfigDB y sess opts S = (r, S') \<Longrightarrow> cs_step y S S'"
| step_close: "gget (cs_dbs S) p = Some d \<Longrightarrow> (\<not> isCS \<Longrightarrow> \<not> is_uCS_db (Some p) S) \<Longrightarrow>
    cleanup y (Some p) isCS S = Ret S' \<Longrightarrow> cs_step y S S'"
| step_edit: "gget (cs_dbs S) p = Some d \<Longrightarrow>
    on_db (Some p) (\<lambda>s. ((), apply_edit (y_db y) ed s)) S = (r1, S') \<Longrightarrow> cs_step y S S'"
| step_startTx: "gget (cs_dbs S) p = Some d \<Longrightarrow>
    cs_StartTx y sess (Some p) w tss S = Ret (r2, S') \<Longrightarrow> cs_step y S S'"
| step_commitTx: "gget (cs_dbs S) p = Some d \<Longrightarrow> cs_CommitTx y (Some p) S = (r2, S') \<Longrightarrow> cs_step y S S'"
| step_abortTx: "gget (cs_dbs S) p = Some d \<Longrightarrow> cs_AbortTx y (Some p) S = Ret (r2, S') \<Longrightarrow> cs_step y S S'"

inductive cs_reach :: "('w, 'z) cs_ext_scheme \<Rightarrow> 'w cs_st \<Rightarrow> bool" for y where
  reach_init: "uCS S = None \<Longrightarrow> cdbLock (cs_pkg S) = None \<Longrightarrow> cs_dbs S = [] \<Longrightarrow> cs_reach y S"
| reach_step: "cs_reach y S \<Longrightarrow> cs_step y S S' \<Longrightarrow> cs_reach y S'"

lemma cs_step_inv: "cs_step y S S' \<Longrightarrow> cs_inv S \<Longrightarrow> cs_inv S'"
proof (induction rule: cs_step.induct)
  case (step_exit sess S r S')
  then show ?case using Exit_inv[of S y sess] by simp
next
  case (step_open sess opts S r S')
  then show ?case using GetConfigDB_inv[of S y sess opts] by simp
next
  case (step_close S p d isCS S')
  then show ?case using cleanup_inv by blast
next
  case (step_edit S p d ed r1 S')
  then show ?case
    using on_db_inv[of S p d "\<lambda>s. ((), apply_edit (y_db y) ed s)"] apply_edit_conn by fastforce
next
  case (step_commitTx S p d r2 S')
  then show ?case using cs_CommitTx_inv[of S p d y] by simp
qed (blast intro: StartOrResume_inv Commit_inv Abort_inv Kill_inv timer_expires_inv timer_cleans_inv
    cs_StartTx_inv cs_AbortTx_inv)+

lemma cs_reach_inv: "cs_reach y S \<Longrightarrow> cs_inv S"
proof (induction rule: cs_reach.induct)
  case (reach_init S)
  then show ?case by (simp add: cs_inv_def locked_def heap_ok_def)
qed (blast intro: cs_step_inv)

end
