(* ===== verification/CS_Props.thy ===== *)
theory CS_Props
  imports CS_Steps
begin

text \<open>
  What the requests do: committing publishes the candidate and ends the session, aborting
  ends it and publishes nothing, the confirmation timer, and the history of checkpoints.
\<close>

section \<open>The running configuration during the calls\<close>

text \<open>
  The lock lives in the state database and the host service works with files: neither
  changes a row of the configuration.
\<close>

definition cs_server ::
  "('w, 'z) cs_ext_scheme \<Rightarrow> ('w \<Rightarrow> string \<Rightarrow> fields) \<Rightarrow> ('w \<Rightarrow> nat \<Rightarrow> rcmd list option) \<Rightarrow> bool" where
  "cs_server y content q \<longleftrightarrow> redis_server (y_db y) content \<and> tx_server (y_db y) content q \<and>
     (\<forall>w w1 c n. x_client (y_db y) w StateDB True = (w1, Some c) \<longrightarrow>
        content (fst (x_do (y_db y) w1 c (cHDEL lockTableKey [n]))) = content w1) \<and>
     (\<forall>w h. content (fst (y_host y w h)) = content w)"

lemma cs_serverD:
  assumes "cs_server y content q"
  shows "redis_server (y_db y) content" "tx_server (y_db y) content q"
    "x_client (y_db y) w StateDB True = (w1, Some c) \<Longrightarrow>
       content (fst (x_do (y_db y) w1 c (cHDEL lockTableKey [n]))) = content w1"
    "content (fst (y_host y w h)) = content w"
  using assms by (simp_all add: cs_server_def)

definition running :: "('w \<Rightarrow> string \<Rightarrow> fields) \<Rightarrow> 'w cs_st \<Rightarrow> string \<Rightarrow> fields" where
  "running content S = content (world (cs_pkg S))"

lemma unlock_content:
  assumes "cs_server y content q"
  shows "content (snd (snd (unlock (y_db y) l w))) = content w"
proof -
  note r = cs_serverD[OF assms]
  obtain w1 o1 where c: "x_client (y_db y) w StateDB True = (w1, o1)" by (metis surj_pair)
  have c1: "content w1 = content w" using redis_serverD(5)[OF r(1), of w StateDB True] c by simp
  show ?thesis
  proof (cases o1)
    case (Some c0)
    let ?u = "luaScriptUnlock (y_db y) w1 c0 lockTableKey (lkName l) (lkComm l) (lkId l)"
    have "content (fst ?u) = content w1"
      using r(3)[OF c[unfolded Some], of "lkName l"] by (simp add: luaScriptUnlock_def split: sum.split)
    then show ?thesis using c Some c1 redis_serverD(6)[OF r(1)]
      by (cases ?u) (simp add: unlock_def getStateDB_def Let_def case_prod_beta)
  qed (simp add: unlock_def getStateDB_def c c1)
qed

lemma lock_op_unlock_content:
  assumes "cs_server y content q"
  shows "content (world (snd (lock_op (ConfigDBUnlock (y_db y) t) s))) = content (world s)"
  using unlock_content[OF assms, of _ "world s"]
  by (auto simp: lock_op_def ConfigDBUnlock_def split: option.split prod.split) (metis snd_conv)

lemma unlockDB_content: "cs_server y content q \<Longrightarrow> running content (snd (unlockDB y t S)) = running content S"
  using lock_op_unlock_content[of y content q t "cs_pkg S"]
  by (simp add: unlockDB_def on_pkg_def running_def case_prod_beta)

lemma DeleteDB_content:
  assumes "cs_server y content q"
  shows "content (world (snd (DeleteDB (y_db y) s))) = content (world s)"
  using lock_op_unlock_content[OF assms, of noSessionToken s] redis_serverD(6)[OF cs_serverD(1)[OF assms]]
  by (simp add: DeleteDB_def Let_def unRegisterSessionDB_def case_prod_beta)

lemma on_db_content:
  assumes "\<And>s. content (world (snd (f s))) = content (world s)"
  shows "running content (snd (on_db p f S)) = running content S"
  using assms[of "(cs_pkg S)\<lparr>db := the_db p S\<rparr>"]
  by (simp add: on_db_def running_def case_prod_beta)

lemma on_host_content: "cs_server y content q \<Longrightarrow> running content (snd (on_host y h S)) = running content S"
  by (simp add: on_host_def running_def cs_serverD(4) case_prod_beta)

lemma running_upd [simp]:
  "running content (S\<lparr>uCS := a\<rparr>) = running content S" "running content (S\<lparr>timers := b\<rparr>) = running content S"
  "running content (S\<lparr>gors := c\<rparr>) = running content S" "running content (S\<lparr>cpHistEnts := d\<rparr>) = running content S"
  "running content (S\<lparr>is_hist_loaded := e\<rparr>) = running content S" "running content (S\<lparr>n_ch := f\<rparr>) = running content S"
  by (simp_all add: running_def)

lemma CreateCpHistEntry_content:
  assumes "cs_server y content q"
  shows "running content (snd (CreateCpHistEntry y l i u o1 t S)) = running content S"
proof -
  let ?S1 = "if \<not> is_hist_loaded S then (LoadCpHistEntries y S)\<lparr>is_hist_loaded := True\<rparr> else S"
  note h = on_host_content[OF assms]
  have q2: "running content (drop_oldest y ?S1) = running content S"
    by (simp add: LoadCpHistEntries_def drop_oldest_def DeleteFirstCpHistEntry_def DeleteCpConfig_def Let_def h
        split: option.split)
  obtain e S3 where s: "SaveCpConfig y (cp_file l i) u (drop_oldest y ?S1) = (e, S3)" by (metis surj_pair)
  have "running content S3 = running content S"
    using q2 s h[of "QCpSave (cp_file l i) u" "drop_oldest y ?S1"] by (simp add: SaveCpConfig_def)
  then show ?thesis
    using s h by (simp add: CreateCpHistEntry_def Let_def UpdateCpHistFile_def AddCpHistEntry_def split: option.split)
qed

section \<open>The end of the session\<close>

definition ended :: "'w cs_st \<Rightarrow> bool" where
  "ended S \<longleftrightarrow> uCS S = None \<and> cdbLock (cs_pkg S) = None"

lemma unlockDB_ended: "cdbLock (cs_pkg (snd (unlockDB y t S))) = None"
  by (simp add: unlockDB_def on_pkg_def case_prod_beta)

lemma cleanCS_ends:
  assumes "uCS S = Some u"
  obtains e S' where "cleanCS y S = Ret (e, S')" "ended S'" "gors S' = gors S" "timers S' = timers S"
    "\<And>content q. cs_server y content q \<Longrightarrow> running content S' = running content S"
proof -
  obtain a S1 where d: "on_db (ccDB u) (DeleteDB (y_db y)) S = (a, S1)" by (metis surj_pair)
  obtain e S2 where l: "unlockDB y (cs_token u) S1 = (e, S2)" by (metis surj_pair)
  have S1: "S1 = snd (on_db (ccDB u) (DeleteDB (y_db y)) S)" "S2 = snd (unlockDB y (cs_token u) S1)" using d l by simp_all
  have "running content (S2\<lparr>uCS := None\<rparr>) = running content S" if c: "cs_server y content q" for content q
    unfolding S1 using on_db_content[of content "DeleteDB (y_db y)" "ccDB u" S] unlockDB_content[OF c] DeleteDB_content[OF c] by simp
  moreover have "ended (S2\<lparr>uCS := None\<rparr>)" by (simp add: ended_def S1(2) unlockDB_ended)
  moreover have "gors S2 = gors S" "timers S2 = timers S"
    unfolding S1 by (simp_all add: unlockDB_def on_pkg_def on_db_def case_prod_beta)
  moreover have "cleanCS y S = Ret (e, S2\<lparr>uCS := None\<rparr>)" using assms d l by (simp add: cleanCS_def)
  ultimately show thesis using that[of e "S2\<lparr>uCS := None\<rparr>"] by simp
qed

lemma deleteCS_ends:
  assumes "uCS S = Some u" "cs_state u = cs_STATE_ACTIVE \<or> cs_state u = cs_STATE_SUSPENDED"
  shows "ended (snd (deleteCS y S))"
  using assms by (auto simp: deleteCS_def Let_def ended_def unlockDB_ended on_db_def DeleteDB_lock(1) case_prod_beta)

section \<open>Committing\<close>

lemma createCpHistory_some: "uCS S = Some u \<Longrightarrow>
    createCpHistory y label S = Ret (CreateCpHistEntry y label (cs_token u) (cs_username u) ''commit'' (commitTime u) S)"
  by (simp add: createCpHistory_def)

lemma CreateCpHistEntry_uCS: "uCS (snd (CreateCpHistEntry y l i u o1 t S)) = uCS S"
  using CreateCpHistEntry_quiet[of S y l i u o1 t] by (simp add: quiet_def)

text \<open>Without a timer, once the transaction is committed the session ends, whatever else fails.\<close>

lemma commitCS_plain:
  assumes "uCS S = Some u" "cs_state u = cs_STATE_ACTIVE" "csCommitTx y (ccDB u) S = (None, S1)"
  obtains eSc eSh S' where "commitCS y label False S = Ret ((None, eSc, eSh), S')" "ended S'"
    "\<And>content q. cs_server y content q \<Longrightarrow> running content S' = running content S1"
proof -
  define u1 where "u1 = u\<lparr>commitTime := now y S1\<rparr>"
  obtain eSh S3 where h: "CreateCpHistEntry y label (cs_token u) (cs_username u) ''commit'' (now y S1) (S1\<lparr>uCS := Some u1\<rparr>) = (eSh, S3)"
    by (metis surj_pair)
  have hc: "createCpHistory y label (S1\<lparr>uCS := Some u1\<rparr>) = Ret (eSh, S3)"
    using h by (simp add: createCpHistory_def u1_def)
  obtain eSc S4 where l: "unlockDB y (cs_token u) (snd (on_db (ccDB u) (DeleteDB (y_db y)) S3)) = (eSc, S4)" by (metis surj_pair)
  have S4: "S4 = snd (unlockDB y (cs_token u) (snd (on_db (ccDB u) (DeleteDB (y_db y)) S3)))"
    "S3 = snd (CreateCpHistEntry y label (cs_token u) (cs_username u) ''commit'' (now y S1) (S1\<lparr>uCS := Some u1\<rparr>))" using l h by simp_all
  have "running content (S4\<lparr>uCS := None\<rparr>) = running content S1" if c: "cs_server y content q" for content q
    unfolding S4 using on_db_content[of content "DeleteDB (y_db y)" "ccDB u"] unlockDB_content[OF c] DeleteDB_content[OF c]
      CreateCpHistEntry_content[OF c] by simp
  moreover have "ended (S4\<lparr>uCS := None\<rparr>)" by (simp add: ended_def S4(1) unlockDB_ended)
  moreover have "commitCS y label False S = Ret ((None, eSc, eSh), S4\<lparr>uCS := None\<rparr>)"
    using assms hc l by (simp add: commitCS_def Let_def u1_def)
  ultimately show thesis using that[of eSc eSh "S4\<lparr>uCS := None\<rparr>"] by simp
qed

lemma commitCS_fails:
  assumes "uCS S = Some u" "cs_state u = cs_STATE_ACTIVE" "csCommitTx y (ccDB u) S = (Some err, S1)"
  shows "commitCS y label b S = Ret ((Some err, None, None), S1)"
  using assms by (simp add: commitCS_def)

lemma Commit_plain:
  assumes "IsConfigSession sess" "cs_state sess = cs_STATE_ACTIVE" "commitState sess \<noteq> cs_STATE_CONFIRM_TIMER"
    "\<not> isCpLabelExist label S" "timeout < cs_COMMIT_CONFIRM_TIMEOUT_MIN"
  shows "Commit y sess label timeout False S =
     bind (commitCS y label False S) (\<lambda>r. case r of
        ((Some err, _, _), S3) \<Rightarrow> Ret ((False, CsStatusCommitFailure err), S3)
      | ((None, errSc, errSh), S3) \<Rightarrow>
          Ret ((True, if errSc = None \<and> errSh = None then CsStatusCommitSuccess
                      else CsStatusCommitWarning errSc errSh), S3))"
proof (cases "commitCS y label False S")
  case (Ret t)
  obtain e eSc eSh S3 where "t = ((e, eSc, eSh), S3)" by (metis prod.exhaust)
  then show ?thesis using Ret assms by (cases e) (simp_all add: Commit_def Let_def)
qed (use assms in \<open>simp_all add: Commit_def Let_def\<close>)

text \<open>The state of the connection that an attempt to commit leaves behind.\<close>

lemma commitTx_closes:
  "tx_state (db (snd (commitTx x s))) = txStateNone" "txCmds (db (snd (commitTx x s))) = []"
  "txTsEntryMap (db (snd (commitTx x s))) = []" "cvlEditConfigData (db (snd (commitTx x s))) = []"
  by (simp_all add: commitTx_def tx_close_def Let_def case_prod_beta split: option.split)

lemma csCommitTx_db:
  assumes "gget (cs_dbs S) p = Some d"
  shows "gget (cs_dbs (snd (csCommitTx y (Some p) S))) p = Some (db (snd (commitTx (y_db y) ((cs_pkg S)\<lparr>db := d\<rparr>))))"
    "uCS (snd (csCommitTx y (Some p) S)) = uCS S"
    "world (cs_pkg (snd (csCommitTx y (Some p) S))) = world (snd (commitTx (y_db y) ((cs_pkg S)\<lparr>db := d\<rparr>)))"
    "fst (csCommitTx y (Some p) S) = fst (commitTx (y_db y) ((cs_pkg S)\<lparr>db := d\<rparr>))"
  by (simp_all add: csCommitTx_def on_db_def CommitSessTx_def the_db_live[OF assms] case_prod_beta)

text \<open>A session with its connection, and the edits that were made through it.\<close>

definition sess_at :: "'w cs_st \<Rightarrow> configSession \<Rightarrow> nat \<Rightarrow> DB \<Rightarrow> bool" where
  "sess_at S u p d \<longleftrightarrow> uCS S = Some u \<and> cs_state u = cs_STATE_ACTIVE \<and>
     commitState u = cs_STATE_None \<and> ccDB u = Some p \<and> gget (cs_dbs S) p = Some d"

definition edited :: "('w, 'z) cs_ext_scheme \<Rightarrow> edit list \<Rightarrow> DB \<Rightarrow> 'w cs_st \<Rightarrow> 'w st" where
  "edited y eds d S = fold (apply_edit (y_db y)) eds ((cs_pkg S)\<lparr>db := d\<rparr>)"

lemma edited_sess:
  assumes "sess_at S u p d"
  shows "sess_at (put_pkg (Some p) s S) u p (db s)"
  using assms by (simp add: sess_at_def)

lemma Commit_decides_lemma:
  assumes "sess_at S u p d" "\<not> isCpLabelExist label S" "timeout < cs_COMMIT_CONFIRM_TIMEOUT_MIN"
  obtains b st S' where "Commit y u label timeout False S = Ret ((b, st), S')"
    "b \<longleftrightarrow> fst (commitTx (y_db y) ((cs_pkg S)\<lparr>db := d\<rparr>)) = None"
    "b \<Longrightarrow> ended S'"
    "b \<Longrightarrow> (\<And>content q. cs_server y content q \<Longrightarrow>
        running content S' = content (world (snd (commitTx (y_db y) ((cs_pkg S)\<lparr>db := d\<rparr>)))))"
    "\<not> b \<Longrightarrow> S' = snd (csCommitTx y (Some p) S)"
proof -
  have s: "uCS S = Some u" "cs_state u = cs_STATE_ACTIVE" "commitState u \<noteq> cs_STATE_CONFIRM_TIMER" "ccDB u = Some p"
    "gget (cs_dbs S) p = Some d" using assms(1) by (simp_all add: sess_at_def)
  have a: "IsConfigSession u" using s(2) by (simp add: IsConfigSession_def)
  obtain e S1 where c: "csCommitTx y (ccDB u) S = (e, S1)" by (metis surj_pair)
  note d = csCommitTx_db[OF s(5), of y] and c' = c[unfolded s(4)]
  show thesis
  proof (cases e)
    case None
    obtain eSc eSh S' where k: "commitCS y label False S = Ret ((None, eSc, eSh), S')" "ended S'"
      "\<And>content q. cs_server y content q \<Longrightarrow> running content S' = running content S1"
      using commitCS_plain[OF s(1,2) c[unfolded None], of label thesis] by blast
    show thesis
      by (rule that[of True "if eSc = None \<and> eSh = None then CsStatusCommitSuccess else CsStatusCommitWarning eSc eSh" S'])
         (use Commit_plain[OF a s(2,3) assms(2,3), of y] k d(3,4) c' None in \<open>simp_all add: running_def\<close>)
  next
    case (Some err)
    have "fst (commitTx (y_db y) ((cs_pkg S)\<lparr>db := d\<rparr>)) = Some err" using d(4) c' Some by simp
    then show thesis
      by (intro that[of False "CsStatusCommitFailure err" S1])
         (use Commit_plain[OF a s(2,3) assms(2,3), of y] commitCS_fails[OF s(1,2) c[unfolded Some], of label False] c' Some in simp_all)
  qed
qed

section \<open>The confirmation timer\<close>

text \<open>
  The state after a commit with a timer: the session waits for the confirmation, its timer
  runs and the goroutine number \<open>i\<close> waits on its channel and on the timer.
\<close>

definition awaiting :: "'w cs_st \<Rightarrow> configSession \<Rightarrow> nat \<Rightarrow> bool" where
  "awaiting S u i \<longleftrightarrow> uCS S = Some u \<and> cs_state u = cs_STATE_ACTIVE \<and>
     commitState u = cs_STATE_CONFIRM_TIMER \<and> i < length (gors S) \<and> g_phase (gors S ! i) = GWait \<and>
     commitTimer u = Some (g_timer (gors S ! i)) \<and> commitCh u = Some (g_ch (gors S ! i)) \<and>
     gget (timers S) (g_timer (gors S ! i)) = Some True"

lemma Commit_timer:
  assumes "IsConfigSession sess" "cs_state sess = cs_STATE_ACTIVE" "commitState sess \<noteq> cs_STATE_CONFIRM_TIMER"
    "\<not> isCpLabelExist label S" "timeout \<ge> cs_COMMIT_CONFIRM_TIMEOUT_MIN"
    "saveRunningConfig y (cs_username sess) S = (Inr cfg, S1)"
    "commitCS y label True (SetRollbackCfg cfg S1) = Ret ((None, a, b), S3)"
  shows "Commit y sess label timeout False S = Ret (processCommitTimer sess timeout cfg S3)"
  using assms by (simp add: Commit_def)

lemma set_committed_sel:
  "uCS (set_committed p S) = uCS S" "gors (set_committed p S) = gors S" "timers (set_committed p S) = timers S"
  "n_ch (set_committed p S) = n_ch S"
  by (simp_all add: set_committed_def on_db_def case_prod_beta)

lemma processCommitTimer_awaits:
  assumes "uCS S = Some u" "cs_state u = cs_STATE_ACTIVE" "commitState u = cs_STATE_CONFIRM_TIMER"
  shows "\<exists>S' u'. processCommitTimer sess timeout cfg S = ((True, CsStatusCommitSuccess), S') \<and>
    awaiting S' u' (length (gors S)) \<and> cs_pkg S' = cs_pkg S \<and> cs_dbs S' = cs_dbs S"
  using assms
  by (auto simp: processCommitTimer_def StartCommitTimer_def SetCommitCh_def Let_def awaiting_def)

text \<open>A commit with a timer publishes the candidate and then waits.\<close>

lemma commitCS_timer:
  assumes "uCS S = Some u" "cs_state u = cs_STATE_ACTIVE" "csCommitTx y (ccDB u) S = (None, S1)"
  shows "commitCS y label True S = Ret ((None, None, None),
     set_committed (ccDB u) (S1\<lparr>uCS := Some (u\<lparr>commitTime := now y S1, commitState := cs_STATE_CONFIRM_TIMER\<rparr>)\<rparr>))"
  using assms by (simp add: commitCS_def Let_def)

lemma finish_gor_found:
  "i < length gs \<Longrightarrow> g_phase (gs ! i) = GWait \<Longrightarrow> g_ch (gs ! i) = ch \<Longrightarrow> \<exists>gs'. finish_gor ch gs = Some gs'"
proof (induction ch gs arbitrary: i rule: finish_gor.induct)
  case (2 ch g gs)
  then show ?case by (cases i) auto
qed simp

lemma finish_gor_last:
  assumes "\<forall>j < length gs. j \<noteq> i \<longrightarrow> g_ch (gs ! j) \<noteq> ch" "finish_gor ch gs = Some gs'"
  shows "finish_gor ch gs' = None"
  using assms
proof (induction ch gs arbitrary: i gs' rule: finish_gor.induct)
  case (2 ch g gs)
  have none: "\<forall>h \<in> set l. g_ch h \<noteq> ch \<Longrightarrow> finish_gor ch l = None" for l
    by (induction l) auto
  show ?case
  proof (cases "g_ch g = ch \<and> g_phase g = GWait")
    case True
    then have "i = 0" using 2(2) by (metis length_Cons nth_Cons_0 zero_less_Suc)
    then have "\<forall>h \<in> set gs. g_ch h \<noteq> ch"
      using 2(2) by (metis Suc_less_eq in_set_conv_nth length_Cons nat.distinct(1) nth_Cons_Suc)
    then have "finish_gor ch gs = None" by (rule none)
    then show ?thesis using True 2(3) by auto
  next
    case False
    then obtain gs1 where g: "finish_gor ch gs = Some gs1" "gs' = g # gs1" using 2(3) by auto
    have "\<forall>j < length gs. j \<noteq> i - 1 \<longrightarrow> g_ch (gs ! j) \<noteq> ch"
    proof (intro allI impI)
      fix j assume "j < length gs" "j \<noteq> i - 1"
      then show "g_ch (gs ! j) \<noteq> ch" using 2(2)[rule_format, of "Suc j"] by auto
    qed
    from 2(1)[OF False this g(1)] show ?thesis using False g(2) by auto
  qed
qed simp

lemma awaiting_stop:
  assumes "awaiting S u i"
  obtains S1 where "stop_and_send u S = Ret S1" "uCS S1 = Some u" "cs_pkg S1 = cs_pkg S" "cs_dbs S1 = cs_dbs S"
    "finish_gor (g_ch (gors S ! i)) (gors S) = Some (gors S1)"
proof -
  obtain gs where "finish_gor (g_ch (gors S ! i)) (gors S) = Some gs"
    using assms finish_gor_found[of i "gors S"] by (auto simp: awaiting_def)
  then show thesis using assms
    by (intro that[of "S\<lparr>timers := gset (g_timer (gors S ! i)) False (timers S), gors := gs\<rparr>"])
       (simp_all add: stop_and_send_def awaiting_def Let_def)
qed

text \<open>Confirming ends the session and keeps what was committed.\<close>

lemma Confirm_ends:
  assumes "awaiting S u i" "\<not> isCpLabelExist label S"
  obtains b st S' where "Commit y u label timeout True S = Ret ((b, st), S')" "ended S'"
    "\<And>content q. cs_server y content q \<Longrightarrow> running content S' = running content S"
proof -
  have s: "IsConfigSession u" "cs_state u = cs_STATE_ACTIVE" "commitState u = cs_STATE_CONFIRM_TIMER" "commitTimer u \<noteq> None"
    using assms(1) by (simp_all add: awaiting_def IsConfigSession_def)
  obtain S1 where S1: "stop_and_send u S = Ret S1" "uCS S1 = Some u" "cs_pkg S1 = cs_pkg S"
    using awaiting_stop[OF assms(1)] by metis
  obtain eSh S2 where h: "CreateCpHistEntry y label (cs_token u) (cs_username u) ''commit'' (commitTime u) S1 = (eSh, S2)"
    by (metis surj_pair)
  have u2: "uCS S2 = Some u" using CreateCpHistEntry_uCS[of y label "cs_token u" "cs_username u" "''commit''" "commitTime u" S1] h S1(2) by simp
  obtain e S' where c: "cleanCS y S2 = Ret (e, S')" "ended S'"
    "\<And>content q. cs_server y content q \<Longrightarrow> running content S' = running content S2"
    using cleanCS_ends[OF u2, of y thesis] by metis
  have r2: "running content S2 = running content S" if "cs_server y content q" for content q
    using CreateCpHistEntry_content[OF that, of label "cs_token u" "cs_username u" "''commit''" "commitTime u" S1] h S1(3)
    by (simp add: running_def)
  have "Commit y u label timeout True S = Ret (case eSh of Some e \<Rightarrow> (False, CsStatusCommitFailure e) | None \<Rightarrow> (True, CsStatusCommitSuccess), S')"
    using s assms(2) S1 h c(1) by (simp add: Commit_def processCommitConfirm_def createCpHistory_def)
  moreover have "running content S' = running content S" if "cs_server y content q" for content q
    using c(3)[OF that] r2[OF that] by simp
  ultimately show thesis using c(2) that by (metis option.case_eq_if prod.collapse)
qed

text \<open>When the timer expires the saved configuration is loaded and the session ends.\<close>

lemma configReload_frame:
  "uCS (snd (configReload y user cfg S)) = uCS S" "timers (snd (configReload y user cfg S)) = timers S"
  "gors (snd (configReload y user cfg S)) = gors S"
  by (simp_all add: configReload_def on_host_def case_prod_beta)

lemma timer_ends:
  assumes "awaiting S u i"
  obtains S1 S2 where "timer_expires y i S = Some S1" "timer_cleans y i S1 = Some (Ret S2)" "ended S2"
    "cs_pkg S1 = cs_pkg (snd (configReload y (g_user (gors S ! i)) (g_cfg (gors S ! i)) S))"
proof -
  let ?g = "gors S ! i"
  define S0 where "S0 = SetCommitState cs_STATE_ROLLBACK_REPLACE S"
  have s0: "uCS S0 = Some (u\<lparr>commitState := cs_STATE_ROLLBACK_REPLACE\<rparr>)" "gors S0 = gors S" "timers S0 = timers S"
    using assms by (simp_all add: S0_def awaiting_def SetCommitState_def)
  define R where "R = snd (configReload y (g_user ?g) (g_cfg ?g) S0)"
  have r: "uCS R = uCS S0" "gors R = gors S" "timers R = timers S"
    by (simp_all add: R_def configReload_frame s0)
  define S1 where "S1 = R\<lparr>gors := (gors R)[i := ?g\<lparr>g_phase := GReloaded\<rparr>], timers := gset (g_timer ?g) False (timers R)\<rparr>"
  have e: "timer_expires y i S = Some S1"
    using assms by (simp add: awaiting_def timer_expires_def Let_def S1_def R_def S0_def)
  have w: "cs_pkg S1 = cs_pkg (snd (configReload y (g_user ?g) (g_cfg ?g) S))"
    by (simp add: S1_def R_def S0_def SetCommitState_def configReload_def on_host_def case_prod_beta split: option.split)
  have u1: "uCS S1 = Some (u\<lparr>commitState := cs_STATE_ROLLBACK_REPLACE\<rparr>)" by (simp add: S1_def r s0)
  obtain x S2 where c: "cleanCS y S1 = Ret (x, S2)" "ended S2" "gors S2 = gors S1"
    using cleanCS_ends[OF u1, of y thesis] by metis
  have "i < length (gors S1)" "g_phase (gors S1 ! i) = GReloaded"
    using assms r(2) by (simp_all add: S1_def awaiting_def)
  then have t: "timer_cleans y i S1 = Some (Ret (S2\<lparr>gors := (gors S2)[i := (gors S2 ! i)\<lparr>g_phase := GDone\<rparr>]\<rparr>))"
    by (simp add: timer_cleans_def c(1))
  show thesis by (rule that[OF e t _ w]) (use c(2) in \<open>simp add: ended_def\<close>)
qed

section \<open>Aborting\<close>

text \<open>Aborting after the commit loads the saved configuration; when that works, the session ends.\<close>

lemma deleteCS_result: "deleteCS y S = (errs, S') \<Longrightarrow> uCS S = Some u \<Longrightarrow>
    cs_state u = cs_STATE_ACTIVE \<or> cs_state u = cs_STATE_SUSPENDED \<Longrightarrow> ended S'"
  using deleteCS_ends[of S u y] by simp

lemma Abort_awaiting:
  assumes "awaiting S u i"
  obtains S1 e S2 where "stop_and_send u S = Ret S1" "configReload y (cs_username u) (rollbackCfg u) S1 = (e, S2)"
    "if e = None then \<exists>st S'. Abort y u S = Ret ((fst (fst (deleteCS y S2)) = None, st), S') \<and> ended S'
     else \<exists>st. Abort y u S = Ret ((False, st), S2)"
proof -
  have s: "IsConfigSession u" "cs_state u = cs_STATE_ACTIVE" "commitState u = cs_STATE_CONFIRM_TIMER"
    using assms(1) by (simp_all add: awaiting_def IsConfigSession_def)
  obtain S1 where S1: "stop_and_send u S = Ret S1" "uCS S1 = Some u" using awaiting_stop[OF assms(1)] by metis
  obtain e S2 where c: "configReload y (cs_username u) (rollbackCfg u) S1 = (e, S2)" by (metis surj_pair)
  have u2: "uCS S2 = Some u" using configReload_frame(1)[of y "cs_username u" "rollbackCfg u" S1] c S1(2) by simp
  obtain errs S' where d: "deleteCS y S2 = (errs, S')" by (metis surj_pair)
  show thesis
    using that[OF S1(1) c] s S1(1) c d deleteCS_result[OF d u2]
    by (cases e) (auto simp: Abort_def abortSessionCommit_def)
qed

text \<open>
  When it does not work the session is still there, but its timer is stopped and its
  goroutine has ended: whoever confirms, aborts or clears it then waits for ever.
\<close>

definition stuck :: "('w, 'z) cs_ext_scheme \<Rightarrow> 'w cs_st \<Rightarrow> configSession \<Rightarrow> bool" where
  "stuck y S u \<longleftrightarrow> Abort y u S = Blocks \<and> (\<forall>user. Kill y u True user S = Blocks) \<and>
     (\<forall>label timeout. \<not> isCpLabelExist label S \<longrightarrow> Commit y u label timeout True S = Blocks)"

lemma blocks_stuck:
  assumes "IsConfigSession u" "cs_state u = cs_STATE_ACTIVE" "commitState u = cs_STATE_CONFIRM_TIMER"
    "commitTimer u \<noteq> None" "stop_and_send u S = Blocks"
  shows "stuck y S u"
  using assms
  by (simp add: stuck_def Abort_def Kill_def Kill_session_def Commit_def processCommitConfirm_def abortSessionCommit_def)

lemma Abort_failure_sticks:
  assumes "awaiting S u i" "\<forall>j < length (gors S). j \<noteq> i \<longrightarrow> g_ch (gors S ! j) \<noteq> g_ch (gors S ! i)"
    "stop_and_send u S = Ret S1" "configReload y (cs_username u) (rollbackCfg u) S1 = (Some err, S2)"
  shows "uCS S2 = Some u \<and> stuck y S2 u"
proof -
  have s: "IsConfigSession u" "cs_state u = cs_STATE_ACTIVE" "commitState u = cs_STATE_CONFIRM_TIMER"
    "commitTimer u = Some (g_timer (gors S ! i))" "commitCh u = Some (g_ch (gors S ! i))"
    using assms(1) by (simp_all add: awaiting_def IsConfigSession_def)
  have S1: "uCS S1 = Some u" "finish_gor (g_ch (gors S ! i)) (gors S) = Some (gors S1)"
    using awaiting_stop[OF assms(1)] assms(3) by (metis outcome.inject)+
  have f: "uCS S2 = Some u" "gors S2 = gors S1"
    using configReload_frame[of y "cs_username u" "rollbackCfg u" S1] assms(4) S1(1) by simp_all
  have "finish_gor (g_ch (gors S ! i)) (gors S2) = None"
    unfolding f(2) by (rule finish_gor_last[OF assms(2) S1(2)])
  then have "stop_and_send u S2 = Blocks" using s by (simp add: stop_and_send_def Let_def)
  then show ?thesis using blocks_stuck[OF s(1-3)] s(4) f(1) by simp
qed

text \<open>Aborting while the timer's goroutine reloads deletes the session under its feet.\<close>

lemma Abort_in_rollback:
  assumes "uCS S = Some u" "cs_state u = cs_STATE_ACTIVE" "commitState u = cs_STATE_ROLLBACK_REPLACE"
    and "i < length (gors S)" "g_phase (gors S ! i) = GReloaded"
  shows "\<exists>r S'. Abort y u S = Ret (r, S') \<and> timer_cleans y i S' = Some Panics"
proof -
  have a: "IsConfigSession u" using assms(2) by (simp add: IsConfigSession_def)
  obtain errs S' where d: "deleteCS y S = (errs, S')" by (metis surj_pair)
  have "ended S'" using deleteCS_result[OF d assms(1)] assms(2) by simp
  moreover have "gors S' = gors S"
    using d assms(1,2) by (auto simp: deleteCS_def Let_def csAbortTx_def unlockDB_def on_pkg_def on_db_def case_prod_beta)
  ultimately have "timer_cleans y i S' = Some Panics"
    using assms(4,5) by (simp add: timer_cleans_def ended_def cleanCS_def)
  then show ?thesis using a assms(2,3) d by (simp add: Abort_def)
qed

section \<open>Starting\<close>

text \<open>A candidate without changes: the transaction has started and nothing is queued.\<close>

definition fresh_tx :: "DB \<Rightarrow> bool" where
  "fresh_tx d \<longleftrightarrow> in_tx d \<and> IsSession (Opts d) \<and> txCmds d = [] \<and> txTsEntryMap d = [] \<and> txTsEntryHGetAll d = [] \<and>
     cvlEditConfigData d = []"

definition blank_tx :: "DB \<Rightarrow> bool" where
  "blank_tx d \<longleftrightarrow> tx_state d = txStateNone \<and> DBNo (Opts d) = ConfigDB \<and> IsSession (Opts d) \<and>
     cvlHintsB4Open d = [] \<and> txCmds d = [] \<and> cvlEditConfigData d = []"

lemma NewDB_session:
  assumes "NewDB x newCS_opts sc cc s = (None, s')"
  shows "blank_tx (db s') \<and> Opts (db s') = newCS_opts"
proof -
  obtain w rc where c: "x_client x (world s) ConfigDB True = (w, rc)" by (metis surj_pair)
  define s0 where "s0 = s\<lparr>world := w, db := newDB_object newCS_opts rc sc cc\<rparr>"
  obtain e s1 where k: "newDB_checks x s0 = (e, s1)" by (metis surj_pair)
  have "e = None" "db s' = db s1"
    using assms c k by (auto simp: NewDB_def Let_def newCS_opts_def s0_def)
  then show ?thesis using k
    by (cases rc) (auto simp: newDB_checks_def newDB_configdb_def Let_def s0_def newDB_object_def newCS_opts_def
        zeroOptions_def registerSessionDB_def blank_tx_def)
qed

lemma startTx_fresh:
  assumes "blank_tx (db s)"
  obtains e s' where "startTx x [] [ts] s = Some (e, s')"
    "e = None \<Longrightarrow> fresh_tx (db s') \<and> Opts (db s') = Opts (db s)"
proof -
  let ?s1 = "upd_db (\<lambda>d. d\<lparr>txTsEntryMap := [], txTsEntryHGetAll := []\<rparr>) s"
  obtain r s2 where n: "NewValidationSession x ?s1 = (r, s2)" by (metis surj_pair)
  have d2: "db s2 = db ?s1" using n by (auto simp: NewValidationSession_def split: prod.splits sum.splits if_splits)
  show thesis
  proof (cases r)
    case (Inl e)
    then show thesis using that[of "Some e"] assms n by (simp add: startTx_def blank_tx_def)
  next
    case (Inr c)
    define s3 where "s3 = upd_db (\<lambda>d. d\<lparr>db_cv := Some c, cvlHintsB4Open := []\<rparr>) s2"
    have st: "startTx x [] [ts] s = performWatch x [] [ts] s3"
      using assms n Inr d2 by (simp add: startTx_def blank_tx_def s3_def upd_db_def)
    obtain e s4 where w: "do_cmd x (cWATCH [WName (ts2redisUpdated ts)]) s3 = (e, s4)" by (metis surj_pair)
    define s5 where "s5 = upd_db (\<lambda>d. d\<lparr>tx_state := txStateWatch\<rparr>) s4"
    have "performWatch x [] [ts] s3 = Some (e, s5)"
      using w by (simp add: performWatch_def Let_def s5_def split: option.split)
    moreover have "fresh_tx (db s5) \<and> Opts (db s5) = Opts (db s)"
      using assms d2 do_cmd_frame(1)[OF w] by (simp add: fresh_tx_def in_tx_def s3_def s5_def blank_tx_def)
    ultimately show thesis using that st by metis
  qed
qed

lemma strJoin_Nil_sep: "strJoin xs [] = concat xs"
  by (induction xs "[] :: string" rule: strJoin.induct) simp_all

text \<open>Creating a session decides: a session with a blank candidate, or none and the lock as it was.\<close>

lemma newCS_decides:
  assumes "uCS S = None" "heap_ok S"
  obtains r S' where "newCS y name user roles pid S = Ret (r, S')"
    "case r of Inl e \<Rightarrow> uCS S' = None
     | Inr u \<Rightarrow> uCS S' = Some u \<and> cs_state u = cs_STATE_ACTIVE \<and> commitState u = cs_STATE_None \<and> cs_name u = name \<and>
         cs_username u = user \<and> cs_roles u = roles \<and> cs_pid u = pid \<and>
         (\<exists>p d. ccDB u = Some p \<and> gget (cs_dbs S') p = Some d \<and> fresh_tx d \<and> Opts d = newCS_opts)"
proof -
  obtain p e S1 where n: "newDB_at y newCS_opts S = ((p, e), S1)" by (metis surj_pair)
  obtain d where d: "gget (cs_dbs S1) p = Some d" "uCS S1 = None"
    using newDB_at_facts[OF n assms(2)] assms(1) by metis
  show thesis
  proof (cases e)
    case (Some er)
    show thesis by (rule that[of "Inl er" S1]) (use n Some assms(1) d in \<open>simp_all add: newCS_def\<close>)
  next
    case None
    obtain s where s: "NewDB (y_db y) newCS_opts (y_statsCfg y) (y_cacheCfg y) (cs_pkg S) = (None, s)"
      "S1 = put_pkg (Some p) s S" using n None by (auto simp: newDB_at_def Let_def split: prod.splits)
    have dd: "d = db s" using d(1) s(2) by simp
    have b: "blank_tx (db ((cs_pkg S1)\<lparr>db := d\<rparr>))" "Opts d = newCS_opts" using NewDB_session[OF s(1)] dd by simp_all
    obtain e2 s2 where t: "startTx (y_db y) [] [tspec ''*''] ((cs_pkg S1)\<lparr>db := d\<rparr>) = Some (e2, s2)"
      "e2 = None \<Longrightarrow> fresh_tx (db s2) \<and> Opts (db s2) = newCS_opts"
      using startTx_fresh[OF b(1), of "y_db y" "tspec ''*''" thesis] b(2) by auto
    define S2 where "S2 = put_pkg (Some p) s2 S1"
    have c2: "csStartTx y (Some p) S1 = Ret (e2, S2)"
      by (simp add: csStartTx_def on_db_opt_def the_db_live[OF d(1)] StartSessTx_def t(1) S2_def)
    have u2: "uCS S2 = None" "gget (cs_dbs S2) p = Some (db s2)" using d(2) by (simp_all add: S2_def)
    show thesis
    proof (cases e2)
      case (Some er)
      show thesis
        by (rule that[of "Inl er" "snd (on_db (Some p) (DeleteDB (y_db y)) S2)"])
           (use n None assms(1) c2 Some u2 in \<open>simp_all add: newCS_def on_db_def case_prod_beta\<close>)
    next
      case e2: None
      define m where "m = csTokenCtr S2 + 1"
      define S3 where "S3 = S2\<lparr>csTokenCtr := m\<rparr>"
      obtain e4 S4 where l: "on_pkg (lock_op (ConfigDBTryLock (y_db y) (newToken (now y S2) m))) S3 = (e4, S4)"
        by (metis surj_pair)
      have f4: "uCS S4 = None" "cs_dbs S4 = cs_dbs S2" using l u2(1) by (auto simp: on_pkg_def S3_def case_prod_beta)
      have base: "newCS y name user roles pid S = (case e4 of
             Some err \<Rightarrow> Ret (Inl err, snd (on_db (Some p) (DeleteDB (y_db y)) (snd (csAbortTx y (Some p) S4))))
           | None \<Rightarrow> let t = now y S4;
                   u = zeroSession\<lparr>cs_name := name, cs_token := newToken (now y S2) m, cs_state := cs_STATE_ACTIVE,
                             cs_username := user, cs_roles := roles, cs_pid := pid, ccDB := Some p,
                             startTime := t, lastActiveTime := t\<rparr>
                   in Ret (Inr u, S4\<lparr>uCS := Some u\<rparr>))"
        using n None assms(1) c2 e2 l unfolding S3_def m_def by (simp add: newCS_def Let_def split: option.split)
      show thesis
      proof (cases e4)
        case (Some er)
        show thesis
          by (rule that[of "Inl er" "snd (on_db (Some p) (DeleteDB (y_db y)) (snd (csAbortTx y (Some p) S4)))"])
             (use base Some f4 in \<open>simp_all add: csAbortTx_def on_db_def case_prod_beta\<close>)
      next
        case e4: None
        define u where "u = zeroSession\<lparr>cs_name := name, cs_token := newToken (now y S2) m, cs_state := cs_STATE_ACTIVE,
                             cs_username := user, cs_roles := roles, cs_pid := pid, ccDB := Some p,
                             startTime := now y S4, lastActiveTime := now y S4\<rparr>"
        show thesis
          by (rule that[of "Inr u" "S4\<lparr>uCS := Some u\<rparr>"])
             (use base e4 f4 u2 t(2) e2 in \<open>simp_all add: u_def Let_def zeroSession_def\<close>)
      qed
    qed
  qed
qed

section \<open>The history\<close>

text \<open>The history that a new checkpoint is added to, and what stays of it.\<close>

definition hist_before :: "('w, 'z) cs_ext_scheme \<Rightarrow> 'w cs_st \<Rightarrow> CpHistEntry list" where
  "hist_before y S =
     (if is_hist_loaded S then cpHistEnts S
      else case y_hist_file y (world (cs_pkg S)) of None \<Rightarrow> cpHistEnts S | Some l \<Rightarrow> l)"

definition hist_kept :: "CpHistEntry list \<Rightarrow> CpHistEntry list" where
  "hist_kept l = (if length l \<ge> MAX_HIST then tl l else l)"

lemma on_host_hist: "cpHistEnts (snd (on_host y q S)) = cpHistEnts S" "is_hist_loaded (snd (on_host y q S)) = is_hist_loaded S"
  by (simp_all add: on_host_def case_prod_beta)

lemma drop_oldest_hist: "cpHistEnts (drop_oldest y S) = hist_kept (cpHistEnts S)"
  "is_hist_loaded (drop_oldest y S) = is_hist_loaded S"
  by (simp_all add: drop_oldest_def hist_kept_def DeleteFirstCpHistEntry_def DeleteCpConfig_def Let_def on_host_hist)

lemma CreateCpHistEntry_hist:
  assumes "CreateCpHistEntry y label ident user origin t S = (e, S')"
  obtains saved where "is_hist_loaded S'" "cpHistEnts S' = hist_kept (hist_before y S) @
      (if saved then [\<lparr>cp_Label = label, cp_Id = ident, cp_User = user, cp_Origin = origin, cp_Time = t\<rparr>] else [])"
    "e = None \<Longrightarrow> saved"
proof -
  define S1 where "S1 = (if \<not> is_hist_loaded S then (LoadCpHistEntries y S)\<lparr>is_hist_loaded := True\<rparr> else S)"
  have s1: "cpHistEnts S1 = hist_before y S" "is_hist_loaded S1"
    by (simp_all add: S1_def hist_before_def LoadCpHistEntries_def split: option.split)
  obtain e1 S3 where v: "SaveCpConfig y (cp_file label ident) user (drop_oldest y S1) = (e1, S3)" by (metis surj_pair)
  have s3: "cpHistEnts S3 = hist_kept (hist_before y S)" "is_hist_loaded S3"
    using v on_host_hist[of y "QCpSave (cp_file label ident) user" "drop_oldest y S1"]
    by (simp_all add: SaveCpConfig_def drop_oldest_hist s1)
  show thesis
  proof (cases e1)
    case None
    then have "(e, S') = UpdateCpHistFile y user (AddCpHistEntry \<lparr>cp_Label = label, cp_Id = ident, cp_User = user,
        cp_Origin = origin, cp_Time = t\<rparr> S3)"
      using assms v by (simp add: CreateCpHistEntry_def Let_def S1_def)
    then have "S' = snd (UpdateCpHistFile y user (AddCpHistEntry \<lparr>cp_Label = label, cp_Id = ident, cp_User = user,
        cp_Origin = origin, cp_Time = t\<rparr> S3))" by (metis snd_conv)
    then show thesis using s3 by (intro that[of True]) (simp_all add: UpdateCpHistFile_def AddCpHistEntry_def on_host_hist)
  next
    case (Some er)
    then have "e = Some er" "S' = S3" using assms v by (simp_all add: CreateCpHistEntry_def Let_def S1_def)
    then show thesis using s3 by (intro that[of False]) simp_all
  qed
qed

lemma length_hist_kept: "length l \<le> MAX_HIST \<Longrightarrow> length (hist_kept l) < MAX_HIST"
  by (auto simp: hist_kept_def MAX_HIST_def)

text \<open>Deleting an entry: with distinct entries, none of them blank, one entry goes.\<close>

lemma delete_hist_none:
  "\<forall>k < n. arr ! (i + k) \<noteq> entry \<Longrightarrow> delete_hist_loop entry i n arr m = Some (arr, m)"
proof (induction n arbitrary: i)
  case (Suc n)
  have "\<forall>k < n. arr ! (Suc i + k) \<noteq> entry"
  proof (intro allI impI)
    fix k assume "k < n"
    then show "arr ! (Suc i + k) \<noteq> entry" using Suc.prems[rule_format, of "Suc k"] by simp
  qed
  from Suc.IH[OF this] show ?case using Suc.prems[rule_format, of 0] by simp
qed simp

lemma delete_hist_skip:
  "\<forall>k < j. arr ! (i + k) \<noteq> entry \<Longrightarrow> j \<le> n \<Longrightarrow>
    delete_hist_loop entry i n arr m = delete_hist_loop entry (i + j) (n - j) arr m"
proof (induction j arbitrary: i n)
  case (Suc j)
  then obtain n' where n: "n = Suc n'" by (cases n) auto
  have "\<forall>k < j. arr ! (Suc i + k) \<noteq> entry"
  proof (intro allI impI)
    fix k assume "k < j"
    then show "arr ! (Suc i + k) \<noteq> entry" using Suc.prems(1)[rule_format, of "Suc k"] by simp
  qed
  from Suc.IH[OF this, of n'] show ?case using Suc.prems(1)[rule_format, of 0] Suc.prems(2) n by simp
qed simp

lemma DeleteCpHistEntry_ok:
  assumes "cpHistEnts S = l" "distinct l" "i < length l" "l ! i = entry" "entry \<noteq> blankCpHistEntry"
  shows "DeleteCpHistEntry entry S = Ret (S\<lparr>cpHistEnts := take (length l - 1) (l[i := last l])\<rparr>)"
proof -
  have ne: "\<forall>k < i. l ! (0 + k) \<noteq> entry"
    using assms(2-4) nth_eq_iff_index_eq[OF assms(2)] by auto
  define arr where "arr = l[i := l ! (length l - 1), length l - 1 := blankCpHistEntry]"
  have l0: "length l - 1 < length l" using assms(3) by simp
  have rest: "\<forall>k < length l - Suc i. arr ! (Suc i + k) \<noteq> entry"
  proof (intro allI impI)
    fix k assume k: "k < length l - Suc i"
    then have "l ! (Suc i + k) \<noteq> entry" using assms(2-4) nth_eq_iff_index_eq[OF assms(2), of "Suc i + k" i] by auto
    then show "arr ! (Suc i + k) \<noteq> entry" using k assms(5) l0 by (auto simp: arr_def nth_list_update)
  qed
  have "delete_hist_loop entry 0 (length l) l (length l) = delete_hist_loop entry i (length l - i) l (length l)"
    using delete_hist_skip[OF ne, of "length l" "length l"] assms(3) by simp
  also have "length l - i = Suc (length l - Suc i)" using assms(3) by simp
  also have "delete_hist_loop entry i (Suc (length l - Suc i)) l (length l) =
      delete_hist_loop entry (Suc i) (length l - Suc i) arr (length l - 1)"
    using assms(3,4) by (simp add: arr_def)
  also have "\<dots> = Some (arr, length l - 1)" by (rule delete_hist_none[OF rest])
  finally have "DeleteCpHistEntry entry S = Ret (S\<lparr>cpHistEnts := take (length l - 1) arr\<rparr>)"
    using assms(1) by (simp add: DeleteCpHistEntry_def Let_def)
  moreover have "take (length l - 1) arr = take (length l - 1) (l[i := last l])"
    using assms(3) by (simp add: arr_def last_conv_nth[of l] take_update_cancel flip: length_greater_0_conv)
  ultimately show ?thesis by simp
qed

lemma replace_last:
  assumes "distinct l" "i < length l"
  shows "distinct (take (length l - 1) (l[i := last l]))" "set (take (length l - 1) (l[i := last l])) = set l - {l ! i}"
proof -
  obtain xs z where l: "l = xs @ [z]" using assms(2) by (cases l rule: rev_cases) auto
  have t: "take (length l - 1) (l[i := last l]) = (if i < length xs then xs[i := z] else xs)"
    using assms(2) l by (auto simp: list_update_append nth_append)
  show "distinct (take (length l - 1) (l[i := last l]))"
    unfolding t using assms l by (auto intro: distinct_list_update)
  show "set (take (length l - 1) (l[i := last l])) = set l - {l ! i}"
  proof (cases "i < length xs")
    case True
    then show ?thesis unfolding t using assms l by (auto simp: nth_append set_update_distinct)
  next
    case False
    then have "i = length xs" using assms(2) l by simp
    then show ?thesis unfolding t using assms l by auto
  qed
qed

section \<open>A commit with a timer\<close>

lemma csCommitTx_gors: "gors (snd (csCommitTx y p S)) = gors S" "n_ch (snd (csCommitTx y p S)) = n_ch S"
  "timers (snd (csCommitTx y p S)) = timers S"
  by (simp_all add: csCommitTx_def on_db_def case_prod_beta)

lemma set_committed_content:
  "running content (set_committed p S) = running content S"
  unfolding set_committed_def by (rule on_db_content) simp

lemma saveRunningConfig_frame:
  assumes "saveRunningConfig y user S = (r, S1)"
  shows "uCS S1 = uCS S" "gors S1 = gors S" "cs_dbs S1 = cs_dbs S" "cpHistEnts S1 = cpHistEnts S"
    "\<exists>w. cs_pkg S1 = (cs_pkg S)\<lparr>world := w\<rparr>"
    "cs_server y content q \<Longrightarrow> running content S1 = running content S"
proof -
  define h where "h = QCfgSave ''running-configuration'' (''temp://rollback.cfg.'' @ Itoa (now y S) @ ''.json'') [] user"
  obtain e S0 where o: "on_host y h S = (e, S0)" by (metis surj_pair)
  have S0: "S0 = snd (on_host y h S)" "S1 = S0" using o assms
    by (cases e; auto simp: saveRunningConfig_def Let_def h_def)+
  show "uCS S1 = uCS S" "gors S1 = gors S" "cs_dbs S1 = cs_dbs S" "cpHistEnts S1 = cpHistEnts S"
    "\<exists>w. cs_pkg S1 = (cs_pkg S)\<lparr>world := w\<rparr>"
    unfolding S0 by (auto simp: on_host_def case_prod_beta)
  show "cs_server y content q \<Longrightarrow> running content S1 = running content S"
    unfolding S0 by (rule on_host_content)
qed

lemma Commit_timer_awaits:
  assumes "sess_at S u p d" "\<not> isCpLabelExist label S" "timeout \<ge> cs_COMMIT_CONFIRM_TIMEOUT_MIN"
    and "Commit y u label timeout False S = Ret ((True, st), S')"
  obtains u' s1 where "awaiting S' u' (length (gors S))" "cs_token u' = cs_token u"
    "\<exists>w. s1 = (cs_pkg S)\<lparr>db := d, world := w\<rparr> \<and> (\<forall>content q. cs_server y content q \<longrightarrow> content w = running content S)"
    "fst (commitTx (y_db y) s1) = None"
    "\<And>content. running content S' = content (world (snd (commitTx (y_db y) s1)))"
proof -
  have s: "uCS S = Some u" "cs_state u = cs_STATE_ACTIVE" "commitState u \<noteq> cs_STATE_CONFIRM_TIMER" "ccDB u = Some p"
    "gget (cs_dbs S) p = Some d" using assms(1) by (simp_all add: sess_at_def)
  have a: "IsConfigSession u" using s(2) by (simp add: IsConfigSession_def)
  obtain sv S1 where sv: "saveRunningConfig y (cs_username u) S = (sv, S1)" by (metis surj_pair)
  note f1 = saveRunningConfig_frame[OF sv]
  have "sv \<noteq> Inl e" for e
    using assms(2-4) sv a s(2,3) by (auto simp: Commit_def Let_def)
  then obtain cfg where cfg: "sv = Inr cfg" by (cases sv) auto
  define S2 where "S2 = SetRollbackCfg cfg S1"
  define u2 where "u2 = u\<lparr>rollbackCfg := cfg\<rparr>"
  have s2: "uCS S2 = Some u2" "cs_pkg S2 = cs_pkg S1" "cs_dbs S2 = cs_dbs S" "gors S2 = gors S"
    using f1 s(1) by (simp_all add: S2_def u2_def SetRollbackCfg_def)
  obtain w where w: "cs_pkg S1 = (cs_pkg S)\<lparr>world := w\<rparr>" using f1(5) by blast
  have d2: "gget (cs_dbs S2) p = Some d" using s2(3) s(5) by simp
  obtain e S3 where c: "csCommitTx y (Some p) S2 = (e, S3)" by (metis surj_pair)
  have u2': "cs_state u2 = cs_STATE_ACTIVE" "ccDB u2 = Some p" using s by (simp_all add: u2_def)
  have base: "Commit y u label timeout False S = bind (commitCS y label True S2) (\<lambda>r. case r of
               ((Some err, _, _), S3) \<Rightarrow> Ret ((False, CsStatusCommitFailure err), S3)
             | ((None, errSc, errSh), S3) \<Rightarrow> Ret (processCommitTimer u timeout cfg S3))"
    if "commitCS y label True S2 = Ret ((x1, x2, x3), x4)" for x1 x2 x3 x4
    using assms(2,3) sv cfg a s(2,3) that by (cases x1) (simp_all add: Commit_def S2_def)
  have "e = None"
  proof (rule ccontr)
    assume "e \<noteq> None"
    then obtain er where er: "e = Some er" by blast
    have k: "commitCS y label True S2 = Ret ((Some er, None, None), S3)"
      by (rule commitCS_fails[OF s2(1) u2'(1)]) (simp add: u2'(2) c er)
    show False using base[OF k] k assms(4) by simp
  qed
  then have c': "csCommitTx y (ccDB u2) S2 = (None, S3)" using c u2'(2) by simp
  define S4 where "S4 = set_committed (ccDB u2) (S3\<lparr>uCS := Some (u2\<lparr>commitTime := now y S3, commitState := cs_STATE_CONFIRM_TIMER\<rparr>)\<rparr>)"
  have k: "commitCS y label True S2 = Ret ((None, None, None), S4)"
    unfolding S4_def by (rule commitCS_timer[OF s2(1) u2'(1) c'])
  have P: "processCommitTimer u timeout cfg S4 = ((True, st), S')" using base[OF k] k assms(4) by simp
  have S3: "S3 = snd (csCommitTx y (Some p) S2)" using c by simp
  have g4: "gors S4 = gors S" by (simp add: S4_def set_committed_sel S3 csCommitTx_gors s2(4))
  have S': "S' = snd (processCommitTimer u timeout cfg S4)" using P by simp
  define u4 where "u4 = u2\<lparr>commitTime := now y S3, commitState := cs_STATE_CONFIRM_TIMER,
     commitTimer := Some (length (timers S4)), commitCh := Some (n_ch S4)\<rparr>"
  have u4: "uCS S4 = Some (u2\<lparr>commitTime := now y S3, commitState := cs_STATE_CONFIRM_TIMER\<rparr>)"
    by (simp add: S4_def set_committed_sel)
  have aw: "awaiting S' u4 (length (gors S))" "cs_pkg S' = cs_pkg S4"
    unfolding S' using u4 u2'(1) g4
    by (simp_all add: processCommitTimer_def StartCommitTimer_def SetCommitCh_def Let_def awaiting_def u4_def)
  let ?s1 = "(cs_pkg S2)\<lparr>db := d\<rparr>"
  note dd = csCommitTx_db[OF d2, of y]
  show thesis
  proof (rule that[OF aw(1), of ?s1])
    show "cs_token u4 = cs_token u" by (simp add: u4_def u2_def)
    show "\<exists>w. ?s1 = (cs_pkg S)\<lparr>db := d, world := w\<rparr> \<and> (\<forall>content q. cs_server y content q \<longrightarrow> content w = running content S)"
      using f1(6) w s2(2) by (intro exI[of _ w]) (auto simp: running_def)
    show "fst (commitTx (y_db y) ?s1) = None" using dd(4) c \<open>e = None\<close> by simp
    show "running content S' = content (world (snd (commitTx (y_db y) ?s1)))" for content
      using dd(3) by (simp add: running_def aw(2) S4_def S3 set_committed_def on_db_def case_prod_beta)
  qed
qed

text \<open>Aborting before a commit publishes nothing and ends the session.\<close>

lemma abortTx_content:
  assumes "redis_server x content"
  shows "content (world (snd (abortTx x s))) = content (world s)"
proof -
  obtain e s1 where d: "do_cmd x cUNWATCH s = (e, s1)" by (metis surj_pair)
  then have "content (world s1) = content (world s)"
    using redis_serverD(3)[OF assms] by (auto simp: do_cmd_def split: prod.splits sum.splits) (metis fst_conv)+
  then show ?thesis by (simp add: abortTx_def Let_def d tx_close_content[OF assms])
qed

lemma deleteCS_content:
  assumes "cs_server y content q"
  shows "running content (snd (deleteCS y S)) = running content S"
proof (cases "uCS S")
  case (Some u)
  have a: "running content (snd (csAbortTx y p S)) = running content S" for p
    unfolding csAbortTx_def AbortSessTx_def by (rule on_db_content) (rule abortTx_content[OF cs_serverD(1)[OF assms]])
  define r where "r = (if commitState u \<noteq> cs_STATE_CONFIRM_TIMER then csAbortTx y (ccDB u) S else (None, S))"
  have "running content (snd r) = running content S" by (simp add: r_def a)
  moreover have "running content (snd (on_db (ccDB u) (DeleteDB (y_db y)) (snd (unlockDB y (cs_token u) (snd r))))) = running content (snd r)"
    using on_db_content[of content "DeleteDB (y_db y)"] DeleteDB_content[OF assms] unlockDB_content[OF assms] by simp
  ultimately show ?thesis using Some by (auto simp: deleteCS_def Let_def r_def[symmetric] case_prod_beta)
qed (simp add: deleteCS_def)

end
