(* ===== verification/TL_ReqProps.thy ===== *)
theory TL_ReqProps
  imports TL_Requests CS_Props
begin

text \<open>
  What the write requests promise: nothing of a failed request stays in the database, a
  successful one publishes what its module saw, and the configuration lock is given back.

  Of a module it is assumed that it works through the connection: to translate it only reads,
  and to process it uses the operations on entries, whose effect \<open>tx_step\<close> describes.
\<close>

section \<open>The server\<close>

text \<open>
  The lock lives in the state database: giving it back changes no row of the configuration.
\<close>

definition tl_server ::
  "'w ext \<Rightarrow> ('w \<Rightarrow> string \<Rightarrow> fields) \<Rightarrow> ('w \<Rightarrow> nat \<Rightarrow> rcmd list option) \<Rightarrow> bool" where
  "tl_server x content q \<longleftrightarrow> redis_server x content \<and> tx_server x content q \<and>
     (\<forall>w w1 c n. x_client x w StateDB True = (w1, Some c) \<longrightarrow>
        content (fst (x_do x w1 c (cHDEL lockTableKey [n]))) = content w1)"

text \<open>A process that has no host service.\<close>

definition no_host :: "'w ext \<Rightarrow> 'w cs_ext" where
  "no_host x = \<lparr>y_db = x, y_host = (\<lambda>w h. (w, None)), y_now = (\<lambda>w. 0), y_signal = (\<lambda>w p. False),
     y_tty = (\<lambda>w p. None), y_hist_file = (\<lambda>w. None),
     y_statsCfg = \<lparr>TimeStats = False, TableStats = False, MapStats = False\<rparr>, y_cacheCfg = zeroCacheConfig\<rparr>"

lemma tl_server_cs: "tl_server x content q \<Longrightarrow> cs_server (no_host x) content q"
  by (simp add: tl_server_def cs_server_def no_host_def)

lemma tl_serverD: "tl_server x content q \<Longrightarrow> redis_server x content \<and> tx_server x content q"
  by (simp add: tl_server_def)

lemma DeleteDB_content_tl: "tl_server x content q \<Longrightarrow> content (world (snd (DeleteDB x s))) = content (world s)"
  using DeleteDB_content[OF tl_server_cs, of x content q s] by (simp add: no_host_def)

section \<open>The connection of a request\<close>

definition blank_db :: "DB \<Rightarrow> bool" where
  "blank_db d \<longleftrightarrow> tx_state d = txStateNone \<and> \<not> IsSession (Opts d) \<and> DBNo (Opts d) = ConfigDB \<and>
     txCmds d = [] \<and> txTsEntryMap d = []"

lemma request_opts: "IsSession (getDBOptions ConfigDB [withForceNewRedisConnection]) = False"
  "DBNo (getDBOptions ConfigDB [withForceNewRedisConnection]) = ConfigDB"
  "IsOnChangeEnabled (getDBOptions ConfigDB [withForceNewRedisConnection]) = False"
  "InitIndicator (getDBOptions ConfigDB [withForceNewRedisConnection]) = []"
  "IsWriteDisabled (getDBOptions ConfigDB [withForceNewRedisConnection]) = False"
  by (simp_all add: getDBOptions_def zeroOptions_def)

lemma lock_op_content:
  assumes "redis_server x content" "lock_op (ConfigDBTryLock x t) s = (e, s')"
  shows "content (world s') = content (world s)" "db s' = db s"
  using assms(2) ConfigDBTryLock_content[OF assms(1), of t "world s" "cdbLock s"]
  by (auto simp: lock_op_def split: prod.splits)

lemma env_NewDB_ok:
  assumes "redis_server (te_db v) content" "env_NewDB v ConfigDB [withForceNewRedisConnection] s = (e, s')"
  shows "content (world s') = content (world s)" "e = None \<Longrightarrow> blank_db (db s')"
proof -
  let ?x = "te_db v" and ?o = "getDBOptions ConfigDB [withForceNewRedisConnection]"
  obtain w rc where c: "x_client ?x (world s) ConfigDB True = (w, rc)" by (metis surj_pair)
  have cw: "content w = content (world s)" using redis_server_E(2)[OF assms(1) c] .
  define s0 where "s0 = s\<lparr>world := w, db := newDB_object ?o rc (te_stats v) (te_cache v)\<rparr>"
  obtain e1 s1 where k: "newDB_checks ?x s0 = (e1, s1)" by (metis surj_pair)
  have f: "ForceNewRedisConnection ?o" by (simp add: getDBOptions_def)
  have r: "e = e1" "world s' = world s1" "db s' = db s1"
    using assms(2) c k f by (auto simp: env_NewDB_def NewDB_def request_opts Let_def s0_def)
  define s2 where "s2 = upd_db (\<lambda>d. d\<lparr>dbCacheConfig := (dbCacheConfig d)\<lparr>PerConnection := False\<rparr>\<rparr>) (upd_db (\<lambda>d. d\<lparr>Opts := ?o\<rparr>) s0)"
  obtain e3 s3 where l: "lock_op (ConfigDBTryLock ?x noSessionToken) s2 = (e3, s3)" by (metis surj_pair)
  have n: "(e1, s1) = (if rc = None then (Some TranslibDBCannotOpen, s0)
      else if e3 \<noteq> None then (e3, close_client ?x s3)
      else (None, if ConfigDBLazyLock ?o then s2 else upd_db (\<lambda>d. d\<lparr>configDBLocked := True\<rparr>) s3))"
    using k l by (auto simp: newDB_checks_def newDB_configdb_def s0_def newDB_object_def request_opts Let_def s2_def
        getDBOptions_def zeroOptions_def upd_db_def split: option.split)
  note lc = lock_op_content[OF assms(1) l]
  have s2: "content (world s2) = content (world s)" "blank_db (db s2)"
    by (simp_all add: s2_def s0_def cw blank_db_def newDB_object_def request_opts upd_db_def)
  show "content (world s') = content (world s)"
    using n r lc s2 cw redis_serverD(6)[OF assms(1)]
    by (auto simp: close_client_def s0_def split: if_splits)
  show "e = None \<Longrightarrow> blank_db (db s')"
    using n r lc s2 by (auto simp: blank_db_def split: if_splits)
qed

section \<open>Starting, watching, ending\<close>

lemma performWatch_frame:
  assumes "redis_server x content" "performWatch x w tss s = Some (e, s')"
  shows "content (world s') = content (world s)" "db s' = (db s)\<lparr>tx_state := txStateWatch\<rparr>"
proof -
  obtain e0 args where a: "watch_keys x w s (None, []) = Some (e0, args)"
    using assms(2) by (auto simp: performWatch_def split: option.splits)
  let ?args = "args @ map (\<lambda>ts. WName (ts2redisUpdated ts)) tss"
  obtain e1 s1 where d: "do_cmd x (cWATCH ?args) s = (e1, s1)" by (metis surj_pair)
  have "content (world s1) = content (world s)"
    using d redis_serverD(2)[OF assms(1), of "world s" "client_of (db s)" ?args]
    by (auto simp: do_cmd_def split: prod.splits sum.splits)
  then show "content (world s') = content (world s)" "db s' = (db s)\<lparr>tx_state := txStateWatch\<rparr>"
    using assms(2) a d do_cmd_frame(1)[OF d]
    by (auto simp: performWatch_def Let_def upd_db_def split: if_splits option.splits)
qed

lemma store_hints_frame: "store_hints hs s = (e, s') \<Longrightarrow> world s' = world s \<and> tx_state (db s') = tx_state (db s) \<and>
    Opts (db s') = Opts (db s) \<and> txCmds (db s') = txCmds (db s) \<and> txTsEntryMap (db s') = txTsEntryMap (db s)"
proof (induction hs s arbitrary: e s' rule: store_hints.induct)
  case (2 k v hs s)
  obtain e1 s1 where h: "StoreCVLHint k v s = (e1, s1)" by (metis surj_pair)
  have f: "world s1 = world s \<and> tx_state (db s1) = tx_state (db s) \<and> Opts (db s1) = Opts (db s) \<and>
      txCmds (db s1) = txCmds (db s) \<and> txTsEntryMap (db s1) = txTsEntryMap (db s)"
    using h by (auto simp: StoreCVLHint_def Let_def upd_db_def split: if_splits option.splits)
  show ?case
  proof (cases e1)
    case None
    then have "store_hints hs s1 = (e, s')" using 2(2) h by simp
    with 2(1)[of e1 s1 e s'] show ?thesis using h f None by simp
  qed (use 2(2) h f in auto)
qed simp

lemma StartTx_ok:
  assumes "redis_server x content" "StartTx x w tss s = Some (e, s')" "blank_db (db s)"
  shows "content (world s') = content (world s)"
    "e = None \<Longrightarrow> in_tx (db s') \<and> txCmds (db s') = [] \<and> txTsEntryMap (db s') = [] \<and> Opts (db s') = Opts (db s)"
proof -
  let ?s1 = "upd_db (\<lambda>d. d\<lparr>txTsEntryMap := [], txTsEntryHGetAll := []\<rparr>) s"
  have st: "startTx x w tss s = Some (e, s')" using assms(2,3) by (simp add: StartTx_def blank_db_def)
  obtain r s2 where n: "NewValidationSession x ?s1 = (r, s2)" by (metis surj_pair)
  have n2: "content (world s2) = content (world s)" "db s2 = db ?s1"
    using n redis_serverD(7)[OF assms(1), of "world s" "db ?s1"]
    by (auto simp: NewValidationSession_def upd_db_def split: prod.splits sum.splits if_splits)
  have all: "content (world s') = content (world s) \<and> (e = None \<longrightarrow> in_tx (db s') \<and> txCmds (db s') = [] \<and>
      txTsEntryMap (db s') = [] \<and> Opts (db s') = Opts (db s))"
  proof (cases r)
    case (Inl e1)
    then show ?thesis using st n n2 assms(3) by (auto simp: startTx_def blank_db_def upd_db_def)
  next
    case (Inr c)
    let ?s3 = "upd_db (\<lambda>d. d\<lparr>db_cv := Some c\<rparr>) s2"
    obtain e4 s4 where h: "store_hints (cvlHintsB4Open (db ?s3)) ?s3 = (e4, s4)" by (metis surj_pair)
    note hf = store_hints_frame[OF h]
    have s3: "tx_state (db ?s3) = txStateNone" using n2 assms(3) by (simp add: blank_db_def upd_db_def)
    show ?thesis
    proof (cases e4)
      case (Some err)
      then show ?thesis using st n Inr h hf n2 s3 assms(3) by (auto simp: startTx_def blank_db_def upd_db_def)
    next
      case None
      let ?s5 = "upd_db (\<lambda>d. d\<lparr>cvlHintsB4Open := []\<rparr>) s4"
      have p: "performWatch x w tss ?s5 = Some (e, s')"
        using st n Inr h None s3 assms(3) by (simp add: startTx_def blank_db_def upd_db_def)
      show ?thesis
        using performWatch_frame[OF assms(1) p] hf n2 assms(3)
        by (simp add: in_tx_def blank_db_def upd_db_def)
    qed
  qed
  show "content (world s') = content (world s)" using all by blast
  show "e = None \<Longrightarrow> in_tx (db s') \<and> txCmds (db s') = [] \<and> txTsEntryMap (db s') = [] \<and> Opts (db s') = Opts (db s)"
    using all by blast
qed

lemma AppendWatchTx_step:
  assumes "redis_server x content" "AppendWatchTx x w tss s = Some (e, s')" "in_tx (db s)"
  shows "tx_step content s s'" "in_tx (db s')"
proof -
  have p: "performWatch x w tss s = Some (e, s')"
    using assms(2,3) by (auto simp: AppendWatchTx_def in_tx_def split: if_splits)
  note f = performWatch_frame[OF assms(1) p]
  have "tview content s' = tview content s" unfolding tview_def f by (rule view_cong) simp
  then show "tx_step content s s'" unfolding tx_step_def f by (auto simp: in_tx_def f intro: exI[of _ "[]"])
  show "in_tx (db s')" by (simp add: in_tx_def f)
qed

lemma AbortTx_content:
  assumes "redis_server x content" "AbortTx x s = Some (e, s')" "\<not> IsSession (Opts (db s))"
  shows "content (world s') = content (world s)"
proof -
  have a: "abortTx x (clearCVLHint [] s) = (e, s')" using assms(2,3) by (simp add: AbortTx_def)
  have h: "world (clearCVLHint [] s) = world s" by (simp add: clearCVLHint_def Let_def upd_db_def)
  obtain e1 s1 where d: "do_cmd x cUNWATCH (clearCVLHint [] s) = (e1, s1)" by (metis surj_pair)
  have "content (world s1) = content (world s)"
    using d redis_serverD(3)[OF assms(1), of "world s" "client_of (db (clearCVLHint [] s))"] h
    by (auto simp: do_cmd_def split: prod.splits sum.splits)
  then show ?thesis
    using a d h tx_close_content[OF assms(1)] by (auto simp: abortTx_def Let_def split: if_splits)
qed

lemma CommitTx_content:
  assumes "redis_server x content" "tx_server x content q" "CommitTx x s = (e, s')"
    and "\<not> IsSession (Opts (db s))" "in_tx (db s)"
  shows "e \<noteq> None \<Longrightarrow> content (world s') = content (world s)"
    "e = None \<Longrightarrow> \<not> is_mark k \<Longrightarrow>
       content (world s') k = fold (exec_tx (Opts (db s))) (txCmds (db s)) (content (world s)) k"
proof -
  obtain s1 where c: "commitTx x s = (e, s1)" "world s' = world s1"
    using assms(3,4) by (cases "commitTx x s") (auto simp: CommitTx_def clearCVLHint_def Let_def upd_db_def)
  show "e \<noteq> None \<Longrightarrow> content (world s') = content (world s)"
  proof (cases "db_err (db s)")
    case None
    then show "e \<noteq> None \<Longrightarrow> content (world s') = content (world s)"
      using commitTx_content(1)[OF assms(1,2,5) None c(1)] c(2) by simp
  next
    case (Some err)
    then have "s1 = tx_close x s" using c(1) by (auto simp: commitTx_def Let_def)
    then show "content (world s') = content (world s)" using c(2) tx_close_content[OF assms(1)] by simp
  qed
  show "content (world s') k = fold (exec_tx (Opts (db s))) (txCmds (db s)) (content (world s)) k"
    if "e = None" "\<not> is_mark k"
  proof -
    have "db_err (db s) = None" using c(1) that(1) by (auto simp: commitTx_def Let_def split: if_splits prod.splits)
    then show ?thesis using commitTx_content(2)[OF assms(1,2,5) _ c(1) that] c(2) by simp
  qed
qed

section \<open>Modules that work through the connection\<close>

definition reads_only :: "('w \<Rightarrow> string \<Rightarrow> fields) \<Rightarrow> 'w st \<Rightarrow> 'w st \<Rightarrow> bool" where
  "reads_only content s s' \<longleftrightarrow> tx_step content s s' \<and> keeps_conn s s' \<and>
     (blank_db (db s) \<longrightarrow> blank_db (db s'))"

definition works_in_tx :: "('w \<Rightarrow> string \<Rightarrow> fields) \<Rightarrow> 'w st \<Rightarrow> 'w st \<Rightarrow> bool" where
  "works_in_tx content s s' \<longleftrightarrow> tx_step content s s' \<and> conn_step s s'"

definition app_ok :: "('w \<Rightarrow> string \<Rightarrow> fields) \<Rightarrow> ('w, 'a, 'r, 'n, 'e) appInterface \<Rightarrow> bool" where
  "app_ok content ai \<longleftrightarrow>
     (\<forall>f \<in> {ai_translateCreate ai, ai_translateUpdate ai, ai_translateReplace ai, ai_translateDelete ai}.
        \<forall>a s. reads_only content s (snd (snd (f a s)))) \<and>
     (\<forall>f \<in> {ai_processCreate ai, ai_processUpdate ai, ai_processReplace ai, ai_processDelete ai}.
        \<forall>a s. in_tx (db s) \<longrightarrow> works_in_tx content s (snd (snd (f a s))))"

lemma app_ok_translate:
  assumes "app_ok content ai"
  shows "ai_translateCreate ai a s = (r, a', s') \<Longrightarrow> reads_only content s s'"
    "ai_translateUpdate ai a s = (r, a', s') \<Longrightarrow> reads_only content s s'"
    "ai_translateReplace ai a s = (r, a', s') \<Longrightarrow> reads_only content s s'"
    "ai_translateDelete ai a s = (r, a', s') \<Longrightarrow> reads_only content s s'"
proof -
  have "reads_only content s (snd (snd (f a s)))"
    if "f \<in> {ai_translateCreate ai, ai_translateUpdate ai, ai_translateReplace ai, ai_translateDelete ai}" for f
    using assms that unfolding app_ok_def by blast
  note all = this
  from all[of "ai_translateCreate ai"]
  show "ai_translateCreate ai a s = (r, a', s') \<Longrightarrow> reads_only content s s'" by simp
  from all[of "ai_translateUpdate ai"]
  show "ai_translateUpdate ai a s = (r, a', s') \<Longrightarrow> reads_only content s s'" by simp
  from all[of "ai_translateReplace ai"]
  show "ai_translateReplace ai a s = (r, a', s') \<Longrightarrow> reads_only content s s'" by simp
  from all[of "ai_translateDelete ai"]
  show "ai_translateDelete ai a s = (r, a', s') \<Longrightarrow> reads_only content s s'" by simp
qed

lemma app_ok_process:
  assumes "app_ok content ai" "in_tx (db s)"
  shows "ai_processCreate ai a s = (r, a', s') \<Longrightarrow> works_in_tx content s s'"
    "ai_processUpdate ai a s = (r, a', s') \<Longrightarrow> works_in_tx content s s'"
    "ai_processReplace ai a s = (r, a', s') \<Longrightarrow> works_in_tx content s s'"
    "ai_processDelete ai a s = (r, a', s') \<Longrightarrow> works_in_tx content s s'"
proof -
  have "works_in_tx content s (snd (snd (f a s)))"
    if "f \<in> {ai_processCreate ai, ai_processUpdate ai, ai_processReplace ai, ai_processDelete ai}" for f
    using assms that unfolding app_ok_def by blast
  note all = this
  from all[of "ai_processCreate ai"]
  show "ai_processCreate ai a s = (r, a', s') \<Longrightarrow> works_in_tx content s s'" by simp
  from all[of "ai_processUpdate ai"]
  show "ai_processUpdate ai a s = (r, a', s') \<Longrightarrow> works_in_tx content s s'" by simp
  from all[of "ai_processReplace ai"]
  show "ai_processReplace ai a s = (r, a', s') \<Longrightarrow> works_in_tx content s s'" by simp
  from all[of "ai_processDelete ai"]
  show "ai_processDelete ai a s = (r, a', s') \<Longrightarrow> works_in_tx content s s'" by simp
qed

section \<open>One transaction of a request\<close>

text \<open>
  What a successful request leaves in the database: the commands that its module queued in a
  transaction on the old content, which is also what the module saw at its end.
\<close>

definition published ::
  "('w \<Rightarrow> string \<Rightarrow> fields) \<Rightarrow> ('a \<Rightarrow> 'w st \<Rightarrow> (SetResponse \<times> goerr option) \<times> 'a \<times> 'w st) \<Rightarrow>
     (string \<Rightarrow> fields) \<Rightarrow> SetResponse \<Rightarrow> 'w st \<Rightarrow> bool" where
  "published content process base resp s' \<longleftrightarrow>
     (\<exists>s2 s3 a1 a2. in_tx (db s2) \<and> process a1 s2 = ((resp, None), a2, s3) \<and> tview content s2 = (\<lambda>t. base) \<and>
        tview content s3 = fold (tsem (Opts (db s3))) (txCmds (db s3)) (\<lambda>t. base) \<and>
        (\<forall>k. \<not> is_mark k \<longrightarrow> content (world s') k = fold (exec_tx (Opts (db s3))) (txCmds (db s3)) base k))"

lemma set_tx_content:
  assumes "redis_server x content" "tx_server x content q" "blank_db (db s)"
    and tr: "\<And>a s r a' s'. translate a s = (r, a', s') \<Longrightarrow> reads_only content s s'"
    and pr: "\<And>a s r a' s'. process a s = (r, a', s') \<Longrightarrow> in_tx (db s) \<Longrightarrow> works_in_tx content s s'"
    and run: "set_tx x translate process app tables s = Ret ((resp, e), s')"
  shows "if e = None then published content process (content (world s)) resp s'
    else content (world s') = content (world s)"
proof -
  obtain keys e1 app1 s1 where t: "translate app s = ((keys, e1), app1, s1)" by (metis surj_pair)
  have c1: "content (world s1) = content (world s)" "blank_db (db s1)"
    using tr[OF t] assms(3) by (auto simp: reads_only_def tx_step_def)
  show ?thesis
  proof (cases e1)
    case (Some err)
    then show ?thesis using run t c1 by (auto simp: set_tx_def)
  next
    case n1: None
    then obtain e2 s2 where st: "StartTx x keys tables s1 = Some (e2, s2)"
      using run t by (auto simp: set_tx_def split: option.splits)
    note ok2 = StartTx_ok[OF assms(1) st c1(2)]
    show ?thesis
    proof (cases e2)
      case (Some err)
      then show ?thesis using run t n1 st ok2(1) c1 by (auto simp: set_tx_def)
    next
      case n2: None
      note ok2 = ok2(1) ok2(2)[OF n2]
      obtain resp3 e3 app2 s3 where p: "process app1 s2 = ((resp3, e3), app2, s3)" by (metis surj_pair)
      have w: "works_in_tx content s2 s3" using pr[OF p] ok2 by blast
      have v2: "tview content s2 = (\<lambda>t. content (world s))"
        using ok2 c1 by (simp add: tview_def view_of_empty)
      have f3: "content (world s3) = content (world s)" "Opts (db s3) = Opts (db s2)" "in_tx (db s3)"
        "tview content s3 = fold (tsem (Opts (db s3))) (txCmds (db s3)) (\<lambda>t. content (world s))"
        using w ok2 c1 v2 by (auto simp: works_in_tx_def tx_step_def)
      have ns: "\<not> IsSession (Opts (db s3))" using f3 ok2 c1 by (simp add: blank_db_def)
      show ?thesis
      proof (cases e3)
        case (Some err)
        then obtain e4 s4 where a: "AbortTx x s3 = Some (e4, s4)"
          using run t n1 st n2 p by (auto simp: set_tx_def split: option.splits)
        then show ?thesis
          using run t n1 st n2 p Some AbortTx_content[OF assms(1) a ns] f3 by (auto simp: set_tx_def)
      next
        case n3: None
        obtain e4 s4 where c: "CommitTx x s3 = (e4, s4)" by (metis surj_pair)
        note cc = CommitTx_content[OF assms(1,2) c ns f3(3)]
        have r: "s' = s4" "e = e4" "e = None \<Longrightarrow> resp = resp3"
          using run t n1 st n2 p n3 c by (auto simp: set_tx_def split: option.splits)
        show ?thesis
        proof (cases "e = None")
          case True
          then have "published content process (content (world s)) resp s'"
            unfolding published_def using p n3 r v2 f3 cc(2) ok2
            by (intro exI[of _ s2] exI[of _ s3] exI[of _ app1] exI[of _ app2]) simp
          then show ?thesis using True by simp
        qed (use r cc(1) f3 in auto)
      qed
    qed
  qed
qed

section \<open>A whole request\<close>

text \<open>How a request ends: before it opens the database, when it cannot open it, after its transaction.\<close>

lemma set_request_cases:
  assumes "set_request v name opcode payload opts translate process req s = Ret ((resp, e), s')"
  obtains (early) "s' = s" "e \<noteq> None"
  | (opened) err where "env_NewDB v ConfigDB [withForceNewRedisConnection] s = (Some err, s')" "e \<noteq> None"
  | (tx) s1 app tables s2 where "env_NewDB v ConfigDB [withForceNewRedisConnection] s = (None, s1)"
      "set_tx (te_db v) translate process app tables s1 = Ret ((resp, e), s2)" "s' = snd (DeleteDB (te_db v) s2)"
proof (cases "isAuthorizedForSet (sq_AuthEnabled req) (sq_User req)")
  case False
  then show thesis using assms early by (auto simp: set_request_def)
next
  case auth: True
  then obtain m where m: "getAppModule (te_app v) (te_versions v) (te_appMap v) (sq_Path req) (sq_ClientVersion req) = Ret m"
    using assms by (auto simp: set_request_def bind_Ret_iff)
  show thesis
  proof (cases m)
    case (Inl err)
    then show thesis using assms auth m early by (auto simp: set_request_def)
  next
    case (Inr b)
    obtain app aInfo where b: "b = (app, aInfo)" by (cases b)
    then obtain err app1 where i: "appInitialize (te_app v) (te_yg v) app aInfo (sq_Path req) payload opts opcode = Ret (err, app1)"
      using assms auth m Inr by (auto simp: set_request_def bind_Ret_iff)
    obtain e1 s1 where n: "env_NewDB v ConfigDB [withForceNewRedisConnection] s = (e1, s1)" by (metis surj_pair)
    show thesis
    proof (cases err)
      case (Some x)
      then show thesis using assms auth m Inr b i early by (auto simp: set_request_def)
    next
      case None
      show thesis
      proof (cases e1)
        case (Some x)
        then show thesis using assms auth m Inr b i None n opened by (auto simp: set_request_def)
      next
        case n1: None
        then obtain s2 where "set_tx (te_db v) translate process app1 (tablesToWatch aInfo) s1 = Ret ((resp, e), s2)"
          "s' = snd (DeleteDB (te_db v) s2)"
          using assms auth m Inr b i None n by (auto simp: set_request_def bind_Ret_iff)
        then show thesis using tx n n1 by blast
      qed
    qed
  qed
qed

lemma set_request_content:
  assumes "tl_server (te_db v) content q"
    and tr: "\<And>a s r a' s'. translate a s = (r, a', s') \<Longrightarrow> reads_only content s s'"
    and pr: "\<And>a s r a' s'. process a s = (r, a', s') \<Longrightarrow> in_tx (db s) \<Longrightarrow> works_in_tx content s s'"
    and run: "set_request v name opcode payload opts translate process req s = Ret ((resp, e), s')"
  shows "if e = None then published content process (content (world s)) resp s'
    else content (world s') = content (world s)"
proof -
  note x = tl_serverD[OF assms(1)]
  note del = DeleteDB_content_tl[OF assms(1)]
  from run show ?thesis
  proof (cases rule: set_request_cases)
    case early
    then show ?thesis by auto
  next
    case opened
    then show ?thesis using env_NewDB_ok(1)[of v content s] x by auto
  next
    case (tx s1 app tables s2)
    have n: "content (world s1) = content (world s)" "blank_db (db s1)"
      using env_NewDB_ok[OF conjunct1[OF x] tx(1)] by simp_all
    have "if e = None then published content process (content (world s1)) resp s2
      else content (world s2) = content (world s1)"
      by (rule set_tx_content[OF conjunct1[OF x] conjunct2[OF x] n(2) tr pr tx(2)])
    then show ?thesis using n del[of s2] tx(3) by (auto simp: published_def split: if_splits)
  qed
qed

section \<open>The lock\<close>

lemma set_tx_conn:
  assumes tr: "\<And>a s r a' s'. translate a s = (r, a', s') \<Longrightarrow> reads_only content s s'"
    and pr: "\<And>a s r a' s'. process a s = (r, a', s') \<Longrightarrow> in_tx (db s) \<Longrightarrow> works_in_tx content s s'"
    and srv: "redis_server x content" and bl: "blank_db (db s)"
    and run: "set_tx x translate process app tables s = Ret ((resp, e), s')"
  shows "conn_step s s'"
proof -
  obtain keys e1 app1 s1 where t: "translate app s = ((keys, e1), app1, s1)" by (metis surj_pair)
  have k1: "conn_step s s1" "blank_db (db s1)"
    using tr[OF t] bl keeps_conn_step by (auto simp: reads_only_def)
  show ?thesis
  proof (cases e1)
    case (Some err)
    then show ?thesis using run t k1 by (auto simp: set_tx_def)
  next
    case n1: None
    then obtain e2 s2 where st: "StartTx x keys tables s1 = Some (e2, s2)"
      using run t by (auto simp: set_tx_def split: option.splits)
    have k2: "conn_step s s2"
      by (rule conn_step_trans[OF k1(1) keeps_conn_step[OF StartTx_keeps[OF st]]])
    show ?thesis
    proof (cases e2)
      case (Some err)
      then show ?thesis using run t n1 st k2 by (auto simp: set_tx_def)
    next
      case n2: None
      obtain resp3 e3 app2 s3 where p: "process app1 s2 = ((resp3, e3), app2, s3)" by (metis surj_pair)
      have k3: "conn_step s s3"
        using pr[OF p] StartTx_ok(2)[OF srv st k1(2) n2] conn_step_trans[OF k2] by (auto simp: works_in_tx_def)
      show ?thesis
      proof (cases e3)
        case (Some err)
        then obtain e4 s4 where a: "AbortTx x s3 = Some (e4, s4)"
          using run t n1 st n2 p by (auto simp: set_tx_def split: option.splits)
        then show ?thesis
          using run t n1 st n2 p Some conn_step_trans[OF k3 keeps_conn_step[OF AbortTx_keeps[OF a]]]
          by (auto simp: set_tx_def)
      next
        case n3: None
        obtain e4 s4 where c: "CommitTx x s3 = (e4, s4)" by (metis surj_pair)
        have "conn_step s s4" using conn_step_trans[OF k3 keeps_conn_step] CommitTx_keeps[of s3 x] c by simp
        moreover have "s' = s4" using run t n1 st n2 p n3 c by (auto simp: set_tx_def split: option.splits)
        ultimately show ?thesis by simp
      qed
    qed
  qed
qed

text \<open>Opening, working and closing leave the lock as it was.\<close>

lemma lock_round:
  assumes "env_NewDB v ConfigDB [withForceNewRedisConnection] s = (None, s1)" "conn_step s1 s2"
  shows "cdbLock (snd (DeleteDB (te_db v) s2)) = cdbLock s"
  using NewDB_lock[OF assms(1)[unfolded env_NewDB_def]] assms(2) DeleteDB_lock(1)[of "te_db v" s2]
  by (auto simp: conn_step_def split: if_splits)

lemma set_request_lock:
  assumes srv: "redis_server (te_db v) content"
    and tr: "\<And>a s r a' s'. translate a s = (r, a', s') \<Longrightarrow> reads_only content s s'"
    and pr: "\<And>a s r a' s'. process a s = (r, a', s') \<Longrightarrow> in_tx (db s) \<Longrightarrow> works_in_tx content s s'"
    and run: "set_request v name opcode payload opts translate process req s = Ret ((resp, e), s')"
  shows "cdbLock s' = cdbLock s"
  using run
proof (cases rule: set_request_cases)
  case (opened err)
  have "configDBLocked (db s') = False"
    using opened(1) by (auto simp: env_NewDB_def NewDB_def newDB_checks_def newDB_configdb_def request_opts Let_def
        newDB_object_def close_client_def upd_db_def lock_op_def split: prod.splits if_splits option.splits)
  then show ?thesis using NewDB_lock[OF opened(1)[unfolded env_NewDB_def]] by simp
next
  case (tx s1 app tables s2)
  have "blank_db (db s1)" using env_NewDB_ok(2)[OF srv tx(1)] by simp
  then show ?thesis
    using lock_round[OF tx(1) set_tx_conn[OF tr pr srv _ tx(2)]] tx(3) by simp
qed simp

section \<open>Bulk requests\<close>

lemma reads_only_refl [simp]: "reads_only content s s"
  by (simp add: reads_only_def)

lemma reads_only_trans: "reads_only content s s1 \<Longrightarrow> reads_only content s1 s2 \<Longrightarrow> reads_only content s s2"
  unfolding reads_only_def using tx_step_trans keeps_conn_trans by blast

lemma works_in_tx_refl [simp]: "works_in_tx content s s"
  by (simp add: works_in_tx_def)

lemma works_in_tx_trans: "works_in_tx content s s1 \<Longrightarrow> works_in_tx content s1 s2 \<Longrightarrow> works_in_tx content s s2"
  unfolding works_in_tx_def using tx_step_trans conn_step_trans by blast

lemma reads_works: "reads_only content s s' \<Longrightarrow> works_in_tx content s s'"
  by (simp add: reads_only_def works_in_tx_def keeps_conn_step)

lemma works_in_tx_state: "works_in_tx content s s' \<Longrightarrow> in_tx (db s) \<Longrightarrow> in_tx (db s')"
  by (simp add: works_in_tx_def tx_step_def)

lemma AppendWatchTx_works:
  assumes "redis_server x content" "AppendWatchTx x w tss s = Some (e, s')" "in_tx (db s)"
  shows "works_in_tx content s s'"
proof -
  have "performWatch x w tss s = Some (e, s')"
    using assms(2,3) by (auto simp: AppendWatchTx_def in_tx_def split: if_splits)
  then show ?thesis
    using AppendWatchTx_step(1)[OF assms] keeps_conn_step[OF performWatch_keeps] by (simp add: works_in_tx_def)
qed

lemma bulk_replace_ok:
  assumes "app_ok content (te_app v)" "bulk_replace v en aInfo app s = Ret ((r, app1, s1))"
  shows "reads_only content s s1"
  using assms(2) by (auto simp: bulk_replace_def bind_Ret_iff split: option.splits dest: app_ok_translate[OF assms(1)])

lemma bulk_translate_ok:
  assumes "app_ok content (te_app v)" "bulk_translate v en aInfo app s = Ret (r, app1, s1)"
  shows "reads_only content s s1"
proof -
  obtain r1 a1 t1 where d: "ai_translateDelete (te_app v) app s = (r1, a1, t1)" by (metis surj_pair)
  obtain r2 a2 t2 where p: "ai_translateReplace (te_app v) app s = (r2, a2, t2)" by (metis surj_pair)
  obtain r3 a3 t3 where u: "ai_translateUpdate (te_app v) app s = (r3, a3, t3)" by (metis surj_pair)
  obtain r4 a4 t4 where c: "ai_translateCreate (te_app v) app s = (r4, a4, t4)" by (metis surj_pair)
  have ro: "reads_only content s t1" "reads_only content s t2" "reads_only content s t3" "reads_only content s t4"
    using app_ok_translate[OF assms(1)] d p u c by simp_all
  have "s1 = s \<or> s1 = t1 \<or> s1 = t2 \<or> s1 = t3 \<or> s1 = t4 \<or>
      (\<exists>r' a'. bulk_replace v en aInfo a3 t3 = Ret (r', a', s1))"
    using assms(2) d p u c
    by (cases r1; cases r2; cases r3; cases r4) (auto simp: bulk_translate_def bind_Ret_iff Let_def split: if_splits)
  then show ?thesis using ro reads_only_trans[OF ro(3) bulk_replace_ok[OF assms(1)]] by auto
qed

lemma bulk_end_state: "bulk_end r = Ret (b, s') \<Longrightarrow> s' = snd (snd r)"
  by (auto simp: bulk_end_def split: prod.splits)

lemma bulk_process_ok:
  assumes "app_ok content (te_app v)" "redis_server (te_db v) content" "in_tx (db s)"
    and "bulk_process v en aInfo oper appResp app s = Ret (b, s')"
  shows "works_in_tx content s s'"
proof -
  obtain r1 e1 a1 t1 where d: "ai_processDelete (te_app v) app s = ((r1, e1), a1, t1)" by (metis surj_pair)
  obtain r2 e2 a2 t2 where p: "ai_processReplace (te_app v) app s = ((r2, e2), a2, t2)" by (metis surj_pair)
  obtain r3 e3 a3 t3 where u: "ai_processUpdate (te_app v) app s = ((r3, e3), a3, t3)" by (metis surj_pair)
  obtain r4 e4 a4 t4 where c: "ai_processCreate (te_app v) app s = ((r4, e4), a4, t4)" by (metis surj_pair)
  have w: "works_in_tx content s t1" "works_in_tx content s t2" "works_in_tx content s t3" "works_in_tx content s t4"
    using app_ok_process[OF assms(1,3)] d p u c by simp_all
  consider (one) "s' \<in> {s, t1, t2, t3, t4}"
    | (fb) keys err2 app2 s2 where "bulk_replace v en aInfo a3 t3 = Ret ((keys, err2), app2, s2)"
        "s' = s2 \<or> (\<exists>e s3. AppendWatchTx (te_db v) keys (tablesToWatch aInfo) s2 = Some (e, s3) \<and>
           (s' = s3 \<or> s' = snd (snd (ai_processReplace (te_app v) app2 s3))))"
  proof (cases "oper = op_UPDATE \<and> oper \<noteq> op_DELETE \<and> oper \<noteq> op_REPLACE \<and> e3 \<noteq> None \<and> isBulkNotFoundError e3")
    case True
    then obtain keys err2 app2 s2 where b: "bulk_replace v en aInfo a3 t3 = Ret ((keys, err2), app2, s2)"
      "(case err2 of Some e \<Rightarrow> Ret (BFail r3 AppErr e, s2)
         | None \<Rightarrow> (case AppendWatchTx (te_db v) keys (tablesToWatch aInfo) s2 of
              None \<Rightarrow> Panics | Some (Some e, s3) \<Rightarrow> Ret (BFail r3 AppErr e, s3)
            | Some (None, s3) \<Rightarrow> bulk_end (ai_processReplace (te_app v) app2 s3))) = Ret (b, s')"
      using assms(4) u by (auto simp: bulk_process_def bind_Ret_iff Let_def)
    show ?thesis
    proof (rule fb[OF b(1)], cases err2)
      case None
      then show "s' = s2 \<or> (\<exists>e s3. AppendWatchTx (te_db v) keys (tablesToWatch aInfo) s2 = Some (e, s3) \<and>
           (s' = s3 \<or> s' = snd (snd (ai_processReplace (te_app v) app2 s3))))"
        using b(2) by (auto split: option.splits dest: bulk_end_state)
    qed (use b(2) in auto)
  next
    case False
    then show ?thesis
      using assms(4) d p u c one
      by (auto simp: bulk_process_def Let_def split: if_splits dest: bulk_end_state)
  qed
  then show ?thesis
  proof cases
    case one
    then show ?thesis using w by auto
  next
    case (fb keys err2 app2 s2)
    have w2: "works_in_tx content s s2"
      by (rule works_in_tx_trans[OF w(3) reads_works[OF bulk_replace_ok[OF assms(1) fb(1)]]])
    have w3: "works_in_tx content s s3" if "AppendWatchTx (te_db v) keys (tablesToWatch aInfo) s2 = Some (e, s3)" for e s3
      by (rule works_in_tx_trans[OF w2 AppendWatchTx_works[OF assms(2) that works_in_tx_state[OF w2 assms(3)]]])
    have "works_in_tx content s (snd (snd (ai_processReplace (te_app v) app2 s3)))"
      if "works_in_tx content s s3" for s3
      using works_in_tx_trans[OF that] app_ok_process(3)[OF assms(1) works_in_tx_state[OF that assms(3)]]
      by (metis prod.collapse)
    then show ?thesis using fb(2) w2 w3 by blast
  qed
qed

lemma bulk_entry_ok:
  assumes "app_ok content (te_app v)" "redis_server (te_db v) content" "in_tx (db s)"
    and "bulk_entry v en appResp s = Ret (b, s')"
  shows "works_in_tx content s s'"
proof -
  let ?req = "be_Entry en"
  obtain m where m: "getAppModule (te_app v) (te_versions v) (te_appMap v) (sq_Path ?req) (sq_ClientVersion ?req) = Ret m"
    using assms(4) by (auto simp: bulk_entry_def Let_def bind_Ret_iff)
  show ?thesis
  proof (cases m)
    case (Inl e)
    then show ?thesis using assms(4) m by (auto simp: bulk_entry_def Let_def)
  next
    case (Inr p)
    obtain app aInfo where p: "p = (app, aInfo)" by (cases p)
    let ?init = "if be_Operation en = op_DELETE then
        appInitialize (te_app v) (te_yg v) app aInfo (sq_Path ?req) None
          (Some (zeroAppOptions\<lparr>ao_deleteEmptyEntry := sq_DeleteEmptyEntry ?req\<rparr>)) (be_Operation en)
      else appInitialize (te_app v) (te_yg v) app aInfo (sq_Path ?req) (Some (sq_Payload ?req)) None (be_Operation en)"
    obtain err app1 where i: "?init = Ret (err, app1)"
      using assms(4) m Inr p by (auto simp: bulk_entry_def Let_def bind_Ret_iff)
    show ?thesis
    proof (cases err)
      case (Some e)
      then show ?thesis using assms(4) m Inr p i by (simp add: bulk_entry_def Let_def)
    next
      case e0: None
      then obtain oper keys err2 app2 s1 where t: "bulk_translate v en aInfo app1 s = Ret ((oper, keys, err2), app2, s1)"
        "(case oper of None \<Rightarrow> Ret (BDone (appResp\<lparr>sr_Err := None\<rparr>), s1)
          | Some oper \<Rightarrow> (case err2 of Some e \<Rightarrow> Ret (BFail appResp AppErr e, s1)
              | None \<Rightarrow> (case AppendWatchTx (te_db v) keys (tablesToWatch aInfo) s1 of
                   None \<Rightarrow> Panics
                 | Some (Some e, s2) \<Rightarrow> Ret (BFail appResp AppErr e, s2)
                 | Some (None, s2) \<Rightarrow> bulk_process v en aInfo oper appResp app2 s2))) = Ret (b, s')"
        using assms(4) m Inr p i by (auto simp: bulk_entry_def Let_def bind_Ret_iff)
      have w1: "works_in_tx content s s1" by (rule reads_works[OF bulk_translate_ok[OF assms(1) t(1)]])
      note st1 = works_in_tx_state[OF w1 assms(3)]
      show ?thesis
      proof (cases "oper = None \<or> err2 \<noteq> None")
        case True
        then show ?thesis using t(2) w1 by (auto split: option.splits)
      next
        case False
        then obtain o' where o: "oper = Some o'" "err2 = None" by auto
        then obtain e2 s2 where a: "AppendWatchTx (te_db v) keys (tablesToWatch aInfo) s1 = Some (e2, s2)"
          using t(2) by (auto split: option.splits)
        have w2: "works_in_tx content s s2"
          by (rule works_in_tx_trans[OF w1 AppendWatchTx_works[OF assms(2) a st1]])
        show ?thesis
        proof (cases e2)
          case None
          then have "bulk_process v en aInfo o' appResp app2 s2 = Ret (b, s')" using t(2) o a by simp
          then show ?thesis
            using works_in_tx_trans[OF w2 bulk_process_ok[OF assms(1,2) works_in_tx_state[OF w2 assms(3)]]] by blast
        qed (use t(2) o a w2 in auto)
      qed
    qed
  qed
qed

text \<open>The transaction of a bulk request: one for all entries.\<close>

definition bulk_published :: "('w \<Rightarrow> string \<Rightarrow> fields) \<Rightarrow> 'w st \<Rightarrow> 'w st \<Rightarrow> bool" where
  "bulk_published content s s' \<longleftrightarrow>
     (\<exists>s3. works_in_tx content s s3 \<and>
        (\<forall>k. \<not> is_mark k \<longrightarrow>
           content (world s') k = fold (exec_tx (Opts (db s3))) (txCmds (db s3)) (content (world s)) k))"

definition bulk_replies :: "BulkRequestEntry list \<Rightarrow> BulkResponseEntry list \<Rightarrow> bool" where
  "bulk_replies ens rs \<longleftrightarrow> length rs \<le> length ens \<and> map br_Operation rs = map be_Operation (take (length rs) ens)"

lemma bulk_loop_ok:
  assumes "app_ok content (te_app v)" "redis_server (te_db v) content" "tx_server (te_db v) content q"
    and "bulk_loop v ens appResp resp s = Ret ((resp', e), s')"
    and "in_tx (db s)" "\<not> IsSession (Opts (db s))"
  shows "(if e = None then bulk_published content s s' else content (world s') = content (world s)) \<and>
    conn_step s s' \<and> (\<exists>rs. resp' = resp @ rs \<and> bulk_replies ens rs \<and> (e = None \<longrightarrow> length rs = length ens))"
  using assms(4-6)
proof (induction ens arbitrary: appResp resp s)
  case Nil
  then have c: "CommitTx (te_db v) s = (e, s')" "resp' = resp"
    by (auto split: prod.splits)
  note cc = CommitTx_content[OF assms(2,3) c(1) Nil(3,2)]
  have "e = None \<Longrightarrow> bulk_published content s s'"
    unfolding bulk_published_def using cc(2) by (intro exI[of _ s]) simp
  then show ?case
    using cc(1) c keeps_conn_step[OF CommitTx_keeps[of s "te_db v"]] by (auto simp: bulk_replies_def)
next
  case (Cons en ens)
  obtain b s1 where en: "bulk_entry v en appResp s = Ret (b, s1)"
    using Cons.prems(1) by (auto simp: bind_Ret_iff)
  have w: "works_in_tx content s s1" by (rule bulk_entry_ok[OF assms(1,2) Cons.prems(2) en])
  have s1: "in_tx (db s1)" "\<not> IsSession (Opts (db s1))" "content (world s1) = content (world s)" "conn_step s s1"
    using w Cons.prems by (auto simp: works_in_tx_def tx_step_def)
  show ?case
  proof (cases b)
    case (BDone appResp1)
    let ?r = "\<lparr>br_Entry = appResp1, br_Operation = be_Operation en\<rparr>"
    have "bulk_loop v ens appResp1 (resp @ [?r]) s1 = Ret ((resp', e), s')"
      using Cons.prems(1) en BDone by simp
    note ih = Cons.IH[OF this s1(1,2)]
    then obtain rs where rs: "resp' = (resp @ [?r]) @ rs" "bulk_replies ens rs" "e = None \<longrightarrow> length rs = length ens" by blast
    have "bulk_published content s s'" if "bulk_published content s1 s'"
      using that works_in_tx_trans[OF w] s1(3) by (auto simp: bulk_published_def)
    moreover have "bulk_replies (en # ens) (?r # rs)" using rs(2) by (simp add: bulk_replies_def)
    moreover have "resp' = resp @ (?r # rs)" using rs(1) by simp
    ultimately show ?thesis
      using ih conn_step_trans[OF s1(4)] s1(3) rs(3) by (metis length_Cons)
  next
    case (BFail appResp1 src err)
    let ?r = "\<lparr>br_Entry = appResp1\<lparr>sr_ErrSrc := src, sr_Err := Some err\<rparr>, br_Operation = be_Operation en\<rparr>"
    obtain e2 where a: "AbortTx (te_db v) s1 = Some (e2, s')" "resp' = resp @ [?r]" "e = Some err"
      using Cons.prems(1) en BFail by (auto split: option.splits)
    have "content (world s') = content (world s)" using AbortTx_content[OF assms(2) a(1) s1(2)] s1(3) by simp
    moreover have "conn_step s s'" by (rule conn_step_trans[OF s1(4) keeps_conn_step[OF AbortTx_keeps[OF a(1)]]])
    moreover have "bulk_replies (en # ens) [?r]" by (simp add: bulk_replies_def)
    ultimately show ?thesis using a by auto
  qed
qed

lemma tl_Bulk_ok:
  assumes "app_ok content (te_app v)" "tl_server (te_db v) content q"
    and "tl_Bulk v req s = Ret ((resp, e), s')"
  shows "(e \<noteq> None \<longrightarrow> content (world s') = content (world s)) \<and> cdbLock s' = cdbLock s \<and>
    bulk_replies (bq_Request req) resp \<and>
    (e = None \<longrightarrow> length resp = length (bq_Request req) \<and>
      (\<exists>s2. content (world s2) = content (world s) \<and> in_tx (db s2) \<and> txCmds (db s2) = [] \<and>
         txTsEntryMap (db s2) = [] \<and> bulk_published content s2 s'))"
proof (cases "isAuthorizedForBulk (bq_AuthEnabled req) (bq_User req)")
  case False
  then show ?thesis using assms(3) by (auto simp: tl_Bulk_def bulk_replies_def)
next
  case auth: True
  note x = tl_serverD[OF assms(2)]
  note del = DeleteDB_content_tl[OF assms(2)]
  obtain e1 s1 where n: "env_NewDB v ConfigDB [withForceNewRedisConnection] s = (e1, s1)" by (metis surj_pair)
  note nok = env_NewDB_ok[OF conjunct1[OF x] n]
  show ?thesis
  proof (cases e1)
    case (Some err)
    have "configDBLocked (db s1) = False"
      using n Some by (auto simp: env_NewDB_def NewDB_def newDB_checks_def newDB_configdb_def request_opts Let_def
        newDB_object_def close_client_def upd_db_def lock_op_def split: prod.splits if_splits option.splits)
    then show ?thesis using NewDB_lock[OF n[unfolded env_NewDB_def]] assms(3) auth n Some nok(1)
      by (auto simp: tl_Bulk_def bulk_replies_def)
  next
    case n1: None
    then obtain e2 s2 where st: "StartTx (te_db v) [] [] s1 = Some (e2, s2)"
      using assms(3) auth n by (auto simp: tl_Bulk_def split: option.splits)
    note sok = StartTx_ok[OF conjunct1[OF x] st nok(2)[OF n1]]
    have k: "conn_step s1 s2" by (rule keeps_conn_step[OF StartTx_keeps[OF st]])
    show ?thesis
    proof (cases e2)
      case (Some err)
      then have "s' = snd (DeleteDB (te_db v) s2)" "e = Some err" "resp = []"
        using assms(3) auth n n1 st by (auto simp: tl_Bulk_def)
      then show ?thesis
        using lock_round[OF n[unfolded n1] k] del[of s2] sok(1) nok(1) by (simp add: bulk_replies_def)
    next
      case n2: None
      note sok = sok(1) sok(2)[OF n2]
      obtain s3 where b: "bulk_loop v (bq_Request req) zeroSetResponse [] s2 = Ret ((resp, e), s3)"
        "s' = snd (DeleteDB (te_db v) s3)"
        using assms(3) auth n n1 st n2 by (auto simp: tl_Bulk_def bind_Ret_iff)
      have ns: "\<not> IsSession (Opts (db s2))" using sok nok(2)[OF n1] by (simp add: blank_db_def)
      note ok = bulk_loop_ok[OF assms(1) conjunct1[OF x] conjunct2[OF x] b(1) _ ns]
      have c: "content (world s') = content (world s3)" using del[of s3] b(2) by simp
      have l: "cdbLock s' = cdbLock s"
        using lock_round[OF n[unfolded n1] conn_step_trans[OF k]] ok sok b(2) by blast
      have "bulk_published content s2 s'" if "bulk_published content s2 s3"
        using that c by (auto simp: bulk_published_def)
      then show ?thesis using ok sok nok(1) c l by (auto split: if_splits)
    qed
  qed
qed

text \<open>What a successful bulk request publishes is what the last module saw.\<close>

lemma bulk_published_view:
  assumes "bulk_published content s2 s'" "txCmds (db s2) = []" "txTsEntryMap (db s2) = []"
  shows "\<exists>s3. works_in_tx content s2 s3 \<and>
    tview content s3 = fold (tsem (Opts (db s3))) (txCmds (db s3)) (\<lambda>t. content (world s2)) \<and>
    (\<forall>k. \<not> is_mark k \<longrightarrow> content (world s') k = fold (exec_tx (Opts (db s3))) (txCmds (db s3)) (content (world s2)) k)"
proof -
  have "tview content s2 = (\<lambda>t. content (world s2))" using assms(3) by (simp add: tview_def view_of_empty)
  then show ?thesis using assms(1,2) by (auto simp: bulk_published_def works_in_tx_def tx_step_def)
qed

section \<open>All requests\<close>

text \<open>
  What was published is the module's view of the rows that only one table's commands name.
\<close>

definition shows_view :: "('w \<Rightarrow> string \<Rightarrow> fields) \<Rightarrow> 'w st \<Rightarrow> 'w st \<Rightarrow> bool" where
  "shows_view content s s' \<longleftrightarrow>
     (\<forall>t k. \<not> is_mark k \<and> (\<forall>c \<in> set (txCmds (db s)). cmd_rk (Opts (db s)) c = k \<longrightarrow> tsName (tc_ts c) = t) \<longrightarrow>
        content (world s') k = tview content s t k)"

lemma shows_viewI:
  assumes "tview content s = fold (tsem (Opts (db s))) (txCmds (db s)) (\<lambda>t. base)"
    and "\<forall>k. \<not> is_mark k \<longrightarrow> content (world s') k = fold (exec_tx (Opts (db s))) (txCmds (db s)) base k"
  shows "shows_view content s s'"
  unfolding shows_view_def
proof (intro allI impI, elim conjE)
  fix t k
  assume k: "\<not> is_mark k" "\<forall>c \<in> set (txCmds (db s)). cmd_rk (Opts (db s)) c = k \<longrightarrow> tsName (tc_ts c) = t"
  show "content (world s') k = tview content s t k"
    using assms k(1) fold_tsem[OF k(2), of "\<lambda>t. base" base] by simp
qed

lemma published_view:
  assumes "published content process base resp s'"
  shows "\<exists>a s1 a' s2. process a s1 = ((resp, None), a', s2) \<and> tview content s1 = (\<lambda>t. base) \<and> shows_view content s2 s'"
  using assms shows_viewI unfolding published_def by blast

lemma set_request_ok:
  assumes srv: "tl_server (te_db v) content q"
    and tr: "\<And>a s r a' s'. translate a s = (r, a', s') \<Longrightarrow> reads_only content s s'"
    and pr: "\<And>a s r a' s'. process a s = (r, a', s') \<Longrightarrow> in_tx (db s) \<Longrightarrow> works_in_tx content s s'"
    and run: "set_request v name opcode payload opts translate process req s = Ret ((resp, e), s')"
  shows "cdbLock s' = cdbLock s \<and> (if e = None then published content process (content (world s)) resp s'
    else content (world s') = content (world s))"
  by (rule conjI[OF set_request_lock[OF conjunct1[OF tl_serverD[OF srv]] tr pr run] set_request_content[OF srv tr pr run]])

text \<open>The four requests, with the method of the module that each of them runs.\<close>

lemma write_requests:
  assumes srv: "tl_server (te_db v) content q" and app: "app_ok content (te_app v)"
  shows "tl_Create v req s = Ret ((resp, e), s') \<Longrightarrow>
      cdbLock s' = cdbLock s \<and> (if e = None then published content (ai_processCreate (te_app v)) (content (world s)) resp s'
      else content (world s') = content (world s))"
    "tl_Update v req s = Ret ((resp, e), s') \<Longrightarrow>
      cdbLock s' = cdbLock s \<and> (if e = None then published content (ai_processUpdate (te_app v)) (content (world s)) resp s'
      else content (world s') = content (world s))"
    "tl_Replace v req s = Ret ((resp, e), s') \<Longrightarrow>
      cdbLock s' = cdbLock s \<and> (if e = None then published content (ai_processReplace (te_app v)) (content (world s)) resp s'
      else content (world s') = content (world s))"
    "tl_Delete v req s = Ret ((resp, e), s') \<Longrightarrow>
      cdbLock s' = cdbLock s \<and> (if e = None then published content (ai_processDelete (te_app v)) (content (world s)) resp s'
      else content (world s') = content (world s))"
proof -
  note t = app_ok_translate[OF app] and p = app_ok_process[OF app]
  show "cdbLock s' = cdbLock s \<and> (if e = None then published content (ai_processCreate (te_app v)) (content (world s)) resp s'
      else content (world s') = content (world s))" if run: "tl_Create v req s = Ret ((resp, e), s')"
    by (rule set_request_ok[OF srv t(1) p(1) run[unfolded tl_Create_def]])
  show "cdbLock s' = cdbLock s \<and> (if e = None then published content (ai_processUpdate (te_app v)) (content (world s)) resp s'
      else content (world s') = content (world s))" if run: "tl_Update v req s = Ret ((resp, e), s')"
    by (rule set_request_ok[OF srv t(2) p(2) run[unfolded tl_Update_def]])
  show "cdbLock s' = cdbLock s \<and> (if e = None then published content (ai_processReplace (te_app v)) (content (world s)) resp s'
      else content (world s') = content (world s))" if run: "tl_Replace v req s = Ret ((resp, e), s')"
    by (rule set_request_ok[OF srv t(3) p(3) run[unfolded tl_Replace_def]])
  show "cdbLock s' = cdbLock s \<and> (if e = None then published content (ai_processDelete (te_app v)) (content (world s)) resp s'
      else content (world s') = content (world s))" if run: "tl_Delete v req s = Ret ((resp, e), s')"
    by (rule set_request_ok[OF srv t(4) p(4) run[unfolded tl_Delete_def]])
qed

end
