(* ===== verification/TL_PathProps.thy ===== *)
theory TL_PathProps
  imports TL_Path
begin

text \<open>
  What the path operations do: a template matches a set of paths, the string scans agree with
  the structured path that the string spells, a clone shares nothing with its original.
\<close>

section \<open>Templates\<close>

definition elem_ok :: "PathElem \<Rightarrow> bool" where
  "elem_ok e \<longleftrightarrow> gok (peKey e)"

text \<open>What \<open>Matches\<close> promises of one element, without loops.\<close>

definition elem_covers :: "PathElem \<Rightarrow> PathElem \<Rightarrow> bool" where
  "elem_covers t p \<longleftrightarrow>
     peName t = peName p \<and> set (gkeys (peKey t)) = set (gkeys (peKey p)) \<and>
     (\<forall>k v. gget (peKey t) k = Some v \<longrightarrow> v = ''*'' \<or> gget (peKey p) k = Some v)"

definition elem_concrete :: "PathElem \<Rightarrow> bool" where
  "elem_concrete e \<longleftrightarrow> (\<forall>k. gget (peKey e) k \<noteq> Some ''*'')"

lemma keys_match_iff:
  "gok tk \<Longrightarrow> keys_match tk pk \<longleftrightarrow>
     (\<forall>k v. gget tk k = Some v \<longrightarrow> gget pk k \<noteq> None \<and> (v = ''*'' \<or> gget pk k = Some v))"
proof (induction tk)
  case (Cons x tk)
  obtain k tv where x: "x = (k, tv)" by (cases x)
  have "gget tk k = None" using Cons.prems by (simp add: x in_gkeys)
  then show ?case using Cons by (auto simp: x split: option.split)
qed simp

lemma same_keys_iff:
  assumes "gok m" "gok m'"
  shows "length m = length m' \<and> set (gkeys m) \<subseteq> set (gkeys m') \<longleftrightarrow> set (gkeys m) = set (gkeys m')"
proof -
  have "card (set (gkeys m)) = length m" "card (set (gkeys m')) = length m'"
    using assms distinct_card[of "gkeys m"] distinct_card[of "gkeys m'"]
    by (simp_all add: gok_def) (simp_all add: gkeys_def)
  then show ?thesis by (metis List.finite_set card_subset_eq order_refl)
qed

lemma elem_matches_iff:
  assumes "elem_ok p" "elem_ok t"
  shows "elem_matches p t \<longleftrightarrow> elem_covers t p"
proof -
  have sub: "set (gkeys (peKey t)) \<subseteq> set (gkeys (peKey p)) \<longleftrightarrow>
      (\<forall>k v. gget (peKey t) k = Some v \<longrightarrow> gget (peKey p) k \<noteq> None)"
    by (auto simp: set_gkeys)
  show ?thesis
    using same_keys_iff[of "peKey t" "peKey p"] assms sub
    unfolding elem_matches_def elem_covers_def elem_ok_def
    by (simp add: keys_match_iff) blast
qed

lemma covers_refl: "elem_covers e e"
  by (simp add: elem_covers_def)

lemma covers_trans: "elem_covers t p \<Longrightarrow> elem_covers u t \<Longrightarrow> elem_covers u p"
  unfolding elem_covers_def by metis

text \<open>
  A wildcard stands for every value: an element is covered when all its concrete instances
  are.  The instance that shows the converse puts a value in place of the wildcards that
  does not occur in the template.
\<close>

definition instance_of :: "string \<Rightarrow> PathElem \<Rightarrow> PathElem" where
  "instance_of w e = e\<lparr>peKey := map (\<lambda>(k, v). (k, if v = ''*'' then w else v)) (peKey e)\<rparr>"

lemma gget_instance:
  "gget (peKey (instance_of w e)) k = map_option (\<lambda>v. if v = ''*'' then w else v) (gget (peKey e) k)"
proof -
  have "gget (map (\<lambda>(k, v). (k, if v = ''*'' then w else v)) m) k
      = map_option (\<lambda>v. if v = ''*'' then w else v) (gget m k)" for m :: "(string, string) gomap"
    by (induction m) auto
  then show ?thesis by (simp add: instance_of_def)
qed

lemma gkeys_instance [simp]: "gkeys (peKey (instance_of w e)) = gkeys (peKey e)"
  by (simp add: instance_of_def gkeys_def case_prod_unfold comp_def)

lemma instance_props:
  "elem_ok e \<Longrightarrow> elem_ok (instance_of w e)" "elem_covers e (instance_of w e)"
  "w \<noteq> ''*'' \<Longrightarrow> elem_concrete (instance_of w e)"
proof -
  show "elem_ok e \<Longrightarrow> elem_ok (instance_of w e)" by (simp add: elem_ok_def gok_def)
  show "elem_covers e (instance_of w e)"
    by (auto simp: elem_covers_def gget_instance) (simp add: instance_of_def)
  show "w \<noteq> ''*'' \<Longrightarrow> elem_concrete (instance_of w e)"
    by (auto simp: elem_concrete_def gget_instance)
qed

lemma instance_covered:
  assumes "elem_covers t (instance_of w e)" "w \<notin> set (map snd (peKey t))"
  shows "elem_covers t e"
proof -
  have "v = ''*'' \<or> gget (peKey e) k = Some v" if v: "gget (peKey t) k = Some v" for k v
  proof -
    have "v \<noteq> w" using assms(2) gget_in_set[OF v] by force
    moreover have "v = ''*'' \<or> gget (peKey (instance_of w e)) k = Some v"
      using assms(1) v by (auto simp: elem_covers_def)
    ultimately show ?thesis by (auto simp: gget_instance split: if_splits)
  qed
  moreover have "peName t = peName e" using assms(1) by (simp add: elem_covers_def instance_of_def)
  ultimately show ?thesis using assms(1) by (simp add: elem_covers_def)
qed

lemma fresh_value: "finite A \<Longrightarrow> \<exists>w :: string. w \<notin> A"
  using ex_new_if_finite infinite_UNIV_listI by blast

text \<open>Lists of elements: the template covers a prefix.\<close>

definition path_covers :: "PathElem list \<Rightarrow> PathElem list \<Rightarrow> bool" where
  "path_covers ts ps \<longleftrightarrow> length ts \<le> length ps \<and> (\<forall>i < length ts. elem_covers (ts ! i) (ps ! i))"

lemma path_covers_simps [simp]:
  "path_covers [] ps" "\<not> path_covers (t # ts) []"
  "path_covers (t # ts) (p # ps) \<longleftrightarrow> elem_covers t p \<and> path_covers ts ps"
  by (auto simp: path_covers_def less_Suc_eq_0_disj)

lemma elems_match_iff:
  "\<forall>e \<in> set ps \<union> set ts. elem_ok e \<Longrightarrow> elems_match ps ts \<longleftrightarrow> path_covers ts ps"
  by (induction ps ts rule: elems_match.induct) (auto simp: elem_matches_iff)

lemma path_covers_trans: "path_covers ts ps \<Longrightarrow> path_covers us ts \<Longrightarrow> path_covers us ps"
  unfolding path_covers_def by (meson covers_trans order_trans less_le_trans)

definition elems_concrete :: "PathElem list \<Rightarrow> bool" where
  "elems_concrete es \<longleftrightarrow> (\<forall>e \<in> set es. elem_concrete e)"

lemma path_covers_iff_concrete:
  assumes "\<forall>e \<in> set ps. elem_ok e"
  shows "path_covers ts ps \<longleftrightarrow>
    (\<forall>cs. (\<forall>e \<in> set cs. elem_ok e) \<and> elems_concrete cs \<and> path_covers ps cs \<longrightarrow> path_covers ts cs)"
    (is "?L \<longleftrightarrow> ?R")
proof
  assume ?L then show ?R using path_covers_trans by blast
next
  assume R: ?R
  obtain w where w: "w \<notin> insert ''*'' (set (concat (map (\<lambda>t. map snd (peKey t)) ts)))"
    using fresh_value[of "insert ''*'' (set (concat (map (\<lambda>t. map snd (peKey t)) ts)))"] by auto
  let ?cs = "map (instance_of w) ps"
  have "\<forall>e \<in> set ?cs. elem_ok e" "elems_concrete ?cs" "path_covers ps ?cs"
    using w assms instance_props by (auto simp: elems_concrete_def path_covers_def)
  then have C: "path_covers ts ?cs" using R by blast
  then have len: "length ts \<le> length ps" by (simp add: path_covers_def)
  have "elem_covers (ts ! i) (ps ! i)" if "i < length ts" for i
  proof (rule instance_covered)
    show "elem_covers (ts ! i) (instance_of w (ps ! i))"
      using C that len by (auto simp: path_covers_def)
    show "w \<notin> set (map snd (peKey (ts ! i)))" using w nth_mem[OF that] by auto
  qed
  then show ?L using len by (simp add: path_covers_def)
qed

section \<open>The text of a path\<close>

text \<open>
  The text of an element by the gNMI path conventions: keys in brackets, with a backslash in
  front of each backslash and closing bracket of a value.  Names hold no special character.
\<close>

definition specials :: "char set" where
  "specials = {bslash, CHR ''['', CHR '']'', CHR ''='', CHR ''/''}"

definition no_special :: "string \<Rightarrow> bool" where
  "no_special n \<longleftrightarrow> set n \<inter> specials = {}"

definition esc_char :: "char \<Rightarrow> string" where
  "esc_char c = (if c = bslash \<or> c = CHR '']'' then [bslash, c] else [c])"

definition esc :: "string \<Rightarrow> string" where
  "esc v = concat (map esc_char v)"

definition key_text :: "string \<times> string \<Rightarrow> string" where
  "key_text kv = CHR ''['' # fst kv @ CHR ''='' # esc (snd kv) @ [CHR '']'']"

definition elem_text :: "PathElem \<Rightarrow> string" where
  "elem_text e = peName e @ concat (map key_text (peKey e))"

definition path_text :: "PathElem list \<Rightarrow> string" where
  "path_text es = concat (map (\<lambda>e. CHR ''/'' # elem_text e) es)"

definition elem_plain :: "PathElem \<Rightarrow> bool" where
  "elem_plain e \<longleftrightarrow> peName e \<noteq> [] \<and> no_special (peName e) \<and> (\<forall>k \<in> set (gkeys (peKey e)). k \<noteq> [] \<and> no_special k)"

lemma esc_simps [simp]: "esc [] = []" "esc (c # v) = esc_char c @ esc v"
  by (simp_all add: esc_def)

lemma path_text_simps [simp]:
  "path_text [] = []" "path_text (e # es) = CHR ''/'' # elem_text e @ path_text es"
  "path_text (es @ fs) = path_text es @ path_text fs"
  by (simp_all add: path_text_def)

subsection \<open>The scan for a wildcard\<close>

lemma wildcard_scan_plain: "no_special n \<Longrightarrow> wildcard_scan k v False (n @ s) = wildcard_scan k v False s"
  by (induction n) (auto simp: no_special_def specials_def)

lemma wildcard_scan_esc:
  "wildcard_scan False True False (esc v @ CHR '']'' # s) = wildcard_scan False False False s"
  by (induction v) (auto simp: esc_char_def)

lemma hasWildcardKeyAt_esc: "hasWildcardKeyAt (esc v @ CHR '']'' # s) \<longleftrightarrow> v = ''*''"
proof (cases v)
  case Nil
  then show ?thesis by (cases s) (auto simp: hasWildcardKeyAt_def wildcard_at_def)
next
  case (Cons c w)
  show ?thesis
    by (cases w) (auto simp: Cons hasWildcardKeyAt_def wildcard_at_def esc_char_def)
qed

lemma wildcard_scan_keys:
  "\<forall>k \<in> set (gkeys ks). no_special k \<Longrightarrow>
    wildcard_scan False False False (concat (map key_text ks) @ s) \<longleftrightarrow>
      key_has_wildcard ks \<or> wildcard_scan False False False s"
proof (induction ks)
  case (Cons kv ks)
  obtain k v where kv: "kv = (k, v)" by (cases kv)
  have "no_special k" using Cons.prems by (simp add: kv gkeys_def)
  then show ?case using Cons
    by (simp add: kv key_text_def gkeys_def wildcard_scan_plain hasWildcardKeyAt_esc wildcard_scan_esc)
qed simp

lemma wildcard_scan_text:
  "\<forall>e \<in> set es. elem_plain e \<Longrightarrow>
    wildcard_scan False False False (path_text es) = elems_have_wildcard es"
proof (induction es)
  case (Cons e es)
  then show ?case
    by (simp add: elem_text_def elem_plain_def wildcard_scan_plain wildcard_scan_keys)
qed simp

subsection \<open>The last element\<close>

lemma last_slash_plain:
  "no_special n \<Longrightarrow> last_slash i ls False k (n @ s) = last_slash (i + length n) ls False k s"
  by (induction n arbitrary: i) (auto simp: no_special_def specials_def)

lemma last_slash_esc:
  "last_slash i ls False True (esc v @ CHR '']'' # s) = last_slash (Suc (i + length (esc v))) ls False False s"
  by (induction v arbitrary: i) (auto simp: esc_char_def)

lemma last_slash_keys:
  "\<forall>k \<in> set (gkeys ks). no_special k \<Longrightarrow>
    last_slash i ls False False (concat (map key_text ks) @ s) =
      last_slash (i + length (concat (map key_text ks))) ls False False s"
proof (induction ks arbitrary: i)
  case (Cons kv ks)
  obtain k v where kv: "kv = (k, v)" by (cases kv)
  have "no_special k" using Cons.prems by (simp add: kv gkeys_def)
  then show ?case using Cons
    by (simp add: kv key_text_def gkeys_def last_slash_plain last_slash_esc add_ac)
qed simp

lemma last_slash_elem:
  "elem_plain e \<Longrightarrow> last_slash i ls False False (elem_text e @ s) =
     last_slash (i + length (elem_text e)) ls False False s"
  by (simp add: elem_text_def elem_plain_def last_slash_plain last_slash_keys add_ac)

lemma last_slash_text:
  "\<forall>e \<in> set es. elem_plain e \<Longrightarrow> elem_plain f \<Longrightarrow>
    last_slash i ls False False (path_text (es @ [f])) = i + length (path_text es)"
proof (induction es arbitrary: i ls)
  case Nil
  then show ?case using last_slash_elem[of f "Suc i" i "[]"] by simp
next
  case (Cons e es)
  then show ?case by (simp add: last_slash_elem)
qed

lemma elem_text_end: "elem_plain e \<Longrightarrow> elem_text e \<noteq> [] \<and> last (elem_text e) \<noteq> CHR ''/''"
proof (cases "peKey e" rule: rev_cases)
  case Nil
  moreover assume e: "elem_plain e"
  moreover have "last (peName e) \<noteq> CHR ''/''"
    using e last_in_set[of "peName e"] by (metis elem_plain_def no_special_def specials_def disjoint_iff insertCI)
  ultimately show ?thesis by (simp add: elem_text_def elem_plain_def)
qed (simp add: elem_text_def key_text_def)

lemma strTrimSuffix_no: "s \<noteq> [] \<Longrightarrow> last s \<noteq> c \<Longrightarrow> strTrimSuffix s [c] = s"
  by (cases s rule: rev_cases) (simp_all add: strTrimSuffix_def)

lemma SplitLastElem_text:
  assumes "\<forall>e \<in> set es. elem_plain e" "elem_plain f"
  shows "SplitLastElem (path_text (es @ [f])) = (path_text es, CHR ''/'' # elem_text f)"
proof -
  have "strTrimSuffix (path_text (es @ [f])) ''/'' = path_text (es @ [f])"
    using elem_text_end[OF assms(2)] by (intro strTrimSuffix_no) auto
  then show ?thesis
    using last_slash_text[OF assms, of 0 0] by (simp add: SplitLastElem_def Let_def)
qed

section \<open>Path variables\<close>

lemma readUntil_plain: "d \<notin> set n \<Longrightarrow> bslash \<notin> set n \<Longrightarrow> d \<noteq> bslash \<Longrightarrow>
    readUntil False d (n @ d # s) = (n, s)"
  by (induction n) auto

lemma readUntil_esc: "readUntil False (CHR '']'') (esc v @ CHR '']'' # s) = (v, s)"
  by (induction v) (auto simp: esc_char_def)

lemma free_name_fresh: "\<not> ghas vars (free_name vars p k n)"
proof (induction vars p k n rule: free_name.induct)
  case (1 vars p k n)
  then show ?case by (subst free_name.simps) simp
qed

lemma free_name_same: "\<not> ghas vars n \<Longrightarrow> free_name vars p k n = n"
  by (subst free_name.simps) simp

lemma free_name_ne: "p \<noteq> [] \<Longrightarrow> n \<noteq> [] \<Longrightarrow> free_name vars p k n \<noteq> []"
proof (induction vars p k n rule: free_name.induct)
  case (1 vars p k n)
  then show ?case by (subst free_name.simps) (simp add: numbered_def)
qed

text \<open>The variables after the keys of the path, in their order: each gets a name of its own.\<close>

fun bind_vars :: "(string \<times> string) list \<Rightarrow> (string, string) gomap \<Rightarrow> (string, string) gomap" where
  "bind_vars [] vars = vars"
| "bind_vars ((k, v) # ks) vars = bind_vars ks (vars @ [(free_name vars k 2 k, v)])"

definition path_keys :: "PathElem list \<Rightarrow> (string \<times> string) list" where
  "path_keys es = concat (map peKey es)"

definition template_text :: "PathElem list \<Rightarrow> string" where
  "template_text es = concat (map (\<lambda>e. CHR ''/'' # peName e @ concat (map (\<lambda>_. ''{}'') (peKey e))) es)"

lemma path_info_plain: "no_special n \<Longrightarrow> path_info (n @ s) t vars = path_info s (t @ n) vars"
  by (induction n arbitrary: t) (auto simp: no_special_def specials_def)

lemma bind_vars_append: "bind_vars (xs @ ys) vars = bind_vars ys (bind_vars xs vars)"
  by (induction xs vars rule: bind_vars.induct) simp_all

lemma path_info_key:
  assumes "k \<noteq> []" "no_special k"
  shows "path_info (key_text (k, v) @ s) t vars =
    path_info s (t @ ''{}'') (vars @ [(free_name vars k 2 k, v)])"
proof -
  have "readUntil False (CHR ''='') (k @ CHR ''='' # esc v @ CHR '']'' # s) = (k, esc v @ CHR '']'' # s)"
    using assms by (intro readUntil_plain) (auto simp: no_special_def specials_def)
  then show ?thesis
    using assms free_name_ne[of k k vars 2] free_name_fresh[of vars k 2 k]
    by (simp add: key_text_def readUntil_esc gset_fresh ghas_def)
qed

lemma path_info_keys:
  "\<forall>k \<in> set (gkeys ks). k \<noteq> [] \<and> no_special k \<Longrightarrow>
    path_info (concat (map key_text ks) @ s) t vars =
      path_info s (t @ concat (map (\<lambda>_. ''{}'') ks)) (bind_vars ks vars)"
proof (induction ks arbitrary: t vars)
  case (Cons kv ks)
  obtain k v where kv: "kv = (k, v)" by (cases kv)
  then have "k \<noteq> []" "no_special k" using Cons.prems by (simp_all add: gkeys_def)
  then show ?case
    using Cons path_info_key[of k v "concat (map key_text ks) @ s" t vars] by (simp add: kv gkeys_def)
qed simp

lemma path_info_text:
  "\<forall>e \<in> set es. elem_plain e \<Longrightarrow>
    path_info (path_text es) t vars = (t @ template_text es, bind_vars (path_keys es) vars)"
proof (induction es arbitrary: t vars)
  case (Cons e es)
  then show ?case
    by (simp add: elem_text_def elem_plain_def path_info_plain path_info_keys template_text_def path_keys_def
        bind_vars_append)
qed (simp add: template_text_def path_keys_def)

lemma length_bind_vars [simp]: "length (bind_vars ks vars) = length ks + length vars"
  by (induction ks vars rule: bind_vars.induct) simp_all

lemma gkeys_append [simp]: "gkeys (a @ b) = gkeys a @ gkeys b"
  by (simp add: gkeys_def)

lemma bind_vars_ok: "gok vars \<Longrightarrow> gok (bind_vars ks vars)"
proof (induction ks vars rule: bind_vars.induct)
  case (2 k v ks vars)
  have "gok (vars @ [(free_name vars k 2 k, v)])"
    using 2(2) free_name_fresh[of vars k 2 k] in_gkeys[of "free_name vars k 2 k" vars]
    by (auto simp: gok_def ghas_def) (simp_all add: gkeys_def)
  then show ?case using 2 by simp
qed simp

lemma bind_vars_distinct:
  "distinct (map fst (vars @ ks)) \<Longrightarrow> bind_vars ks vars = vars @ ks"
proof (induction ks vars rule: bind_vars.induct)
  case (2 k v ks vars)
  have "\<not> ghas vars k" using 2(2) in_gkeys[of k vars] by (auto simp: ghas_def gkeys_def)
  then show ?case using 2 by (simp add: free_name_same)
qed simp

lemma map_snd_bind_vars: "map snd (bind_vars ks vars) = map snd vars @ map snd ks"
  by (induction ks vars rule: bind_vars.induct) simp_all

section \<open>Clones and copies\<close>

definition ref_ok :: "PathElem list \<Rightarrow> PathRef \<Rightarrow> bool" where
  "ref_ok h p \<longleftrightarrow> (\<forall>a \<in> set (ElemRef p). a < length h)"

lemma clone_elems_spec:
  assumes "\<forall>a \<in> set as. a < length h"
  shows "clone_elems as h = ([length h..<length h + length as], h @ map (\<lambda>a. cloneElem (h ! a)) as)"
  using assms
proof (induction as arbitrary: h)
  case (Cons a as)
  have same: "map (\<lambda>b. cloneElem ((h @ [cloneElem (h ! a)]) ! b)) as = map (\<lambda>b. cloneElem (h ! b)) as"
    using Cons.prems by (simp add: nth_append)
  have "clone_elems as (h @ [cloneElem (h ! a)]) =
      ([Suc (length h)..<Suc (length h) + length as], (h @ [cloneElem (h ! a)]) @ map (\<lambda>b. cloneElem (h ! b)) as)"
    using Cons.IH[of "h @ [cloneElem (h ! a)]"] Cons.prems
    unfolding same by (simp del: upt_Suc add: less_Suc_eq)
  then show ?case by (simp add: upt_conv_Cons del: upt_Suc)
qed simp

lemma cloneElem_same: "elem_ok e \<Longrightarrow> peName (cloneElem e) = peName e \<and> geq (peKey (cloneElem e)) (peKey e)"
  by (simp add: cloneElem_def elem_ok_def geq_def fun_eq_iff gget_gset_all split: option.split)

lemma deref_append: "ref_ok h p \<Longrightarrow> deref (h @ h') p = deref h p"
  by (simp add: deref_def ref_ok_def nth_append)

lemma deref_SetKey: "a \<notin> set (ElemRef p) \<Longrightarrow> deref (SetKey (Some a) n v h) p = deref h p"
  by (auto simp: deref_def SetKey_def) (metis nth_list_update_neq)

lemma Clone_fresh:
  assumes "ref_ok h p" "path_Clone (Some p) h = (Some q, h')"
  shows "ElemRef q = [length h..<length h + length (ElemRef p)]"
    "h' = h @ map (\<lambda>a. cloneElem (h ! a)) (ElemRef p)"
    "set (ElemRef q) \<inter> set (ElemRef p) = {}" "ref_ok h' q"
  using assms clone_elems_spec[of "ElemRef p" h] by (auto simp: path_Clone_def ref_ok_def)

section \<open>Well-formed paths\<close>

text \<open>A path whose elements have the keys of a Go map.\<close>

definition path_ok :: "Path \<Rightarrow> bool" where
  "path_ok p \<longleftrightarrow> (\<forall>e \<in> set (Elem p). elem_ok e)"

lemma key_has_wildcard_iff: "gok m \<Longrightarrow> key_has_wildcard m \<longleftrightarrow> (\<exists>k. gget m k = Some ''*'')"
proof (induction m)
  case (Cons x m)
  obtain k v where x: "x = (k, v)" by (cases x)
  have "gget m k = None" using Cons.prems by (simp add: x in_gkeys)
  then show ?case using Cons by (cases "v = ''*''") (auto simp: x, metis option.distinct(1))
qed simp

lemma elems_have_wildcard_iff: "\<forall>e \<in> set es. elem_ok e \<Longrightarrow> elems_have_wildcard es \<longleftrightarrow> \<not> elems_concrete es"
  by (induction es) (auto simp: elems_concrete_def elem_concrete_def elem_ok_def key_has_wildcard_iff)

lemma path_Matches_iff:
  assumes "path_ok p" "path_ok t" "Elem p \<noteq> []"
  shows "path_Matches (Some p) (Some t) = Ret (path_covers (Elem t) (Elem p))"
proof -
  have "elems_match (Elem p) (Elem t) = path_covers (Elem t) (Elem p)"
    using assms(1,2) by (intro elems_match_iff) (auto simp: path_ok_def)
  then show ?thesis using assms(3) by (auto simp: path_Matches_def path_Len_def path_covers_def)
qed

definition path_wf :: "PathElem list \<Rightarrow> PathRef \<Rightarrow> bool" where
  "path_wf h p \<longleftrightarrow> ref_ok h p \<and> (\<forall>e \<in> set h. elem_ok e)"

lemma path_wfD: "path_wf h p \<Longrightarrow> ref_ok h p" "path_wf h p \<Longrightarrow> e \<in> set h \<Longrightarrow> elem_ok e"
  by (simp_all add: path_wf_def)

lemma elem_ok_clone: "elem_ok (cloneElem e)"
proof -
  have "gok m \<Longrightarrow> gok (gset_all n m)" for m n :: "(string, string) gomap"
    by (induction n m rule: gset_all.induct) simp_all
  then show ?thesis by (simp add: elem_ok_def cloneElem_def)
qed

lemma Clone_wf: "path_wf h p \<Longrightarrow> path_Clone (Some p) h = (Some q, h') \<Longrightarrow> path_wf h' q"
  using Clone_fresh[of h p q h'] elem_ok_clone by (auto simp: path_wf_def)

lemma append_names_wf: "path_wf h p \<Longrightarrow> append_names es p h = (q, h') \<Longrightarrow> path_wf h' q"
  by (induction es p h rule: append_names.induct)
     (auto simp: path_wf_def ref_ok_def elem_ok_def less_SucI)

lemma path_wf_push: "path_wf h p \<Longrightarrow> elem_ok e \<Longrightarrow> path_wf (h @ [e]) (p\<lparr>ElemRef := ElemRef p @ [length h]\<rparr>)"
  by (auto simp: path_wf_def ref_ok_def less_SucI)

lemma merge_wf:
  assumes "path_wf h p" "0 \<le> index" "sz \<le> int (length (ElemRef p))"
  shows "\<exists>n q h'. merge_loop i sz es index p h = Ret (n, q, h') \<and> path_wf h' q"
  using assms
proof (induction i sz es index p h rule: merge_loop.induct)
  case (2 i sz e es index p h)
  show ?case
  proof (cases "index \<ge> sz")
    case True
    then show ?thesis using 2(1)[OF True path_wf_push[OF 2(3)]] 2(4,5) by (simp add: elem_ok_def)
  next
    case False
    then have "elem_at (Some (deref h p)) index = Ret (h ! (ElemRef p ! nat index))"
      using 2(4,5) by (simp add: elem_at_def deref_def)
    then show ?thesis using 2(2)[OF False] 2(3,4,5) False by auto
  qed
qed auto

lemma SetKey_wf: "path_wf h p \<Longrightarrow> a < length h \<Longrightarrow> path_wf (SetKey (Some a) n v h) p"
proof -
  assume p: "path_wf h p" "a < length h"
  let ?e = "(h ! a)\<lparr>peKey := gset n v (peKey (h ! a))\<rparr>"
  have "elem_ok ?e" using path_wfD(2)[OF p(1) nth_mem[OF p(2)]] by (simp add: elem_ok_def)
  then show ?thesis using p set_update_subset_insert[of h a ?e] by (auto simp: path_wf_def ref_ok_def SetKey_def)
qed

lemma rename_wf:
  "path_wf h p \<Longrightarrow> \<forall>a \<in> set as. a < length h \<Longrightarrow>
    path_wf (fold (\<lambda>a h. h[a := (h ! a)\<lparr>peName := f (peName (h ! a))\<rparr>]) as h) p"
proof (induction as arbitrary: h)
  case (Cons a as)
  have "path_wf (h[a := (h ! a)\<lparr>peName := f (peName (h ! a))\<rparr>]) p"
    using Cons.prems set_update_subset_insert[of h a] by (fastforce simp: path_wf_def ref_ok_def elem_ok_def)
  then show ?case using Cons by simp
qed simp

end
