(* ===== verification/CS_Memory.thy ===== *)
theory CS_Memory
  imports CS_Props
begin

text \<open>
  A concrete server and host for configuration sessions, in memory: client 0 works on the
  configuration, client 1 on the lock of the state database.  The requests run on it.
\<close>

type_synonym cs_mem = "mem \<times> string option"

fun cs_mem_do :: "cs_mem \<Rightarrow> nat \<Rightarrow> rcmd \<Rightarrow> cs_mem \<times> (goerr + reply)" where
  "cs_mem_do (m, h) c r =
     (if c = 1 then
        (case r of
           cHSETNX k f v \<Rightarrow> (case h of None \<Rightarrow> ((m, Some v), Inr (RInt 1)) | Some _ \<Rightarrow> ((m, h), Inr (RInt 0)))
         | cHDEL k fs \<Rightarrow> ((m, None), Inr (RInt (if h = None then 0 else 1)))
         | _ \<Rightarrow> ((m, h), Inl (RedisError ''ERR'')))
      else case mem_do m c r of (m', e) \<Rightarrow> ((m', h), e))"

definition cs_content :: "cs_mem \<Rightarrow> string \<Rightarrow> fields" where
  "cs_content w = mcontent (fst w)"

definition cs_queue :: "cs_mem \<Rightarrow> nat \<Rightarrow> rcmd list option" where
  "cs_queue w c = (if c = 1 then None else snd (fst w))"

definition cs_mem_server :: "cs_mem ext" where
  "cs_mem_server =
     \<lparr>x_do = cs_mem_do, x_hgetall = (\<lambda>w c k. Inr (cs_content w k)), x_keys = (\<lambda>w. x_keys mem_server (fst w)),
      x_hget = (\<lambda>w c k f. case snd w of None \<Rightarrow> Inl redis_Nil | Some v \<Rightarrow> Inr v),
      x_get = (\<lambda>w c k. Inl redis_Nil), x_client = (\<lambda>w d b. (w, Some (if d = StateDB then 1 else 0))),
      x_close = (\<lambda>w c. (w, None)), x_cvl_open = (\<lambda>w d. (w, Inr 0)),
      x_cvl_close = (\<lambda>w c. (w, 0)), x_cvl_validate = (\<lambda>w d c e. (w, 0, [])),
      x_execName = ''mgmt'', x_dur = (\<lambda>w. 1), x_unixnano = (\<lambda>w. ''1'')\<rparr>"

text \<open>\<open>ok\<close> says whether the host service can reload a configuration.\<close>

definition cs_mem_ext :: "bool \<Rightarrow> cs_mem cs_ext" where
  "cs_mem_ext ok =
     \<lparr>y_db = cs_mem_server,
      y_host = (\<lambda>w q. (w, case q of QCfgSave a b c d \<Rightarrow>
          if c = ''OVERWRITE'' \<and> \<not> ok then Some (GoError ''failed'') else None | _ \<Rightarrow> None)),
      y_now = (\<lambda>w. 5), y_signal = (\<lambda>w p. p = 7), y_tty = (\<lambda>w p. None),
      y_hist_file = (\<lambda>w. None), y_statsCfg = ex_stats_cfg, y_cacheCfg = zeroCacheConfig\<rparr>"

lemma cs_mem_redis: "redis_server cs_mem_server cs_content"
proof -
  have "cs_content (fst (cs_mem_do w c r)) = cs_content w"
    if "r = cUNWATCH \<or> (\<exists>a. r = cWATCH a) \<or> (\<exists>k f v. r = cHSETNX k f v)" for w c r
    using that by (cases w; cases "fst w") (auto simp: cs_content_def split: option.split)
  then show ?thesis by (simp add: redis_server_def cs_mem_server_def)
qed

lemma cs_mem_tx: "tx_server cs_mem_server cs_content cs_queue"
proof -
  note m = mem_tx[unfolded tx_server_def]
  have "server_multi cs_mem_server cs_content cs_queue"
    using m by (auto simp: server_multi_def cs_mem_server_def cs_content_def cs_queue_def mem_server_def
        split: prod.splits if_splits)
  moreover have "server_queue cs_mem_server cs_content cs_queue"
    using m by (auto simp: server_queue_def cs_mem_server_def cs_content_def cs_queue_def mem_server_def
        split: prod.splits if_splits)
  moreover have "server_exec cs_mem_server cs_content cs_queue"
    using m by (auto simp: server_exec_def cs_mem_server_def cs_content_def cs_queue_def mem_server_def
        split: prod.splits if_splits)
  ultimately show ?thesis by (simp add: tx_server_def)
qed

lemma cs_mem_cs: "cs_server (cs_mem_ext ok) cs_content cs_queue"
  using cs_mem_redis cs_mem_tx
  by (auto simp: cs_server_def cs_mem_ext_def cs_mem_server_def cs_content_def)

section \<open>A session for the examples\<close>

definition ex_cs :: "cs_mem cs_st" where
  "ex_cs = \<lparr>cs_pkg = ex_st ex_opts (ex_mem, None), cs_dbs = [], uCS = None, csTokenCtr = 0, cpHistEnts = [],
     is_hist_loaded = False, timers = [], gors = [], n_ch = 0, mesgs = []\<rparr>"

definition ex_who :: configSession where
  "ex_who = zeroSession\<lparr>cs_username := ''admin'', cs_roles := [''admin'']\<rparr>"

definition the_ret :: "'a outcome \<Rightarrow> 'a" where
  "the_ret r = (case r of Ret a \<Rightarrow> a | _ \<Rightarrow> undefined)"

text \<open>After a session was created by a process with number 7.\<close>

definition ex_start :: "cs_mem cs_ext \<Rightarrow> cs_mem cs_st" where
  "ex_start y = snd (the_ret (StartOrResume y ex_who 7 ex_cs))"

lemma ex_cs_reach: "cs_reach y ex_cs"
  by (rule reach_init) (simp_all add: ex_cs_def ex_st_def)

lemma ex_start_reach:
  assumes "case StartOrResume y ex_who 7 ex_cs of Ret _ \<Rightarrow> True | _ \<Rightarrow> False"
  shows "cs_reach y (ex_start y)"
proof -
  have "\<exists>r. StartOrResume y ex_who 7 ex_cs = Ret (r, ex_start y)"
    using assms by (auto simp: ex_start_def the_ret_def split: outcome.splits)
  then show ?thesis using ex_cs_reach reach_step step_start by blast
qed

definition ex_started :: "cs_mem cs_st" where
  "ex_started = ex_start (cs_mem_ext True)"

definition ex_u :: configSession where
  "ex_u = the (uCS ex_started)"

definition ex_d :: DB where
  "ex_d = the (gget (cs_dbs ex_started) 0)"

lemma ex_started_sess: "sess_at ex_started ex_u 0 ex_d" "fresh_tx ex_d"
proof -
  have "(case uCS ex_started of None \<Rightarrow> False | Some _ \<Rightarrow> True)"
    "(case gget (cs_dbs ex_started) 0 of None \<Rightarrow> False | Some _ \<Rightarrow> True)"
    "cs_state ex_u = cs_STATE_ACTIVE" "commitState ex_u = cs_STATE_None" "ccDB ex_u = Some 0" by code_simp+
  then show "sess_at ex_started ex_u 0 ex_d"
    by (auto simp: sess_at_def ex_u_def ex_d_def split: option.splits)
  show "fresh_tx ex_d" by code_simp
qed

lemma ex_started_reach: "cs_reach (cs_mem_ext True) ex_started"
  unfolding ex_started_def by (rule ex_start_reach) code_simp

lemma the_ret_pair:
  assumes "case c of Ret r \<Rightarrow> fst (fst r) = b | _ \<Rightarrow> False"
  shows "c = Ret ((b, snd (fst (the_ret c))), snd (the_ret c))"
  using assms by (cases c) (auto simp: the_ret_def prod_eq_iff)

text \<open>After a commit with a timer of 60 seconds.\<close>

definition ex_waiting :: "bool \<Rightarrow> cs_mem cs_st" where
  "ex_waiting ok = snd (the_ret (Commit (cs_mem_ext ok) ex_u [] 60 False ex_started))"

definition ex_w :: "bool \<Rightarrow> configSession" where
  "ex_w ok = the (uCS (ex_waiting ok))"

lemma ex_waiting_awaits: "awaiting (ex_waiting ok) (ex_w ok) 0"
proof -
  have "(case uCS (ex_waiting ok) of None \<Rightarrow> False | Some _ \<Rightarrow> True)"
    "cs_state (ex_w ok) = cs_STATE_ACTIVE" "commitState (ex_w ok) = cs_STATE_CONFIRM_TIMER"
    "0 < length (gors (ex_waiting ok))" "g_phase (gors (ex_waiting ok) ! 0) = GWait"
    "commitTimer (ex_w ok) = Some (g_timer (gors (ex_waiting ok) ! 0))"
    "commitCh (ex_w ok) = Some (g_ch (gors (ex_waiting ok) ! 0))"
    "gget (timers (ex_waiting ok)) (g_timer (gors (ex_waiting ok) ! 0)) = Some True"
    by (cases ok; code_simp)+
  then show ?thesis by (auto simp: awaiting_def ex_w_def split: option.splits)
qed

text \<open>A server on which another client has changed a watched key: EXEC fails.\<close>

definition cs_mem_busy :: "cs_mem cs_ext" where
  "cs_mem_busy = (cs_mem_ext True)\<lparr>y_db := cs_mem_server\<lparr>x_do := (\<lambda>w c r.
     if r = cEXEC then (w, Inl (RedisError ''redis: transaction failed'')) else cs_mem_do w c r)\<rparr>\<rparr>"

definition ex_busy :: "cs_mem cs_st" where
  "ex_busy = ex_start cs_mem_busy"

lemma ex_busy_reach: "cs_reach cs_mem_busy ex_busy"
  unfolding ex_busy_def by (rule ex_start_reach) code_simp

lemma ex_busy_sess: "sess_at ex_busy (the (uCS ex_busy)) 0 (the (gget (cs_dbs ex_busy) 0))"
proof -
  have "(case uCS ex_busy of None \<Rightarrow> False | Some u \<Rightarrow>
      cs_state u = cs_STATE_ACTIVE \<and> commitState u = cs_STATE_None \<and> ccDB u = Some 0)"
    "(case gget (cs_dbs ex_busy) 0 of None \<Rightarrow> False | Some _ \<Rightarrow> True)" by code_simp+
  then show ?thesis by (auto simp: sess_at_def split: option.splits)
qed

end
