(* ===== verification/TL_Memory.thy ===== *)
theory TL_Memory
  imports TL_ReqProps TL_PathProps CS_Memory
begin

text \<open>
  An application module and an environment for the examples, on the server in memory.  The
  module's payload names the edit that it makes; a payload that starts with an exclamation
  mark makes it fail after the edit.
\<close>

type_synonym ex_app = "edit list \<times> goerr option"

definition ex_mod :: edit where
  "ex_mod = EMod ex_port (ex_key ''Ethernet0'') \<lparr>Flds = [(''mtu'', ''1500'')]\<rparr>"

definition ex_init :: "('r, 'n, 'e) appData \<Rightarrow> ex_app \<Rightarrow> ex_app" where
  "ex_init d a =
     (if ad_payload d = ''mtu'' then ([ex_mod], None)
      else if ad_payload d = ''!mtu'' then ([ex_mod], Some (GoError ''failed''))
      else ([], None))"

definition ex_translate :: "ex_app \<Rightarrow> 'w st \<Rightarrow> (watch_keys \<times> goerr option) \<times> ex_app \<times> 'w st" where
  "ex_translate a s = (([(ex_port, ex_key ''Ethernet0'')], None), a, s)"

definition ex_process ::
  "'w ext \<Rightarrow> ex_app \<Rightarrow> 'w st \<Rightarrow> (SetResponse \<times> goerr option) \<times> ex_app \<times> 'w st" where
  "ex_process x a s = ((zeroSetResponse, snd a), a, fold (apply_edit x) (fst a) s)"

definition ex_appInterface :: "'w ext \<Rightarrow> ('w, ex_app, 'r, 'n, 'e) appInterface" where
  "ex_appInterface x =
     \<lparr>ai_new = (\<lambda>ty. if ty = ''exApp'' then Some ([], None) else None), ai_initialize = ex_init,
      ai_translateCreate = ex_translate, ai_translateUpdate = ex_translate,
      ai_translateReplace = ex_translate, ai_translateDelete = ex_translate,
      ai_translateGet = (\<lambda>a ds s. (None, a, ds, s)), ai_translateAction = (\<lambda>a ds s. (None, a, ds, s)),
      ai_processCreate = ex_process x, ai_processUpdate = ex_process x,
      ai_processReplace = ex_process x, ai_processDelete = ex_process x,
      ai_processGet = (\<lambda>a ds f s. ((\<lparr>gr_Payload = [], gr_ValueTree = None, gr_ErrSrc = ProtoErr\<rparr>, None), a, ds, s)),
      ai_processAction = (\<lambda>a ds s. ((\<lparr>ar_Payload = [], ar_ErrSrc = ProtoErr\<rparr>, None), a, ds, s))\<rparr>"

lemma edits_work:
  assumes "redis_server x content" "in_tx (db s)"
  shows "works_in_tx content s (fold (apply_edit x) es s)"
  using assms(2)
proof (induction es arbitrary: s)
  case (Cons e es)
  have w: "works_in_tx content s (apply_edit x e s)"
    using apply_edit_step[OF assms(1) Cons.prems] apply_edit_conn by (simp add: works_in_tx_def)
  have "in_tx (db (apply_edit x e s))" using works_in_tx_state[OF w Cons.prems] .
  from Cons.IH[OF this] show ?case using works_in_tx_trans[OF w] by simp
qed simp

lemma ex_app_ok: "redis_server x content \<Longrightarrow> app_ok content (ex_appInterface x)"
  by (simp add: app_ok_def ex_appInterface_def ex_translate_def ex_process_def edits_work)

lemma cs_mem_tl: "tl_server cs_mem_server cs_content cs_queue"
proof -
  have "cs_content (fst (cs_mem_do w 1 (cHDEL lockTableKey [n]))) = cs_content w" for w n
    by (cases w) (simp add: cs_content_def)
  then show ?thesis using cs_mem_redis cs_mem_tx
    by (auto simp: tl_server_def cs_mem_server_def)
qed

definition ex_ygot :: "(unit, unit, unit) ygot" where
  "ex_ygot =
     \<lparr>yg_device = (), yg_StringToPath = (\<lambda>p. Inr []), yg_GetOrCreateNode = (\<lambda>r p. (r, Inr ((), ()))),
      yg_GetNode = (\<lambda>r p. Inr []), yg_GetNodeAt = (\<lambda>r e n p. Inr []), yg_IsLeaf = (\<lambda>e. False),
      yg_IsLeafList = (\<lambda>e. False), yg_IsContainer = (\<lambda>e. True), yg_IsList = (\<lambda>e. False),
      yg_is_map = (\<lambda>r n. False), yg_is_struct = (\<lambda>r n. True), yg_is_validated = (\<lambda>r n. True),
      yg_fields = (\<lambda>r n. []), yg_Unmarshal = (\<lambda>s n r. (r, None)), yg_Validate = (\<lambda>r n. None),
      yg_ValidateDevice = (\<lambda>r. None), yg_errText = (\<lambda>e. [])\<rparr>"

definition ex_versions :: yang_versions where
  "ex_versions = \<lparr>theYangBundleVersion = Version 2 3 0,
     theYangBaseVersion = Version 1 0 0\<rparr>"

definition ex_env :: "'w ext \<Rightarrow> ('w, ex_app, unit, unit, unit) tl_env" where
  "ex_env x =
     \<lparr>te_db = x, te_yg = ex_ygot, te_app = ex_appInterface x, te_versions = ex_versions,
      te_appMap = [(''/port'', \<lparr>appType = ''exApp'', ygotRootType = [], isNative = True, tablesToWatch = [ex_port]\<rparr>)],
      te_stats = ex_stats_cfg, te_cache = zeroCacheConfig\<rparr>"

definition ex_user :: UserRoles where
  "ex_user = \<lparr>ur_Name = ''admin'', ur_Roles = [''admin'']\<rparr>"

definition ex_set :: "string \<Rightarrow> SetRequest" where
  "ex_set payload = \<lparr>sq_Path = ''/port/Ethernet0'', sq_Payload = payload, sq_User = ex_user, sq_AuthEnabled = True,
     sq_ClientVersion = Version 0 0 0, sq_DeleteEmptyEntry = False\<rparr>"

definition ex_bulk :: "string list \<Rightarrow> BulkRequest" where
  "ex_bulk ps = \<lparr>bq_Request = map (\<lambda>p. \<lparr>be_Entry = ex_set p, be_Operation = op_UPDATE, be_ResourceCheckOnDelete = False\<rparr>) ps,
     bq_User = ex_user, bq_AuthEnabled = True, bq_ClientVersion = Version 0 0 0\<rparr>"

definition ex_world :: "cs_mem st" where
  "ex_world = ex_st ex_opts (ex_mem, None)"

lemma ex_env_ok: "app_ok cs_content (te_app (ex_env cs_mem_server))" "tl_server (te_db (ex_env cs_mem_server)) cs_content cs_queue"
  using ex_app_ok[OF cs_mem_redis] cs_mem_tl by (simp_all add: ex_env_def)


section \<open>Paths\<close>

definition ex_path :: "string \<Rightarrow> Path" where
  "ex_path v = emptyPath\<lparr>Elem := [\<lparr>peName = ''interface'', peKey = [(''name'', v)]\<rparr>]\<rparr>"

definition ex_ref :: PathRef where
  "ex_ref = \<lparr>ElemRef = [0, 1], OriginRef = [], TargetRef = []\<rparr>"

definition ex_heap :: "PathElem list" where
  "ex_heap = [\<lparr>peName = ''oc:acl'', peKey = []\<rparr>, \<lparr>peName = ''set'', peKey = [(''name'', ''a'')]\<rparr>]"

lemma ex_heap_wf: "path_wf ex_heap ex_ref"
  by (simp add: path_wf_def ref_ok_def elem_ok_def ex_heap_def ex_ref_def gkeys_def)

end
