(* ===== verification/DB_Table.thy ===== *)
theory DB_Table
  imports DB_Read
begin

text \<open>
  Whole tables and maps: translib/db/db_table.go (\<open>GetTable\<close> and the methods of
  \<open>Table\<close>), db_table_pattern.go (\<open>GetTablePattern\<close>), db_keys_pattern.go
  (\<open>ExistKeysPattern\<close>), db_get.go (\<open>Get\<close>), db_onchangecache.go (the on-change cache),
  map.go and db_map.go (maps).

  The Lua scripts of the package are run by the redis server; they are written out as the
  redis calls that they make, with a reply of the type that the client hands back.  The
  back pointer \<open>db\<close> of a \<open>Table\<close> is the argument \<open>opts\<close> of its methods.  As before,
  \<open>None\<close> is a panic.
\<close>

section \<open>Tables\<close>

definition zeroTable :: Table where
  "zeroTable = empty_table (tspec []) False"

definition all_pat :: Key where
  "all_pat = \<lparr>Comp = [''*'']\<rparr>"

text \<open>The loop of \<open>GetTable\<close>: an entry that cannot be read is stored without fields.\<close>

fun get_rows ::
  "('w, 'z) ext_scheme \<Rightarrow> TableSpec \<Rightarrow> Key list \<Rightarrow> (string, Value) gomap \<Rightarrow> 'w st \<Rightarrow>
     (string, Value) gomap \<times> 'w st" where
  "get_rows x ts [] m s = (m, s)"
| "get_rows x ts (k # ks) m s =
     (case GetEntry x ts k s of
        ((value, e), s1) \<Rightarrow>
          get_rows x ts ks
            (gset (key2redis (Opts (db s1)) ts k) (if e \<noteq> None then \<lparr>Flds = []\<rparr> else value) m) s1)"

text \<open>
  At its end \<open>GetTable\<close> sets \<open>complete\<close> on a copy of the cached table, which changes nothing.
\<close>

definition GetTable ::
  "('w, 'z) ext_scheme \<Rightarrow> TableSpec \<Rightarrow> 'w st \<Rightarrow> ((Table \<times> goerr option) \<times> 'w st) option" where
  "GetTable x ts s =
     (if db_client (db s) = None then Some ((zeroTable, Some TranslibDBConnectionReset), s)
      else
        case GetKeys x ts s of
          None \<Rightarrow> None
        | Some ((keys, Some e), s1) \<Rightarrow> Some ((zeroTable, Some e), s1)
        | Some ((keys, None), s1) \<Rightarrow>
            (case get_rows x ts keys [] s1 of
               (m, s2) \<Rightarrow>
                 Some ((\<lparr>tb_ts = ts, tb_entry = m, tb_complete = True,
                         tb_patterns = [(key2redis (Opts (db s1)) ts all_pat, keys)]\<rparr>, None), s2)))"

definition Table_GetKeys :: "Options \<Rightarrow> Table \<Rightarrow> (Key list \<times> goerr option) option" where
  "Table_GetKeys opts t =
     (case those (map (redis2key opts (tb_ts t)) (gkeys (tb_entry t))) of
        None \<Rightarrow> None | Some keys \<Rightarrow> Some (keys, None))"

definition Table_GetEntry :: "Options \<Rightarrow> Table \<Rightarrow> Key \<Rightarrow> Value \<times> goerr option" where
  "Table_GetEntry opts t key =
     ((case gget (tb_entry t) (key2redis opts (tb_ts t) key) of None \<Rightarrow> \<lparr>Flds = []\<rparr> | Some v \<Rightarrow> v), None)"

section \<open>Lua scripts\<close>

datatype lval = LStr string | LList "lval list" | LNum int

fun lua_rows :: "('w, 'z) ext_scheme \<Rightarrow> 'w \<Rightarrow> nat \<Rightarrow> string list \<Rightarrow> goerr + lval list" where
  "lua_rows x w c [] = Inr []"
| "lua_rows x w c (k # ks) =
     (case x_hgetall x w c k of
        Inl e \<Rightarrow> Inl e
      | Inr f \<Rightarrow>
          (case lua_rows x w c ks of
             Inl e \<Rightarrow> Inl e
           | Inr r \<Rightarrow> Inr (LStr k # LList (concat (map (\<lambda>(a, b). [LStr a, LStr b]) f)) # r)))"

definition luaScriptGetTable ::
  "('w, 'z) ext_scheme \<Rightarrow> 'w \<Rightarrow> nat \<Rightarrow> string \<Rightarrow> goerr + lval" where
  "luaScriptGetTable x w c pat =
     (case x_keys x w c pat of
        Inl e \<Rightarrow> Inl e
      | Inr ks \<Rightarrow> (case lua_rows x w c ks of Inl e \<Rightarrow> Inl e | Inr r \<Rightarrow> Inr (LList r)))"

definition luaScriptExistsKeysPatterns ::
  "('w, 'z) ext_scheme \<Rightarrow> 'w \<Rightarrow> nat \<Rightarrow> string \<Rightarrow> goerr + lval" where
  "luaScriptExistsKeysPatterns x w c pat =
     (case x_keys x w c pat of
        Inl e \<Rightarrow> Inl e
      | Inr ks \<Rightarrow> Inr (LStr (if ks \<noteq> [] then ''true'' else ''false'')))"

section \<open>ExistKeysPattern\<close>

text \<open>The loop over the pending rows ends at the first one that matches and has a field.\<close>

fun tx_exists :: "(string \<Rightarrow> Key option) \<Rightarrow> Key \<Rightarrow> (string, Value) gomap \<Rightarrow> bool option" where
  "tx_exists dec pat [] = Some False"
| "tx_exists dec pat ((k, v) # tx) =
     (case dec k of
        None \<Rightarrow> None
      | Some key \<Rightarrow>
          if Key_Matches key pat \<and> length (Flds v) > 0 then Some True else tx_exists dec pat tx)"

definition script_exists :: "goerr + lval \<Rightarrow> bool \<times> goerr option" where
  "script_exists r =
     (case r of
        Inl e \<Rightarrow> (False, Some e)
      | Inr (LStr v) \<Rightarrow>
          if v = ''true'' then (True, None)
          else if v \<noteq> ''false'' then (False, Some (TranslibDBScriptFail v))
          else (False, None)
      | Inr _ \<Rightarrow> (False, Some (TranslibDBScriptFail ''Unexpected response'')))"

definition ExistKeysPattern ::
  "('w, 'z) ext_scheme \<Rightarrow> TableSpec \<Rightarrow> Key \<Rightarrow> 'w st \<Rightarrow> ((bool \<times> goerr option) \<times> 'w st) option" where
  "ExistKeysPattern x ts pat s =
     (let d = db s; patKey = key2redis (Opts d) ts pat in
      if db_client d = None then Some ((False, Some TranslibDBConnectionReset), s)
      else
        case (if \<not> IsWriteDisabled (Opts d) then
                (case tx_exists (redis2key (Opts d) ts) pat (tx_table (txTsEntryMap d) (tsName ts)) of
                   None \<Rightarrow> None
                 | Some True \<Rightarrow> Some (True, None, False, s)
                 | Some False \<Rightarrow>
                     (case GetKeysPattern x ts pat s of
                        None \<Rightarrow> None
                      | Some ((ks, e), s1) \<Rightarrow> Some (e = None \<and> length ks > 0, e, False, s1)))
              else
                (let hit = (PerConnection (dbCacheConfig d) \<and> isCacheTable (dbCacheConfig d) (tsName ts) \<and>
                       (case gget (cTables (db_cache d)) (tsName ts) of
                          None \<Rightarrow> False
                        | Some table \<Rightarrow>
                            (case gget (tb_patterns table) patKey of
                               None \<Rightarrow> False | Some keys \<Rightarrow> length keys > 0)))
                 in if hit then Some (True, None, True, s)
                    else (case script_exists (luaScriptExistsKeysPatterns x (world s) (client_of d) patKey) of
                            (b, e) \<Rightarrow> Some (b, e, False, s)))) of
          None \<Rightarrow> None
        | Some (exists, err, cacheHit, s1) \<Rightarrow>
            Some ((exists, err), upd_db (note_table (tsName ts)
              (\<lambda>st. time_stats d [Total, TExistsKeyPattern] (x_dur x (world s))
                 (let st1 = inc ExistsKeyPatternHits (inc Hits st)
                  in if cacheHit then inc ExistsKeyPatternCacheHits st1 else st1))) s1))"

section \<open>GetTablePattern\<close>

text \<open>The complete cached table: its rows that match.\<close>

fun cache_pick ::
  "(string \<Rightarrow> Key option) \<Rightarrow> bool \<Rightarrow> Key \<Rightarrow> (string, Value) gomap \<Rightarrow>
     (string, Value) gomap \<times> Key list \<Rightarrow> ((string, Value) gomap \<times> Key list) option" where
  "cache_pick dec isComplete pat [] acc = Some acc"
| "cache_pick dec isComplete pat ((redisKey, value) # rows) (m, keys) =
     (case dec redisKey of
        None \<Rightarrow> None
      | Some key \<Rightarrow>
          cache_pick dec isComplete pat rows
            (if isComplete \<or> Key_Matches key pat
             then (gset redisKey (Value_Copy value) m, keys @ [key]) else (m, keys)))"

text \<open>The loop over the fields of one row of the script's reply; \<open>fn\<close> is the last name.\<close>

fun lua_hash :: "lval list \<Rightarrow> nat \<Rightarrow> string \<Rightarrow> fields \<Rightarrow> fields option" where
  "lua_hash [] j fn m = Some m"
| "lua_hash (LStr s # r) j fn m =
     (if j mod 2 = 0 then lua_hash r (Suc j) s m else lua_hash r (Suc j) fn (gset fn s m))"
| "lua_hash (_ # r) j fn m = None"

text \<open>
  The loop over the reply, keys at the even places and rows at the odd ones.  An unexpected
  part ends it with an error; the rows read before it are in the returned table.
\<close>

fun lua_walk ::
  "(string \<Rightarrow> Key option) \<Rightarrow> lval list \<Rightarrow> nat \<Rightarrow> string \<Rightarrow> (string, Value) gomap \<times> Key list \<Rightarrow>
     (goerr option \<times> (string, Value) gomap \<times> Key list) option" where
  "lua_walk dec [] i redisKey (m, keys) = Some (None, m, keys)"
| "lua_walk dec (v # vs) i redisKey (m, keys) =
     (if i mod 2 = 0 then
        (case v of
           LStr k \<Rightarrow> lua_walk dec vs (Suc i) k (m, keys)
         | _ \<Rightarrow> Some (Some (TranslibDBScriptFail ''Unexpected key''), m, keys))
      else
        (case v of
           LList redisValue \<Rightarrow>
             (case lua_hash redisValue 0 [] [] of
                None \<Rightarrow> Some (Some (TranslibDBScriptFail ''Unexpected field''), m, keys)
              | Some f \<Rightarrow>
                  (case dec redisKey of
                     None \<Rightarrow> None
                   | Some key \<Rightarrow>
                       lua_walk dec vs (Suc i) redisKey (gset redisKey \<lparr>Flds = f\<rparr> m, keys @ [key])))
         | _ \<Rightarrow> Some (Some (TranslibDBScriptFail ''Unexpected hash''), m, keys)))"

text \<open>The rows that the transaction has changed.\<close>

fun table_reconcile ::
  "(string \<Rightarrow> Key option) \<Rightarrow> bool \<Rightarrow> Key \<Rightarrow> (string, Value) gomap \<Rightarrow>
     (string, Value) gomap \<times> Key list \<Rightarrow> ((string, Value) gomap \<times> Key list) option" where
  "table_reconcile dec isComplete pat [] acc = Some acc"
| "table_reconcile dec isComplete pat ((k, v) # tx) (m, keys) =
     (case dec k of
        None \<Rightarrow> None
      | Some key \<Rightarrow>
          if \<not> isComplete \<and> \<not> Key_Matches key pat then table_reconcile dec isComplete pat tx (m, keys)
          else
            table_reconcile dec isComplete pat tx
              (case key_index key keys 0 of
                 None \<Rightarrow>
                   (if length (Flds v) > 0 then (gset k (Value_Copy v) m, keys @ [key]) else (m, keys))
               | Some index \<Rightarrow>
                   (if length (Flds v) = 0 then (gdel k m, take index keys @ drop (Suc index) keys)
                    else (gset k (Value_Copy v) m, keys))))"

definition put_cache_table ::
  "TableSpec \<Rightarrow> bool \<Rightarrow> string \<Rightarrow> (string, Value) gomap \<times> Key list \<Rightarrow> DB \<Rightarrow> DB" where
  "put_cache_table ts complete pat rows d =
     fold (\<lambda>(k, v). put_cache_entry ts k (Value_Copy v)) (fst rows)
       (put_cache_pattern ts complete pat (map Key_Copy (snd rows)) d)"

text \<open>
  The rows before the transaction is looked at: from the cache, or from the script.  The
  result tells whether the cache answered.
\<close>

definition pattern_rows ::
  "('w, 'z) ext_scheme \<Rightarrow> TableSpec \<Rightarrow> Key \<Rightarrow> bool \<Rightarrow> 'w st \<Rightarrow>
     (bool \<times> goerr option \<times> (string, Value) gomap \<times> Key list) option" where
  "pattern_rows x ts pat isComplete s =
     (let d = db s; dec = redis2key (Opts d) ts in
      case (if use_cache d (tsName ts) then
              (case gget (cTables (db_cache d)) (tsName ts) of
                 None \<Rightarrow> None | Some cTable \<Rightarrow> if tb_complete cTable then Some cTable else None)
            else None) of
        Some cTable \<Rightarrow> map_option (\<lambda>r. (True, None, r)) (cache_pick dec isComplete pat (tb_entry cTable) ([], []))
      | None \<Rightarrow>
          (case luaScriptGetTable x (world s) (client_of d) (key2redis (Opts d) ts pat) of
             Inl e \<Rightarrow> Some (False, Some e, [], [])
           | Inr (LList tkNv) \<Rightarrow> map_option (Pair False) (lua_walk dec tkNv 0 [] ([], []))
           | Inr _ \<Rightarrow> Some (False, Some (TranslibDBScriptFail ''Unexpected list''), [], [])))"

definition GetTablePattern ::
  "('w, 'z) ext_scheme \<Rightarrow> TableSpec \<Rightarrow> Key \<Rightarrow> 'w st \<Rightarrow> ((Table \<times> goerr option) \<times> 'w st) option" where
  "GetTablePattern x ts pat s =
     (let d = db s; patKey = key2redis (Opts d) ts pat; isComplete = IsAllKeyPattern pat;
          table = empty_table ts isComplete in
      if db_client d = None then Some ((zeroTable, Some TranslibDBConnectionReset), s)
      else
        case pattern_rows x ts pat isComplete s of
          None \<Rightarrow> None
        | Some (cacheHit, Some err, m, keys) \<Rightarrow> Some ((table\<lparr>tb_entry := m\<rparr>, Some err), s)
        | Some (cacheHit, None, m, keys) \<Rightarrow>
            let d1 = (if \<not> cacheHit \<and> isComplete \<and> use_cache d (tsName ts)
                      then put_cache_table ts isComplete patKey (m, keys) d else d) in
            (case table_reconcile (redis2key (Opts d) ts) isComplete pat
                    (tx_table (txTsEntryMap d) (tsName ts)) (m, keys) of
               None \<Rightarrow> None
             | Some (m', keys') \<Rightarrow>
                 let d2 = note_table (tsName ts)
                       (\<lambda>st. time_stats d [Total, TGetTablePattern] (x_dur x (world s))
                          (let st1 = inc GetTablePatternHits (inc Hits st)
                           in if cacheHit then inc GetTablePatternCacheHits st1 else st1)) d1
                 in Some ((table\<lparr>tb_entry := m', tb_patterns := [(patKey, keys')]\<rparr>, None), s\<lparr>db := d2\<rparr>)))"

section \<open>Metadata\<close>

definition DB_Get :: "('w, 'z) ext_scheme \<Rightarrow> string \<Rightarrow> 'w st \<Rightarrow> string \<times> goerr option" where
  "DB_Get x key s =
     (if db_client (db s) = None then ([], Some TranslibDBConnectionReset)
      else if \<not> strHasPrefix key ''CONFIG_DB'' \<or> strContains key ''|'' then ([], Some UseGetEntry)
      else case x_get x (world s) (client_of (db s)) key of Inl e \<Rightarrow> ([], Some e) | Inr v \<Rightarrow> (v, None))"

section \<open>The on-change cache\<close>

definition RegisterTableForOnChangeCaching :: "TableSpec \<Rightarrow> 'w st \<Rightarrow> goerr option \<times> 'w st" where
  "RegisterTableForOnChangeCaching ts s =
     (if \<not> IsOpen (db s) then (Some ConnectionClosed, s)
      else if \<not> IsOnChangeEnabled (Opts (db s)) then (Some OnChangeDisabled, s)
      else (None, upd_db (\<lambda>d. d\<lparr>onCReg := gset (tsName ts) True (onCReg d)\<rparr>) s))"

text \<open>The cached value of a row, the empty value when there is none.\<close>

definition cached_value :: "DB \<Rightarrow> TableSpec \<Rightarrow> Key \<Rightarrow> Value option" where
  "cached_value d ts key =
     (case gget (cTables (db_cache d)) (tsName ts) of
        None \<Rightarrow> None | Some t \<Rightarrow> gget (tb_entry t) (key2redis (Opts d) ts key))"

definition OnChangeCacheUpdate ::
  "('w, 'z) ext_scheme \<Rightarrow> TableSpec \<Rightarrow> Key \<Rightarrow> 'w st \<Rightarrow> (Value \<times> Value \<times> goerr option) \<times> 'w st" where
  "OnChangeCacheUpdate x ts key s =
     (if \<not> IsOpen (db s) then ((\<lparr>Flds = []\<rparr>, \<lparr>Flds = []\<rparr>, Some ConnectionClosed), s)
      else if \<not> IsOnChangeEnabled (Opts (db s)) then ((\<lparr>Flds = []\<rparr>, \<lparr>Flds = []\<rparr>, Some OnChangeDisabled), s)
      else
        let valueOrig = (case cached_value (db s) ts key of None \<Rightarrow> \<lparr>Flds = []\<rparr> | Some v \<Rightarrow> v) in
        case getEntry x ts key True s of ((value, e), s1) \<Rightarrow> ((valueOrig, value, e), s1))"

definition OnChangeCacheDelete :: "TableSpec \<Rightarrow> Key \<Rightarrow> 'w st \<Rightarrow> (Value \<times> goerr option) \<times> 'w st" where
  "OnChangeCacheDelete ts key s =
     (if \<not> IsOpen (db s) then ((\<lparr>Flds = []\<rparr>, Some ConnectionClosed), s)
      else if \<not> IsOnChangeEnabled (Opts (db s)) then ((\<lparr>Flds = []\<rparr>, Some OnChangeDisabled), s)
      else
        case cached_value (db s) ts key of
          None \<Rightarrow> ((\<lparr>Flds = []\<rparr>, None), s)
        | Some valueOrig \<Rightarrow>
            let t = cache_table ts False (db_cache (db s));
                t' = t\<lparr>tb_entry := gdel (key2redis (Opts (db s)) ts key) (tb_entry t)\<rparr> in
            ((valueOrig, None),
             upd_db (\<lambda>d. d\<lparr>db_cache := (db_cache d)\<lparr>cTables := gset (tsName ts) t' (cTables (db_cache d))\<rparr>\<rparr>) s))"

section \<open>Maps\<close>

definition use_map_cache :: "DB \<Rightarrow> string \<Rightarrow> bool" where
  "use_map_cache d name \<longleftrightarrow> PerConnection (dbCacheConfig d) \<and> isCacheMap (dbCacheConfig d) name"

definition put_cache_map :: "string \<Rightarrow> MAP \<Rightarrow> DB \<Rightarrow> DB" where
  "put_cache_map name m d = d\<lparr>db_cache := (db_cache d)\<lparr>cMaps := gset name m (cMaps (db_cache d))\<rparr>\<rparr>"

definition note_map :: "string \<Rightarrow> (Stats \<Rightarrow> Stats) \<Rightarrow> DB \<Rightarrow> DB" where
  "note_map name f d =
     (let stats = map_stats (dbStatsConfig d) (db_stats d) name in
      d\<lparr>db_stats := put_map_stats (dbStatsConfig d) (db_stats d) name (f stats)\<rparr>)"

text \<open>What redis answers is cached even when it is an error, as the empty string.\<close>

definition DB_GetMap ::
  "('w, 'z) ext_scheme \<Rightarrow> TableSpec \<Rightarrow> string \<Rightarrow> 'w st \<Rightarrow> (string \<times> goerr option) \<times> 'w st" where
  "DB_GetMap x ts mapKey s =
     (let d = db s; name = tsName ts in
      if db_client d = None then (([], Some TranslibDBConnectionReset), s)
      else
        let cached = (if use_map_cache d name then
                        (case gget (cMaps (db_cache d)) name of
                           None \<Rightarrow> None | Some mAP \<Rightarrow> gget (mapMap mAP) mapKey)
                      else None);
            (v, e, d1) =
              (case cached of
                 Some v \<Rightarrow> (v, None, d)
               | None \<Rightarrow>
                   (case (case x_hget x (world s) (client_of d) name mapKey of
                            Inl e \<Rightarrow> ([], Some e) | Inr v \<Rightarrow> (v, None)) of
                      (v, e) \<Rightarrow>
                        (v, e,
                         if use_map_cache d name then
                           (let m = (case gget (cMaps (db_cache d)) name of
                                       None \<Rightarrow> \<lparr>mp_ts = ts, mapMap = [], mp_complete = False\<rparr>
                                     | Some m \<Rightarrow> m)
                            in put_cache_map name (m\<lparr>mapMap := gset mapKey v (mapMap m)\<rparr>) d)
                         else d)));
            d2 = note_map name
                   (\<lambda>st. time_stats d [Total, TGetMap] (x_dur x (world s))
                      (let st1 = inc GetMapHits (inc Hits st)
                       in if cached \<noteq> None then inc GetMapCacheHits st1 else st1)) d1
        in ((v, e), s\<lparr>db := d2\<rparr>))"

definition DB_GetMapAll ::
  "('w, 'z) ext_scheme \<Rightarrow> TableSpec \<Rightarrow> 'w st \<Rightarrow> (Value \<times> goerr option) \<times> 'w st" where
  "DB_GetMapAll x ts s =
     (let d = db s; name = tsName ts in
      if db_client d = None then ((\<lparr>Flds = []\<rparr>, Some TranslibDBConnectionReset), s)
      else
        let cached = (if use_map_cache d name then
                        (case gget (cMaps (db_cache d)) name of
                           None \<Rightarrow> None
                         | Some mAP \<Rightarrow> if mp_complete mAP then Some (mapMap mAP) else None)
                      else None);
            (value, e, d1) =
              (case cached of
                 Some m \<Rightarrow> (\<lparr>Flds = m\<rparr>, None, d)
               | None \<Rightarrow>
                   (case x_hgetall x (world s) (client_of d) name of
                      Inl e \<Rightarrow> (\<lparr>Flds = []\<rparr>, Some e, d)
                    | Inr v \<Rightarrow>
                        if length v \<noteq> 0 then
                          (\<lparr>Flds = v\<rparr>, None,
                           if use_map_cache d name
                           then put_cache_map name \<lparr>mp_ts = ts, mapMap = v, mp_complete = True\<rparr> d
                           else d)
                        else (\<lparr>Flds = []\<rparr>, Some (TranslibRedisClientEntryNotExist name), d)));
            d2 = note_map name
                   (\<lambda>st. time_stats d [Total, TGetMapAll] (x_dur x (world s))
                      (let st1 = inc GetMapAllHits (inc Hits st)
                       in if cached \<noteq> None then inc GetMapAllCacheHits st1 else st1)) d1
        in ((value, e), s\<lparr>db := d2\<rparr>))"

text \<open>These two use the client without a test.\<close>

definition SetMap ::
  "('w, 'z) ext_scheme \<Rightarrow> TableSpec \<Rightarrow> string \<Rightarrow> string \<Rightarrow> 'w st \<Rightarrow> (goerr option \<times> 'w st) option" where
  "SetMap x ts mapKey mapValue s =
     (case db_client (db s) of
        None \<Rightarrow> None
      | Some c \<Rightarrow>
          (case x_do x (world s) c (cHSET (tsName ts) mapKey mapValue) of
             (w, r) \<Rightarrow> Some (case r of Inl e \<Rightarrow> Some e | Inr _ \<Rightarrow> None, s\<lparr>world := w\<rparr>)))"

definition DeleteMapAll ::
  "('w, 'z) ext_scheme \<Rightarrow> TableSpec \<Rightarrow> 'w st \<Rightarrow> (goerr option \<times> 'w st) option" where
  "DeleteMapAll x ts s =
     (case db_client (db s) of
        None \<Rightarrow> None
      | Some c \<Rightarrow>
          (case x_do x (world s) c (cDEL (tsName ts)) of
             (w, r) \<Rightarrow> Some (case r of Inl e \<Rightarrow> Some e | Inr _ \<Rightarrow> None, s\<lparr>world := w\<rparr>)))"

definition zeroMAP :: MAP where
  "zeroMAP = \<lparr>mp_ts = tspec [], mapMap = [], mp_complete = False\<rparr>"

definition GetMAP ::
  "('w, 'z) ext_scheme \<Rightarrow> TableSpec \<Rightarrow> 'w st \<Rightarrow> (MAP \<times> goerr option) \<times> 'w st" where
  "GetMAP x ts s =
     (if db_client (db s) = None then ((zeroMAP, Some TranslibDBConnectionReset), s)
      else case DB_GetMapAll x ts s of
             ((v, None), s1) \<Rightarrow> ((\<lparr>mp_ts = ts, mapMap = Flds v, mp_complete = True\<rparr>, None), s1)
           | ((v, Some e), s1) \<Rightarrow> ((zeroMAP, Some e), s1))"

definition MAP_GetMap :: "MAP \<Rightarrow> string \<Rightarrow> string \<times> goerr option" where
  "MAP_GetMap m mapKey =
     (case gget (mapMap m) mapKey of
        None \<Rightarrow> ([], Some (TranslibRedisClientEntryNotExist (tsName (mp_ts m))))
      | Some res \<Rightarrow> (res, None))"

definition MAP_GetMapAll :: "MAP \<Rightarrow> Value \<times> goerr option" where
  "MAP_GetMapAll m = (\<lparr>Flds = mapMap m\<rparr>, None)"

end
