(* ===== verification/DB_Cursor.thy ===== *)
theory DB_Cursor
  imports DB_Table
begin

text \<open>
  translib/db/db_cursor.go, the scan cursor, and db_get_config.go, which reads whole
  tables with it.

  SCAN and HSCAN are parameters, in the extension of \<open>ext\<close>: the position and the arguments
  give a page, the next position and an error.  A position is a Go \<open>uint64\<close>.  The loop that
  asks for pages until one is not empty may run forever, so it is a partial function; here
  \<open>None\<close> is a panic or a loop that does not end.
\<close>

record 'w scan_ext = "'w ext" +
  x_scan :: "'w \<Rightarrow> nat \<Rightarrow> u64 \<Rightarrow> string \<Rightarrow> int \<Rightarrow> string list \<times> u64 \<times> goerr option"
  x_hscan :: "'w \<Rightarrow> nat \<Rightarrow> string \<Rightarrow> u64 \<Rightarrow> string \<Rightarrow> int \<Rightarrow> string list \<times> u64 \<times> goerr option"

section \<open>The cursor\<close>

datatype ScanType = KeyScanType | FieldScanType

record ScanCursorOpts =
  CountHint :: int
  ReturnFixed :: bool
  AllowDuplicates :: bool
  so_ScanType :: ScanType
  FldScanPatt :: string
  so_AllowWritable :: bool

datatype scanner = keyScanner | fieldScanner string

text \<open>
  A nil map of seen keys is \<open>None\<close>.  The field \<open>lookAhead\<close> is left out: it is made and
  cleared, but never read (\<open>ReturnFixed\<close> is not implemented).  The message texts of the
  errors are shortened.
\<close>

record ScanCursor =
  sc_ts :: TableSpec
  sc_cursor :: u64
  sc_pattern :: Key
  sc_count :: int
  scanComplete :: bool
  seenKeys :: "(string, bool) gomap option"
  scnr :: scanner

fun scan ::
  "('w, 'z) scan_ext_scheme \<Rightarrow> 'w \<Rightarrow> nat \<Rightarrow> Options \<Rightarrow> ScanCursor \<Rightarrow> int \<Rightarrow> scanner \<Rightarrow>
     string list \<times> u64 \<times> goerr option" where
  "scan x w c opts sc countHint keyScanner =
     x_scan x w c (sc_cursor sc) (key2redis opts (sc_ts sc) (sc_pattern sc)) countHint"
| "scan x w c opts sc countHint (fieldScanner fldNamePattern) =
     x_hscan x w c
       (if length (Comp (sc_pattern sc)) > 0 then key2redis opts (sc_ts sc) (sc_pattern sc)
        else tsName (sc_ts sc))
       (sc_cursor sc) fldNamePattern countHint"

text \<open>
  \<open>NewScanCursor\<close>.  The last tests read \<open>scOpts\<close> even when it is nil: a panic.
\<close>

definition NewScanCursor ::
  "DB \<Rightarrow> TableSpec \<Rightarrow> Key \<Rightarrow> ScanCursorOpts option \<Rightarrow> (ScanCursor option \<times> goerr option) option" where
  "NewScanCursor d ts pattern scOpts =
     (if db_client d = None then Some (None, Some TranslibDBConnectionReset)
      else if \<not> IsWriteDisabled (Opts d) \<and>
              (case scOpts of None \<Rightarrow> True | Some o' \<Rightarrow> \<not> so_AllowWritable o') then
        Some (None, Some (GoError ''ScanCursor is not supported for write enabled DB''))
      else
        case scOpts of
          None \<Rightarrow> None
        | Some o' \<Rightarrow>
            Some (Some \<lparr>sc_ts = ts, sc_cursor = 0, sc_pattern = pattern,
                        sc_count = (if CountHint o' \<noteq> 0 then CountHint o' else 10),
                        scanComplete = False,
                        seenKeys = (if \<not> AllowDuplicates o' then Some [] else None),
                        scnr = (if so_ScanType o' = KeyScanType then keyScanner
                                else fieldScanner (FldScanPatt o'))\<rparr>, None))"

definition DeleteScanCursor :: "ScanCursor \<Rightarrow> goerr option \<times> ScanCursor" where
  "DeleteScanCursor sc = (None, sc\<lparr>scanComplete := True, seenKeys := None\<rparr>)"

section \<open>Pages\<close>

text \<open>The loop of \<open>getNext\<close>: until the scan is complete, a page has entries or there is an error.\<close>

partial_function (option) scan_loop ::
  "('w, 'z) scan_ext_scheme \<Rightarrow> 'w \<Rightarrow> nat \<Rightarrow> Options \<Rightarrow> int \<Rightarrow> string list \<Rightarrow> goerr option \<Rightarrow> ScanCursor \<Rightarrow>
     (string list \<times> goerr option \<times> ScanCursor) option" where
  "scan_loop x w c opts countHint entries e sc =
     (if \<not> scanComplete sc \<and> entries = [] \<and> e = None then
        (case scan x w c opts sc countHint (scnr sc) of
           (entries', cursor, e') \<Rightarrow>
             scan_loop x w c opts countHint entries' e'
               (sc\<lparr>sc_cursor := cursor, scanComplete := (scanComplete sc \<or> cursor = 0)\<rparr>))
      else Some (entries, e, sc))"

text \<open>The entries that were not seen before; with a nil map all of them.\<close>

fun unseen :: "string list \<Rightarrow> (string, bool) gomap option \<Rightarrow> string list \<times> (string, bool) gomap option" where
  "unseen [] seen = ([], seen)"
| "unseen (e # es) None = (case unseen es None of (r, seen') \<Rightarrow> (e # r, seen'))"
| "unseen (e # es) (Some m) =
     (if ghas m e then unseen es (Some m)
      else case unseen es (Some (gset e True m)) of (r, seen') \<Rightarrow> (e # r, seen'))"

text \<open>
  \<open>getNext\<close>: keys, redis keys, field names and values, and the error.  Without options the
  scan type is that of keys.
\<close>

definition getNext ::
  "('w, 'z) scan_ext_scheme \<Rightarrow> 'w \<Rightarrow> DB \<Rightarrow> ScanCursorOpts option \<Rightarrow> bool \<Rightarrow> ScanCursor \<Rightarrow>
     ((Key list \<times> string list \<times> string list \<times> bool \<times> goerr option) \<times> ScanCursor) option" where
  "getNext x w d scOpts returnRedisKeys sc =
     (let countHint = (case scOpts of
             None \<Rightarrow> sc_count sc | Some o' \<Rightarrow> if CountHint o' \<noteq> 0 then CountHint o' else sc_count sc);
          scanType = (case scOpts of None \<Rightarrow> KeyScanType | Some o' \<Rightarrow> so_ScanType o') in
      case (if db_client d = None \<and> \<not> scanComplete sc then None
            else scan_loop x w (client_of d) (Opts d) countHint [] None sc) of
        None \<Rightarrow> None
      | Some (entries, e, sc1) \<Rightarrow>
          if scanType = KeyScanType then
            (case unseen entries (seenKeys sc1) of
               (es, seen) \<Rightarrow>
                 let sc2 = sc1\<lparr>seenKeys := seen\<rparr> in
                 if returnRedisKeys then Some (([], es, [], scanComplete sc2, e), sc2)
                 else
                   (case those (map (redis2key (Opts d) (sc_ts sc2)) es) of
                      None \<Rightarrow> None
                    | Some keys \<Rightarrow> Some ((keys, [], [], scanComplete sc2, e), sc2)))
          else Some (([], [], entries, scanComplete sc1, e), sc1))"

definition is_keyScanner :: "scanner \<Rightarrow> bool" where
  "is_keyScanner scn = (case scn of keyScanner \<Rightarrow> True | fieldScanner _ \<Rightarrow> False)"

definition GetNextKeys ::
  "('w, 'z) scan_ext_scheme \<Rightarrow> 'w \<Rightarrow> DB \<Rightarrow> ScanCursorOpts option \<Rightarrow> ScanCursor \<Rightarrow>
     ((Key list \<times> bool \<times> goerr option) \<times> ScanCursor) option" where
  "GetNextKeys x w d scOpts sc =
     (if db_client d = None then Some (([], True, Some TranslibDBConnectionReset), sc)
      else if \<not> is_keyScanner (scnr sc) then Some (([], False, Some (GoError ''Invalid scanner interface'')), sc)
      else if (case scOpts of None \<Rightarrow> False | Some o' \<Rightarrow> so_ScanType o' = FieldScanType) then
        Some (([], False, Some (GoError ''Invalid scan cursor option'')), sc)
      else map_option (\<lambda>((keys, _, _, scnComplete, err), sc'). ((keys, scnComplete, err), sc'))
             (getNext x w d scOpts False sc))"

definition GetNextRedisKeys ::
  "('w, 'z) scan_ext_scheme \<Rightarrow> 'w \<Rightarrow> DB \<Rightarrow> ScanCursorOpts option \<Rightarrow> ScanCursor \<Rightarrow>
     ((string list \<times> bool \<times> goerr option) \<times> ScanCursor) option" where
  "GetNextRedisKeys x w d scOpts sc =
     (if \<not> is_keyScanner (scnr sc) then Some (([], False, Some (GoError ''Invalid scanner interface'')), sc)
      else if (case scOpts of None \<Rightarrow> False | Some o' \<Rightarrow> so_ScanType o' = FieldScanType) then
        Some (([], False, Some (GoError ''Invalid scan cursor option'')), sc)
      else map_option (\<lambda>((_, redisKeys, _, scnComplete, err), sc'). ((redisKeys, scnComplete, err), sc'))
             (getNext x w d scOpts True sc))"

text \<open>Names and values in turn; an odd number of strings is out of range.\<close>

fun field_pairs :: "string list \<Rightarrow> fields \<Rightarrow> fields option" where
  "field_pairs [] m = Some m"
| "field_pairs [_] m = None"
| "field_pairs (f # v # r) m = field_pairs r (gset f v m)"

definition GetNextFields ::
  "('w, 'z) scan_ext_scheme \<Rightarrow> 'w \<Rightarrow> DB \<Rightarrow> ScanCursorOpts option \<Rightarrow> ScanCursor \<Rightarrow>
     ((Value \<times> bool \<times> goerr option) \<times> ScanCursor) option" where
  "GetNextFields x w d scOpts sc =
     (if db_client d = None then Some ((\<lparr>Flds = []\<rparr>, True, Some TranslibDBConnectionReset), sc)
      else if is_keyScanner (scnr sc) then
        Some ((\<lparr>Flds = []\<rparr>, False, Some (GoError ''Invalid scanner interface'')), sc)
      else if (case scOpts of None \<Rightarrow> False | Some o' \<Rightarrow> so_ScanType o' = KeyScanType) then
        Some ((\<lparr>Flds = []\<rparr>, False, Some (GoError ''Invalid scan cursor option'')), sc)
      else
        case getNext x w d scOpts False sc of
          None \<Rightarrow> None
        | Some ((_, _, fldNameVals, scnComplete, err), sc') \<Rightarrow>
            (case field_pairs fldNameVals [] of
               None \<Rightarrow> None
             | Some m \<Rightarrow> Some ((\<lparr>Flds = m\<rparr>, scnComplete, err), sc')))"

section \<open>GetConfig\<close>

record GetConfigOptions =
  ScanCountHint :: int
  AllowWritable :: bool

definition SupportsReadOnly :: goerr where
  "SupportsReadOnly = TranslibDBInvalidState ''Supported on read only''"

definition OnChangeNoSupport :: goerr where
  "OnChangeNoSupport = TranslibDBInvalidState ''OnChange not supported''"

definition SupportsCfgDBOnly :: goerr where
  "SupportsCfgDBOnly = TranslibDBInvalidState ''Supported on CfgDB only''"

type_synonym config = "(TableSpec, Table) gomap"

text \<open>
  The first loop over a page: which redis keys are asked for, with the table of each.  The
  filter is looked up with the table specification made from the redis key, whose
  \<open>CompCt\<close> is 0.
\<close>

fun config_select ::
  "Options \<Rightarrow> bool \<Rightarrow> (TableSpec, bool) gomap \<Rightarrow> string list \<Rightarrow> (TableSpec \<times> string) list option" where
  "config_select opts filtered tsM [] = Some []"
| "config_select opts filtered tsM (rk # rks) =
     (case redis2ts_key opts rk of
        None \<Rightarrow> None
      | Some (rKts, key) \<Rightarrow>
          map_option
            (\<lambda>r. if filtered \<and> gget tsM rKts \<noteq> Some True then r else (rKts, rk) # r)
            (config_select opts filtered tsM rks))"

text \<open>The pipeline of HGETALL commands: the first error of a command ends it.\<close>

fun config_pipe ::
  "('w, 'z) ext_scheme \<Rightarrow> 'w \<Rightarrow> nat \<Rightarrow> (TableSpec \<times> string) list \<Rightarrow>
     goerr + (TableSpec \<times> string \<times> fields) list" where
  "config_pipe x w c [] = Inr []"
| "config_pipe x w c ((ts, rk) # qs) =
     (case x_hgetall x w c rk of
        Inl e \<Rightarrow> Inl e
      | Inr f \<Rightarrow> (case config_pipe x w c qs of Inl e \<Rightarrow> Inl e | Inr r \<Rightarrow> Inr ((ts, rk, f) # r)))"

text \<open>A table of the result, made when missing.\<close>

definition config_table :: "TableSpec \<Rightarrow> config \<Rightarrow> Table" where
  "config_table ts m = (case gget m ts of None \<Rightarrow> empty_table ts True | Some t \<Rightarrow> t)"

definition config_put :: "TableSpec \<Rightarrow> string \<Rightarrow> Value \<Rightarrow> config \<Rightarrow> config" where
  "config_put ts rk v m =
     (let t = config_table ts m in gset ts (t\<lparr>tb_entry := gset rk v (tb_entry t)\<rparr>) m)"

fun config_fill :: "(TableSpec \<times> string \<times> fields) list \<Rightarrow> config \<Rightarrow> config" where
  "config_fill [] m = m"
| "config_fill ((ts, rk, f) # r) m = config_fill r (config_put ts rk \<lparr>Flds = f\<rparr> m)"

text \<open>The loop over the pages.\<close>

partial_function (option) config_loop ::
  "('w, 'z) scan_ext_scheme \<Rightarrow> 'w \<Rightarrow> DB \<Rightarrow> ScanCursorOpts \<Rightarrow> bool \<Rightarrow> (TableSpec, bool) gomap \<Rightarrow>
     ScanCursor \<Rightarrow> config \<Rightarrow> (goerr + config) option" where
  "config_loop x w d scOpts filtered tsM sc m =
     (case GetNextRedisKeys x w d (Some scOpts) sc of
        None \<Rightarrow> None
      | Some ((redisKeys, scnComplete, err), sc') \<Rightarrow>
          if err \<noteq> None then Some (Inl (the err))
          else
            (case config_select (Opts d) filtered tsM redisKeys of
               None \<Rightarrow> None
             | Some qs \<Rightarrow>
                 (case config_pipe x w (client_of d) qs of
                    Inl e \<Rightarrow> Some (Inl e)
                  | Inr rows \<Rightarrow>
                      if scnComplete then Some (Inr (config_fill rows m))
                      else config_loop x w d scOpts filtered tsM sc' (config_fill rows m))))"

text \<open>
  \<open>applyTxCache\<close>: the queued commands of the transaction, one by one.  A table without
  rows is taken out of the result.
\<close>

fun remove_all :: "string list \<Rightarrow> Value \<Rightarrow> Value" where
  "remove_all [] v = v"
| "remove_all (n # ns) v = remove_all ns (Value_Remove v n)"

fun set_each :: "fields \<Rightarrow> Value \<Rightarrow> Value" where
  "set_each [] v = v"
| "set_each ((n, a) # fs) v = set_each fs (Value_Set v n a)"

definition config_delete :: "TableSpec \<Rightarrow> string \<Rightarrow> config \<Rightarrow> config" where
  "config_delete ts rk m =
     (case gget m ts of
        None \<Rightarrow> m
      | Some t \<Rightarrow>
          let rows = gdel rk (tb_entry t) in
          if length rows = 0 then gdel ts m else gset ts (t\<lparr>tb_entry := rows\<rparr>) m)"

definition apply_cmd :: "Options \<Rightarrow> (TableSpec, bool) gomap \<Rightarrow> txCmd \<Rightarrow> config \<Rightarrow> config" where
  "apply_cmd opts tableFilter cmd m =
     (let cmdTs = tspec (tsName (tc_ts cmd)); keyStr = key2redis opts cmdTs (tc_key cmd) in
      if length tableFilter \<noteq> 0 \<and> gget tableFilter cmdTs \<noteq> Some True then m
      else
        case tc_op cmd of
          txOpHMSet \<Rightarrow>
            (case gget m cmdTs of
               None \<Rightarrow> gset cmdTs (empty_table cmdTs True\<lparr>tb_entry := [(keyStr, Value_Copy (tc_value cmd))]\<rparr>) m
             | Some table \<Rightarrow>
                 (case gget (tb_entry table) keyStr of
                    Some entry \<Rightarrow> config_put cmdTs keyStr (set_each (Flds (tc_value cmd)) entry) m
                  | None \<Rightarrow> config_put cmdTs keyStr (Value_Copy (tc_value cmd)) m))
        | txOpHDel \<Rightarrow>
            (case gget m cmdTs of
               None \<Rightarrow> m
             | Some table \<Rightarrow>
                 (case gget (tb_entry table) keyStr of
                    None \<Rightarrow> m
                  | Some entry \<Rightarrow>
                      let entry' = remove_all (gkeys (Flds (tc_value cmd))) entry in
                      if \<not> IsPopulated entry' then config_delete cmdTs keyStr m
                      else config_put cmdTs keyStr entry' m))
        | txOpDel \<Rightarrow> config_delete cmdTs keyStr m
        | txOpNone \<Rightarrow> m)"

fun applyTxCache :: "Options \<Rightarrow> (TableSpec, bool) gomap \<Rightarrow> txCmd list \<Rightarrow> config \<Rightarrow> config" where
  "applyTxCache opts tableFilter [] m = m"
| "applyTxCache opts tableFilter (cmd # cmds) m =
     applyTxCache opts tableFilter cmds (apply_cmd opts tableFilter cmd m)"

text \<open>
  \<open>GetConfig\<close>.  One table is selected by the pattern of the scan, several by the filter, none
  selects all.
\<close>

definition GetConfig ::
  "('w, 'z) scan_ext_scheme \<Rightarrow> TableSpec list \<Rightarrow> GetConfigOptions option \<Rightarrow> ('w, 'q) st_scheme \<Rightarrow>
     (goerr + config) option" where
  "GetConfig x tables opt s =
     (let d = db s;
          allowWritable = (case opt of None \<Rightarrow> False | Some o' \<Rightarrow> AllowWritable o') in
      if DBNo (Opts d) \<noteq> ConfigDB then Some (Inl SupportsCfgDBOnly)
      else if \<not> IsWriteDisabled (Opts d) \<and> \<not> allowWritable then Some (Inl SupportsReadOnly)
      else if IsOnChangeEnabled (Opts d) then Some (Inl OnChangeNoSupport)
      else
        let ts = (if length tables = 1 then tables ! 0 else tspec ''*'');
            tsM = gset_all (map (\<lambda>t. (t, True)) tables) [];
            hint = (case opt of
                      None \<Rightarrow> 100 | Some o' \<Rightarrow> if ScanCountHint o' \<noteq> 0 then ScanCountHint o' else 100);
            scOpts = \<lparr>CountHint = hint, ReturnFixed = False, AllowDuplicates = True,
                      so_ScanType = KeyScanType, FldScanPatt = [], so_AllowWritable = allowWritable\<rparr>
        in
        case NewScanCursor d ts all_pat (Some scOpts) of
          Some (Some sc, None) \<Rightarrow>
            map_option
              (\<lambda>r. case r of
                     Inl e \<Rightarrow> Inl e
                   | Inr m \<Rightarrow> Inr (if allowWritable then applyTxCache (Opts d) tsM (txCmds d) m else m))
              (config_loop x (world s) d scOpts (length tables > 1) tsM sc [])
        | Some (_, Some err) \<Rightarrow> Some (Inl err)
        | _ \<Rightarrow> None)"

end
