(* ===== verification/DB_CvlAccess.thy ===== *)
theory DB_CvlAccess
  imports DB_Table
begin

text \<open>
  translib/db/cvl_db_access.go: the database that CVL validates against.  Its reads go
  through the connection, so CVL sees the rows that the transaction has changed; the
  pipeline asks redis for many values at once and then puts the changed rows over them.

  The Lua scripts of CVL and HMGET are parameters, in the extension of \<open>ext\<close>.  The JSON
  document passed to a script is the map that is encoded, \<open>None\<close> for its null.  \<open>None\<close> as
  the result of an operation is a panic.
\<close>

record 'w cvl_ext = "'w ext" +
  x_hmget :: "'w \<Rightarrow> nat \<Rightarrow> string \<Rightarrow> string list \<Rightarrow> goerr + string option list"
  x_runlua :: "'w \<Rightarrow> string \<Rightarrow> string list \<Rightarrow> (string, fields option) gomap \<Rightarrow> goerr + lval"

section \<open>Single reads\<close>

definition nil_if_not_exist :: "goerr option \<Rightarrow> goerr option" where
  "nil_if_not_exist e = (if IsTranslibRedisClientEntryNotExist e then Some redis_Nil else e)"

definition cvl_Keys ::
  "('w, 'z) ext_scheme \<Rightarrow> string \<Rightarrow> 'w st \<Rightarrow> ((string list \<times> goerr option) \<times> 'w st) option" where
  "cvl_Keys x pattern s =
     (case redis2ts_key (Opts (db s)) pattern of
        None \<Rightarrow> None
      | Some (ts, pat) \<Rightarrow>
          map_option
            (\<lambda>((keys, err), s1).
               (case nil_if_not_exist err of
                  Some e \<Rightarrow> ([], Some e)
                | None \<Rightarrow> (map (key2redis (Opts (db s)) ts) keys, None), s1))
            (GetKeysPattern x ts pat s))"

text \<open>\<open>Exists\<close> answers 0 when more than one key matches.\<close>

definition cvl_Exists ::
  "('w, 'z) ext_scheme \<Rightarrow> string \<Rightarrow> 'w st \<Rightarrow> ((int \<times> goerr option) \<times> 'w st) option" where
  "cvl_Exists x key s =
     map_option
       (\<lambda>((keys, err), s1).
          ((if length keys > 1 then 0 else int (length keys), nil_if_not_exist err), s1))
       (cvl_Keys x key s)"

definition cvl_HGetAll ::
  "('w, 'z) ext_scheme \<Rightarrow> string \<Rightarrow> 'w st \<Rightarrow> ((fields \<times> goerr option) \<times> 'w st) option" where
  "cvl_HGetAll x key s =
     (case redis2ts_key (Opts (db s)) key of
        None \<Rightarrow> None
      | Some (ts, k) \<Rightarrow>
          (case GetEntry x ts k s of
             ((v, err), s1) \<Rightarrow>
               Some ((Flds v, if IsTranslibRedisClientEntryNotExist err then None else err), s1)))"

definition cvl_HGet ::
  "('w, 'z) ext_scheme \<Rightarrow> string \<Rightarrow> string \<Rightarrow> 'w st \<Rightarrow> ((string \<times> goerr option) \<times> 'w st) option" where
  "cvl_HGet x key fld s =
     map_option
       (\<lambda>((data, err), s1).
          (case err of
             Some e \<Rightarrow> ([], Some e)
           | None \<Rightarrow> (case gget data fld of Some v \<Rightarrow> (v, None) | None \<Rightarrow> ([], Some redis_Nil)), s1))
       (cvl_HGetAll x key s)"

definition cvl_HMGet ::
  "('w, 'z) ext_scheme \<Rightarrow> string \<Rightarrow> string list \<Rightarrow> 'w st \<Rightarrow>
     ((string option list \<times> goerr option) \<times> 'w st) option" where
  "cvl_HMGet x key flds s =
     map_option
       (\<lambda>((data, err), s1).
          (case err of Some e \<Rightarrow> ([], Some e) | None \<Rightarrow> (map (gget data) flds, None), s1))
       (cvl_HGetAll x key s)"

section \<open>Searches\<close>

text \<open>The pending rows that match: null for a deleted row, without fields when not asked for.\<close>

definition tx_doc :: "bool \<Rightarrow> Value \<Rightarrow> fields option" where
  "tx_doc incRow v = (if length (Flds v) > 0 then Some (if incRow then Flds v else []) else None)"

fun tx_docs ::
  "string \<Rightarrow> bool \<Rightarrow> (string, Value) gomap \<Rightarrow> (string, fields option) gomap \<Rightarrow>
     (string, fields option) gomap" where
  "tx_docs pattern incRow [] m = m"
| "tx_docs pattern incRow ((k, v) # tx) m =
     tx_docs pattern incRow tx
       (if patternMatch k 0 pattern 0 then gset k (tx_doc incRow v) m else m)"

definition getTxData :: "DB \<Rightarrow> string \<Rightarrow> bool \<Rightarrow> (string, fields option) gomap option" where
  "getTxData d pattern incRow =
     (case redis2ts_key (Opts d) pattern of
        None \<Rightarrow> None
      | Some (ts, _) \<Rightarrow> Some (tx_docs pattern incRow (tx_table (txTsEntryMap d) (tsName ts)) []))"

definition predicateToReturnStmt :: "string \<Rightarrow> string" where
  "predicateToReturnStmt p =
     (if length p = 0 \<or> strHasPrefix p ''return'' then p else ''return ('' @ p @ '')'')"

record Search =
  sPattern :: string
  sPredicate :: string
  sKeyNames :: "string list"
  sWithField :: string
  sLimit :: int

definition cvl_Lookup :: "('w, 'z) cvl_ext_scheme \<Rightarrow> Search \<Rightarrow> 'w st \<Rightarrow> (string \<times> goerr option) option" where
  "cvl_Lookup x q s =
     (let count = (if sLimit q > 0 then Itoa (sLimit q) else []) in
      case getTxData (db s) (sPattern q) True of
        None \<Rightarrow> None
      | Some txEntries \<Rightarrow>
          (case x_runlua x (world s) ''filter_entries''
                  [sPattern q, strJoin (sKeyNames q) ''|'', predicateToReturnStmt (sPredicate q), [], count]
                  txEntries of
             Inl e \<Rightarrow> Some ([], Some e)
           | Inr (LStr v) \<Rightarrow> Some (v, None)
           | Inr _ \<Rightarrow> None))"

definition cvl_Count :: "('w, 'z) cvl_ext_scheme \<Rightarrow> Search \<Rightarrow> 'w st \<Rightarrow> (int \<times> goerr option) option" where
  "cvl_Count x q s =
     (let incRow = (length (sPredicate q) > 0 \<or> length (sWithField q) > 0) in
      case getTxData (db s) (sPattern q) incRow of
        None \<Rightarrow> None
      | Some txEntries \<Rightarrow>
          (case x_runlua x (world s) ''count_entries''
                  [sPattern q, strJoin (sKeyNames q) ''|'', predicateToReturnStmt (sPredicate q), sWithField q]
                  txEntries of
             Inl e \<Rightarrow> Some (0, Some e)
           | Inr (LNum v) \<Rightarrow> Some (v, None)
           | Inr _ \<Rightarrow> None))"

section \<open>The pipeline\<close>

text \<open>
  A query that waits for \<open>Exec\<close>.  The values that the transaction's cache holds are taken when
  the query is added; \<open>None\<close> means that redis is asked.
\<close>

datatype pipeQuery =
    pipeKeysResult string
  | pipeHMGetResult string "string list" "string option list option"
  | pipeHGetResult string string "string option option"
  | pipeHGetAllResult string "fields option"

datatype pipeAnswer =
    ansKeys "string list" "goerr option"
  | ansVals "string option list" "goerr option"
  | ansVal string "goerr option"
  | ansMap fields "goerr option"

definition pipe_Keys :: "string \<Rightarrow> pipeQuery list \<Rightarrow> pipeQuery list" where
  "pipe_Keys pattern p = p @ [pipeKeysResult pattern]"

text \<open>\<open>txTsEntryMap[ts.Name][key]\<close>.\<close>

definition tx_row :: "DB \<Rightarrow> string \<Rightarrow> Value option option" where
  "tx_row d key =
     (case redis2ts_key (Opts d) key of
        None \<Rightarrow> None | Some (ts, _) \<Rightarrow> Some (tx_get (txTsEntryMap d) (tsName ts) key))"

definition pipe_HMGet :: "DB \<Rightarrow> string \<Rightarrow> string list \<Rightarrow> pipeQuery list \<Rightarrow> pipeQuery list option" where
  "pipe_HMGet d key flds p =
     map_option
       (\<lambda>r. p @ [pipeHMGetResult key flds (map_option (\<lambda>txEntry. map (gget (Flds txEntry)) flds) r)])
       (tx_row d key)"

definition pipe_HGet :: "DB \<Rightarrow> string \<Rightarrow> string \<Rightarrow> pipeQuery list \<Rightarrow> pipeQuery list option" where
  "pipe_HGet d key fld p =
     map_option (\<lambda>r. p @ [pipeHGetResult key fld (map_option (\<lambda>txEntry. gget (Flds txEntry) fld) r)])
       (tx_row d key)"

definition pipe_HGetAll :: "DB \<Rightarrow> string \<Rightarrow> pipeQuery list \<Rightarrow> pipeQuery list option" where
  "pipe_HGetAll d key p =
     map_option (\<lambda>r. p @ [pipeHGetAllResult key (map_option (\<lambda>txEntry. gset_all (Flds txEntry) []) r)])
       (tx_row d key)"

text \<open>The loop of \<open>pipeKeysResult.update\<close> over the pending rows.\<close>

fun keys_update :: "string \<Rightarrow> (string, Value) gomap \<Rightarrow> (string, bool) gomap \<Rightarrow> (string, bool) gomap" where
  "keys_update pattern [] keyMap = keyMap"
| "keys_update pattern ((k, v) # tx) keyMap =
     keys_update pattern tx
       (if patternMatch k 0 pattern 0 then
          (if gget keyMap k = Some True then
             (if length (Flds v) = 0 then gset k False keyMap else keyMap)
           else if length (Flds v) > 0 then gset k True keyMap else keyMap)
        else keyMap)"

definition or_error :: "(goerr + 'a) \<Rightarrow> 'a \<Rightarrow> 'a \<times> goerr option" where
  "or_error r z = (case r of Inl e \<Rightarrow> (z, Some e) | Inr v \<Rightarrow> (v, None))"

text \<open>\<open>update\<close> of each kind of query, with the answer of redis read in place.\<close>

definition update_Keys ::
  "('w, 'z) cvl_ext_scheme \<Rightarrow> 'w \<Rightarrow> DB \<Rightarrow> string \<Rightarrow> pipeAnswer option" where
  "update_Keys x w d pattern =
     (case x_keys x w (client_of d) pattern of
        Inl e \<Rightarrow> Some (ansKeys [] (Some e))
      | Inr keys \<Rightarrow>
          (case redis2ts_key (Opts d) pattern of
             None \<Rightarrow> None
           | Some (ts, _) \<Rightarrow>
               let keyMap = keys_update pattern (tx_table (txTsEntryMap d) (tsName ts))
                     (gset_all (map (\<lambda>k. (k, True)) keys) [])
               in Some (ansKeys (map fst (filter snd keyMap)) None)))"

definition update_HMGet ::
  "('w, 'z) cvl_ext_scheme \<Rightarrow> 'w \<Rightarrow> DB \<Rightarrow> string \<Rightarrow> string list \<Rightarrow> string option list option \<Rightarrow> pipeAnswer" where
  "update_HMGet x w d key flds vals =
     (case vals of
        None \<Rightarrow> (case or_error (x_hmget x w (client_of d) key flds) [] of (v, e) \<Rightarrow> ansVals v e)
      | Some v \<Rightarrow> ansVals v None)"

definition update_HGet ::
  "('w, 'z) cvl_ext_scheme \<Rightarrow> 'w \<Rightarrow> DB \<Rightarrow> string \<Rightarrow> string \<Rightarrow> string option option \<Rightarrow> pipeAnswer" where
  "update_HGet x w d key fld val =
     (case val of
        None \<Rightarrow> (case or_error (x_hget x w (client_of d) key fld) [] of (v, e) \<Rightarrow> ansVal v e)
      | Some None \<Rightarrow> ansVal [] (Some redis_Nil)
      | Some (Some v) \<Rightarrow> ansVal v None)"

definition update_HGetAll ::
  "('w, 'z) cvl_ext_scheme \<Rightarrow> 'w \<Rightarrow> DB \<Rightarrow> string \<Rightarrow> fields option \<Rightarrow> pipeAnswer" where
  "update_HGetAll x w d key fnvMap =
     (case fnvMap of
        None \<Rightarrow> (case or_error (x_hgetall x w (client_of d) key) [] of (v, e) \<Rightarrow> ansMap v e)
      | Some m \<Rightarrow> ansMap m None)"

fun update :: "('w, 'z) cvl_ext_scheme \<Rightarrow> 'w \<Rightarrow> DB \<Rightarrow> pipeQuery \<Rightarrow> pipeAnswer option" where
  "update x w d (pipeKeysResult pattern) = update_Keys x w d pattern"
| "update x w d (pipeHMGetResult key flds vals) = Some (update_HMGet x w d key flds vals)"
| "update x w d (pipeHGetResult key fld val) = Some (update_HGet x w d key fld val)"
| "update x w d (pipeHGetAllResult key fnvMap) = Some (update_HGetAll x w d key fnvMap)"

text \<open>The error of a query's command; the pipeline reports the first one.\<close>

fun query_error :: "('w, 'z) cvl_ext_scheme \<Rightarrow> 'w \<Rightarrow> DB \<Rightarrow> pipeQuery \<Rightarrow> goerr option" where
  "query_error x w d (pipeKeysResult pattern) = snd (or_error (x_keys x w (client_of d) pattern) [])"
| "query_error x w d (pipeHMGetResult key flds vals) =
     (if vals = None then snd (or_error (x_hmget x w (client_of d) key flds) []) else None)"
| "query_error x w d (pipeHGetResult key fld val) =
     (if val = None then snd (or_error (x_hget x w (client_of d) key fld) []) else None)"
| "query_error x w d (pipeHGetAllResult key fnvMap) =
     (if fnvMap = None then snd (or_error (x_hgetall x w (client_of d) key) []) else None)"

fun first_error :: "goerr option list \<Rightarrow> goerr option" where
  "first_error [] = None"
| "first_error (None # es) = first_error es"
| "first_error (Some e # es) = Some e"

definition pipe_Exec ::
  "('w, 'z) cvl_ext_scheme \<Rightarrow> 'w \<Rightarrow> DB \<Rightarrow> pipeQuery list \<Rightarrow> (pipeAnswer list \<times> goerr option) option" where
  "pipe_Exec x w d p =
     map_option (\<lambda>as. (as, first_error (map (query_error x w d) p))) (those (map (update x w d) p))"

end
