(* ===== verification/DB_Rows.thy ===== *)
theory DB_Rows
  imports DB_TxView DB_Cursor DB_CvlAccess
begin

text \<open>
  The rows of a table as the reads of whole tables give them: every such read (key
  listing, \<open>GetTable\<close>, \<open>GetTablePattern\<close>, \<open>ExistKeysPattern\<close>, the reads of CVL) is
  reduced to the view of the transaction.
\<close>

section \<open>Row names\<close>

definition is_row :: "Options \<Rightarrow> TableSpec \<Rightarrow> string \<Rightarrow> bool" where
  "is_row opts ts rk \<longleftrightarrow> (\<exists>k. wf_key (opts, ts) k \<and> rk = key2redis opts ts k)"

text \<open>The key of a row name.\<close>

definition row_key :: "Options \<Rightarrow> TableSpec \<Rightarrow> string \<Rightarrow> Key" where
  "row_key opts ts rk = the (redis2key opts ts rk)"

lemma row_key_enc [simp]: "wf_key (opts, ts) k \<Longrightarrow> row_key opts ts (key2redis opts ts k) = k"
  by (simp add: row_key_def redis2key_key2redis)

lemma is_rowD:
  assumes "is_row opts ts rk"
  shows "redis2key opts ts rk = Some (row_key opts ts rk)"
    "key2redis opts ts (row_key opts ts rk) = rk" "wf_key (opts, ts) (row_key opts ts rk)"
  using assms by (auto simp: is_row_def redis2key_key2redis)

lemma row_key_inj: "inj_on (row_key opts ts) {rk. is_row opts ts rk}"
  by (rule inj_onI) (metis is_rowD(2) mem_Collect_eq)

text \<open>The characters that mean something in a pattern.\<close>

definition plain :: "string \<Rightarrow> bool" where
  "plain s \<longleftrightarrow> (\<forall>c \<in> set s. c \<noteq> CHR ''*'' \<and> c \<noteq> CHR ''?'' \<and> c \<noteq> CHR 0x5C)"

definition no_escape :: "string \<Rightarrow> bool" where
  "no_escape s \<longleftrightarrow> CHR 0x5C \<notin> set s"

lemma plain_simps [simp]: "plain []"
  "plain (c # s) \<longleftrightarrow> c \<noteq> CHR ''*'' \<and> c \<noteq> CHR ''?'' \<and> c \<noteq> CHR 0x5C \<and> plain s"
  "plain (s @ s') \<longleftrightarrow> plain s \<and> plain s'"
  by (auto simp: plain_def)

lemma plain_no_escape: "plain s \<Longrightarrow> no_escape s"
  by (auto simp: plain_def no_escape_def)

lemma glob_parse_append: "no_escape p \<Longrightarrow> glob_parse (p @ q) = glob_parse p @ glob_parse q"
  by (induction p) (auto simp: no_escape_def)

lemma glob_parse_plain: "plain p \<Longrightarrow> glob_parse p = map Lit p"
  by (induction p) auto

lemma glob_map_Lit: "glob (map Lit p @ ts) s \<longleftrightarrow> (\<exists>r. s = p @ r \<and> glob ts r)"
  by (induction p arbitrary: s) (auto simp: glob_Lit_iff)

lemma glob_append: "glob ts s \<Longrightarrow> glob us r \<Longrightarrow> glob (ts @ us) (s @ r)"
proof (induction ts s rule: glob.induct)
  case (glob_Star ts s y)
  then show ?case using glob.glob_Star[of "ts @ us" "s @ r" y] by simp
qed (auto intro: glob.intros)

lemma match_glob: "patternMatch s 0 p 0 \<longleftrightarrow> glob (glob_parse p) s"
  using patternMatch_glob[of 0 s 0 p] by simp

lemma match_prefix: "plain p \<Longrightarrow> patternMatch s 0 (p @ q) 0 \<longleftrightarrow> (\<exists>r. s = p @ r \<and> patternMatch r 0 q 0)"
  by (simp add: match_glob glob_parse_append plain_no_escape glob_parse_plain glob_map_Lit)

lemma match_star [simp]: "patternMatch s 0 ''*'' 0"
  by (simp add: match_glob glob_Star_all)

text \<open>A key that matches a pattern component by component matches it as a string.\<close>

lemma comps_match_join:
  assumes "comps_match ks ps" "length ks = length ps" "\<forall>p \<in> set ps. no_escape p" "plain [c]"
  shows "patternMatch (strJoin ks [c]) 0 (strJoin ps [c]) 0"
  using assms(1-3)
proof (induction ks ps rule: comps_match.induct)
  case (1 k ks p ps)
  have m: "glob (glob_parse p) k" "comps_match ks ps"
    using "1.prems" by (auto simp: match_glob glob_Star_all split: if_splits)
  show ?case
  proof (cases "ks = []")
    case True
    then show ?thesis using m "1.prems" by (simp add: match_glob)
  next
    case False
    then have ne: "ps \<noteq> []" using "1.prems"(2) by auto
    have "glob (glob_parse (strJoin ps [c])) (strJoin ks [c])"
      using "1.IH" m(2) "1.prems" by (auto simp: match_glob split: if_splits)
    then have "glob (glob_parse p @ Lit c # glob_parse (strJoin ps [c])) (k @ c # strJoin ks [c])"
      by (intro glob_append[OF m(1)] glob.glob_Lit)
    moreover have "no_escape p" "c \<noteq> CHR ''*''" "c \<noteq> CHR ''?''" "c \<noteq> CHR 0x5C"
      using "1.prems"(3) assms(4) by auto
    ultimately show ?thesis
      using False ne by (simp add: match_glob strJoin_Cons glob_parse_append)
  qed
qed (simp_all add: match_glob)

lemma Key_Matches_row:
  assumes "Key_Matches k pat" "wf_key (opts, ts) k" "plain (tsName ts)" "plain (KeySeparator opts)"
    and "\<forall>p \<in> set (Comp pat). no_escape p" "Comp pat \<noteq> [[]]"
  shows "patternMatch (key2redis opts ts k) 0 (key2redis opts ts pat) 0"
  using assms(2)
proof (rule wf_key_E)
  fix c
  assume c: "KeySeparator opts = [c]" "Comp k \<noteq> []" "Comp k \<noteq> [[]]"
  have m: "length (Comp k) = length (Comp pat)" "comps_match (Comp k) (Comp pat)"
    using assms(1) by (auto simp: Key_Matches_def Key_Len_def split: if_splits)
  then have ne: "Comp pat \<noteq> []" using c(2) by auto
  have p: "plain (tsName ts @ [c])" using assms(3,4) c(1) by simp
  have "patternMatch (strJoin (Comp k) [c]) 0 (strJoin (Comp pat) [c]) 0"
    using comps_match_join[OF m(2,1) assms(5)] p by simp
  then have "patternMatch ((tsName ts @ [c]) @ strJoin (Comp k) [c]) 0
      ((tsName ts @ [c]) @ strJoin (Comp pat) [c]) 0"
    unfolding match_prefix[OF p] by blast
  then show ?thesis
    by (simp add: key2redis_wf[OF c(1-3)] key2redis_wf[OF c(1) ne assms(6)])
qed

lemma all_pat_match:
  assumes "wf_key (opts, ts) k" "plain (tsName ts)" "plain (KeySeparator opts)"
  shows "patternMatch (key2redis opts ts k) 0 (key2redis opts ts all_pat) 0"
  using assms(1)
proof (rule wf_key_E)
  fix c
  assume c: "KeySeparator opts = [c]" "Comp k \<noteq> []" "Comp k \<noteq> [[]]"
  have p: "plain (tsName ts @ [c])" using assms(2,3) c(1) by simp
  have "patternMatch ((tsName ts @ [c]) @ strJoin (Comp k) [c]) 0 ((tsName ts @ [c]) @ ''*'') 0"
    unfolding match_prefix[OF p] by auto
  moreover have "key2redis opts ts all_pat = (tsName ts @ [c]) @ ''*''"
    using c(1) by (simp add: key2redis_def all_pat_def)
  ultimately show ?thesis by (simp add: key2redis_wf[OF c(1-3)])
qed

section \<open>The setting of a read\<close>

text \<open>
  Documented behaviour of HGETALL and KEYS: the content of the key, and the keys that exist
  and match.
\<close>

definition read_server ::
  "('w, 'z) ext_scheme \<Rightarrow> 'w \<Rightarrow> nat \<Rightarrow> (string \<Rightarrow> fields) \<Rightarrow> bool" where
  "read_server x w c base \<longleftrightarrow>
     (\<forall>k. x_hgetall x w c k = Inr (base k)) \<and> (\<forall>k. gok (base k)) \<and>
     (\<forall>p. \<exists>rks. x_keys x w c p = Inr rks \<and> distinct rks \<and>
            set rks = {k. base k \<noteq> [] \<and> patternMatch k 0 p 0})"

text \<open>
  A table whose names round-trip: one separator character, no pattern characters in the
  table's name, and every row, in redis or pending, is named by a key.
\<close>

definition clean_table :: "Options \<Rightarrow> TableSpec \<Rightarrow> (string \<Rightarrow> fields) \<Rightarrow> txCache \<Rightarrow> bool" where
  "clean_table opts ts base m \<longleftrightarrow>
     (\<exists>c. KeySeparator opts = [c] \<and> TableNameSeparator opts = [c] \<and> c \<notin> set (tsName ts)) \<and>
     plain (tsName ts) \<and> plain (KeySeparator opts) \<and>
     (\<forall>rk. base rk \<noteq> [] \<longrightarrow> strHasPrefix rk (tsName ts @ KeySeparator opts) \<longrightarrow> is_row opts ts rk) \<and>
     gok (tx_table m (tsName ts)) \<and>
     (\<forall>rk \<in> set (gkeys (tx_table m (tsName ts))). is_row opts ts rk) \<and> txok m"

definition readable :: "('w, 'z) ext_scheme \<Rightarrow> TableSpec \<Rightarrow> (string \<Rightarrow> fields) \<Rightarrow> 'w st \<Rightarrow> bool" where
  "readable x ts base s \<longleftrightarrow>
     IsOpen (db s) \<and> \<not> use_cache (db s) (tsName ts) \<and>
     read_server x (world s) (client_of (db s)) base \<and>
     clean_table (Opts (db s)) ts base (txTsEntryMap (db s))"

text \<open>The names that a listing with a pattern gives.\<close>

definition listed :: "(string \<Rightarrow> fields) \<Rightarrow> DB \<Rightarrow> TableSpec \<Rightarrow> string \<Rightarrow> string set" where
  "listed base d ts pat =
     {rk. is_row (Opts d) ts rk \<and> patternMatch rk 0 pat 0 \<and> view base d (tsName ts) rk \<noteq> []}"

lemma clean_tableE:
  assumes "clean_table opts ts base m"
  obtains c where "KeySeparator opts = [c]" "TableNameSeparator opts = [c]" "c \<notin> set (tsName ts)"
    "plain (tsName ts @ [c])"
    "\<And>rk. base rk \<noteq> [] \<Longrightarrow> strHasPrefix rk (tsName ts @ [c]) \<Longrightarrow> is_row opts ts rk"
    "gok (tx_table m (tsName ts))"
    "\<And>rk. rk \<in> set (gkeys (tx_table m (tsName ts))) \<Longrightarrow> is_row opts ts rk" "txok m"
proof -
  obtain c where c: "KeySeparator opts = [c]" "TableNameSeparator opts = [c]" "c \<notin> set (tsName ts)"
    using assms by (auto simp: clean_table_def)
  show ?thesis by (rule that[of c]) (use assms c in \<open>auto simp: clean_table_def\<close>)
qed

lemma readable_same:
  assumes "readable x ts base s" "same_tx (db s) (db s')" "same_pkg s s'"
  shows "readable x ts base s'" "view base (db s') = view base (db s)" "Opts (db s') = Opts (db s)"
  using assms view_cong[of "db s'" "db s" base]
  by (auto simp: readable_def same_tx_def same_pkg_def IsOpen_def use_cache_def)

lemma tx_table_row:
  assumes "gok (tx_table m t)"
  shows "(k, v) \<in> set (tx_table m t) \<longleftrightarrow> tx_get m t k = Some v"
  using assms gok_gget gget_in_set by (fastforce simp: tx_get_table)

text \<open>A row of redis that matches the pattern of a key of the table is a row of the table.\<close>

lemma matched_is_row:
  assumes "clean_table opts ts base m" "base rk \<noteq> []" "Comp pat \<noteq> []" "Comp pat \<noteq> [[]]"
    and "patternMatch rk 0 (key2redis opts ts pat) 0"
  shows "is_row opts ts rk"
  using assms(1)
proof (rule clean_tableE)
  fix c
  assume c: "KeySeparator opts = [c]" "plain (tsName ts @ [c])"
    and r: "\<And>rk. base rk \<noteq> [] \<Longrightarrow> strHasPrefix rk (tsName ts @ [c]) \<Longrightarrow> is_row opts ts rk"
  have "patternMatch rk 0 ((tsName ts @ [c]) @ strJoin (Comp pat) [c]) 0"
    using assms(5) by (simp add: key2redis_wf[OF c(1) assms(3,4)])
  then have "strHasPrefix rk (tsName ts @ [c])"
    unfolding match_prefix[OF c(2)] strHasPrefix_def by (auto simp del: append_assoc simp: append_assoc[symmetric] strip_prefix_Some)
  then show ?thesis by (rule r[OF assms(2)])
qed

lemma those_dec:
  "\<forall>rk \<in> set rks. is_row opts ts rk \<Longrightarrow>
     those (map (redis2key opts ts) rks) = Some (map (row_key opts ts) rks)"
  by (induction rks) (auto dest: is_rowD(1))

lemma distinct_row_keys:
  assumes "distinct rks" "\<forall>rk \<in> set rks. is_row opts ts rk"
  shows "distinct (map (row_key opts ts) rks)"
  unfolding distinct_map using assms by (auto intro: inj_on_subset[OF row_key_inj])

lemma enc_row_keys:
  assumes "\<forall>rk \<in> S. is_row opts ts rk"
  shows "key2redis opts ts ` row_key opts ts ` S = S"
  using assms by (force dest: is_rowD(2))

section \<open>Listing keys\<close>

lemma GetKeysPattern_rows:
  assumes "readable x ts base s" "Comp pat \<noteq> []" "Comp pat \<noteq> [[]]"
  obtains ks s' where "GetKeysPattern x ts pat s = Some ((ks, None), s')" "distinct ks"
    "\<forall>k \<in> set ks. wf_key (Opts (db s), ts) k"
    "key2redis (Opts (db s)) ts ` set ks = listed base (db s) ts (key2redis (Opts (db s)) ts pat)"
    "same_tx (db s) (db s')" "same_pkg s s'"
proof -
  let ?o = "Opts (db s)" and ?m = "txTsEntryMap (db s)" and ?t = "tsName ts"
  let ?p = "key2redis ?o ts pat" and ?tx = "tx_table ?m ?t" and ?f = "row_key ?o ts"
  have cl: "clean_table ?o ts base ?m" using assms(1) by (simp add: readable_def)
  obtain rks where rks: "x_keys x (world s) (client_of (db s)) ?p = Inr rks" "distinct rks"
    "set rks = {k. base k \<noteq> [] \<and> patternMatch k 0 ?p 0}"
    using assms(1) unfolding readable_def read_server_def by meson
  have gok: "gok ?tx" and rows: "\<forall>rk \<in> set (gkeys ?tx). is_row ?o ts rk"
    using cl by (auto simp: clean_table_def)
  have r: "\<forall>rk \<in> set rks. is_row ?o ts rk"
    using matched_is_row[OF cl _ assms(2,3)] rks(3) by auto
  have dec: "\<forall>(rk, v) \<in> set ?tx. redis2key ?o ts rk = Some (?f rk)"
    using rows by (force simp: gkeys_def dest: is_rowD(1))
  have inj: "inj_on ?f (set (gkeys ?tx))"
    using rows by (auto intro: inj_on_subset[OF row_key_inj])
  obtain ks where k: "reconcile_keys (redis2key ?o ts) ?p ?tx (map ?f rks) = Some ks" "distinct ks"
    "set ks = {key \<in> set (map ?f rks).
         \<not> (\<exists>rk v. (rk, v) \<in> set ?tx \<and> ?f rk = key \<and> patternMatch rk 0 ?p 0 \<and> Flds v = [])}
       \<union> {?f rk | rk v. (rk, v) \<in> set ?tx \<and> patternMatch rk 0 ?p 0 \<and> Flds v \<noteq> []}"
    using reconcile_keys_set[OF gok dec inj distinct_row_keys[OF rks(2) r]] by blast
  have g: "\<exists>s'. GetKeysPattern x ts pat s = Some ((ks, None), s')"
    using assms(1) rks(1) k(1) those_dec[OF r]
    by (auto simp: GetKeysPattern_def Let_def readable_def use_cache_def)
  have txr: "is_row ?o ts rk" if "(rk, v) \<in> set ?tx" for rk v
    using rows that by (force simp: gkeys_def)
  have same: "?f rk = ?f rk' \<longleftrightarrow> rk = rk'" if "is_row ?o ts rk" "is_row ?o ts rk'" for rk rk'
    using inj_onD[OF row_key_inj, of ?o ts rk rk'] that by auto
  have ks: "set ks = ?f ` listed base (db s) ts ?p"
  proof (intro set_eqI iffI)
    fix key
    assume "key \<in> set ks"
    then consider
        (old) rk where "rk \<in> set rks" "key = ?f rk"
          "\<not> (\<exists>rk' v. (rk', v) \<in> set ?tx \<and> ?f rk' = key \<and> patternMatch rk' 0 ?p 0 \<and> Flds v = [])"
      | (new) rk v where "(rk, v) \<in> set ?tx" "patternMatch rk 0 ?p 0" "Flds v \<noteq> []" "key = ?f rk"
      unfolding k(3) by auto
    then show "key \<in> ?f ` listed base (db s) ts ?p"
    proof cases
      case old
      then have "rk \<in> listed base (db s) ts ?p"
        using r rks(3) by (auto simp: listed_def view_def tx_table_row[OF gok] split: option.split)
      then show ?thesis using old(2) by blast
    next
      case new
      then have "rk \<in> listed base (db s) ts ?p"
        using txr by (auto simp: listed_def view_def tx_table_row[OF gok])
      then show ?thesis using new(4) by blast
    qed
  next
    fix key
    assume "key \<in> ?f ` listed base (db s) ts ?p"
    then obtain rk where rk: "key = ?f rk" "is_row ?o ts rk" "patternMatch rk 0 ?p 0"
      "view base (db s) ?t rk \<noteq> []" by (auto simp: listed_def)
    show "key \<in> set ks"
    proof (cases "tx_get ?m ?t rk")
      case None
      then have "rk \<in> set rks" using rk rks(3) by (simp add: view_def)
      moreover have "\<not> (\<exists>rk' v. (rk', v) \<in> set ?tx \<and> ?f rk' = key \<and> patternMatch rk' 0 ?p 0 \<and> Flds v = [])"
        using None rk(1,2) same txr by (auto simp: tx_table_row[OF gok])
      ultimately show ?thesis unfolding k(3) using rk(1) by auto
    next
      case (Some v)
      then show ?thesis unfolding k(3) using rk by (auto simp: view_def tx_table_row[OF gok])
    qed
  qed
  have li: "\<forall>rk \<in> listed base (db s) ts ?p. is_row ?o ts rk" by (simp add: listed_def)
  obtain s' where s': "GetKeysPattern x ts pat s = Some ((ks, None), s')" using g by blast
  show ?thesis
  proof (rule that[OF s' k(2) _ _ GetKeysPattern_same[OF s']])
    show "\<forall>k \<in> set ks. wf_key (?o, ts) k" unfolding ks using li is_rowD(3) by blast
    show "key2redis ?o ts ` set ks = listed base (db s) ts ?p" unfolding ks by (rule enc_row_keys[OF li])
  qed
qed

end
