(* ===== verification/DB_TableView.thy ===== *)
theory DB_TableView
  imports DB_Rows
begin

text \<open>
  What \<open>GetTable\<close>, \<open>GetTablePattern\<close> and \<open>ExistKeysPattern\<close> return, in terms of the view
  of the transaction.
\<close>

section \<open>GetTable\<close>

lemma GetEntry_row:
  assumes "readable x ts base s" "GetEntry x ts k s = ((v, e), s')"
  shows "v = \<lparr>Flds = view base (db s) (tsName ts) (key2redis (Opts (db s)) ts k)\<rparr>"
    "e \<noteq> None \<longleftrightarrow> Flds v = []" "same_tx (db s) (db s')" "same_pkg s s'"
proof -
  have "fst (getEntry x ts k False s) = (v, e)" "snd (getEntry x ts k False s) = s'"
    using assms by (simp_all add: GetEntry_def readable_def)
  moreover have "x_hgetall x (world s) (client_of (db s)) (key2redis (Opts (db s)) ts k) =
      Inr (base (key2redis (Opts (db s)) ts k))"
    "\<not> use_cache (db s) (tsName ts)" "txok (txTsEntryMap (db s))"
    using assms(1) by (auto simp: readable_def read_server_def clean_table_def)
  ultimately show "v = \<lparr>Flds = view base (db s) (tsName ts) (key2redis (Opts (db s)) ts k)\<rparr>"
    "e \<noteq> None \<longleftrightarrow> Flds v = []" "same_tx (db s) (db s')" "same_pkg s s'"
    using getEntry_view[of x s ts k base False] getEntry_same_tx[of s x ts k False]
      getEntry_same_pkg[of s x ts k False] by (auto simp: Let_def split: if_splits)
qed

lemma get_rows_view:
  assumes "readable x ts base s" "get_rows x ts ks m s = (m', s')"
  shows "gget m' rk =
      (if rk \<in> key2redis (Opts (db s)) ts ` set ks then Some \<lparr>Flds = view base (db s) (tsName ts) rk\<rparr>
       else gget m rk)"
    "gok m \<Longrightarrow> gok m'" "same_tx (db s) (db s')" "same_pkg s s'"
proof -
  have "(gget m' rk =
      (if rk \<in> key2redis (Opts (db s)) ts ` set ks then Some \<lparr>Flds = view base (db s) (tsName ts) rk\<rparr>
       else gget m rk)) \<and> (gok m \<longrightarrow> gok m') \<and> same_tx (db s) (db s') \<and> same_pkg s s'"
    using assms
  proof (induction ks arbitrary: m s)
    case (Cons k ks)
    obtain v e s1 where g: "GetEntry x ts k s = ((v, e), s1)" by (metis surj_pair)
    note v = GetEntry_row[OF Cons.prems(1) g]
    note same = readable_same[OF Cons.prems(1) v(3,4)]
    have w: "(if e \<noteq> None then \<lparr>Flds = []\<rparr> else v) = v" using v(2) by (cases v) auto
    have s1: "same_tx (db s) (db s')" if "same_tx (db s1) (db s')" using v(3) that by (simp add: same_tx_def)
    have s2: "same_pkg s s'" if "same_pkg s1 s'" using v(4) that by (simp add: same_pkg_def)
    have r: "get_rows x ts ks (gset (key2redis (Opts (db s)) ts k) v m) s1 = (m', s')"
      using Cons.prems(2) g w same(3) by simp
    show ?case using Cons.IH[OF same(1) r] s1 s2 v(1) by (auto simp: same(2,3))
  qed simp
  then show "gget m' rk =
      (if rk \<in> key2redis (Opts (db s)) ts ` set ks then Some \<lparr>Flds = view base (db s) (tsName ts) rk\<rparr>
       else gget m rk)"
    "gok m \<Longrightarrow> gok m'" "same_tx (db s) (db s')" "same_pkg s s'" by blast+
qed

text \<open>The row of a table as a reader of the whole table sees it.\<close>

definition seen_row :: "(string \<Rightarrow> fields) \<Rightarrow> DB \<Rightarrow> TableSpec \<Rightarrow> string \<Rightarrow> Value option" where
  "seen_row base d ts rk =
     (if is_row (Opts d) ts rk \<and> view base d (tsName ts) rk \<noteq> []
      then Some \<lparr>Flds = view base d (tsName ts) rk\<rparr> else None)"

lemma listed_all:
  assumes "clean_table (Opts d) ts base m"
  shows "rk \<in> listed base d ts (key2redis (Opts d) ts all_pat) \<longleftrightarrow> seen_row base d ts rk \<noteq> None"
proof (cases "is_row (Opts d) ts rk")
  case True
  then have "patternMatch rk 0 (key2redis (Opts d) ts all_pat) 0"
    using assms all_pat_match[of "Opts d" ts "row_key (Opts d) ts rk"] is_rowD[OF True]
    by (simp add: clean_table_def)
  then show ?thesis using True by (simp add: listed_def seen_row_def)
qed (simp add: listed_def seen_row_def)

lemma GetTable_view:
  assumes "readable x ts base s"
  obtains T s' where "GetTable x ts s = Some ((T, None), s')" "tb_ts T = ts"
    "\<And>rk. gget (tb_entry T) rk = seen_row base (db s) ts rk" "gok (tb_entry T)"
    "same_tx (db s) (db s')" "same_pkg s s'"
proof -
  have cl: "clean_table (Opts (db s)) ts base (txTsEntryMap (db s))" "db_client (db s) \<noteq> None"
    using assms by (simp_all add: readable_def IsOpen_def)
  have g: "GetKeys x ts s = GetKeysPattern x ts all_pat s"
    using cl(1) by (auto simp: GetKeys_def Let_def all_pat_def clean_table_def strSplitN_2_none)
  show thesis
  proof (rule GetKeysPattern_rows[OF assms, of all_pat])
    fix ks s1
    assume k: "GetKeysPattern x ts all_pat s = Some ((ks, None), s1)"
      "key2redis (Opts (db s)) ts ` set ks = listed base (db s) ts (key2redis (Opts (db s)) ts all_pat)"
      and same: "same_tx (db s) (db s1)" "same_pkg s s1"
    note r = readable_same[OF assms same]
    obtain m s2 where m: "get_rows x ts ks [] s1 = (m, s2)" by (metis surj_pair)
    note gr = get_rows_view[OF r(1) m]
    show thesis
    proof (rule that)
      show "GetTable x ts s = Some ((\<lparr>tb_ts = ts, tb_entry = m, tb_complete = True,
          tb_patterns = [(key2redis (Opts (db s1)) ts all_pat, ks)]\<rparr>, None), s2)"
        using cl(2) by (auto simp: GetTable_def g k(1) m)
      show "gget (tb_entry \<lparr>tb_ts = ts, tb_entry = m, tb_complete = True,
          tb_patterns = [(key2redis (Opts (db s1)) ts all_pat, ks)]\<rparr>) rk = seen_row base (db s) ts rk" for rk
        using gr(1)[of rk] listed_all[OF cl(1), of rk] k(2) by (simp add: r(2,3) seen_row_def split: if_splits)
      show "same_tx (db s) (db s2)" "same_pkg s s2"
        using gr(3,4) same by (simp_all add: same_tx_def same_pkg_def)
    qed (simp_all add: gr(2))
  qed (simp_all add: all_pat_def)
qed

section \<open>GetTablePattern\<close>

lemma lua_hash_flat:
  "j mod 2 = 0 \<Longrightarrow> lua_hash (concat (map (\<lambda>(a, b). [LStr a, LStr b]) f)) j fn m = Some (gset_all f m)"
proof (induction f arbitrary: j fn m)
  case (Cons p f)
  have "Suc j mod 2 \<noteq> 0" "Suc (Suc j) mod 2 = 0" using Cons.prems by presburger+
  then show ?case using Cons by (cases p) simp
qed simp

lemma gset_all_ok: "gok f \<Longrightarrow> gset_all f [] = f"
  using gset_all_append[of "[]" f] by simp

lemma lua_rows_walk:
  assumes "read_server x w c base" "\<forall>rk \<in> set rks. is_row opts ts rk" "i mod 2 = 0"
  shows "\<exists>r. lua_rows x w c rks = Inr r \<and>
     lua_walk (redis2key opts ts) r i k0 (m, keys) =
       Some (None, gset_all (map (\<lambda>rk. (rk, \<lparr>Flds = base rk\<rparr>)) rks) m, keys @ map (row_key opts ts) rks)"
  using assms(2,3)
proof (induction rks arbitrary: i k0 m keys)
  case (Cons rk rks)
  have i: "i mod 2 = 0" "Suc i mod 2 \<noteq> 0" "Suc (Suc i) mod 2 = 0" using Cons.prems(2) by presburger+
  have f: "x_hgetall x w c rk = Inr (base rk)" "gok (base rk)"
    using assms(1) by (auto simp: read_server_def)
  have row: "is_row opts ts rk" and rows: "\<forall>rk \<in> set rks. is_row opts ts rk" using Cons.prems(1) by auto
  let ?h = "concat (map (\<lambda>(a, b). [LStr a, LStr b]) (base rk))"
  let ?m = "gset rk \<lparr>Flds = base rk\<rparr> m" and ?keys = "keys @ [row_key opts ts rk]"
  have h: "lua_hash ?h 0 [] [] = Some (base rk)"
    by (simp add: lua_hash_flat gset_all_ok[OF f(2)])
  have two: "lua_walk (redis2key opts ts) (LStr rk # LList ?h # r) i k0 (m, keys) =
      lua_walk (redis2key opts ts) r (Suc (Suc i)) rk (?m, ?keys)" for r
    unfolding lua_walk.simps(2)[of _ "LStr rk"] lua_walk.simps(2)[of _ "LList ?h"]
    by (simp only: simp_thms i if_True if_False lval.case h option.case is_rowD(1)[OF row])
  obtain r where r: "lua_rows x w c rks = Inr r"
    "lua_walk (redis2key opts ts) r (Suc (Suc i)) rk (?m, ?keys) =
       Some (None, gset_all (map (\<lambda>rk. (rk, \<lparr>Flds = base rk\<rparr>)) rks) ?m, ?keys @ map (row_key opts ts) rks)"
    using Cons.IH[OF rows i(3), of rk ?m ?keys] by (elim exE conjE) (rule that)
  show ?case
    by (intro exI[of _ "LStr rk # LList ?h # r"] conjI) (simp_all only: two r lua_rows.simps f sum.case
        gset_all.simps list.map append_assoc append.simps)
qed simp

lemma gget_rows:
  "gget (gset_all (map (\<lambda>rk. (rk, g rk)) rks) m) k = (if k \<in> set rks then Some (g k) else gget m k)"
  by (induction rks arbitrary: m) auto

text \<open>
  The loop over the pending rows keeps the listed keys and the rows in step, and puts the
  pending rows that the pattern selects over the others.
\<close>

lemma table_reconcile_rows:
  assumes "gok tx" "\<forall>rk \<in> set (gkeys tx). is_row opts ts rk"
    and "distinct keys" "gok m" "\<forall>rk. is_row opts ts rk \<longrightarrow> row_key opts ts rk \<in> set keys \<longleftrightarrow> gget m rk \<noteq> None"
    and "\<forall>(rk, v) \<in> set tx. gok (Flds v)"
  shows "\<exists>m' keys'. table_reconcile (redis2key opts ts) isComplete pat tx (m, keys) = Some (m', keys') \<and>
     (\<forall>rk. gget m' rk =
        (case gget tx rk of
           None \<Rightarrow> gget m rk
         | Some v \<Rightarrow>
             if isComplete \<or> Key_Matches (row_key opts ts rk) pat
             then (if Flds v = [] then None else Some v) else gget m rk)) \<and> gok m'"
  using assms
proof (induction tx arbitrary: m keys)
  case (Cons p tx)
  obtain k v where p: "p = (k, v)" by (cases p)
  have row: "is_row opts ts k" and v: "Value_Copy v = v"
    using Cons.prems(2,6) by (auto simp: p gkeys_def Value_Copy_ok)
  have fresh: "gget tx k = None" using Cons.prems(1) by (simp add: p in_gkeys)
  let ?key = "row_key opts ts k" and ?sel = "isComplete \<or> Key_Matches (row_key opts ts k) pat"
  let ?m1 = "if ?sel then (if Flds v = [] then gdel k m else gset k v m) else m"
  let ?k1 = "if ?sel then (if Flds v = [] then remove1 ?key keys
               else if ?key \<in> set keys then keys else keys @ [?key]) else keys"
  have inkeys: "?key \<in> set keys \<longleftrightarrow> gget m k \<noteq> None" using Cons.prems(5) row by blast
  have gd: "gdel k m = m" if "gget m k = None"
    using that by (simp add: gdel_def gget_def delete_id map_of_eq_None_iff)
  have step: "table_reconcile (redis2key opts ts) isComplete pat (p # tx) (m, keys) =
      table_reconcile (redis2key opts ts) isComplete pat tx (?m1, ?k1)"
  proof (cases "key_index ?key keys 0")
    case None
    then have "?key \<notin> set keys" by (simp add: key_index_None)
    then show ?thesis using None inkeys gd is_rowD(1)[OF row] v by (simp add: p remove1_idem)
  next
    case (Some j)
    then show ?thesis
      using key_index_Some[OF Some] is_rowD(1)[OF row] v by (simp add: p)
  qed
  have d1: "distinct ?k1" using Cons.prems(3) by auto
  have inj: "row_key opts ts rk = ?key \<longleftrightarrow> rk = k" if "is_row opts ts rk" for rk
    using inj_onD[OF row_key_inj, of opts ts rk k] that row by auto
  have inv: "\<forall>rk. is_row opts ts rk \<longrightarrow> row_key opts ts rk \<in> set ?k1 \<longleftrightarrow> gget ?m1 rk \<noteq> None"
    using Cons.prems(3,5) inj by (auto simp: set_remove1_eq)
  have "\<exists>m' keys'. table_reconcile (redis2key opts ts) isComplete pat tx (?m1, ?k1) = Some (m', keys') \<and>
     (\<forall>rk. gget m' rk =
        (case gget tx rk of
           None \<Rightarrow> gget ?m1 rk
         | Some v \<Rightarrow>
             if isComplete \<or> Key_Matches (row_key opts ts rk) pat
             then (if Flds v = [] then None else Some v) else gget ?m1 rk)) \<and> gok m'"
    by (rule Cons.IH) (use Cons.prems d1 inv in \<open>auto simp: p gkeys_def\<close>)
  then obtain m' keys' where r: "table_reconcile (redis2key opts ts) isComplete pat tx (?m1, ?k1) = Some (m', keys')"
    "\<forall>rk. gget m' rk =
        (case gget tx rk of
           None \<Rightarrow> gget ?m1 rk
         | Some v \<Rightarrow>
             if isComplete \<or> Key_Matches (row_key opts ts rk) pat
             then (if Flds v = [] then None else Some v) else gget ?m1 rk)" "gok m'" by blast
  show ?case
  proof (intro exI conjI allI)
    show "table_reconcile (redis2key opts ts) isComplete pat (p # tx) (m, keys) = Some (m', keys')"
      using step r(1) by simp
    show "gget m' rk = (case gget (p # tx) rk of
           None \<Rightarrow> gget m rk
         | Some v \<Rightarrow>
             if isComplete \<or> Key_Matches (row_key opts ts rk) pat
             then (if Flds v = [] then None else Some v) else gget m rk)" for rk
      using r(2)[rule_format, of rk] fresh by (cases "rk = k") (auto simp: p split: option.splits)
  qed (rule r(3))
qed simp

text \<open>
  With a pattern that selects the same pending rows component by component (\<open>Key.Matches\<close>)
  and as a string (the matcher of redis), the table holds the rows of the listing.
\<close>

lemma GetTablePattern_view:
  assumes "readable x ts base s" "Comp pat \<noteq> []" "Comp pat \<noteq> [[]]"
    and agree: "\<forall>rk \<in> set (gkeys (tx_table (txTsEntryMap (db s)) (tsName ts))).
      (IsAllKeyPattern pat \<or> Key_Matches (row_key (Opts (db s)) ts rk) pat) \<longleftrightarrow>
        patternMatch rk 0 (key2redis (Opts (db s)) ts pat) 0"
  obtains P s' where "GetTablePattern x ts pat s = Some ((P, None), s')" "tb_ts P = ts"
    "\<And>rk. gget (tb_entry P) rk =
       (if rk \<in> listed base (db s) ts (key2redis (Opts (db s)) ts pat)
        then Some \<lparr>Flds = view base (db s) (tsName ts) rk\<rparr> else None)"
    "gok (tb_entry P)" "same_tx (db s) (db s')" "same_pkg s s'"
proof -
  let ?o = "Opts (db s)" and ?m = "txTsEntryMap (db s)" and ?t = "tsName ts"
  let ?p = "key2redis ?o ts pat" and ?tx = "tx_table ?m ?t" and ?f = "row_key ?o ts"
  have cl: "clean_table ?o ts base ?m" and rs: "read_server x (world s) (client_of (db s)) base"
    and nc: "\<not> use_cache (db s) ?t" and cli: "db_client (db s) \<noteq> None"
    using assms(1) by (simp_all add: readable_def IsOpen_def)
  obtain rks where rks: "x_keys x (world s) (client_of (db s)) ?p = Inr rks" "distinct rks"
    "set rks = {k. base k \<noteq> [] \<and> patternMatch k 0 ?p 0}"
    using rs unfolding read_server_def by meson
  have gok: "gok ?tx" and rows: "\<forall>rk \<in> set (gkeys ?tx). is_row ?o ts rk"
    and txv: "\<forall>(rk, v) \<in> set ?tx. gok (Flds v)"
    using cl tx_table_row[of ?m ?t] by (auto simp: clean_table_def txok_def)
  have r: "\<forall>rk \<in> set rks. is_row ?o ts rk"
    using matched_is_row[OF cl _ assms(2,3)] rks(3) by auto
  define m0 where "m0 = gset_all (map (\<lambda>rk. (rk, \<lparr>Flds = base rk\<rparr>)) rks) []"
  obtain l where l: "lua_rows x (world s) (client_of (db s)) rks = Inr l"
    "lua_walk (redis2key ?o ts) l 0 [] ([], []) = Some (None, m0, map ?f rks)"
    using lua_rows_walk[OF rs r, of 0 "[]" "[]" "[]"] by (auto simp: m0_def)
  have pr: "pattern_rows x ts pat (IsAllKeyPattern pat) s = Some (False, None, m0, map ?f rks)"
    using nc l by (simp add: pattern_rows_def Let_def luaScriptGetTable_def rks(1))
  have m0: "gget m0 rk = (if rk \<in> set rks then Some \<lparr>Flds = base rk\<rparr> else None)" for rk
    by (simp add: m0_def gget_rows)
  have inv: "\<forall>rk. is_row ?o ts rk \<longrightarrow> ?f rk \<in> set (map ?f rks) \<longleftrightarrow> gget m0 rk \<noteq> None"
  proof (intro allI impI)
    fix rk
    assume rk: "is_row ?o ts rk"
    have "?f rk \<in> ?f ` set rks \<longleftrightarrow> rk \<in> set rks"
      by (rule inj_on_image_mem_iff[OF row_key_inj]) (use r rk in auto)
    then show "?f rk \<in> set (map ?f rks) \<longleftrightarrow> gget m0 rk \<noteq> None" by (simp add: m0)
  qed
  have g0: "gok m0" by (simp add: m0_def)
  obtain m' keys' where t: "table_reconcile (redis2key ?o ts) (IsAllKeyPattern pat) pat ?tx (m0, map ?f rks) = Some (m', keys')"
    "\<forall>rk. gget m' rk =
        (case gget ?tx rk of
           None \<Rightarrow> gget m0 rk
         | Some v \<Rightarrow>
             if IsAllKeyPattern pat \<or> Key_Matches (?f rk) pat
             then (if Flds v = [] then None else Some v) else gget m0 rk)" "gok m'"
    using table_reconcile_rows[OF gok rows distinct_row_keys[OF rks(2) r] g0 inv txv, of "IsAllKeyPattern pat" pat]
    by blast
  have e: "gget m' rk = (if rk \<in> listed base (db s) ts ?p then Some \<lparr>Flds = view base (db s) ?t rk\<rparr> else None)" for rk
  proof (cases "gget ?tx rk")
    case None
    then have "view base (db s) ?t rk = base rk" by (simp add: view_def tx_get_table)
    then show ?thesis
      using t(2)[rule_format, of rk] None r rks(3) by (auto simp: m0 listed_def)
  next
    case (Some v)
    then have v: "view base (db s) ?t rk = Flds v" "rk \<in> set (gkeys ?tx)" "is_row ?o ts rk"
      using rows by (auto simp: view_def tx_get_table in_gkeys)
    have "IsAllKeyPattern pat \<or> Key_Matches (?f rk) pat \<longleftrightarrow> patternMatch rk 0 ?p 0"
      using agree v(2) by blast
    then have "gget m' rk = (if patternMatch rk 0 ?p 0 then (if Flds v = [] then None else Some v) else gget m0 rk)"
      using t(2)[rule_format, of rk] Some by simp
    then show ?thesis
      using v(1,3) rks(3) by (cases v) (simp add: m0 listed_def)
  qed
  have res: "\<exists>P s'. GetTablePattern x ts pat s = Some ((P, None), s') \<and> tb_ts P = ts \<and> tb_entry P = m' \<and>
      same_tx (db s) (db s') \<and> same_pkg s s'"
    using cli nc by (auto simp: GetTablePattern_def Let_def pr t(1) empty_table_def)
  then show thesis using that e t(3) by metis
qed

lemma GetTablePattern_all_view:
  assumes "readable x ts base s"
  obtains P s' where "GetTablePattern x ts all_pat s = Some ((P, None), s')" "tb_ts P = ts"
    "\<And>rk. gget (tb_entry P) rk = seen_row base (db s) ts rk" "gok (tb_entry P)"
    "same_tx (db s) (db s')" "same_pkg s s'"
proof -
  have cl: "clean_table (Opts (db s)) ts base (txTsEntryMap (db s))" using assms by (simp add: readable_def)
  have agree: "\<forall>rk \<in> set (gkeys (tx_table (txTsEntryMap (db s)) (tsName ts))).
      (IsAllKeyPattern all_pat \<or> Key_Matches (row_key (Opts (db s)) ts rk) all_pat) \<longleftrightarrow>
        patternMatch rk 0 (key2redis (Opts (db s)) ts all_pat) 0"
    using cl all_pat_match by (fastforce simp: clean_table_def IsAllKeyPattern_iff all_pat_def dest: is_rowD)
  show thesis
    by (rule GetTablePattern_view[OF assms _ _ agree])
       (auto simp: all_pat_def listed_all[OF cl, unfolded all_pat_def] seen_row_def intro!: that[unfolded all_pat_def])
qed

section \<open>ExistKeysPattern\<close>

lemma same_pkg_upd_db [simp]: "same_pkg s (upd_db f s') = same_pkg s s'"
  by (simp add: same_pkg_def)

lemma tx_exists_rows:
  assumes "\<forall>rk \<in> set (gkeys tx). is_row opts ts rk"
  shows "tx_exists (redis2key opts ts) pat tx =
     Some (\<exists>(rk, v) \<in> set tx. Key_Matches (row_key opts ts rk) pat \<and> Flds v \<noteq> [])"
  using assms
proof (induction tx)
  case (Cons p tx)
  then show ?case using is_rowD(1)[of opts ts "fst p"] by (cases p) (auto simp: gkeys_def)
qed simp

lemma ExistKeysPattern_view:
  assumes "readable x ts base s" "Comp pat \<noteq> []" "Comp pat \<noteq> [[]]" "\<forall>p \<in> set (Comp pat). no_escape p"
    and "IsWriteDisabled (Opts (db s)) \<Longrightarrow> tx_table (txTsEntryMap (db s)) (tsName ts) = []"
  obtains s' where "ExistKeysPattern x ts pat s =
      Some ((listed base (db s) ts (key2redis (Opts (db s)) ts pat) \<noteq> {}, None), s')"
    "same_tx (db s) (db s')" "same_pkg s s'"
proof -
  let ?o = "Opts (db s)" and ?m = "txTsEntryMap (db s)" and ?t = "tsName ts"
  let ?p = "key2redis ?o ts pat" and ?tx = "tx_table ?m ?t"
  let ?L = "listed base (db s) ts ?p"
  have cl: "clean_table ?o ts base ?m" and rs: "read_server x (world s) (client_of (db s)) base"
    and nc: "\<not> use_cache (db s) ?t" and cli: "db_client (db s) \<noteq> None"
    using assms(1) by (simp_all add: readable_def IsOpen_def)
  have gok: "gok ?tx" and rows: "\<forall>rk \<in> set (gkeys ?tx). is_row ?o ts rk"
    and pl: "plain ?t" "plain (KeySeparator ?o)"
    using cl by (auto simp: clean_table_def)
  show thesis
  proof (cases "IsWriteDisabled ?o")
    case True
    obtain rks where rks: "x_keys x (world s) (client_of (db s)) ?p = Inr rks"
      "set rks = {k. base k \<noteq> [] \<and> patternMatch k 0 ?p 0}"
      using rs unfolding read_server_def by meson
    have "view base (db s) ?t = base"
      using assms(5)[OF True] by (intro ext) (simp add: view_def tx_get_table)
    then have "?L = set rks"
      using matched_is_row[OF cl _ assms(2,3)] rks(2) by (auto simp: listed_def)
    then have "(rks \<noteq> []) = (?L \<noteq> {})" by simp
    then show thesis
      using True nc cli rks(1) by (intro that) (auto simp: ExistKeysPattern_def Let_def use_cache_def
          luaScriptExistsKeysPatterns_def script_exists_def)
  next
    case False
    have tx: "rk \<in> ?L" if "(rk, v) \<in> set ?tx" "Key_Matches (row_key ?o ts rk) pat" "Flds v \<noteq> []" for rk v
    proof -
      have row: "is_row ?o ts rk" using rows that(1) by (force simp: gkeys_def)
      then have "patternMatch rk 0 ?p 0"
        using Key_Matches_row[OF that(2) is_rowD(3)[OF row] pl assms(4,3)] by (simp add: is_rowD(2))
      then show ?thesis using row that tx_table_row[OF gok] by (simp add: listed_def view_def)
    qed
    show thesis
    proof (cases "\<exists>(rk, v) \<in> set ?tx. Key_Matches (row_key ?o ts rk) pat \<and> Flds v \<noteq> []")
      case hit: True
      then have "?L \<noteq> {}" using tx by blast
      then show thesis
        using False cli hit by (intro that) (auto simp: ExistKeysPattern_def Let_def tx_exists_rows[OF rows])
    next
      case miss: False
      have te: "tx_exists (redis2key ?o ts) pat ?tx = Some False"
        using miss by (simp add: tx_exists_rows[OF rows])
      show thesis
      proof (rule GetKeysPattern_rows[OF assms(1-3)])
        fix ks s1
        assume k: "GetKeysPattern x ts pat s = Some ((ks, None), s1)" "key2redis ?o ts ` set ks = ?L"
          and same: "same_tx (db s) (db s1)" "same_pkg s s1"
        have "(ks \<noteq> []) = (?L \<noteq> {})" using k(2) by auto
        then have "\<exists>s'. ExistKeysPattern x ts pat s = Some ((?L \<noteq> {}, None), s') \<and>
            same_tx (db s) (db s') \<and> same_pkg s s'"
          using False cli k(1) te same by (simp add: ExistKeysPattern_def Let_def)
        then show thesis using that by blast
      qed
    qed
  qed
qed

section \<open>Maps and the on-change cache\<close>

text \<open>
  With the map cache, the error of a missing field is reported once: the empty string is
  cached, and the next read returns it without an error.
\<close>

lemma GetMap_caches_error:
  assumes "db_client (db s) = Some c" "use_map_cache (db s) (tsName ts)"
    and "x_hget x (world s) c (tsName ts) k = Inl e"
    and "\<forall>m. gget (cMaps (db_cache (db s))) (tsName ts) = Some m \<longrightarrow> gget (mapMap m) k = None"
  obtains s1 s2 where "DB_GetMap x ts k s = (([], Some e), s1)" "DB_GetMap x ts k s1 = (([], None), s2)"
proof -
  have m: "(case gget (cMaps (db_cache (db s))) (tsName ts) of None \<Rightarrow> None | Some mAP \<Rightarrow> gget (mapMap mAP) k) = None"
    using assms(4) by (auto split: option.split)
  have "fst (DB_GetMap x ts k s) = ([], Some e)" "fst (DB_GetMap x ts k (snd (DB_GetMap x ts k s))) = ([], None)"
    using assms(1-3) m by (auto simp: DB_GetMap_def Let_def put_cache_map_def note_map_def use_map_cache_def)
  then show thesis using that by (metis prod.collapse)
qed

text \<open>The value that an update has put into the on-change cache is the one that later reads return.\<close>

lemma OnChangeCacheUpdate_cached:
  assumes "OnChangeCacheUpdate x ts key s = ((v0, v, None), s')" "IsOpen (db s)" "IsOnChangeEnabled (Opts (db s))"
    and "onCReg_isCacheTable (onCReg (db s)) (tsName ts)" "tx_get (txTsEntryMap (db s)) (tsName ts) (key2redis (Opts (db s)) ts key) = None"
  shows "cached_value (db s') ts key = Some (Value_Copy v)"
    "fst (GetEntry x ts key (s'\<lparr>world := w\<rparr>)) = (Value_Copy v, None)"
proof -
  have g: "getEntry x ts key True s = ((v, None), s')"
    using assms(1-3) by (auto simp: OnChangeCacheUpdate_def Let_def split: prod.splits)
  let ?k = "key2redis (Opts (db s)) ts key"
  have uc: "use_cache (db s) (tsName ts)" using assms(3,4) by (simp add: use_cache_def)
  obtain f where f: "x_hgetall x (world s) (client_of (db s)) ?k = Inr f" "f \<noteq> []" "v = \<lparr>Flds = f\<rparr>"
    using g assms(5) by (cases "x_hgetall x (world s) (client_of (db s)) ?k")
      (auto simp: getEntry_def Let_def IsPopulated_iff split: if_splits)
  have s': "\<exists>n. db s' = note_table (tsName ts) n (put_cache_entry ts ?k (Value_Copy v) (db s))"
    using g assms(5) uc f by (auto simp: getEntry_def Let_def IsPopulated_iff)
  then show c: "cached_value (db s') ts key = Some (Value_Copy v)"
    by (auto simp: cached_value_def put_cache_entry_def Let_def)
  have "Value_Copy (Value_Copy v) = Value_Copy v" by simp
  moreover have "use_cache (db s') (tsName ts)" "IsOpen (db s')" "txTsEntryMap (db s') = txTsEntryMap (db s)"
    "Opts (db s') = Opts (db s)"
    using s' uc assms(2) by (auto simp: use_cache_def IsOpen_def)
  moreover have "Flds (Value_Copy v) \<noteq> []" using f by (simp add: Value_Copy_empty)
  ultimately show "fst (GetEntry x ts key (s'\<lparr>world := w\<rparr>)) = (Value_Copy v, None)"
    using c assms(5) by (auto simp: GetEntry_def getEntry_def Let_def cached_value_def IsPopulated_iff split: option.splits)
qed

lemma OnChangeCacheDelete_cached:
  assumes "OnChangeCacheDelete ts key s = ((v, None), s')"
  shows "cached_value (db s') ts key = None" "v = (case cached_value (db s) ts key of None \<Rightarrow> \<lparr>Flds = []\<rparr> | Some u \<Rightarrow> u)"
  using assms by (auto simp: OnChangeCacheDelete_def cached_value_def cache_table_def Let_def split: if_splits option.splits)

end
