(* ===== verification/DB_ScanView.thy ===== *)
theory DB_ScanView
  imports DB_TableView
begin

text \<open>
  What a scan returns over all of its pages, that it ends when the server's scan ends, and
  that \<open>GetConfig\<close> is the content with the transaction's commands run on it.
\<close>

section \<open>A scan of the server\<close>

text \<open>The pages from a position on, without errors, up to the page with the next position 0.\<close>

inductive scan_run :: "(u64 \<Rightarrow> string list \<times> u64 \<times> goerr option) \<Rightarrow> u64 \<Rightarrow> string list list \<Rightarrow> bool"
  for nx where
  scan_last: "nx cur = (es, 0, None) \<Longrightarrow> scan_run nx cur [es]"
| scan_more: "nx cur = (es, cur', None) \<Longrightarrow> cur' \<noteq> 0 \<Longrightarrow> scan_run nx cur' ps \<Longrightarrow> scan_run nx cur (es # ps)"

inductive_cases scan_run_E: "scan_run nx cur pages"

abbreviation page_of ::
  "('w, 'z) scan_ext_scheme \<Rightarrow> 'w \<Rightarrow> DB \<Rightarrow> int \<Rightarrow> ScanCursor \<Rightarrow> u64 \<Rightarrow> string list \<times> u64 \<times> goerr option" where
  "page_of x w d hint sc \<equiv>
     (\<lambda>cur. x_scan x w (client_of d) cur (key2redis (Opts d) (sc_ts sc) (sc_pattern sc)) hint)"

text \<open>The part of a cursor that its calls do not change.\<close>

definition same_cursor :: "ScanCursor \<Rightarrow> ScanCursor \<Rightarrow> bool" where
  "same_cursor sc sc' \<longleftrightarrow>
     sc_ts sc' = sc_ts sc \<and> sc_pattern sc' = sc_pattern sc \<and> sc_count sc' = sc_count sc \<and> scnr sc' = scnr sc"

lemma same_cursor_simps [simp]:
  "same_cursor sc sc" "same_cursor sc (sc'\<lparr>sc_cursor := a\<rparr>) = same_cursor sc sc'"
  "same_cursor sc (sc'\<lparr>scanComplete := b\<rparr>) = same_cursor sc sc'"
  "same_cursor sc (sc'\<lparr>seenKeys := q\<rparr>) = same_cursor sc sc'"
  by (simp_all add: same_cursor_def)

text \<open>The loop of \<open>getNext\<close> ends with the first page that is not empty, or with the last page.\<close>

lemma scan_loop_run:
  assumes "scan_run nx cur pages" "nx = page_of x w d hint sc" "sc_cursor sc = cur" "\<not> scanComplete sc"
    "scnr sc = keyScanner"
  shows "\<exists>es sc' rest. scan_loop x w (client_of d) (Opts d) hint [] None sc = Some (es, None, sc') \<and>
     concat pages = es @ concat rest \<and> length rest < length pages \<and> same_cursor sc sc' \<and>
     seenKeys sc' = seenKeys sc \<and>
     (if scanComplete sc' then rest = [] else scan_run nx (sc_cursor sc') rest)"
  using assms
proof (induction cur pages arbitrary: sc rule: scan_run.induct)
  case (scan_last cur es)
  let ?sc = "sc\<lparr>sc_cursor := 0, scanComplete := True\<rparr>"
  have "scan x w (client_of d) (Opts d) sc hint (scnr sc) = (es, 0, None)"
    using scan_last by simp
  then have "scan_loop x w (client_of d) (Opts d) hint [] None sc = Some (es, None, ?sc)"
    using scan_last(4) by (simp add: scan_loop.simps[of x w _ _ _ "[]"] scan_loop.simps[of x w _ _ _ _ _ ?sc])
  then show ?case by (intro exI[of _ es] exI[of _ ?sc] exI[of _ "[]"]) simp
next
  case (scan_more cur es cur' ps)
  let ?sc = "sc\<lparr>sc_cursor := cur', scanComplete := False\<rparr>"
  have "scan x w (client_of d) (Opts d) sc hint (scnr sc) = (es, cur', None)"
    using scan_more.hyps(1) scan_more.prems by simp
  then have step: "scan_loop x w (client_of d) (Opts d) hint [] None sc =
      scan_loop x w (client_of d) (Opts d) hint es None ?sc"
    using scan_more.hyps(2) scan_more.prems(3) by (simp add: scan_loop.simps[of x w _ _ _ "[]" _ sc])
  show ?case
  proof (cases "es = []")
    case True
    obtain es' sc' rest where "scan_loop x w (client_of d) (Opts d) hint [] None ?sc = Some (es', None, sc')"
      "concat ps = es' @ concat rest" "length rest < length ps" "same_cursor ?sc sc'" "seenKeys sc' = seenKeys ?sc"
      "if scanComplete sc' then rest = [] else scan_run nx (sc_cursor sc') rest"
      using scan_more.IH[of ?sc] scan_more.prems by auto
    then show ?thesis using step True
      by (intro exI[of _ es'] exI[of _ sc'] exI[of _ rest]) (auto simp: same_cursor_def)
  next
    case False
    then have "scan_loop x w (client_of d) (Opts d) hint es None ?sc = Some (es, None, ?sc)"
      by (simp add: scan_loop.simps[of x w _ _ _ es])
    then show ?thesis using step scan_more.hyps(3)
      by (intro exI[of _ es] exI[of _ ?sc] exI[of _ ps]) simp
  qed
qed

section \<open>No key is returned twice\<close>

lemma unseen_nil: "unseen es None = (es, None)"
  by (induction es) auto

lemma unseen_Some:
  "\<exists>r m'. unseen es (Some m) = (r, Some m') \<and> distinct r \<and>
     set r = set es - set (gkeys m) \<and> set (gkeys m') = set (gkeys m) \<union> set es"
proof (induction es arbitrary: m)
  case (Cons e es)
  show ?case
  proof (cases "ghas m e")
    case True
    then have "e \<in> set (gkeys m)" by (simp add: ghas_def in_gkeys)
    then show ?thesis using Cons[of m] True by auto
  next
    case False
    then have "e \<notin> set (gkeys m)" by (simp add: ghas_def in_gkeys)
    moreover have "set (gkeys (gset e True m)) = insert e (set (gkeys m))" by (auto simp: in_gkeys split: if_splits)
    ultimately show ?thesis using Cons[of "gset e True m"] False by auto
  qed
qed simp

text \<open>Calls of \<open>GetNextKeys\<close> up to the one that reports the end, with the keys of each.\<close>

inductive key_pages ::
  "('w, 'z) scan_ext_scheme \<Rightarrow> 'w \<Rightarrow> DB \<Rightarrow> ScanCursorOpts option \<Rightarrow> ScanCursor \<Rightarrow> Key list list \<Rightarrow> bool"
  for x w d so where
  pages_last: "GetNextKeys x w d so sc = Some ((ks, True, None), sc') \<Longrightarrow> key_pages x w d so sc [ks]"
| pages_more: "GetNextKeys x w d so sc = Some ((ks, False, None), sc') \<Longrightarrow> key_pages x w d so sc' kss \<Longrightarrow>
    key_pages x w d so sc (ks # kss)"

definition hint_of :: "ScanCursorOpts option \<Rightarrow> ScanCursor \<Rightarrow> int" where
  "hint_of so sc =
     (case so of None \<Rightarrow> sc_count sc | Some o' \<Rightarrow> if CountHint o' \<noteq> 0 then CountHint o' else sc_count sc)"

definition key_scan :: "ScanCursorOpts option \<Rightarrow> bool" where
  "key_scan so \<longleftrightarrow> (case so of None \<Rightarrow> True | Some o' \<Rightarrow> so_ScanType o' = KeyScanType)"

lemma key_pages_run:
  assumes "scan_run nx cur pages" "nx = page_of x w d (hint_of so sc) sc" "sc_cursor sc = cur"
    "\<not> scanComplete sc" "scnr sc = keyScanner" "seenKeys sc = Some m" "db_client d \<noteq> None" "key_scan so"
    "\<forall>rk \<in> set (concat pages). is_row (Opts d) (sc_ts sc) rk"
  shows "\<exists>kss. key_pages x w d so sc kss \<and> distinct (concat kss) \<and>
     set (concat kss) = row_key (Opts d) (sc_ts sc) ` (set (concat pages) - set (gkeys m))"
  using assms(1-6,9)
proof (induction "length pages" arbitrary: pages cur sc m rule: less_induct)
  case less
  note p = less.prems
  let ?f = "row_key (Opts d) (sc_ts sc)"
  obtain es sc' rest where l: "scan_loop x w (client_of d) (Opts d) (hint_of so sc) [] None sc = Some (es, None, sc')"
    "concat pages = es @ concat rest" "length rest < length pages" "same_cursor sc sc'" "seenKeys sc' = Some m"
    "if scanComplete sc' then rest = [] else scan_run nx (sc_cursor sc') rest"
    using scan_loop_run[OF p(1-5)] p(6) by auto
  obtain r m' where u: "unseen es (Some m) = (r, Some m')" "distinct r" "set r = set es - set (gkeys m)"
    "set (gkeys m') = set (gkeys m) \<union> set es" using unseen_Some by blast
  let ?sc2 = "sc'\<lparr>seenKeys := Some m'\<rparr>"
  have rows: "\<forall>rk \<in> set es. is_row (Opts d) (sc_ts sc) rk" "\<forall>rk \<in> set (concat rest). is_row (Opts d) (sc_ts sc) rk"
    using p(7) l(2) by auto
  have r_rows: "\<forall>rk \<in> set r. is_row (Opts d) (sc_ts sc) rk" using rows(1) u(3) by auto
  have ty: "(case so of None \<Rightarrow> KeyScanType | Some o' \<Rightarrow> so_ScanType o') = KeyScanType"
    "\<not> (case so of None \<Rightarrow> False | Some o' \<Rightarrow> so_ScanType o' = FieldScanType)"
    using assms(8) by (auto simp: key_scan_def split: option.splits)
  have g: "GetNextKeys x w d so sc = Some ((map ?f r, scanComplete sc', None), ?sc2)"
    using l(1,4,5) u(1) assms(7) p(5) ty those_dec[OF r_rows]
    by (simp add: GetNextKeys_def getNext_def is_keyScanner_def hint_of_def[symmetric] Let_def same_cursor_def)
  have dr: "distinct (map ?f r)" by (rule distinct_row_keys[OF u(2) r_rows])
  show ?case
  proof (cases "scanComplete sc'")
    case True
    then have "set (concat pages) = set es" using l(2,6) by simp
    moreover have "GetNextKeys x w d so sc = Some ((map ?f r, True, None), ?sc2)" using g True by simp
    ultimately show ?thesis using pages_last[of x w d so sc "map ?f r"] dr u(3)
      by (intro exI[of _ "[map ?f r]"]) auto
  next
    case False
    have sc2: "nx = page_of x w d (hint_of so ?sc2) ?sc2" "sc_ts ?sc2 = sc_ts sc" "scnr ?sc2 = keyScanner"
      using l(4) p(2,5) by (auto simp: same_cursor_def hint_of_def split: option.split)
    have "scan_run nx (sc_cursor ?sc2) rest" using l(6) False by simp
    then obtain kss where k: "key_pages x w d so ?sc2 kss" "distinct (concat kss)"
      "set (concat kss) = ?f ` (set (concat rest) - set (gkeys m'))"
      using less.hyps[OF l(3), of "sc_cursor ?sc2" ?sc2 m'] sc2 False rows(2) by auto
    have inj: "inj_on ?f (set r \<union> (set (concat rest) - set (gkeys m')))"
      by (rule inj_on_subset[OF row_key_inj]) (use r_rows rows(2) in auto)
    have "?f ` set r \<inter> ?f ` (set (concat rest) - set (gkeys m')) =
        ?f ` (set r \<inter> (set (concat rest) - set (gkeys m')))"
      using inj_on_image_Int[OF inj, of "set r" "set (concat rest) - set (gkeys m')"] by simp
    also have "set r \<inter> (set (concat rest) - set (gkeys m')) = {}" using u(3,4) by auto
    finally have dis: "set (map ?f r) \<inter> set (concat kss) = {}" using k(3) by simp
    have "set r \<union> (set (concat rest) - set (gkeys m')) = set (concat pages) - set (gkeys m)"
      using u(3,4) l(2) by auto
    then have "set (map ?f r) \<union> set (concat kss) = ?f ` (set (concat pages) - set (gkeys m))"
      unfolding k(3) by (metis image_Un list.set_map)
    moreover have "GetNextKeys x w d so sc = Some ((map ?f r, False, None), ?sc2)" using g False by simp
    ultimately show ?thesis
      using pages_more[OF _ k(1)] dr dis k(2)
      by (intro exI[of _ "map ?f r # kss"]) auto
  qed
qed

section \<open>GetConfig\<close>

text \<open>What a configuration holds for a row; no fields for an absent one.\<close>

definition conf_at :: "config \<Rightarrow> string \<Rightarrow> string \<Rightarrow> fields" where
  "conf_at m t rk =
     (case gget m (tspec t) of
        None \<Rightarrow> []
      | Some T \<Rightarrow> (case gget (tb_entry T) rk of None \<Rightarrow> [] | Some v \<Rightarrow> Flds v))"

lemma conf_at_put [simp]:
  "conf_at (config_put (tspec t) rk v m) t' rk' = (if t' = t \<and> rk' = rk then Flds v else conf_at m t' rk')"
  by (simp add: conf_at_def config_put_def config_table_def empty_table_def Let_def split: option.split)

lemma conf_at_delete [simp]:
  "conf_at (config_delete (tspec t) rk m) t' rk' = (if t' = t \<and> rk' = rk then [] else conf_at m t' rk')"
proof (cases "gget m (tspec t)")
  case (Some T)
  have "gget (tb_entry T) rk' = None" if "gdel rk (tb_entry T) = []" "rk' \<noteq> rk"
    using that gget_gdel[of rk "tb_entry T" rk'] by simp
  then show ?thesis using Some by (auto simp: conf_at_def config_delete_def Let_def)
qed (simp add: conf_at_def config_delete_def)

lemma set_each_Flds: "Flds (set_each fs v) = gset_all fs (Flds v)"
  by (induction fs v rule: set_each.induct) (auto simp: Value_Set_def)

lemma remove_all_Flds: "Flds (remove_all ns v) = gdel_all ns (Flds v)"
  by (induction ns v rule: remove_all.induct) (auto simp: Value_Remove_def)

lemma gdel_all_Nil [simp]: "gdel_all ns [] = []"
  by (induction ns) (simp_all add: gdel_def)

text \<open>One queued command does to the configuration what it does to the view.\<close>

lemma apply_cmd_sem: "conf_at (apply_cmd opts [] c m) = tsem opts c (conf_at m)"
proof (intro ext)
  fix t rk
  let ?t = "tsName (tc_ts c)" and ?k = "key2redis opts (tc_ts c) (tc_key c)"
  have k: "key2redis opts (tspec ?t) (tc_key c) = ?k" by (simp add: key2redis_def)
  obtain ts op key v where c: "c = \<lparr>tc_ts = ts, tc_op = op, tc_key = key, tc_value = v\<rparr>" by (cases c)
  have c0: "gset_all (Flds v) [] = Flds (Value_Copy v)" by (simp add: Value_Copy_def)
  show "conf_at (apply_cmd opts [] c m) t rk = tsem opts c (conf_at m) t rk"
  proof (cases op)
    case txOpNone
    then show ?thesis by (simp add: c apply_cmd_def Let_def tsem_def exec_tx_def op_rcmd_def)
  next
    case txOpHMSet
    show ?thesis
    proof (cases "gget m (tspec ?t)")
      case None
      then have "conf_at m ?t ?k = []" by (simp add: conf_at_def)
      then show ?thesis using None k
        by (auto simp: c txOpHMSet apply_cmd_def Let_def tsem_upd tview_upd_def conf_at_def empty_table_def c0)
    next
      case (Some T)
      have "conf_at m ?t ?k = (case gget (tb_entry T) ?k of None \<Rightarrow> [] | Some v \<Rightarrow> Flds v)"
        using Some by (simp add: conf_at_def)
      then show ?thesis using Some k
        by (auto simp: c txOpHMSet apply_cmd_def Let_def tsem_upd tview_upd_def set_each_Flds c0 split: option.splits)
    qed
  next
    case txOpHDel
    show ?thesis
    proof (cases "gget m (tspec ?t)")
      case None
      then have "conf_at m ?t ?k = []" by (simp add: conf_at_def)
      then show ?thesis using None k
        by (auto simp: c txOpHDel apply_cmd_def Let_def tsem_upd tview_upd_def)
    next
      case (Some T)
      have "conf_at m ?t ?k = (case gget (tb_entry T) ?k of None \<Rightarrow> [] | Some v \<Rightarrow> Flds v)"
        using Some by (simp add: conf_at_def)
      then show ?thesis using Some k
        by (auto simp: c txOpHDel apply_cmd_def Let_def tsem_upd tview_upd_def remove_all_Flds IsPopulated_def
            split: option.splits)
    qed
  next
    case txOpDel
    show ?thesis using k by (auto simp: c txOpDel apply_cmd_def Let_def tsem_upd tview_upd_def)
  qed
qed

text \<open>
  \<open>applyTxCache\<close> works on the queue of commands, the reads of the transaction on the
  cache of rows: they give the same.
\<close>

lemma applyTxCache_sem: "conf_at (applyTxCache opts [] cs m) = fold (tsem opts) cs (conf_at m)"
  by (induction opts "[] :: (TableSpec, bool) gomap" cs m rule: applyTxCache.induct) (simp_all add: apply_cmd_sem)

lemma fold_tsem_cong: "v t k = v' t k \<Longrightarrow> fold (tsem opts) cs v t k = fold (tsem opts) cs v' t k"
proof (induction cs arbitrary: v v')
  case (Cons c cs)
  have "tsem opts c v t k = tsem opts c v' t k"
    using Cons.prems exec_tx_cong[of "v t" k "v' t" opts c] by (auto simp: tsem_def)
  then show ?case using Cons.IH[of "tsem opts c v" "tsem opts c v'"] by simp
qed simp

section \<open>The pages of GetConfig\<close>

definition table_of :: "Options \<Rightarrow> string \<Rightarrow> TableSpec" where
  "table_of opts rk = fst (the (redis2ts_key opts rk))"

lemma table_of_tspec: "redis2ts_key opts rk = Some p \<Longrightarrow> table_of opts rk = tspec (tsName (table_of opts rk))"
  by (auto simp: table_of_def redis2ts_key_def Let_def split: if_splits)

lemma config_fill_append: "config_fill (a @ b) m = config_fill b (config_fill a m)"
  by (induction a m rule: config_fill.induct) auto

lemma config_page:
  assumes "\<forall>k. x_hgetall x w c k = Inr (base k)" "\<forall>rk \<in> set rks. redis2ts_key opts rk \<noteq> None"
  shows "config_select opts False tsM rks = Some (map (\<lambda>rk. (table_of opts rk, rk)) rks)"
    "config_pipe x w c (map (\<lambda>rk. (table_of opts rk, rk)) rks) = Inr (map (\<lambda>rk. (table_of opts rk, rk, base rk)) rks)"
proof -
  show "config_select opts False tsM rks = Some (map (\<lambda>rk. (table_of opts rk, rk)) rks)"
    using assms(2) by (induction rks) (auto simp: table_of_def)
  show "config_pipe x w c (map (\<lambda>rk. (table_of opts rk, rk)) rks) = Inr (map (\<lambda>rk. (table_of opts rk, rk, base rk)) rks)"
    using assms(1) by (induction rks) auto
qed

lemma config_loop_run:
  assumes "scan_run nx cur pages" "nx = page_of x w d (hint_of (Some so) sc) sc" "sc_cursor sc = cur"
    "\<not> scanComplete sc" "scnr sc = keyScanner" "seenKeys sc = None" "db_client d \<noteq> None" "so_ScanType so = KeyScanType"
    "\<forall>k. x_hgetall x w (client_of d) k = Inr (base k)" "\<forall>rk \<in> set (concat pages). redis2ts_key (Opts d) rk \<noteq> None"
  shows "config_loop x w d so False tsM sc m =
     Some (Inr (config_fill (map (\<lambda>rk. (table_of (Opts d) rk, rk, base rk)) (concat pages)) m))"
  using assms(1-6,10)
proof (induction "length pages" arbitrary: pages cur sc m rule: less_induct)
  case less
  note p = less.prems
  obtain es sc' rest where l: "scan_loop x w (client_of d) (Opts d) (hint_of (Some so) sc) [] None sc = Some (es, None, sc')"
    "concat pages = es @ concat rest" "length rest < length pages" "same_cursor sc sc'" "seenKeys sc' = None"
    "if scanComplete sc' then rest = [] else scan_run nx (sc_cursor sc') rest"
    using scan_loop_run[OF p(1-5)] p(6) by auto
  have rows: "\<forall>rk \<in> set es. redis2ts_key (Opts d) rk \<noteq> None" using p(7) l(2) by auto
  have s: "sc'\<lparr>seenKeys := None\<rparr> = sc'" using l(5) by simp
  have g: "GetNextRedisKeys x w d (Some so) sc = Some ((es, scanComplete sc', None), sc')"
    using l(1,5) assms(7,8) p(5) s
    by (simp add: GetNextRedisKeys_def getNext_def is_keyScanner_def hint_of_def Let_def unseen_nil)
  have step: "config_loop x w d so False tsM sc m =
     (if scanComplete sc' then Some (Inr (config_fill (map (\<lambda>rk. (table_of (Opts d) rk, rk, base rk)) es) m))
      else config_loop x w d so False tsM sc' (config_fill (map (\<lambda>rk. (table_of (Opts d) rk, rk, base rk)) es) m))"
    by (subst config_loop.simps) (simp add: g config_page[OF assms(9) rows])
  show ?case
  proof (cases "scanComplete sc'")
    case True
    then show ?thesis using step l(2,6) by simp
  next
    case False
    have sc2: "nx = page_of x w d (hint_of (Some so) sc') sc'" "scnr sc' = keyScanner"
      using l(4) p(2,5) by (auto simp: same_cursor_def hint_of_def)
    have run: "scan_run nx (sc_cursor sc') rest" using l(6) False by simp
    have rows2: "\<forall>rk \<in> set (concat rest). redis2ts_key (Opts d) rk \<noteq> None" using p(7) l(2) by auto
    show ?thesis
      using less.hyps[OF l(3) run sc2(1) refl False sc2(2) l(5) rows2] step False l(2)
      by (simp add: config_fill_append)
  qed
qed

lemma config_fill_at:
  assumes "\<forall>rk \<in> set rks. redis2ts_key opts rk \<noteq> None" "table_of opts rk = tspec t"
  shows "conf_at (config_fill (map (\<lambda>rk. (table_of opts rk, rk, base rk)) rks) m) t rk =
     (if rk \<in> set rks then base rk else conf_at m t rk)"
  using assms(1)
proof (induction rks arbitrary: m)
  case (Cons r rks)
  obtain t' where t': "table_of opts r = tspec t'" using Cons.prems table_of_tspec by fastforce
  have "conf_at (config_put (table_of opts r) r \<lparr>Flds = base r\<rparr> m) t rk = (if rk = r then base rk else conf_at m t rk)"
    using assms(2) t' by auto
  then show ?case using Cons by auto
qed simp

text \<open>
  The whole call on a writable connection: the content that the scan finds, with the
  transaction's commands run on it.
\<close>

lemma GetConfig_sem:
  assumes "DBNo (Opts (db s)) = ConfigDB" "\<not> IsOnChangeEnabled (Opts (db s))" "IsOpen (db s)"
    "\<forall>k. x_hgetall x (world s) (client_of (db s)) k = Inr (base k)"
    "scan_run (\<lambda>cur. x_scan x (world s) (client_of (db s)) cur (key2redis (Opts (db s)) (tspec ''*'') all_pat) 100) 0 pages"
    "\<forall>rk \<in> set (concat pages). redis2ts_key (Opts (db s)) rk \<noteq> None"
  obtains m where "GetConfig x [] (Some \<lparr>ScanCountHint = 0, AllowWritable = True\<rparr>) s = Some (Inr m)"
    "\<And>t rk. table_of (Opts (db s)) rk = tspec t \<Longrightarrow>
       conf_at m t rk = fold (tsem (Opts (db s))) (txCmds (db s))
         (\<lambda>t rk. if rk \<in> set (concat pages) then base rk else []) t rk"
proof -
  let ?d = "db s"
  let ?so = "\<lparr>CountHint = 100, ReturnFixed = False, AllowDuplicates = True, so_ScanType = KeyScanType,
    FldScanPatt = [], so_AllowWritable = True\<rparr>"
  let ?sc = "\<lparr>sc_ts = tspec ''*'', sc_cursor = 0, sc_pattern = all_pat, sc_count = 100, scanComplete = False,
    seenKeys = None, scnr = keyScanner\<rparr>"
  let ?m = "config_fill (map (\<lambda>rk. (table_of (Opts ?d) rk, rk, base rk)) (concat pages)) []"
  have cli: "db_client ?d \<noteq> None" using assms(3) by (simp add: IsOpen_def)
  have n: "NewScanCursor ?d (tspec ''*'') all_pat (Some ?so) = Some (Some ?sc, None)"
    using cli by (simp add: NewScanCursor_def)
  have l: "config_loop x (world s) ?d ?so False [] ?sc [] = Some (Inr ?m)"
    by (rule config_loop_run[OF assms(5) _ _ _ _ _ cli _ assms(4,6)]) (simp_all add: hint_of_def)
  show thesis
  proof (rule that)
    show "GetConfig x [] (Some \<lparr>ScanCountHint = 0, AllowWritable = True\<rparr>) s =
        Some (Inr (applyTxCache (Opts ?d) [] (txCmds ?d) ?m))"
      using assms(1,2) n l by (simp add: GetConfig_def Let_def)
    show "conf_at (applyTxCache (Opts ?d) [] (txCmds ?d) ?m) t rk = fold (tsem (Opts ?d)) (txCmds ?d)
         (\<lambda>t rk. if rk \<in> set (concat pages) then base rk else []) t rk"
      if "table_of (Opts ?d) rk = tspec t" for t rk
      unfolding applyTxCache_sem
      by (rule fold_tsem_cong) (simp add: config_fill_at[OF assms(6) that], simp add: conf_at_def)
  qed
qed

text \<open>The pattern of that scan selects the names with a separator.\<close>

lemma cut_char_Some: "c \<in> set s \<Longrightarrow> cut [c] s \<noteq> None"
  using split_list[of c s] cut_None_iff[of "[c]" s] by auto

lemma redis2ts_key_iff:
  assumes "TableNameSeparator opts = [c]"
  shows "redis2ts_key opts rk \<noteq> None \<longleftrightarrow> c \<in> set rk"
proof (cases "c \<in> set rk")
  case True
  then obtain a b where "cut [c] rk = Some (a, b)" using cut_char_Some by fastforce
  then show ?thesis using True assms
    by (simp add: redis2ts_key_def Let_def strSplitN_def numeral_2_eq_2)
qed (simp add: redis2ts_key_def Let_def assms strSplitN_2_none)

lemma star_sep_star:
  assumes "plain [c]"
  shows "patternMatch rk 0 (''*'' @ [c] @ ''*'') 0 \<longleftrightarrow> c \<in> set rk"
proof -
  have "patternMatch rk 0 (''*'' @ [c] @ ''*'') 0 \<longleftrightarrow> glob [Star, Lit c, Star] rk"
    using assms by (simp add: match_glob)
  also have "\<dots> \<longleftrightarrow> (\<exists>a b. rk = a @ c # b)"
    by (auto simp: glob_Star_iff glob_Lit_iff)
  also have "\<dots> \<longleftrightarrow> c \<in> set rk" by (auto simp: in_set_conv_decomp)
  finally show ?thesis .
qed

lemma all_tables_pat:
  assumes "KeySeparator opts = [c]"
  shows "key2redis opts (tspec ''*'') all_pat = ''*'' @ [c] @ ''*''"
  using assms by (simp add: key2redis_def all_pat_def)

text \<open>
  A transaction that began empty: the configuration read inside of it is the view, row by row.
\<close>

lemma GetConfig_view:
  assumes "tx_inv x content base opts s0" "txCmds (db s0) = []" "txTsEntryMap (db s0) = []"
    "s = fold (apply_edit x) es s0" "IsOpen (db s)" "DBNo opts = ConfigDB" "\<not> IsOnChangeEnabled opts"
    "KeySeparator opts = [c]" "TableNameSeparator opts = [c]" "plain [c]"
    "scan_run (\<lambda>cur. x_scan x (world s) (client_of (db s)) cur (key2redis opts (tspec ''*'') all_pat) 100) 0 pages"
    "set (concat pages) = {rk. base rk \<noteq> [] \<and> patternMatch rk 0 (key2redis opts (tspec ''*'') all_pat) 0}"
  obtains m where "GetConfig x [] (Some \<lparr>ScanCountHint = 0, AllowWritable = True\<rparr>) s = Some (Inr m)"
    "\<And>t rk. table_of opts rk = tspec t \<Longrightarrow> c \<in> set rk \<Longrightarrow> conf_at m t rk = tview content s t rk"
proof -
  note v = run_view[OF assms(1-3), of es, folded assms(4)]
  have o: "Opts (db s) = opts" "redis_server x content" "content (world s) = base"
    using v(2) by (simp_all add: tx_inv_def)
  have hg: "\<forall>k. x_hgetall x (world s) (client_of (db s)) k = Inr (base k)"
    using redis_serverD(1)[OF o(2)] o(3) by simp
  note pat = all_tables_pat[OF assms(8)]
  have pages: "rk \<in> set (concat pages) \<longleftrightarrow> base rk \<noteq> [] \<and> c \<in> set rk" for rk
    unfolding assms(12) pat star_sep_star[OF assms(10)] by simp
  show thesis
  proof (rule GetConfig_sem[of s x base pages])
    show "\<forall>rk \<in> set (concat pages). redis2ts_key (Opts (db s)) rk \<noteq> None"
      using pages redis2ts_key_iff[OF assms(9)] o(1) by simp
    fix m
    assume m: "GetConfig x [] (Some \<lparr>ScanCountHint = 0, AllowWritable = True\<rparr>) s = Some (Inr m)"
      "\<And>t rk. table_of (Opts (db s)) rk = tspec t \<Longrightarrow>
       conf_at m t rk = fold (tsem (Opts (db s))) (txCmds (db s))
         (\<lambda>t rk. if rk \<in> set (concat pages) then base rk else []) t rk"
    show thesis
    proof (rule that[OF m(1)])
      fix t rk
      assume "table_of opts rk = tspec t" and c: "c \<in> set rk"
      then have "conf_at m t rk = fold (tsem opts) (txCmds (db s))
         (\<lambda>t rk. if rk \<in> set (concat pages) then base rk else []) t rk"
        using m(2) o(1) by simp
      also have "\<dots> = fold (tsem opts) (txCmds (db s)) (\<lambda>t. base) t rk"
        by (rule fold_tsem_cong) (use pages c in auto)
      finally show "conf_at m t rk = tview content s t rk" using v(1) by simp
    qed
  qed (use assms o hg in auto)
qed

end
