(* ===== verification/DB_CvlView.thy ===== *)
theory DB_CvlView
  imports DB_TableView
begin

text \<open>
  The two ways in which CVL reads the database, one value at a time and through a pipeline,
  answer the same: the rows as the transaction has changed them.
\<close>

section \<open>Requests\<close>

datatype cvlRequest =
    reqKeys string
  | reqHMGet string "string list"
  | reqHGet string string
  | reqHGetAll string

fun pipe_add :: "DB \<Rightarrow> cvlRequest \<Rightarrow> pipeQuery list \<Rightarrow> pipeQuery list option" where
  "pipe_add d (reqKeys pattern) p = Some (pipe_Keys pattern p)"
| "pipe_add d (reqHMGet key flds) p = pipe_HMGet d key flds p"
| "pipe_add d (reqHGet key fld) p = pipe_HGet d key fld p"
| "pipe_add d (reqHGetAll key) p = pipe_HGetAll d key p"

fun pipe_all :: "DB \<Rightarrow> cvlRequest list \<Rightarrow> pipeQuery list \<Rightarrow> pipeQuery list option" where
  "pipe_all d [] p = Some p"
| "pipe_all d (q # qs) p = (case pipe_add d q p of None \<Rightarrow> None | Some p' \<Rightarrow> pipe_all d qs p')"

fun direct :: "('w, 'z) ext_scheme \<Rightarrow> cvlRequest \<Rightarrow> 'w st \<Rightarrow> pipeAnswer option" where
  "direct x (reqKeys pattern) s = map_option (\<lambda>((v, e), _). ansKeys v e) (cvl_Keys x pattern s)"
| "direct x (reqHMGet key flds) s = map_option (\<lambda>((v, e), _). ansVals v e) (cvl_HMGet x key flds s)"
| "direct x (reqHGet key fld) s = map_option (\<lambda>((v, e), _). ansVal v e) (cvl_HGet x key fld s)"
| "direct x (reqHGetAll key) s = map_option (\<lambda>((v, e), _). ansMap v e) (cvl_HGetAll x key s)"

text \<open>Keys come in any order.\<close>

fun same_answer :: "pipeAnswer \<Rightarrow> pipeAnswer \<Rightarrow> bool" where
  "same_answer (ansKeys a e) (ansKeys b e') \<longleftrightarrow> set a = set b \<and> e = e'"
| "same_answer a b \<longleftrightarrow> a = b"

text \<open>Documented behaviour of HGET and HMGET on a hash.\<close>

definition cvl_server :: "('w, 'z) cvl_ext_scheme \<Rightarrow> 'w \<Rightarrow> nat \<Rightarrow> (string \<Rightarrow> fields) \<Rightarrow> bool" where
  "cvl_server x w c base \<longleftrightarrow>
     (\<forall>k f. x_hget x w c k f = (case gget (base k) f of None \<Rightarrow> Inl redis_Nil | Some v \<Rightarrow> Inr v)) \<and>
     (\<forall>k fs. x_hmget x w c k fs = Inr (map (gget (base k)) fs))"

text \<open>A redis name that names a key, of a table that can be read.\<close>

definition names_key ::
  "('w, 'z) ext_scheme \<Rightarrow> (string \<Rightarrow> fields) \<Rightarrow> 'w st \<Rightarrow> string \<Rightarrow> bool" where
  "names_key x base s name \<longleftrightarrow>
     (\<exists>ts k. redis2ts_key (Opts (db s)) name = Some (ts, k) \<and> key2redis (Opts (db s)) ts k = name \<and>
        Comp k \<noteq> [] \<and> Comp k \<noteq> [[]] \<and> readable x ts base s)"

fun req_name :: "cvlRequest \<Rightarrow> string" where
  "req_name (reqKeys pattern) = pattern"
| "req_name (reqHMGet key _) = key"
| "req_name (reqHGet key _) = key"
| "req_name (reqHGetAll key) = key"

section \<open>Lemmas\<close>

lemma keys_update_at:
  assumes "gok tx"
  shows "gget (keys_update p tx m) k = Some True \<longleftrightarrow>
     (case gget tx k of
        None \<Rightarrow> gget m k = Some True
      | Some v \<Rightarrow> if patternMatch k 0 p 0 then Flds v \<noteq> [] else gget m k = Some True)"
  using assms
proof (induction p tx m rule: keys_update.induct)
  case (2 p k' v tx m)
  have "gget tx k' = None" using 2(2) by (simp add: in_gkeys)
  then show ?case using 2 by (cases "k = k'") (auto split: option.splits)
qed simp

lemma gok_keys_update: "gok m \<Longrightarrow> gok (keys_update p tx m)"
  by (induction p tx m rule: keys_update.induct) auto

lemma true_keys: "gok m \<Longrightarrow> set (map fst (filter snd m)) = {k. gget m k = Some True}"
  using gget_in_set gok_gget by (force simp: image_iff)

lemma GetEntry_exact:
  assumes "readable x ts base s"
  shows "fst (GetEntry x ts k s) =
     (let v = view base (db s) (tsName ts) (key2redis (Opts (db s)) ts k) in
      (\<lparr>Flds = v\<rparr>, if v = [] then Some (TranslibRedisClientEntryNotExist (key2redis (Opts (db s)) ts k)) else None))"
  using assms getEntry_view[of x s ts k base False]
  by (simp add: GetEntry_def readable_def read_server_def clean_table_def)

lemma HGetAll_view:
  assumes "readable x ts base s" "redis2ts_key (Opts (db s)) key = Some (ts, k)" "key2redis (Opts (db s)) ts k = key"
  obtains s' where "cvl_HGetAll x key s = Some ((view base (db s) (tsName ts) key, None), s')"
proof -
  obtain v e s' where g: "GetEntry x ts k s = ((v, e), s')" by (metis surj_pair)
  then have "v = \<lparr>Flds = view base (db s) (tsName ts) key\<rparr>" "e = None \<or> IsTranslibRedisClientEntryNotExist e"
    using GetEntry_exact[OF assms(1), of k] assms(3) by (auto simp: Let_def split: if_splits)
  then have "cvl_HGetAll x key s = Some ((view base (db s) (tsName ts) key, None), s')"
    using g assms(2) by (auto simp: cvl_HGetAll_def)
  then show thesis by (rule that)
qed

lemma Keys_listed:
  assumes "readable x ts base s" "redis2ts_key (Opts (db s)) p = Some (ts, pat)" "key2redis (Opts (db s)) ts pat = p"
    "Comp pat \<noteq> []" "Comp pat \<noteq> [[]]"
  obtains l s' where "cvl_Keys x p s = Some ((l, None), s')" "set l = listed base (db s) ts p"
proof (rule GetKeysPattern_rows[OF assms(1,4,5)])
  fix ks s'
  assume k: "GetKeysPattern x ts pat s = Some ((ks, None), s')"
    "key2redis (Opts (db s)) ts ` set ks = listed base (db s) ts (key2redis (Opts (db s)) ts pat)"
  show thesis
  proof (rule that)
    show "cvl_Keys x p s = Some ((map (key2redis (Opts (db s)) ts) ks, None), s')"
      using k(1) assms(2) by (simp add: cvl_Keys_def nil_if_not_exist_def)
    show "set (map (key2redis (Opts (db s)) ts) ks) = listed base (db s) ts p" using k(2) assms(3) by simp
  qed
qed

lemma update_Keys_listed:
  assumes "readable x ts base s" "redis2ts_key (Opts (db s)) p = Some (ts, pat)" "key2redis (Opts (db s)) ts pat = p"
    "Comp pat \<noteq> []" "Comp pat \<noteq> [[]]"
  obtains l where "update x (world s) (db s) (pipeKeysResult p) = Some (ansKeys l None)"
    "set l = listed base (db s) ts p"
proof -
  let ?tx = "tx_table (txTsEntryMap (db s)) (tsName ts)"
  have cl: "clean_table (Opts (db s)) ts base (txTsEntryMap (db s))"
    and rs: "read_server x (world s) (client_of (db s)) base"
    using assms(1) by (simp_all add: readable_def)
  obtain rks where rks: "x_keys x (world s) (client_of (db s)) p = Inr rks"
    "set rks = {k. base k \<noteq> [] \<and> patternMatch k 0 p 0}"
    using rs unfolding read_server_def by meson
  have gok: "gok ?tx" and rows: "\<forall>rk \<in> set (gkeys ?tx). is_row (Opts (db s)) ts rk"
    using cl by (auto simp: clean_table_def)
  define km where "km = keys_update p ?tx (gset_all (map (\<lambda>k. (k, True)) rks) [])"
  have km: "gget km k = Some True \<longleftrightarrow>
      (case gget ?tx k of None \<Rightarrow> k \<in> set rks | Some v \<Rightarrow> if patternMatch k 0 p 0 then Flds v \<noteq> [] else k \<in> set rks)" for k
    unfolding km_def keys_update_at[OF gok] by (auto simp: gget_gset_all_True split: option.split)
  have "gget km rk = Some True \<longleftrightarrow> rk \<in> listed base (db s) ts p" for rk
  proof (cases "gget ?tx rk")
    case None
    then show ?thesis
      using km[of rk] matched_is_row[OF cl _ assms(4,5)] assms(3) rks(2)
      by (auto simp: listed_def view_def tx_get_table)
  next
    case (Some v)
    then have "is_row (Opts (db s)) ts rk" using rows by (auto simp: in_gkeys)
    then show ?thesis using Some km[of rk] rks(2) by (auto simp: listed_def view_def tx_get_table)
  qed
  then have "set (map fst (filter snd km)) = listed base (db s) ts p"
    using true_keys[of km] gok_keys_update by (auto simp: km_def)
  moreover have "update x (world s) (db s) (pipeKeysResult p) = Some (ansKeys (map fst (filter snd km)) None)"
    using rks(1) assms(2) by (simp add: update_Keys_def km_def Let_def)
  ultimately show thesis using that by blast
qed

text \<open>One request: the pipeline's answer and the direct one.\<close>

lemma one_request:
  assumes "names_key x base s (req_name q)" "cvl_server x (world s) (client_of (db s)) base"
  obtains q' a a' where "\<And>p. pipe_add (db s) q p = Some (p @ [q'])" "update x (world s) (db s) q' = Some a"
    "direct x q s = Some a'" "same_answer a a'"
proof -
  obtain ts k where k: "redis2ts_key (Opts (db s)) (req_name q) = Some (ts, k)"
    "key2redis (Opts (db s)) ts k = req_name q" "Comp k \<noteq> []" "Comp k \<noteq> [[]]" "readable x ts base s"
    using assms(1) by (auto simp: names_key_def)
  define r where "r = tx_get (txTsEntryMap (db s)) (tsName ts) (req_name q)"
  have row: "tx_row (db s) (req_name q) = Some r" using k(1) by (simp add: tx_row_def r_def)
  have rg: "r = Some u \<Longrightarrow> gok (Flds u)" for u
    using k(5) by (auto simp: readable_def clean_table_def txok_def r_def)
  have vw: "view base (db s) (tsName ts) (req_name q) = (case r of None \<Rightarrow> base (req_name q) | Some v \<Rightarrow> Flds v)"
    by (simp add: view_def r_def)
  have hg: "x_hgetall x (world s) (client_of (db s)) (req_name q) = Inr (base (req_name q))"
    using k(5) by (simp add: readable_def read_server_def)
  note cs = assms(2)[unfolded cvl_server_def]
  show thesis
  proof (cases q)
    case (reqKeys p)
    show thesis
    proof (rule update_Keys_listed[OF k(5,1,2,3,4)], rule Keys_listed[OF k(5,1,2,3,4)])
      fix l l' s'
      assume a: "update x (world s) (db s) (pipeKeysResult (req_name q)) = Some (ansKeys l None)"
        "set l = listed base (db s) ts (req_name q)"
        "cvl_Keys x (req_name q) s = Some ((l', None), s')" "set l' = listed base (db s) ts (req_name q)"
      show thesis
        by (rule that[of "pipeKeysResult p" "ansKeys l None" "ansKeys l' None"])
          (use a in \<open>auto simp: reqKeys pipe_Keys_def\<close>)
    qed
  next
    case (reqHMGet key flds)
    show thesis
    proof (rule HGetAll_view[OF k(5,1,2)])
      fix s'
      assume h: "cvl_HGetAll x (req_name q) s = Some ((view base (db s) (tsName ts) (req_name q), None), s')"
      let ?a = "ansVals (map (gget (view base (db s) (tsName ts) key)) flds) None"
      show thesis
        by (rule that[of "pipeHMGetResult key flds (map_option (\<lambda>e. map (gget (Flds e)) flds) r)" ?a ?a])
          (use h row vw cs in \<open>auto simp: reqHMGet pipe_HMGet_def update_HMGet_def cvl_HMGet_def or_error_def split: option.split\<close>)
    qed
  next
    case (reqHGet key fld)
    show thesis
    proof (rule HGetAll_view[OF k(5,1,2)])
      fix s'
      assume h: "cvl_HGetAll x (req_name q) s = Some ((view base (db s) (tsName ts) (req_name q), None), s')"
      let ?a = "case gget (view base (db s) (tsName ts) key) fld of None \<Rightarrow> ansVal [] (Some redis_Nil) | Some v \<Rightarrow> ansVal v None"
      show thesis
        by (rule that[of "pipeHGetResult key fld (map_option (\<lambda>e. gget (Flds e) fld) r)" ?a ?a])
          (use h row vw cs in \<open>auto simp: reqHGet pipe_HGet_def update_HGet_def cvl_HGet_def or_error_def split: option.splits\<close>)
    qed
  next
    case (reqHGetAll key)
    show thesis
    proof (rule HGetAll_view[OF k(5,1,2)])
      fix s'
      assume h: "cvl_HGetAll x (req_name q) s = Some ((view base (db s) (tsName ts) (req_name q), None), s')"
      let ?a = "ansMap (view base (db s) (tsName ts) key) None"
      show thesis
        by (rule that[of "pipeHGetAllResult key (map_option (\<lambda>e. gset_all (Flds e) []) r)" ?a ?a])
          (use h row vw hg rg in \<open>auto simp: reqHGetAll pipe_HGetAll_def update_HGetAll_def or_error_def gset_all_ok split: option.splits\<close>)
    qed
  qed
qed

lemma all_requests:
  assumes "\<forall>q \<in> set qs. names_key x base s (req_name q)" "cvl_server x (world s) (client_of (db s)) base"
  obtains qs' as where "\<And>p. pipe_all (db s) qs p = Some (p @ qs')"
    "those (map (update x (world s) (db s)) qs') = Some as"
    "list_all2 (\<lambda>a q. \<exists>a'. direct x q s = Some a' \<and> same_answer a a') as qs"
proof -
  have "\<exists>qs' as. (\<forall>p. pipe_all (db s) qs p = Some (p @ qs')) \<and>
    those (map (update x (world s) (db s)) qs') = Some as \<and>
    list_all2 (\<lambda>a q. \<exists>a'. direct x q s = Some a' \<and> same_answer a a') as qs"
    using assms(1)
  proof (induction qs)
    case (Cons q qs)
    then obtain qs' as where IH: "\<forall>p. pipe_all (db s) qs p = Some (p @ qs')"
      "those (map (update x (world s) (db s)) qs') = Some as"
      "list_all2 (\<lambda>a q. \<exists>a'. direct x q s = Some a' \<and> same_answer a a') as qs" by auto
    show ?case
    proof (rule one_request[of x base s q])
      show "names_key x base s (req_name q)" using Cons.prems by simp
      fix q' a a'
      assume "\<And>p. pipe_add (db s) q p = Some (p @ [q'])" "update x (world s) (db s) q' = Some a"
        "direct x q s = Some a'" "same_answer a a'"
      then show ?thesis using IH by (intro exI[of _ "q' # qs'"] exI[of _ "a # as"]) auto
    qed (rule assms(2))
  qed simp
  then show thesis using that by blast
qed

end
