(* ===== verification/DB_ReadMemory.thy ===== *)
theory DB_ReadMemory
  imports DB_Memory DB_ScanView DB_CvlView
begin

text \<open>
  The in-memory server as a server for reads: it satisfies the hypotheses of the read
  theorems, and examples for them.
\<close>

section \<open>The server\<close>

lemma mem_read_server:
  assumes "gok (fst w)" "\<forall>(k, f) \<in> set (fst w). gok f"
  shows "read_server mem_server w c (mcontent w)"
proof -
  have g: "gok (mcontent w k)" for k
    using assms(2) gget_in_set[of "fst w" k] by (auto simp: mcontent_def split: option.split)
  have mc: "mcontent w k = f" if "(k, f) \<in> set (fst w)" for k f
    using gok_gget[OF assms(1) that] by (simp add: mcontent_def)
  have k: "set (gkeys (filter (\<lambda>(k, f). f \<noteq> []) (fst w))) = {k. mcontent w k \<noteq> []}"
  proof (intro set_eqI iffI)
    fix k
    assume "k \<in> set (gkeys (filter (\<lambda>(k, f). f \<noteq> []) (fst w)))"
    then obtain f where "(k, f) \<in> set (fst w)" "f \<noteq> []" by (auto simp: gkeys_def)
    then show "k \<in> {k. mcontent w k \<noteq> []}" using mc by auto
  next
    fix k
    assume "k \<in> {k. mcontent w k \<noteq> []}"
    then obtain f where "gget (fst w) k = Some f" "f \<noteq> []" by (auto simp: mcontent_def split: option.splits)
    then have "(k, f) \<in> set (filter (\<lambda>(k, f). f \<noteq> []) (fst w))" using gget_in_set by fastforce
    then show "k \<in> set (gkeys (filter (\<lambda>(k, f). f \<noteq> []) (fst w)))" by (force simp: gkeys_def)
  qed
  have "distinct (gkeys (filter (\<lambda>(k, f). f \<noteq> []) (fst w)))"
    using assms(1) by (simp add: gok_def gkeys_def distinct_map_filter)
  then show ?thesis
    using g k by (auto simp: read_server_def mem_server_def)
qed

text \<open>
  SCAN that answers with one matching name per page, and repeats the first name on each
  page, as redis may.
\<close>

definition mem_names :: "mem \<Rightarrow> string \<Rightarrow> string list" where
  "mem_names w p = filter (\<lambda>k. patternMatch k 0 p 0) (gkeys (filter (\<lambda>(k, f). f \<noteq> []) (fst w)))"

definition mem_scan :: "mem \<Rightarrow> string \<Rightarrow> u64 \<Rightarrow> string list \<times> u64 \<times> goerr option" where
  "mem_scan w p cur =
     (let l = mem_names w p; i = unat cur in
      (take 1 (drop i l) @ take 1 l, if Suc i < length l then cur + 1 else 0, None))"

definition mem_scanner :: "mem scan_ext" where
  "mem_scanner = ext.extend mem_server
     (scan_ext.fields (\<lambda>w c cur p n. mem_scan w p cur) (\<lambda>w c k cur p n. ([], 0, None)))"

definition mem_cvl :: "mem cvl_ext" where
  "mem_cvl = ext.extend mem_server
     (cvl_ext.fields (\<lambda>w c k fs. Inr (map (gget (mcontent w k)) fs)) (\<lambda>w s args doc. Inr (LNum (int (length doc)))))"

lemma mem_scanner_simps [simp]:
  "x_do mem_scanner = x_do mem_server" "x_hgetall mem_scanner = x_hgetall mem_server"
  "x_keys mem_scanner = x_keys mem_server" "x_client mem_scanner = x_client mem_server"
  "x_close mem_scanner = x_close mem_server" "x_cvl_open mem_scanner = x_cvl_open mem_server"
  "x_cvl_close mem_scanner = x_cvl_close mem_server" "x_cvl_validate mem_scanner = x_cvl_validate mem_server"
  "x_scan mem_scanner w c cur p n = mem_scan w p cur"
  by (simp_all add: mem_scanner_def ext.defs scan_ext.defs)

lemma mem_cvl_simps [simp]:
  "x_do mem_cvl = x_do mem_server" "x_hgetall mem_cvl = x_hgetall mem_server"
  "x_keys mem_cvl = x_keys mem_server" "x_hget mem_cvl = x_hget mem_server"
  "x_hmget mem_cvl w c k fs = Inr (map (gget (mcontent w k)) fs)"
  by (simp_all add: mem_cvl_def ext.defs cvl_ext.defs)

lemma mem_scanner_redis: "redis_server mem_scanner mcontent"
  using mem_redis by (simp add: redis_server_def)

lemma mem_cvl_server: "cvl_server mem_cvl w c (mcontent w)"
  by (simp add: cvl_server_def mem_server_def)

lemma read_server_cong:
  "x_hgetall y = x_hgetall x \<Longrightarrow> x_keys y = x_keys x \<Longrightarrow> read_server y w c base = read_server x w c base"
  by (simp add: read_server_def)

section \<open>Examples\<close>

text \<open>Inside of a transaction that has deleted one port and changed another.\<close>

definition ex_read :: "mem st" where
  "ex_read = fold (apply_edit mem_server)
     [EDelete ex_port (ex_key ''Ethernet4''), EMod ex_port (ex_key ''Ethernet0'') \<lparr>Flds = [(''mtu'', ''1500'')]\<rparr>] ex_tx"

lemma ex_read_facts:
  "IsOpen (db ex_read)" "\<not> use_cache (db ex_read) n" "world ex_read = ex_mem" "db_client (db ex_read) = Some 0"
  "Opts (db ex_read) = ex_opts"
  "tx_table (txTsEntryMap (db ex_read)) ''PORT'' =
     [(''PORT|Ethernet4'', \<lparr>Flds = []\<rparr>), (''PORT|Ethernet0'', \<lparr>Flds = [(''mtu'', ''1500''), (''speed'', ''40000'')]\<rparr>)]"
  "gkeys (txTsEntryMap (db ex_read)) = [''PORT'']"
proof -
  show "world ex_read = ex_mem" "IsOpen (db ex_read)" "db_client (db ex_read) = Some 0"
    "tx_table (txTsEntryMap (db ex_read)) ''PORT'' =
     [(''PORT|Ethernet4'', \<lparr>Flds = []\<rparr>), (''PORT|Ethernet0'', \<lparr>Flds = [(''mtu'', ''1500''), (''speed'', ''40000'')]\<rparr>)]"
    "gkeys (txTsEntryMap (db ex_read)) = [''PORT'']" by code_simp+
  show "Opts (db ex_read) = ex_opts" by code_simp
  have "\<not> IsOnChangeEnabled (Opts (db ex_read))" "\<not> PerConnection (dbCacheConfig (db ex_read))" by code_simp+
  then show "\<not> use_cache (db ex_read) n" by (simp add: use_cache_def)
qed

lemma ex_rows:
  "is_row ex_opts ex_port ''PORT|Ethernet0''" "is_row ex_opts ex_port ''PORT|Ethernet4''"
proof -
  have "wf_key (ex_opts, ex_port) (ex_key ''Ethernet0'')" "wf_key (ex_opts, ex_port) (ex_key ''Ethernet4'')"
    "key2redis ex_opts ex_port (ex_key ''Ethernet0'') = ''PORT|Ethernet0''"
    "key2redis ex_opts ex_port (ex_key ''Ethernet4'') = ''PORT|Ethernet4''" by code_simp+
  then show "is_row ex_opts ex_port ''PORT|Ethernet0''" "is_row ex_opts ex_port ''PORT|Ethernet4''"
    unfolding is_row_def by metis+
qed

lemma ex_mem_rows: "mcontent ex_mem rk \<noteq> [] \<longleftrightarrow> rk = ''PORT|Ethernet0'' \<or> rk = ''PORT|Ethernet4''"
  by (auto simp: mcontent_def ex_mem_def)

lemma ex_mem_read: "read_server mem_server ex_mem c (mcontent ex_mem)"
  by (rule mem_read_server) (simp_all add: ex_mem_def gkeys_def)

lemma ex_read_tx:
  "txok (txTsEntryMap (db ex_read))" "gok (tx_table (txTsEntryMap (db ex_read)) ''PORT'')"
proof -
  have "tx_get (txTsEntryMap (db ex_read)) t k = Some v \<Longrightarrow> t = ''PORT''" for t k v
    using ex_read_facts(7) in_gkeys[of t "txTsEntryMap (db ex_read)"]
    by (auto simp: tx_get_def split: option.splits)
  then show "txok (txTsEntryMap (db ex_read))"
    using ex_read_facts(6) by (fastforce simp: txok_def tx_get_table gkeys_def split: if_splits)
  show "gok (tx_table (txTsEntryMap (db ex_read)) ''PORT'')" by (simp add: ex_read_facts(6) gkeys_def)
qed

lemma ex_opts_sep: "KeySeparator ex_opts = ''|''" "TableNameSeparator ex_opts = ''|''"
  by (simp_all add: ex_opts_def zeroOptions_def)

lemma ex_port_name: "tsName ex_port = ''PORT''"
  by (simp add: ex_port_def)

lemma ex_clean: "clean_table ex_opts ex_port (mcontent ex_mem) (txTsEntryMap (db ex_read))"
  using ex_rows ex_read_tx ex_read_facts(6)
  by (auto simp: clean_table_def ex_opts_sep ex_port_name ex_mem_rows gkeys_def)

lemma ex_readable: "readable mem_server ex_port (mcontent ex_mem) ex_read"
  using ex_read_facts ex_clean ex_mem_read by (simp add: readable_def)

text \<open>
  A pattern whose star spans two components: redis lists the row \<open>ACL|a1|r1\<close>, \<open>Key.Matches\<close> does
  not take it, so the table holds the value from before the pending change, which
  \<open>GetEntry\<close> on the same connection does return.
\<close>

definition ex_acl :: "mem st" where
  "ex_acl = apply_edit mem_server (EMod (tspec ''ACL'') \<lparr>Comp = [''a1'', ''r1'']\<rparr> \<lparr>Flds = [(''act'', ''new'')]\<rparr>)
     (ex_tx\<lparr>world := ([(''ACL|a1|r1'', [(''act'', ''old'')])], None)\<rparr>)"

lemma GetTablePattern_stale:
  "map_option (\<lambda>((T, e), s). (map (\<lambda>(k, v). (k, Flds v)) (tb_entry T), e))
     (GetTablePattern mem_server (tspec ''ACL'') \<lparr>Comp = [''a*'']\<rparr> ex_acl) =
   Some ([(''ACL|a1|r1'', [(''act'', ''old'')])], None)"
  "map_option (\<lambda>((ks, e), s). (ks, e)) (GetKeysPattern mem_server (tspec ''ACL'') \<lparr>Comp = [''a*'']\<rparr> ex_acl) =
   Some ([\<lparr>Comp = [''a1'', ''r1'']\<rparr>], None)"
  "Flds (fst (fst (GetEntry mem_server (tspec ''ACL'') \<lparr>Comp = [''a1'', ''r1'']\<rparr> ex_acl))) = [(''act'', ''new'')]"
  by code_simp+

text \<open>The scan of the memory server.\<close>

lemma ex_scan_pages:
  "mem_names ex_mem ''PORT|*'' = [''PORT|Ethernet0'', ''PORT|Ethernet4'']"
  "mem_names ex_mem ''*|*'' = [''PORT|Ethernet0'', ''PORT|Ethernet4'']"
  by code_simp+

lemma ex_scan_run:
  assumes "mem_names ex_mem p = [a, b]"
  shows "scan_run (\<lambda>cur. mem_scan ex_mem p cur) 0 [[a, a], [b, a]]"
proof (rule scan_more)
  show "mem_scan ex_mem p 0 = ([a, a], 1, None)" by (simp add: mem_scan_def Let_def assms)
  have "mem_scan ex_mem p 1 = ([b, a], 0, None)" by (simp add: mem_scan_def Let_def assms)
  then show "scan_run (mem_scan ex_mem p) 1 [[b, a]]" by (rule scan_last)
qed simp

lemma ex_readable_cvl: "readable mem_cvl ex_port (mcontent ex_mem) ex_read"
  using ex_readable by (simp add: readable_def read_server_def)

lemma ex_view:
  "view b (db ex_read) ''PORT'' ''PORT|Ethernet0'' = [(''mtu'', ''1500''), (''speed'', ''40000'')]"
  "view b (db ex_read) ''PORT'' ''PORT|Ethernet4'' = []"
  by (simp_all add: view_def tx_get_table ex_read_facts(6))

definition ex_reqs :: "cvlRequest list" where
  "ex_reqs = [reqKeys ''PORT|*'', reqHGetAll ''PORT|Ethernet0'', reqHGet ''PORT|Ethernet4'' ''mtu'',
     reqHMGet ''PORT|Ethernet0'' [''mtu'', ''alias'']]"

lemma ex_reqs_names: "\<forall>q \<in> set ex_reqs. names_key mem_cvl (mcontent ex_mem) ex_read (req_name q)"
proof -
  have n: "names_key mem_cvl (mcontent ex_mem) ex_read (''PORT|'' @ c)"
    if "c \<noteq> []" "CHR ''|'' \<notin> set c" for c
  proof -
    have "wf_key (ex_opts, ex_port) \<lparr>Comp = [c]\<rparr>"
      using that by (simp add: wf_key_def ex_opts_sep ex_port_name, simp add: ex_port_def)
    moreover have "key2redis ex_opts ex_port \<lparr>Comp = [c]\<rparr> = ''PORT|'' @ c"
      using that by (simp add: key2redis_def ex_opts_sep ex_port_name)
    moreover have "redis2ts_key ex_opts (key2redis ex_opts ex_port \<lparr>Comp = [c]\<rparr>) = Some (ex_port, \<lparr>Comp = [c]\<rparr>)"
      using redis2ts_key_key2redis[OF calculation(1)] by (simp add: ex_port_def)
    ultimately show ?thesis
      unfolding names_key_def using ex_readable_cvl that(1)
      by (intro exI[of _ ex_port] exI[of _ "\<lparr>Comp = [c]\<rparr>"]) (simp add: ex_read_facts(5))
  qed
  show ?thesis
    using n[of "''*''"] n[of "''Ethernet0''"] n[of "''Ethernet4''"] by (simp add: ex_reqs_def)
qed

text \<open>A transaction on the scanning server.\<close>

definition ex_conf_edits :: "edit list" where
  "ex_conf_edits = [EDelete ex_port (ex_key ''Ethernet4''),
     EMod (tspec ''VLAN'') (ex_key ''Vlan1'') \<lparr>Flds = [(''id'', ''1'')]\<rparr>]"

definition ex_conf :: "mem st" where
  "ex_conf = fold (apply_edit mem_scanner) ex_conf_edits ex_tx"

lemma ex_conf_facts: "IsOpen (db ex_conf)" "world ex_conf = ex_mem" "db_client (db ex_conf) = Some 0"
  by code_simp+

lemma ex_conf_inv: "tx_inv mem_scanner mcontent (mcontent ex_mem) ex_opts ex_tx"
proof -
  have "world ex_tx = ex_mem" "in_tx (db ex_tx)" "Opts (db ex_tx) = ex_opts" by code_simp+
  then show ?thesis using mem_scanner_redis by (simp add: tx_inv_def)
qed

lemma ex_all_tables:
  "set (concat [[''PORT|Ethernet0'', ''PORT|Ethernet0''], [''PORT|Ethernet4'', ''PORT|Ethernet0'']]) =
     {rk. mcontent ex_mem rk \<noteq> [] \<and> patternMatch rk 0 (key2redis ex_opts (tspec ''*'') all_pat) 0}"
proof -
  have "patternMatch ''PORT|Ethernet0'' 0 (key2redis ex_opts (tspec ''*'') all_pat) 0"
    "patternMatch ''PORT|Ethernet4'' 0 (key2redis ex_opts (tspec ''*'') all_pat) 0" by code_simp+
  then show ?thesis by (auto simp: ex_mem_rows)
qed

end
