(* ===== verification/CVL_Schema.thy ===== *)
theory CVL_Schema
  imports Go_Str TL_Utils DB_Types DB_CvlAccess
begin

text \<open>
  The schema that CVL holds of the YANG models (\<open>modelInfo\<close> of \<open>cvl/cvl.go\<close>) and the
  functions that read redis keys by it.  A redis table is described by one or several YANG
  lists; \<open>tableInfo\<close> is keyed by the list.

  What libyang reads of a model is given as the list information (record \<open>listInfo\<close>); a
  compiled XPath expression is its text.  A lookup of a list that is not there gives a nil
  pointer, and reading its fields panics: \<open>tbl_info\<close>.
\<close>

section \<open>Data\<close>

record tblFieldPair =
  tf_tableName :: string
  tf_field :: string

record mustInfo =
  mi_expr :: string
  mi_errCode :: string
  mi_errStr :: string

record leafRefInfo =
  lr_path :: string
  lr_exprTree :: "string option"
  lr_yangListNames :: "string list"
  lr_targetNodeName :: string

record whenInfo =
  wi_expr :: string
  wi_nodeNames :: "string list"
  wi_yangListNames :: "string list"

text \<open>Operations as bits: none 0, create 1, update 2, delete 4.\<close>

fun op_bits :: "CVLOperation \<Rightarrow> nat" where
  "op_bits OP_NONE = 0"
| "op_bits OP_CREATE = 1"
| "op_bits OP_UPDATE = 2"
| "op_bits OP_DELETE = 4"

record modelTableInfo =
  dbNum :: nat
  modelName :: string
  redisTableName :: string
  ti_keys :: "string list"
  redisKeyDelim :: string
  redisKeyPattern :: string
  redisTableSize :: int
  mapLeaf :: "string list"
  leafRef :: "(string, leafRefInfo list) gomap"
  mustExpr :: "(string, mustInfo list) gomap"
  whenExpr :: "(string, whenInfo list) gomap"
  tablesForMustExp :: "(string, nat) gomap"
  refFromTables :: "tblFieldPair list"
  custValidation :: "(string, string list) gomap"
  dfltLeafVal :: "(string, string) gomap"
  mandatoryNodes :: "(string, bool) gomap"
  dependentOnTable :: string
  dependentTables :: "string list"
  has_static_key :: bool

record modelDataInfo =
  modelNs :: "(string, string \<times> string) gomap"
  tableInfo :: "(string, modelTableInfo) gomap"
  redisTableToYangList :: "(string, string list) gomap"
  redisTableToListKeys :: "(string, (string, string) gomap) gomap"
  allKeyDelims :: "(string, bool) gomap"

record CVLErrorInfo =
  ei_TableName :: string
  ei_ErrCode :: int
  ei_CVLErrDetails :: string
  ei_Keys :: "string list"
  ei_Value :: string
  ei_Field :: string
  ei_Msg :: string
  ei_ConstraintErrMsg :: string
  ei_ErrAppTag :: string

definition zeroErrorInfo :: CVLErrorInfo where
  "zeroErrorInfo = \<lparr>ei_TableName = [], ei_ErrCode = 0, ei_CVLErrDetails = [], ei_Keys = [], ei_Value = [],
     ei_Field = [], ei_Msg = [], ei_ConstraintErrMsg = [], ei_ErrAppTag = []\<rparr>"

definition CVLErrorInfo_Message :: "CVLErrorInfo \<Rightarrow> string" where
  "CVLErrorInfo_Message err =
     (if ei_ErrCode err = CVL_SUCCESS then []
      else if length (ei_ConstraintErrMsg err) \<noteq> 0 then ei_ConstraintErrMsg err
      else
        let s = ei_Msg err in
        if length s = 0 then ''Internal error''
        else if length (ei_TableName err) \<noteq> 0 then
          (let s1 = s @ '' in '' @ ei_TableName err @ '' table'' in
           if length (ei_Keys err) \<noteq> 0 then s1 @ '' entry ['' @ strJoin (ei_Keys err) '' '' @ '']'' else s1)
        else s)"

definition tbl_info :: "modelDataInfo \<Rightarrow> string \<Rightarrow> modelTableInfo outcome" where
  "tbl_info m n = (case gget (tableInfo m) n of None \<Rightarrow> Panics | Some t \<Rightarrow> Ret t)"

section \<open>Loading a model\<close>

text \<open>What \<open>yparser\<close> returns of one list of a module.\<close>

record listInfo =
  li_ListName :: string
  li_DbName :: string
  li_RedisTableName :: string
  li_RedisKeyDelim :: string
  li_RedisKeyPattern :: string
  li_RedisTableSize :: int
  li_Keys :: "string list"
  li_MapLeaf :: "string list"
  li_CustValidation :: "(string, string list) gomap"
  li_MandatoryNodes :: "(string, bool) gomap"
  li_DependentOnTable :: string
  li_DfltLeafVal :: "(string, string) gomap"
  li_LeafRef :: "(string, string list) gomap"
  li_XpathExpr :: "(string, mustInfo list) gomap"
  li_WhenExpr :: "(string, whenInfo list) gomap"
  li_Key :: string

fun map_vals :: "('a \<Rightarrow> 'b) \<Rightarrow> ('k, 'a) gomap \<Rightarrow> ('k, 'b) gomap" where
  "map_vals f [] = []"
| "map_vals f ((k, v) # m) = (k, f v) # map_vals f m"

definition table_of_list :: "(string, nat) gomap \<Rightarrow> string \<Rightarrow> listInfo \<Rightarrow> modelTableInfo" where
  "table_of_list dbNums model li =
     \<lparr>dbNum = (case gget dbNums (li_DbName li) of None \<Rightarrow> 0 | Some n \<Rightarrow> n), modelName = model,
      redisTableName = li_RedisTableName li, ti_keys = li_Keys li, redisKeyDelim = li_RedisKeyDelim li,
      redisKeyPattern = li_RedisKeyPattern li, redisTableSize = li_RedisTableSize li, mapLeaf = li_MapLeaf li,
      leafRef = map_vals (map (\<lambda>p. \<lparr>lr_path = p, lr_exprTree = None, lr_yangListNames = [], lr_targetNodeName = []\<rparr>))
                  (li_LeafRef li),
      mustExpr = filter (\<lambda>(k, l). l \<noteq> []) (li_XpathExpr li),
      whenExpr = filter (\<lambda>(k, l). l \<noteq> []) (map_vals (map (\<lambda>w. w\<lparr>wi_yangListNames := []\<rparr>)) (li_WhenExpr li)),
      tablesForMustExp = [], refFromTables = [], custValidation = li_CustValidation li,
      dfltLeafVal = gset_all (li_DfltLeafVal li) [], mandatoryNodes = li_MandatoryNodes li,
      dependentOnTable = li_DependentOnTable li, dependentTables = [], has_static_key = li_Key li \<noteq> []\<rparr>"

fun store_lists :: "(string, nat) gomap \<Rightarrow> string \<Rightarrow> listInfo list \<Rightarrow> modelDataInfo \<Rightarrow> modelDataInfo" where
  "store_lists dbNums model [] m = m"
| "store_lists dbNums model (li # lis) m =
     (let t = table_of_list dbNums model li; rt = redisTableName t;
          ls = (case gget (redisTableToYangList m) rt of None \<Rightarrow> [] | Some l \<Rightarrow> l);
          keys = (case gget (redisTableToListKeys m) rt of None \<Rightarrow> [] | Some k \<Rightarrow> k);
          m1 = m\<lparr>allKeyDelims := gset (redisKeyDelim t) True (allKeyDelims m),
                 redisTableToYangList := gset rt (ls @ [li_ListName li]) (redisTableToYangList m)\<rparr>;
          m2 = (if li_Key li \<noteq> [] then
                  m1\<lparr>redisTableToListKeys := gset rt (gset (li_Key li) (li_ListName li) keys) (redisTableToListKeys m1)\<rparr>
                else m1) in
      store_lists dbNums model lis (m2\<lparr>tableInfo := gset (li_ListName li) t (tableInfo m2)\<rparr>))"

text \<open>\<open>ns\<close> is the namespace and prefix of the module; the list is nil when it has no lists.\<close>

definition storeModelInfo ::
  "(string, nat) gomap \<Rightarrow> string \<Rightarrow> string \<times> string \<Rightarrow> listInfo list option \<Rightarrow> modelDataInfo \<Rightarrow> modelDataInfo" where
  "storeModelInfo dbNums modelFile ns lis0 m =
     (let model = strSplit modelFile ''.'' ! 0;
          m1 = m\<lparr>modelNs := gset model ns (modelNs m)\<rparr> in
      case lis0 of None \<Rightarrow> m1 | Some lis \<Rightarrow> store_lists dbNums model lis m1)"

section \<open>Redis keys\<close>

text \<open>\<open>strings.Index\<close>.\<close>

definition strIndex :: "string \<Rightarrow> string \<Rightarrow> nat option" where
  "strIndex s sub = map_option (\<lambda>(a, b). length a) (cut sub s)"

definition strLastIndex :: "string \<Rightarrow> string \<Rightarrow> nat option" where
  "strLastIndex s sub = map_option (\<lambda>(a, b). length a) (cut_last sub s)"

text \<open>The loop over the delimiters: the first one that occurs.\<close>

fun find_delim :: "string list \<Rightarrow> string \<Rightarrow> (string \<times> nat) option" where
  "find_delim [] key = None"
| "find_delim (d # ds) key = (case strIndex key d of Some i \<Rightarrow> Some (d, i) | None \<Rightarrow> find_delim ds key)"

text \<open>The loop over the lists of a table: the first one with as many keys.\<close>

fun pick_list :: "modelDataInfo \<Rightarrow> nat \<Rightarrow> string list \<Rightarrow> string option outcome" where
  "pick_list m n [] = Ret None"
| "pick_list m n (l # ls) =
     bind (tbl_info m l) (\<lambda>t.
       if has_static_key t then pick_list m n ls
       else if length (ti_keys t) = n then Ret (Some l) else pick_list m n ls)"

definition getRedisTblToYangList :: "modelDataInfo \<Rightarrow> string \<Rightarrow> string \<Rightarrow> string outcome" where
  "getRedisTblToYangList m tableName key =
     (let static = (case gget (redisTableToListKeys m) tableName of None \<Rightarrow> None | Some ke \<Rightarrow> gget ke key) in
      case static of
        Some yl \<Rightarrow> Ret yl
      | None \<Rightarrow>
          (case gget (redisTableToYangList m) tableName of
             None \<Rightarrow> Ret tableName
           | Some mapArr \<Rightarrow>
               if length mapArr = 1 then Ret tableName
               else
                 let n = (case find_delim (gkeys (allKeyDelims m)) key of
                            Some (d, i) \<Rightarrow> length (strSplit key d) | None \<Rightarrow> 1) in
                 bind (pick_list m n mapArr) (\<lambda>r. Ret (case r of Some l \<Rightarrow> l | None \<Rightarrow> tableName))))"

definition splitRedisKey :: "modelDataInfo \<Rightarrow> string \<Rightarrow> (string \<times> string) outcome" where
  "splitRedisKey m key =
     (case find_delim (gkeys (allKeyDelims m)) key of
        None \<Rightarrow> Ret ([], [])
      | Some (d, i) \<Rightarrow>
          if length key \<le> i then Panics
          else
            let tblName = take i key; tblKey = drop (i + 1) key in
            bind (getRedisTblToYangList m tblName tblKey) (\<lambda>yl.
              if \<not> ghas (tableInfo m) yl then Ret ([], []) else Ret (tblName, tblKey)))"

definition splitKeyComponents :: "modelDataInfo \<Rightarrow> string \<Rightarrow> string \<Rightarrow> string list" where
  "splitKeyComponents m table keyComps =
     (case gget (tableInfo m) table of Some t \<Rightarrow> strSplit keyComps (redisKeyDelim t) | None \<Rightarrow> [])"

record keyValuePair =
  kv_key :: string
  kv_values :: "string list"

text \<open>The loop over the names of the keys; \<open>pats\<close> are the patterns behind the first one.\<close>

fun yang_keys :: "string list \<Rightarrow> string list \<Rightarrow> string list \<Rightarrow> keyValuePair list outcome" where
  "yang_keys (n # ns) (v # vs) [] = Panics"
| "yang_keys (n # ns) (v # vs) (p # ps) =
     bind (yang_keys ns vs ps) (\<lambda>r.
       Ret (if p = ''{'' @ n @ ''}'' then \<lparr>kv_key = n, kv_values = [v]\<rparr> # r
            else if p = ''({'' @ n @ ''},)*'' then \<lparr>kv_key = n, kv_values = strSplit v '',''\<rparr> # r
            else r))"
| "yang_keys _ _ _ = Ret []"

definition getRedisToYangKeys :: "modelDataInfo \<Rightarrow> string \<Rightarrow> string \<Rightarrow> keyValuePair list outcome" where
  "getRedisToYangKeys m tableName redisKey =
     bind (tbl_info m tableName) (\<lambda>t.
       let keyVals = strSplit redisKey (redisKeyDelim t);
           keyPatterns = strSplit (redisKeyPattern t) (redisKeyDelim t) in
       if length (ti_keys t) \<noteq> length keyVals then Ret []
       else yang_keys (ti_keys t) keyVals (drop 1 keyPatterns))"

definition strip_LIST :: "string \<Rightarrow> string" where
  "strip_LIST n = strTrimSuffix n ''_LIST''"

definition getYangListToRedisTbl :: "modelDataInfo \<Rightarrow> string \<Rightarrow> string" where
  "getYangListToRedisTbl m yangListName =
     (let n = (if strHasSuffix yangListName ''_LIST'' then strip_LIST yangListName else yangListName) in
      case gget (tableInfo m) n of
        Some t \<Rightarrow> if redisTableName t \<noteq> [] then redisTableName t else n
      | None \<Rightarrow> n)"

fun key_parts :: "(string, string) gomap \<Rightarrow> string list \<Rightarrow> string list outcome" where
  "key_parts kv [] = Ret []"
| "key_parts kv (p # ps) =
     (if length p < 2 then Panics
      else bind (key_parts kv ps) (\<lambda>r.
        Ret ((case gget kv (butlast (tl p)) of Some v \<Rightarrow> v | None \<Rightarrow> ''*'') # r)))"

definition CreateFindKeyExpression ::
  "modelDataInfo \<Rightarrow> string \<Rightarrow> (string, string) gomap \<Rightarrow> string outcome" where
  "CreateFindKeyExpression m tableName keyFldValPair =
     bind (tbl_info m tableName) (\<lambda>t.
       let sep = redisKeyDelim t in
       bind (key_parts keyFldValPair (drop 1 (strSplit (redisKeyPattern t) sep))) (\<lambda>ps.
         Ret (strJoin (getYangListToRedisTbl m tableName # ps) sep)))"

section \<open>Fields\<close>

datatype fieldVal = FStr string | FList "string list"

type_synonym ffields = "(string, fieldVal) gomap"

fun check_fields :: "fields \<Rightarrow> ffields \<Rightarrow> ffields outcome" where
  "check_fields [] acc = Ret acc"
| "check_fields ((f, v) # fs) acc =
     (if f = ''NULL'' then check_fields fs acc
      else if f = [] then Panics
      else if last f = CHR ''@'' then check_fields fs (gset (butlast f) (FList (strSplit v '','')) acc)
      else check_fields fs (gset f (FStr v) acc))"

definition checkFieldMap :: "fields \<Rightarrow> ffields outcome" where
  "checkFieldMap fieldMap = check_fields fieldMap []"

definition mergeMap :: "fields \<Rightarrow> fields \<Rightarrow> fields" where
  "mergeMap dest src = gset_all src dest"

definition isMandatoryTrueNode :: "modelDataInfo \<Rightarrow> string \<Rightarrow> string \<Rightarrow> bool outcome" where
  "isMandatoryTrueNode m tblName field =
     bind (tbl_info m tblName) (\<lambda>t. Ret (case gget (mandatoryNodes t) field of Some flag \<Rightarrow> flag | None \<Rightarrow> False))"

definition isLeaflistHasMinElems :: "modelDataInfo \<Rightarrow> string \<Rightarrow> string \<Rightarrow> bool outcome" where
  "isLeaflistHasMinElems m table field =
     (if field = [] then Panics
      else if last field = CHR ''@'' then
        bind (tbl_info m table) (\<lambda>t.
          Ret (case gget (mandatoryNodes t) (butlast field) of Some b \<Rightarrow> b | None \<Rightarrow> False))
      else Ret False)"

section \<open>Leafrefs\<close>

definition getYangListNamesInExpr :: "modelDataInfo \<Rightarrow> string \<Rightarrow> string list" where
  "getYangListNamesInExpr m expr =
     filter (\<lambda>n. strContains expr ('':'' @ n @ ''_LIST'') \<or> strContains expr (''/'' @ n @ ''_LIST''))
       (gkeys (tableInfo m))"

definition target_of_path :: "string \<Rightarrow> string" where
  "target_of_path path =
     (case strLastIndex path '':'' of
        Some (Suc i) \<Rightarrow> drop (Suc (Suc i)) path
      | _ \<Rightarrow> (case strLastIndex path ''/'' of Some (Suc i) \<Rightarrow> drop (Suc (Suc i)) path | _ \<Rightarrow> []))"

definition getLeafRefTargetInfo :: "modelDataInfo \<Rightarrow> string \<Rightarrow> (string list \<times> string) outcome" where
  "getLeafRefTargetInfo m path =
     (let tbl = getYangListNamesInExpr m path in
      if length tbl \<noteq> 1 then Panics else Ret (tbl, target_of_path path))"

fun map_outcome :: "('a \<Rightarrow> 'b outcome) \<Rightarrow> 'a list \<Rightarrow> 'b list outcome" where
  "map_outcome f [] = Ret []"
| "map_outcome f (x # xs) = bind (f x) (\<lambda>y. bind (map_outcome f xs) (\<lambda>ys. Ret (y # ys)))"

text \<open>\<open>compile\<close> is the compiled expression of a path, after its predicates were joined.\<close>

definition compile_leafRef ::
  "(string \<Rightarrow> string) \<Rightarrow> modelDataInfo \<Rightarrow> leafRefInfo \<Rightarrow> leafRefInfo outcome" where
  "compile_leafRef compile m l =
     (if lr_path l = ''non-leafref'' then Ret l
      else bind (getLeafRefTargetInfo m (lr_path l)) (\<lambda>(names, target).
        let l1 = l\<lparr>lr_yangListNames := names, lr_targetNodeName := target\<rparr> in
        Ret (if strContains (lr_path l) ''['' \<and> strContains (lr_path l) '']''
             then l1\<lparr>lr_exprTree := Some (compile (lr_path l))\<rparr> else l1)))"

definition compileLeafRefPath :: "(string \<Rightarrow> string) \<Rightarrow> modelDataInfo \<Rightarrow> modelDataInfo outcome" where
  "compileLeafRefPath compile m =
     bind (map_outcome (\<lambda>(n, t).
             bind (map_outcome (\<lambda>(f, ls). bind (map_outcome (compile_leafRef compile m) ls) (\<lambda>ls'. Ret (f, ls')))
                     (leafRef t))
               (\<lambda>lr. Ret (n, t\<lparr>leafRef := lr\<rparr>))) (tableInfo m))
       (\<lambda>ti. Ret (m\<lparr>tableInfo := ti\<rparr>))"

definition getListNameFromLeafRef :: "leafRefInfo \<Rightarrow> string" where
  "getListNameFromLeafRef l = (if length (lr_yangListNames l) = 0 then [] else lr_yangListNames l ! 0)"

fun find_leafRef :: "string \<Rightarrow> leafRefInfo list \<Rightarrow> leafRefInfo option" where
  "find_leafRef target [] = None"
| "find_leafRef target (l # ls) =
     (if lr_path l = ''non-leafref'' then find_leafRef target ls
      else if contains (lr_yangListNames l) target then Some l
      else find_leafRef target ls)"

definition getLeafRefInfo :: "modelDataInfo \<Rightarrow> string \<Rightarrow> string \<Rightarrow> string \<Rightarrow> leafRefInfo option outcome" where
  "getLeafRefInfo m tblName fldName targetTblName =
     bind (tbl_info m tblName) (\<lambda>t.
       Ret (case gget (leafRef t) fldName of None \<Rightarrow> None | Some ls \<Rightarrow> find_leafRef targetTblName ls))"

section \<open>Dependencies between tables\<close>

definition upd_table :: "string \<Rightarrow> (modelTableInfo \<Rightarrow> modelTableInfo) \<Rightarrow> modelDataInfo \<Rightarrow> modelDataInfo" where
  "upd_table n f m =
     (case gget (tableInfo m) n of None \<Rightarrow> m | Some t \<Rightarrow> m\<lparr>tableInfo := gset n (f t) (tableInfo m)\<rparr>)"

fun build_dependencies :: "(string \<times> string) list \<Rightarrow> modelDataInfo \<Rightarrow> modelDataInfo" where
  "build_dependencies [] m = m"
| "build_dependencies ((tblName, dep) # ts) m =
     build_dependencies ts
       (if length dep = 0 then m
        else case strLastIndex dep ''_LIST'' of
          Some (Suc i) \<Rightarrow> upd_table (take (Suc i) dep) (\<lambda>t. t\<lparr>dependentTables := dependentTables t @ [tblName]\<rparr>) m
        | _ \<Rightarrow> m)"

definition buildTableDependencies :: "modelDataInfo \<Rightarrow> modelDataInfo" where
  "buildTableDependencies m = build_dependencies (map_vals dependentOnTable (tableInfo m)) m"

definition must_ops :: "string \<Rightarrow> nat" where
  "must_ops expr =
     (if strContains expr ('':operation != '' @ [CHR 0x27] @ ''CREATE'' @ [CHR 0x27]) then 1 else 0) +
     (if strContains expr ('':operation != '' @ [CHR 0x27] @ ''UPDATE'' @ [CHR 0x27]) then 2 else 0) +
     (if strContains expr ('':operation != '' @ [CHR 0x27] @ ''DELETE'' @ [CHR 0x27]) then 4 else 0)"

fun must_tables :: "string list \<Rightarrow> string \<Rightarrow> mustInfo list \<Rightarrow> (string, nat) gomap \<Rightarrow> (string, nat) gomap" where
  "must_tables names self [] acc = acc"
| "must_tables names self (x # xs) acc =
     must_tables names self xs
       (fold (\<lambda>n acc. if n = self then acc
                       else case strIndex (mi_expr x) (n @ ''_LIST'') of
                         Some (Suc _) \<Rightarrow> gset n (must_ops (mi_expr x)) acc
                       | _ \<Rightarrow> acc) names acc)"

definition addTableNamesForMustExp :: "modelDataInfo \<Rightarrow> modelDataInfo" where
  "addTableNamesForMustExp m =
     m\<lparr>tableInfo := map (\<lambda>(n, t).
         (n, if length (mustExpr t) = 0 then t
             else t\<lparr>tablesForMustExp := must_tables (gkeys (tableInfo m)) n (concat (map snd (mustExpr t))) []\<rparr>))
         (tableInfo m)\<rparr>"

end
