(* ===== verification/CVL_Order.thy ===== *)
theory CVL_Order
  imports CVL_Schema
begin

text \<open>
  The order of tables by their dependencies (\<open>cvl/cvl_api.go\<close>, \<open>buildRefTableInfo\<close> of
  \<open>cvl/cvl.go\<close>): a table depends on the tables that its leafrefs and its extension
  \<open>dependent-on\<close> name, and comes before them.

  The sorting itself is the package \<open>go-toposort\<close>, which the repository does not hold: \<open>ts\<close>
  gets the nodes and the edges in the order in which they are added, and returns the sorted
  nodes and whether the graph could be sorted.
\<close>

type_synonym sorter = "string list \<Rightarrow> (string \<times> string) list \<Rightarrow> string list \<times> bool"

fun fold_outcome :: "('a \<Rightarrow> 's \<Rightarrow> 's outcome) \<Rightarrow> 'a list \<Rightarrow> 's \<Rightarrow> 's outcome" where
  "fold_outcome f [] s = Ret s"
| "fold_outcome f (x # xs) s = bind (f x s) (fold_outcome f xs)"

definition CVL_ERROR :: int where
  "CVL_ERROR = 1"

type_synonym edges = "(string \<times> string) list"

section \<open>The edges\<close>

text \<open>The loop over the leafrefs of one table; the map remembers the edges that were added.\<close>

fun ref_edges ::
  "string \<Rightarrow> string \<Rightarrow> leafRefInfo list \<Rightarrow> edges \<times> (string, string) gomap \<Rightarrow> edges \<times> (string, string) gomap" where
  "ref_edges from to [] acc = acc"
| "ref_edges from to (l # ls) (es, dup) =
     (if strip_LIST (getListNameFromLeafRef l) \<noteq> to then ref_edges from to ls (es, dup)
      else if gget dup from = Some to then ref_edges from to ls (es, dup)
      else ref_edges from to ls (es @ [(from, to)], gset from to dup))"

fun dep_edges :: "string \<Rightarrow> string \<Rightarrow> string list \<Rightarrow> edges \<Rightarrow> edges" where
  "dep_edges from to [] es = es"
| "dep_edges from to (d # ds) es = dep_edges from to ds (if from = d then es @ [(d, to)] else es)"

definition pair_edges :: "modelDataInfo \<Rightarrow> string \<times> string \<Rightarrow> edges \<Rightarrow> edges outcome" where
  "pair_edges m p es =
     (case p of (to, from) \<Rightarrow>
        if to = from then Ret es
        else bind (tbl_info m from) (\<lambda>t.
          case ref_edges from to (concat (map snd (leafRef t))) (es, []) of
            (es1, dup) \<Rightarrow> bind (tbl_info m to) (\<lambda>t2. Ret (dep_edges from to (dependentTables t2) es1))))"

definition addDepEdges :: "modelDataInfo \<Rightarrow> string list \<Rightarrow> edges outcome" where
  "addDepEdges m tableList =
     fold_outcome (pair_edges m) (concat (map (\<lambda>to. map (\<lambda>from. (to, from)) tableList) tableList)) []"

section \<open>Sorting tables\<close>

fun known_tables :: "modelDataInfo \<Rightarrow> string list \<Rightarrow> (string, bool) gomap \<Rightarrow> (string, bool) gomap" where
  "known_tables m [] acc = acc"
| "known_tables m (t # ts) acc = known_tables m ts (if ghas (tableInfo m) t then gset t True acc else acc)"

definition sort_nodes :: "sorter \<Rightarrow> modelDataInfo \<Rightarrow> string list \<Rightarrow> (string list \<times> int) outcome" where
  "sort_nodes ts m tableList =
     bind (addDepEdges m tableList) (\<lambda>es.
       case ts tableList es of (result, ok) \<Rightarrow> Ret (if \<not> ok then ([], CVL_ERROR) else (result, CVL_SUCCESS)))"

definition sortDepTables :: "sorter \<Rightarrow> modelDataInfo \<Rightarrow> string list \<Rightarrow> (string list \<times> int) outcome" where
  "sortDepTables ts m inTableList = sort_nodes ts m (gkeys (known_tables m inTableList []))"

definition yang_lists :: "modelDataInfo \<Rightarrow> string list \<Rightarrow> string list" where
  "yang_lists m ts = concat (map (\<lambda>t. case gget (redisTableToYangList m) t of None \<Rightarrow> [] | Some ls \<Rightarrow> ls) ts)"

definition SortDepList :: "sorter \<Rightarrow> modelDataInfo \<Rightarrow> string list \<Rightarrow> (string list \<times> int) outcome" where
  "SortDepList ts m inTables = sortDepTables ts m (yang_lists m inTables)"

fun last_occurrence :: "nat \<Rightarrow> string list \<Rightarrow> (string, nat) gomap \<Rightarrow> (string, nat) gomap" where
  "last_occurrence i [] lo = lo"
| "last_occurrence i (e # es) lo = last_occurrence (Suc i) es (gset e i lo)"

fun keep_last :: "nat \<Rightarrow> string list \<Rightarrow> (string, nat) gomap \<Rightarrow> string list" where
  "keep_last i [] lo = []"
| "keep_last i (e # es) lo = (if gget lo e = Some i then e # keep_last (Suc i) es lo else keep_last (Suc i) es lo)"

definition table_of_entry :: "modelDataInfo \<Rightarrow> string \<Rightarrow> string" where
  "table_of_entry m e = (case gget (tableInfo m) e of Some t \<Rightarrow> redisTableName t | None \<Rightarrow> e)"

definition processTopoSortResult :: "modelDataInfo \<Rightarrow> string list \<Rightarrow> string list \<times> int" where
  "processTopoSortResult m result =
     (let r = map (table_of_entry m) result in (keep_last 0 r (last_occurrence 0 r []), CVL_SUCCESS))"

definition process_sorted :: "modelDataInfo \<Rightarrow> string list \<times> int \<Rightarrow> string list \<times> int" where
  "process_sorted m r = (if snd r \<noteq> CVL_SUCCESS then ([], CVL_ERROR) else processTopoSortResult m (fst r))"

definition SortDepTables :: "sorter \<Rightarrow> modelDataInfo \<Rightarrow> string list \<Rightarrow> (string list \<times> int) outcome" where
  "SortDepTables ts m inTableList =
     bind (sortDepTables ts m (yang_lists m inTableList)) (\<lambda>r. Ret (process_sorted m r))"

definition tables_of_module :: "modelDataInfo \<Rightarrow> string \<Rightarrow> string list" where
  "tables_of_module m yangModule = map fst (filter (\<lambda>(n, t). modelName t = yangModule) (tableInfo m))"

definition GetOrderedTables :: "sorter \<Rightarrow> modelDataInfo \<Rightarrow> string \<Rightarrow> (string list \<times> int) outcome" where
  "GetOrderedTables ts m yangModule =
     bind (sortDepTables ts m (tables_of_module m yangModule)) (\<lambda>r. Ret (process_sorted m r))"

section \<open>The tables that depend on one table\<close>

text \<open>The state: the nodes and the edges added so far, and the map of the edges of this table.\<close>

type_synonym graph = "string list \<times> edges"

fun target_is_key :: "modelDataInfo \<Rightarrow> string \<Rightarrow> string list \<Rightarrow> bool outcome" where
  "target_is_key m target [] = Ret False"
| "target_is_key m target (v # vs) =
     bind (tbl_info m v) (\<lambda>t. bind (target_is_key m target vs) (\<lambda>r. Ret (contains (ti_keys t) target \<or> r)))"

fun refs_to_table ::
  "modelDataInfo \<Rightarrow> string \<Rightarrow> string \<Rightarrow> string list \<Rightarrow> leafRefInfo list \<Rightarrow> graph \<times> (string, string) gomap \<Rightarrow>
     (graph \<times> (string, string) gomap) outcome" where
  "refs_to_table m from to tblLists [] acc = Ret acc"
| "refs_to_table m from to tblLists (l # ls) ((ns, es), dup) =
     bind (target_is_key m (lr_targetNodeName l) tblLists) (\<lambda>isKey.
       if \<not> contains tblLists (strip_LIST (getListNameFromLeafRef l)) then refs_to_table m from to tblLists ls ((ns, es), dup)
       else if \<not> isKey then refs_to_table m from to tblLists ls ((ns, es), dup)
       else if gget dup from = Some to then refs_to_table m from to tblLists ls ((ns, es), dup)
       else refs_to_table m from to tblLists ls ((ns @ [from], es @ [(from, to)]), gset from to dup))"

fun deps_of_lists :: "modelDataInfo \<Rightarrow> string \<Rightarrow> string \<Rightarrow> string list \<Rightarrow> graph \<Rightarrow> graph outcome" where
  "deps_of_lists m tbl to [] g = Ret g"
| "deps_of_lists m tbl to (tn # tns) g =
     bind (tbl_info m tn) (\<lambda>t.
       deps_of_lists m tbl to tns
         (fold (\<lambda>d (ns, es). if tbl = d then (ns @ [d], es @ [(d, to)]) else (ns, es)) (dependentTables t) g))"

definition table_to_graph :: "modelDataInfo \<Rightarrow> string \<Rightarrow> string list \<Rightarrow> string \<Rightarrow> graph \<Rightarrow> graph outcome" where
  "table_to_graph m tableName tblLists tbl g =
     bind (tbl_info m tbl) (\<lambda>t.
       if tableName = redisTableName t then Ret g
       else bind (refs_to_table m tbl tableName tblLists (concat (map snd (leafRef t))) (g, []))
         (\<lambda>(g1, dup). deps_of_lists m tbl tableName tblLists g1))"

definition GetOrderedDepTables :: "sorter \<Rightarrow> modelDataInfo \<Rightarrow> string \<Rightarrow> string \<Rightarrow> (string list \<times> int) outcome" where
  "GetOrderedDepTables ts m yangModule tableName =
     (case gget (redisTableToYangList m) tableName of
        None \<Rightarrow> Ret ([], CVL_ERROR)
      | Some tblLists \<Rightarrow>
          bind (fold_outcome (table_to_graph m tableName tblLists) (tables_of_module m yangModule) ([tableName], []))
            (\<lambda>(ns, es). case ts ns es of
               (result, ok) \<Rightarrow> Ret (if \<not> ok then ([], CVL_ERROR) else processTopoSortResult m result)))"

section \<open>The tables on which a table depends\<close>

text \<open>The calls that \<open>addDepTables\<close> makes on one list, in their order.\<close>

definition dep_calls :: "modelTableInfo \<Rightarrow> string list" where
  "dep_calls t =
     concat (map lr_yangListNames (concat (map snd (leafRef t)))) @
     (if length (dependentOnTable t) > 0 then [strip_LIST (dependentOnTable t)] else [])"

text \<open>
  The recursion, which need not end: the list holds the calls that are still to be made, the
  next one first.  \<open>None\<close> when it does not return.
\<close>

partial_function (option) addDepTables ::
  "modelDataInfo \<Rightarrow> string list \<Rightarrow> (string, bool) gomap \<Rightarrow> (string, bool) gomap outcome option" where
  "addDepTables m calls tableMap =
     (case calls of
        [] \<Rightarrow> Some (Ret tableMap)
      | listEntry # rest \<Rightarrow>
          (case tbl_info m listEntry of
             Ret t \<Rightarrow> addDepTables m (dep_calls t @ rest) (gset listEntry True tableMap)
           | _ \<Rightarrow> Some Panics))"

declare addDepTables.simps [code]

definition GetDepTables :: "sorter \<Rightarrow> modelDataInfo \<Rightarrow> string \<Rightarrow> (string list \<times> int) outcome option" where
  "GetDepTables ts m tableName =
     (case gget (redisTableToYangList m) tableName of
        None \<Rightarrow> Some (Ret ([], CVL_ERROR))
      | Some ls \<Rightarrow>
          map_option (\<lambda>r. bind r (\<lambda>tblMap. bind (sort_nodes ts m (gkeys tblMap)) (\<lambda>r. Ret (process_sorted m r))))
            (addDepTables m ls []))"

section \<open>Reverse references\<close>

text \<open>Every leafref adds its table and field to the lists that it names.\<close>

definition ref_entries :: "modelDataInfo \<Rightarrow> (string \<times> tblFieldPair) list" where
  "ref_entries m =
     concat (map (\<lambda>(n, t). concat (map (\<lambda>(f, ls).
       concat (map (\<lambda>l. map (\<lambda>y. (y, \<lparr>tf_tableName = n, tf_field = f\<rparr>)) (lr_yangListNames l)) ls)) (leafRef t)))
       (tableInfo m))"

fun add_refs :: "(string \<times> tblFieldPair) list \<Rightarrow> modelDataInfo \<Rightarrow> modelDataInfo outcome" where
  "add_refs [] m = Ret m"
| "add_refs ((y, p) # rs) m =
     (if \<not> ghas (tableInfo m) y then Panics
      else add_refs rs (upd_table y (\<lambda>t. t\<lparr>refFromTables := refFromTables t @ [p]\<rparr>) m))"

definition sort_refs :: "sorter \<Rightarrow> modelDataInfo \<Rightarrow> modelTableInfo \<Rightarrow> modelTableInfo outcome" where
  "sort_refs ts m t =
     (if length (refFromTables t) = 0 then Ret t
      else bind (sortDepTables ts m (map tf_tableName (refFromTables t))) (\<lambda>(sorted, r).
        if length sorted = 0 then Ret t
        else Ret (t\<lparr>refFromTables :=
               concat (map (\<lambda>n. filter (\<lambda>p. n = tf_tableName p) (refFromTables t)) sorted)\<rparr>)))"

definition buildRefTableInfo :: "sorter \<Rightarrow> modelDataInfo \<Rightarrow> modelDataInfo outcome" where
  "buildRefTableInfo ts m =
     bind (add_refs (ref_entries m) m) (\<lambda>m1.
       bind (map_outcome (\<lambda>(n, t). bind (sort_refs ts m1 t) (\<lambda>t'. Ret (n, t'))) (tableInfo m1)) (\<lambda>ti.
         Ret (m1\<lparr>tableInfo := ti\<rparr>)))"

definition GetAllReferringTables :: "modelDataInfo \<Rightarrow> string \<Rightarrow> (string, string list) gomap" where
  "GetAllReferringTables m tableName =
     (case gget (tableInfo m) tableName of
        None \<Rightarrow> []
      | Some t \<Rightarrow>
          fold (\<lambda>p refTbls. let n = getYangListToRedisTbl m (tf_tableName p) in
              gset n ((case gget refTbls n of None \<Rightarrow> [] | Some fs \<Rightarrow> fs) @ [tf_field p]) refTbls)
            (refFromTables t) [])"

section \<open>Loading the schema\<close>

definition empty_schema :: modelDataInfo where
  "empty_schema =
     \<lparr>modelNs = [], tableInfo = [], redisTableToYangList = [], redisTableToListKeys = [], allKeyDelims = []\<rparr>"

text \<open>The loop over the modules: file, namespace and prefix, lists.\<close>

fun store_modules ::
  "(string, nat) gomap \<Rightarrow> (string \<times> (string \<times> string) \<times> listInfo list option) list \<Rightarrow> modelDataInfo \<Rightarrow> modelDataInfo" where
  "store_modules dbNums [] m = m"
| "store_modules dbNums ((f, ns, lis) # ms) m = store_modules dbNums ms (storeModelInfo dbNums f ns lis m)"

text \<open>The steps of \<open>Initialize\<close> on the schema, from the parsed modules on.\<close>

definition loadSchema ::
  "(string \<Rightarrow> string) \<Rightarrow> sorter \<Rightarrow> (string, nat) gomap \<Rightarrow>
     (string \<times> (string \<times> string) \<times> listInfo list option) list \<Rightarrow> modelDataInfo outcome" where
  "loadSchema compile ts dbNums mods =
     bind (compileLeafRefPath compile (store_modules dbNums mods empty_schema)) (\<lambda>m.
       bind (buildRefTableInfo ts (addTableNamesForMustExp m)) (\<lambda>m2. Ret (buildTableDependencies m2)))"

end
