(* ===== verification/CVL_OrderProps.thy ===== *)
theory CVL_OrderProps
  imports CVL_Order
begin

text \<open>
  What the order of the tables promises, given a package that sorts graphs topologically, and
  when the search for the tables on which a table depends ends.
\<close>

section \<open>Sorting\<close>

definition before :: "'a \<Rightarrow> 'a \<Rightarrow> 'a list \<Rightarrow> bool" where
  "before a b r \<longleftrightarrow> (\<exists>xs ys. r = xs @ ys \<and> a \<in> set xs \<and> b \<in> set ys)"

text \<open>
  The documented behaviour of a topological sort: the result lists each node once, with the
  source of each edge in front of its target; it fails only on a graph with a cycle (or one
  that was built with an edge twice).
\<close>

definition topo_sorter :: "sorter \<Rightarrow> bool" where
  "topo_sorter ts \<longleftrightarrow>
     (\<forall>ns es r. ts ns es = (r, True) \<longrightarrow>
        distinct r \<and> set r = set ns \<and> (\<forall>(a, b) \<in> set es. a \<in> set ns \<and> b \<in> set ns \<longrightarrow> before a b r)) \<and>
     (\<forall>ns es. distinct ns \<and> distinct es \<and> set es \<subseteq> set ns \<times> set ns \<and> acyclic (set es) \<longrightarrow> snd (ts ns es))"

subsection \<open>The last occurrences\<close>


lemma last_occurrence_bound:
  "gget (last_occurrence i es lo) e = (if e \<in> set es then gget (last_occurrence i es []) e else gget lo e) \<and>
   (e \<in> set es \<longrightarrow> (\<exists>k. gget (last_occurrence i es []) e = Some k \<and> i \<le> k))"
proof (induction es arbitrary: i lo)
  case (Cons x es)
  show ?case
    using Cons[of "Suc i" "gset x i lo"] Cons[of "Suc i" "gset x i []"] by (auto dest: Suc_leD)
qed simp

lemma keep_last_cong:
  "\<forall>e \<in> set es. gget lo e = gget lo' e \<Longrightarrow> keep_last i es lo = keep_last i es lo'"
  by (induction es arbitrary: i) auto

lemma keep_last_remdups: "keep_last i es (last_occurrence i es lo) = remdups es"
proof (induction es arbitrary: i lo)
  case (Cons x es)
  have tail: "keep_last (Suc i) es (last_occurrence (Suc i) es (gset x i lo)) = remdups es"
    by (rule Cons.IH)
  have "gget (last_occurrence (Suc i) es (gset x i lo)) x = Some i \<longleftrightarrow> x \<notin> set es"
    using last_occurrence_bound[of "Suc i" es "gset x i lo" x] by auto
  then show ?case using tail by simp
qed simp

lemma processTopoSortResult_eq:
  "processTopoSortResult m result = (remdups (map (table_of_entry m) result), CVL_SUCCESS)"
  by (simp add: processTopoSortResult_def Let_def keep_last_remdups)


text \<open>In the list of last occurrences \<open>a\<close> is before \<open>b\<close> when each \<open>a\<close> has a \<open>b\<close> behind it.\<close>

lemma remdups_tail: "\<exists>us. remdups (xs @ zs) = us @ remdups zs"
proof (induction xs)
  case (Cons x xs)
  then obtain us where us: "remdups (xs @ zs) = us @ remdups zs" ..
  show ?case
  proof (cases "x \<in> set (xs @ zs)")
    case True
    show ?thesis unfolding append_Cons remdups.simps if_P[OF True] by (rule exI) (rule us)
  next
    case False
    have "remdups ((x # xs) @ zs) = (x # us) @ remdups zs"
      unfolding append_Cons remdups.simps if_not_P[OF False] us by (rule refl)
    then show ?thesis ..
  qed
qed simp

lemma remdups_before:
  assumes "a \<in> set r" "a \<noteq> b" "\<And>xs ys. r = xs @ a # ys \<Longrightarrow> b \<in> set ys"
  shows "before a b (remdups r)"
proof -
  obtain xs ys where r: "r = xs @ a # ys" "a \<notin> set ys" using split_list_last[OF assms(1)] by blast
  have b: "b \<in> set ys" using assms(3) r(1) by blast
  obtain us where "remdups (xs @ a # ys) = us @ remdups (a # ys)" using remdups_tail by blast
  then have "remdups r = (us @ [a]) @ remdups ys"
    unfolding r(1) remdups.simps if_not_P[OF r(2)] by (simp only: append_assoc append.simps)
  then show ?thesis
    unfolding before_def by (rule_tac exI[of _ "us @ [a]"], rule_tac exI[of _ "remdups ys"]) (simp add: b)
qed

subsection \<open>The edges\<close>

definition refers :: "modelDataInfo \<Rightarrow> string \<Rightarrow> string \<Rightarrow> bool" where
  "refers m from to \<longleftrightarrow>
     (\<exists>t l. gget (tableInfo m) from = Some t \<and> l \<in> set (concat (map snd (leafRef t))) \<and>
        strip_LIST (getListNameFromLeafRef l) = to)"

definition dependent_on :: "modelDataInfo \<Rightarrow> string \<Rightarrow> string \<Rightarrow> bool" where
  "dependent_on m from to \<longleftrightarrow> (\<exists>t. gget (tableInfo m) to = Some t \<and> from \<in> set (dependentTables t))"

definition list_dep :: "modelDataInfo \<Rightarrow> string \<Rightarrow> string \<Rightarrow> bool" where
  "list_dep m from to \<longleftrightarrow> from \<noteq> to \<and> (refers m from to \<or> dependent_on m from to)"

lemma ref_edges_eq:
  "ref_edges from to ls (es, dup) =
     (if gget dup from \<noteq> Some to \<and> (\<exists>l \<in> set ls. strip_LIST (getListNameFromLeafRef l) = to)
      then (es @ [(from, to)], gset from to dup) else (es, dup))"
  by (induction ls arbitrary: es dup) auto

lemma dep_edges_eq: "dep_edges from to ds es = es @ map (\<lambda>d. (d, to)) (filter (\<lambda>d. from = d) ds)"
  by (induction ds arbitrary: es) auto

definition new_edges :: "modelDataInfo \<Rightarrow> string \<times> string \<Rightarrow> edges" where
  "new_edges m p = (case p of (to, from) \<Rightarrow>
     if to = from then []
     else (if refers m from to then [(from, to)] else []) @
       (case gget (tableInfo m) to of None \<Rightarrow> []
        | Some t \<Rightarrow> map (\<lambda>d. (d, to)) (filter (\<lambda>d. from = d) (dependentTables t))))"

lemma pair_edges_eq:
  assumes "ghas (tableInfo m) from" "ghas (tableInfo m) to"
  shows "pair_edges m (to, from) es = Ret (es @ new_edges m (to, from))"
proof -
  obtain t t2 where t: "gget (tableInfo m) from = Some t" "gget (tableInfo m) to = Some t2"
    using assms by (auto simp: ghas_def)
  have "refers m from to \<longleftrightarrow> (\<exists>l \<in> set (concat (map snd (leafRef t))). strip_LIST (getListNameFromLeafRef l) = to)"
    using t(1) unfolding refers_def by auto
  then show ?thesis
    using t by (simp only: pair_edges_def new_edges_def tbl_info_def ref_edges_eq dep_edges_eq prod.case option.case
        bind.simps gget_Nil option.distinct simp_thms) (auto simp only: prod.case append_assoc append_Nil append_Cons append_Nil2 bind.simps split: if_splits)
qed

lemma fold_pair_edges:
  "\<forall>(to, from) \<in> set ps. ghas (tableInfo m) from \<and> ghas (tableInfo m) to \<Longrightarrow>
    fold_outcome (pair_edges m) ps es = Ret (es @ concat (map (new_edges m) ps))"
proof (induction ps arbitrary: es)
  case (Cons p ps)
  obtain to frm where p: "p = (to, frm)" by (cases p)
  show ?case using Cons by (simp add: p pair_edges_eq)
qed simp

lemma addDepEdges_eq:
  assumes "\<forall>t \<in> set ts. ghas (tableInfo m) t"
  shows "addDepEdges m ts = Ret (concat (map (new_edges m) (concat (map (\<lambda>to. map (\<lambda>from. (to, from)) ts) ts))))"
  unfolding addDepEdges_def by (subst fold_pair_edges) (use assms in auto)

lemma set_new_edges: "set (new_edges m (to, from)) = (if list_dep m from to then {(from, to)} else {})"
proof -
  have "set (filter ((=) a) ds) = (if a \<in> set ds then {a} else {})" for a :: string and ds by auto
  then show ?thesis
    by (auto simp: new_edges_def list_dep_def dependent_on_def filter_empty_conv split: option.splits)
qed

lemma addDepEdges_set:
  assumes "\<forall>t \<in> set ts. ghas (tableInfo m) t" "addDepEdges m ts = Ret es"
  shows "set es = {(a, b). a \<in> set ts \<and> b \<in> set ts \<and> list_dep m a b}"
  using assms by (auto simp: addDepEdges_eq set_new_edges split: if_splits)

text \<open>No edge is added twice when no list is given by both ways.\<close>

definition one_way :: "modelDataInfo \<Rightarrow> bool" where
  "one_way m \<longleftrightarrow> (\<forall>a b. \<not> (refers m a b \<and> dependent_on m a b)) \<and>
     (\<forall>n t. gget (tableInfo m) n = Some t \<longrightarrow> distinct (dependentTables t))"

lemma filter_eq_distinct: "distinct xs \<Longrightarrow> filter (\<lambda>d. a = d) xs = (if a \<in> set xs then [a] else [])"
  by (induction xs) auto

lemma new_edges_distinct: "one_way m \<Longrightarrow> distinct (new_edges m p)"
proof -
  assume o: "one_way m"
  obtain to frm where p: "p = (to, frm)" by (cases p)
  show ?thesis
  proof (cases "gget (tableInfo m) to")
    case None
    then show ?thesis by (simp add: p new_edges_def)
  next
    case (Some t)
    then have "distinct (dependentTables t)" "refers m frm to \<longrightarrow> frm \<notin> set (dependentTables t)"
      using o unfolding one_way_def dependent_on_def by blast+
    then show ?thesis using Some by (auto simp: p new_edges_def filter_eq_distinct)
  qed
qed

lemma distinct_concat_new_edges:
  "distinct ps \<Longrightarrow> one_way m \<Longrightarrow> distinct (concat (map (new_edges m) ps))"
proof (induction ps)
  case (Cons p ps)
  have "set (new_edges m p) \<inter> set (concat (map (new_edges m) ps)) = {}"
    using Cons.prems(1) by (cases p) (fastforce simp: set_new_edges split: if_splits)
  then show ?case using Cons new_edges_distinct by simp
qed simp

lemma distinct_pairs: "distinct ts \<Longrightarrow> distinct (concat (map (\<lambda>to. map (\<lambda>from. (to, from)) ts) ts))"
proof -
  assume d: "distinct ts"
  have "distinct (concat (map (\<lambda>to. map (\<lambda>from. (to, from)) ts) us))" if "distinct us" for us
    using that by (induction us) (use d in \<open>auto simp: distinct_map inj_on_def\<close>)
  then show ?thesis using d by blast
qed

lemma addDepEdges_distinct:
  "\<forall>t \<in> set ts. ghas (tableInfo m) t \<Longrightarrow> distinct ts \<Longrightarrow> one_way m \<Longrightarrow> addDepEdges m ts = Ret es \<Longrightarrow> distinct es"
  using distinct_concat_new_edges[OF distinct_pairs] by (auto simp: addDepEdges_eq)

subsection \<open>Sorted tables\<close>

lemma known_tables_keys:
  "gok acc \<Longrightarrow> gok (known_tables m ts acc) \<and>
    set (gkeys (known_tables m ts acc)) = set (gkeys acc) \<union> {t \<in> set ts. ghas (tableInfo m) t}"
  by (induction m ts acc rule: known_tables.induct) (auto simp: set_gkeys ghas_def)

lemma sortDepTables_ok:
  assumes "topo_sorter ts" "sortDepTables ts m ls = Ret (r, CVL_SUCCESS)"
  shows "distinct r" "set r = {l \<in> set ls. ghas (tableInfo m) l}"
    "a \<in> set r \<Longrightarrow> b \<in> set r \<Longrightarrow> list_dep m a b \<Longrightarrow> before a b r"
proof -
  let ?ns = "gkeys (known_tables m ls [])"
  have n: "set ?ns = {l \<in> set ls. ghas (tableInfo m) l}" "\<forall>t \<in> set ?ns. ghas (tableInfo m) t"
    using known_tables_keys[of "[]" m ls] by (auto simp: gkeys_def)
  obtain es where es: "addDepEdges m ?ns = Ret es" using addDepEdges_eq[OF n(2)] by blast
  have s: "ts ?ns es = (r, True)"
  proof (cases "ts ?ns es")
    case (Pair r0 ok)
    have "sortDepTables ts m ls = Ret (if \<not> ok then ([], CVL_ERROR) else (r0, CVL_SUCCESS))"
      unfolding sortDepTables_def sort_nodes_def es by (simp only: bind.simps Pair prod.case)
    then show ?thesis using assms(2) Pair by (cases ok) (simp_all add: CVL_SUCCESS_def CVL_ERROR_def)
  qed
  then have t: "distinct r \<and> set r = set ?ns \<and> (\<forall>(a, b) \<in> set es. a \<in> set ?ns \<and> b \<in> set ?ns \<longrightarrow> before a b r)"
    using assms(1) unfolding topo_sorter_def by blast
  then show "distinct r" by (elim conjE)
  from t have "set r = set ?ns" by (elim conjE)
  then show "set r = {l \<in> set ls. ghas (tableInfo m) l}" using n(1) by (rule trans)
  assume "a \<in> set r" "b \<in> set r" "list_dep m a b"
  moreover from this have "(a, b) \<in> set es"
    unfolding addDepEdges_set[OF n(2) es] \<open>set r = set ?ns\<close> by simp
  ultimately show "before a b r" using t by blast
qed

lemma sortDepTables_succeeds:
  assumes "topo_sorter ts" "one_way m"
    and "acyclic {(a, b). a \<in> set ls \<and> b \<in> set ls \<and> ghas (tableInfo m) a \<and> ghas (tableInfo m) b \<and> list_dep m a b}"
  shows "\<exists>r. sortDepTables ts m ls = Ret (r, CVL_SUCCESS)"
proof -
  let ?ns = "gkeys (known_tables m ls [])"
  have n: "distinct ?ns" "set ?ns = {l \<in> set ls. ghas (tableInfo m) l}" "\<forall>t \<in> set ?ns. ghas (tableInfo m) t"
    using known_tables_keys[of "[]" m ls] by (auto simp: gkeys_def gok_def)
  obtain es where es: "addDepEdges m ?ns = Ret es" using addDepEdges_eq[OF n(3)] by blast
  have "set es = {(a, b). a \<in> set ls \<and> b \<in> set ls \<and> ghas (tableInfo m) a \<and> ghas (tableInfo m) b \<and> list_dep m a b}"
    using addDepEdges_set[OF n(3) es] n(2) by auto
  moreover have "distinct es" by (rule addDepEdges_distinct[OF n(3,1) assms(2) es])
  moreover have "set es \<subseteq> set ?ns \<times> set ?ns" using addDepEdges_set[OF n(3) es] by auto
  ultimately have "snd (ts ?ns es)" using assms(1,3) n(1) unfolding topo_sorter_def by metis
  then show ?thesis using es
    by (cases "ts ?ns es") (simp add: sortDepTables_def sort_nodes_def)
qed

lemma before_lists:
  assumes "distinct r" "before l l' r" "r = xs @ l # ys"
  shows "l' \<in> set ys"
proof -
  obtain us vs where u: "r = us @ vs" "l \<in> set us" "l' \<in> set vs" using assms(2) unfolding before_def by blast
  then obtain as bs where "us = as @ l # bs" using split_list by metis
  then have "r = as @ l # (bs @ vs)" using u(1) by simp
  then have "as = xs \<and> bs @ vs = ys"
    using assms(1,3) by (metis append_Cons_eq_iff distinct.simps(2) distinct_append not_distinct_conv_prefix)
  then show ?thesis using u(3) by auto
qed

lemma tables_before:
  assumes "distinct r" "A \<in> f ` set r" "A \<noteq> B"
    and "\<And>l. l \<in> set r \<Longrightarrow> f l = A \<Longrightarrow> \<exists>l'. l' \<in> set r \<and> f l' = B \<and> before l l' r"
  shows "before A B (remdups (map f r))"
proof (rule remdups_before)
  show "A \<in> set (map f r)" using assms(2) by simp
  fix xs ys
  assume "map f r = xs @ A # ys"
  then obtain us l vs where r: "r = us @ l # vs" "f l = A" "map f vs = ys"
    by (auto simp: map_eq_append_conv)
  then obtain l' where l': "l' \<in> set r" "f l' = B" "before l l' r" using assms(4)[of l] by auto
  then have "l' \<in> set vs" using before_lists[OF assms(1) l'(3) r(1)] by simp
  then show "B \<in> set ys" using l'(2) r(3) by force
qed (use assms in simp_all)

section \<open>The search for dependencies\<close>

definition dep_call :: "modelDataInfo \<Rightarrow> (string \<times> string) set" where
  "dep_call m = {(x, y). \<exists>t. gget (tableInfo m) x = Some t \<and> y \<in> set (dep_calls t)}"

definition dep_acc :: "modelDataInfo \<Rightarrow> string set" where
  "dep_acc m = Wellfounded.acc ((dep_call m)\<inverse>)"

lemma dep_accI: "(\<And>y. (x, y) \<in> dep_call m \<Longrightarrow> y \<in> dep_acc m) \<Longrightarrow> x \<in> dep_acc m"
  by (auto simp: dep_acc_def intro: accI)

lemma dep_acc_induct [consumes 1, case_names step]:
  assumes "x \<in> dep_acc m"
    and step: "\<And>x. (\<And>y. (x, y) \<in> dep_call m \<Longrightarrow> P y) \<Longrightarrow> P x"
  shows "P x"
  using assms(1) unfolding dep_acc_def
proof (induction rule: acc_induct_rule)
  case (1 x)
  show ?case by (rule step) (use 1 in simp)
qed

text \<open>Every list that is called is in the schema.\<close>

definition closed_calls :: "modelDataInfo \<Rightarrow> bool" where
  "closed_calls m \<longleftrightarrow> (\<forall>x y. (x, y) \<in> dep_call m \<longrightarrow> ghas (tableInfo m) y)"

lemma addDepTables_Nil [simp]: "addDepTables m [] mp = Some (Ret mp)"
  by (subst addDepTables.simps) simp

lemma addDepTables_Cons:
  "gget (tableInfo m) x = Some t \<Longrightarrow>
    addDepTables m (x # rest) mp = addDepTables m (dep_calls t @ rest) (gset x True mp)"
  by (subst addDepTables.simps) (simp add: tbl_info_def)

definition reached :: "modelDataInfo \<Rightarrow> string set \<Rightarrow> string set" where
  "reached m S = (dep_call m)\<^sup>* `` S"

lemma reached_insert: "reached m (insert y S) = reached m {y} \<union> reached m S"
  by (auto simp: reached_def)

lemma addDepTables_one:
  assumes "x \<in> dep_acc m" "ghas (tableInfo m) x" "closed_calls m"
  shows "\<exists>mp'. addDepTables m (x # rest) mp = addDepTables m rest mp' \<and>
    set (gkeys mp') = set (gkeys mp) \<union> reached m {x} \<and> (gok mp \<longrightarrow> gok mp')"
  using assms(1,2)
proof (induction x arbitrary: rest mp rule: dep_acc_induct)
  case (step x)
  obtain t where t: "gget (tableInfo m) x = Some t" using step(2) by (auto simp: ghas_def)
  have all: "\<exists>mp'. addDepTables m (ys @ rest) mp = addDepTables m rest mp' \<and>
      set (gkeys mp') = set (gkeys mp) \<union> reached m (set ys) \<and> (gok mp \<longrightarrow> gok mp')"
    if "set ys \<subseteq> set (dep_calls t)" for ys mp
    using that
  proof (induction ys arbitrary: mp)
    case Nil
    then show ?case by (auto simp: reached_def)
  next
    case (Cons y ys)
    have y: "(x, y) \<in> dep_call m" "ghas (tableInfo m) y"
      using Cons.prems t assms(3) unfolding dep_call_def closed_calls_def by (simp, fastforce)
    obtain mp1 where m1: "addDepTables m (y # (ys @ rest)) mp = addDepTables m (ys @ rest) mp1"
      "set (gkeys mp1) = set (gkeys mp) \<union> reached m {y}" "gok mp \<longrightarrow> gok mp1"
      using step(1)[OF y, of "ys @ rest" mp] by blast
    obtain mp2 where "addDepTables m (ys @ rest) mp1 = addDepTables m rest mp2"
      "set (gkeys mp2) = set (gkeys mp1) \<union> reached m (set ys)" "gok mp1 \<longrightarrow> gok mp2"
      using Cons.IH[of mp1] Cons.prems by auto
    then show ?case
      by (intro exI[of _ mp2]) (use m1 reached_insert[of m y "set ys"] in \<open>simp add: Un_assoc\<close>)
  qed
  obtain mp' where mp': "addDepTables m (dep_calls t @ rest) (gset x True mp) = addDepTables m rest mp'"
    "set (gkeys mp') = set (gkeys (gset x True mp)) \<union> reached m (set (dep_calls t))" "gok (gset x True mp) \<longrightarrow> gok mp'"
    using all[of "dep_calls t" "gset x True mp"] by auto
  have "reached m {x} = insert x (reached m (set (dep_calls t)))"
    using t by (fastforce simp: reached_def dep_call_def elim: converse_rtranclE intro: converse_rtrancl_into_rtrancl)
  moreover have "set (gkeys (gset x True mp)) = insert x (set (gkeys mp))" by (auto simp: set_gkeys)
  ultimately show ?case
    using mp'(3) by (intro exI[of _ mp']) (simp add: mp'(1,2) addDepTables_Cons[OF t])
qed

lemma addDepTables_all:
  assumes "set xs \<subseteq> dep_acc m" "\<forall>x \<in> set xs. ghas (tableInfo m) x" "closed_calls m"
  shows "\<exists>mp'. addDepTables m xs mp = Some (Ret mp') \<and>
    set (gkeys mp') = set (gkeys mp) \<union> reached m (set xs) \<and> (gok mp \<longrightarrow> gok mp')"
  using assms(1,2)
proof (induction xs arbitrary: mp)
  case Nil
  then show ?case by (auto simp: reached_def)
next
  case (Cons x xs)
  obtain mp1 where m1: "addDepTables m (x # xs) mp = addDepTables m xs mp1"
    "set (gkeys mp1) = set (gkeys mp) \<union> reached m {x}" "gok mp \<longrightarrow> gok mp1"
    using addDepTables_one[of x m xs mp] Cons.prems assms(3) by auto
  moreover obtain mp2 where "addDepTables m xs mp1 = Some (Ret mp2)"
    "set (gkeys mp2) = set (gkeys mp1) \<union> reached m (set xs)" "gok mp1 \<longrightarrow> gok mp2"
    using Cons.IH[of mp1] Cons.prems by auto
  ultimately show ?case
    using reached_insert[of m x "set xs"] by (intro exI[of _ mp2]) (simp add: Un_assoc)
qed

text \<open>When it returns, every call was well-founded.\<close>

lemma addDepTables_acc:
  assumes "addDepTables m xs mp = Some r" "closed_calls m" "\<forall>x \<in> set xs. ghas (tableInfo m) x"
  shows "set xs \<subseteq> dep_acc m"
proof -
  have "closed_calls m \<longrightarrow> (\<forall>x \<in> set xs. ghas (tableInfo m) x) \<longrightarrow> set xs \<subseteq> dep_acc m"
    using assms(1)
  proof (induction rule: addDepTables.raw_induct[rotated, consumes 1])
    case (1 f m xs mp r)
    show ?case
    proof (intro impI)
      assume c: "closed_calls m" and known: "\<forall>x \<in> set xs. ghas (tableInfo m) x"
      show "set xs \<subseteq> dep_acc m"
      proof (cases xs)
        case (Cons x rest)
        then obtain t where t: "gget (tableInfo m) x = Some t" using known by (auto simp: ghas_def)
        have "f m (dep_calls t @ rest) (gset x True mp) = Some r"
          using 1(2) t by (simp add: Cons tbl_info_def)
        from 1(1)[OF this] have sub: "set (dep_calls t @ rest) \<subseteq> dep_acc m"
          using c known t by (auto simp: Cons closed_calls_def dep_call_def)
        have "x \<in> dep_acc m"
          by (rule dep_accI) (use sub t in \<open>auto simp: dep_call_def\<close>)
        then show ?thesis using sub by (simp add: Cons)
      qed simp
    qed
  qed
  then show ?thesis using assms(2,3) by blast
qed

text \<open>A list is well-founded exactly when it does not reach a cycle.\<close>

lemma finite_dep_call: "finite (dep_call m)"
proof (rule finite_subset)
  show "dep_call m \<subseteq> Sigma (set (gkeys (tableInfo m))) (\<lambda>x. \<Union>t \<in> snd ` set (tableInfo m). set (dep_calls t))"
  proof
    fix p assume "p \<in> dep_call m"
    then obtain x y t where p: "p = (x, y)" "gget (tableInfo m) x = Some t" "y \<in> set (dep_calls t)"
      unfolding dep_call_def by blast
    moreover have "t \<in> snd ` set (tableInfo m)" using gget_in_set[OF p(2)] by force
    ultimately show "p \<in> Sigma (set (gkeys (tableInfo m))) (\<lambda>x. \<Union>t \<in> snd ` set (tableInfo m). set (dep_calls t))"
      by (simp add: in_gkeys) blast
  qed
qed simp

lemma acc_iff_no_cycle:
  "x \<in> dep_acc m \<longleftrightarrow> (\<forall>y \<in> reached m {x}. (y, y) \<notin> (dep_call m)\<^sup>+)"
proof
  assume "x \<in> dep_acc m"
  then show "\<forall>y \<in> reached m {x}. (y, y) \<notin> (dep_call m)\<^sup>+"
  proof (induction x rule: dep_acc_induct)
    case (step x)
    have ih: "(y, y) \<notin> (dep_call m)\<^sup>+" if "(x, z) \<in> dep_call m" "(z, y) \<in> (dep_call m)\<^sup>*" for y z
      using step[of z] that by (simp add: reached_def)
    show ?case
    proof
      fix y assume y: "y \<in> reached m {x}"
      show "(y, y) \<notin> (dep_call m)\<^sup>+"
      proof
        assume c: "(y, y) \<in> (dep_call m)\<^sup>+"
        have "(x, y) \<in> (dep_call m)\<^sup>*" using y by (simp add: reached_def)
        then have "(x, y) \<in> (dep_call m)\<^sup>+" using c by (rule rtrancl_trancl_trancl)
        then obtain z where "(x, z) \<in> dep_call m" "(z, y) \<in> (dep_call m)\<^sup>*" by (meson tranclD)
        then show False using ih c by blast
      qed
    qed
  qed
next
  assume no: "\<forall>y \<in> reached m {x}. (y, y) \<notin> (dep_call m)\<^sup>+"
  let ?S = "reached m {x}" and ?r = "dep_call m \<inter> (reached m {x} \<times> reached m {x})"
  have "acyclic ?r"
  proof (rule acyclicI, intro allI notI)
    fix y assume c: "(y, y) \<in> ?r\<^sup>+"
    then have "y \<in> ?S" by (meson IntE SigmaD1 tranclD)
    moreover have "(y, y) \<in> (dep_call m)\<^sup>+" using c by (rule trancl_mono) simp
    ultimately show False using no by blast
  qed
  then have wf: "wf (?r\<inverse>)" using finite_dep_call by (intro finite_acyclic_wf_converse) auto
  have "y \<in> ?S \<longrightarrow> y \<in> dep_acc m" for y
    using wf
  proof (induction y rule: wf_induct_rule)
    case (less y)
    show ?case
    proof
      assume y: "y \<in> ?S"
      have "z \<in> ?S" if "(y, z) \<in> dep_call m" for z
        using y that by (auto simp: reached_def intro: rtrancl_into_rtrancl)
      then show "y \<in> dep_acc m" using less y by (rule_tac dep_accI) blast
    qed
  qed
  then show "x \<in> dep_acc m" by (simp add: reached_def)
qed

section \<open>The operations\<close>

lemma processed_ok:
  "bind s (\<lambda>r. Ret (process_sorted m r)) = Ret (r, CVL_SUCCESS) \<longleftrightarrow>
    (\<exists>ls. s = Ret (ls, CVL_SUCCESS) \<and> r = remdups (map (table_of_entry m) ls))"
  by (cases s) (auto simp: process_sorted_def processTopoSortResult_eq CVL_SUCCESS_def CVL_ERROR_def)

text \<open>\<open>A\<close> needs \<open>B\<close>: each of its lists depends on a list of \<open>B\<close>.\<close>

definition table_dep :: "modelDataInfo \<Rightarrow> string list \<Rightarrow> string \<Rightarrow> string \<Rightarrow> bool" where
  "table_dep m ls A B \<longleftrightarrow>
     (\<forall>l t. l \<in> set ls \<and> gget (tableInfo m) l = Some t \<and> redisTableName t = A \<longrightarrow>
        (\<exists>l' t'. l' \<in> set ls \<and> gget (tableInfo m) l' = Some t' \<and> redisTableName t' = B \<and> list_dep m l l'))"

definition tables_of :: "modelDataInfo \<Rightarrow> string set \<Rightarrow> string set" where
  "tables_of m S = {T. \<exists>l t. l \<in> S \<and> gget (tableInfo m) l = Some t \<and> redisTableName t = T}"

lemma table_of_known: "gget (tableInfo m) l = Some t \<Longrightarrow> table_of_entry m l = redisTableName t"
  by (simp add: table_of_entry_def)

lemma tables_of_image:
  assumes "\<forall>l \<in> S. ghas (tableInfo m) l"
  shows "table_of_entry m ` S = tables_of m S"
proof
  show "tables_of m S \<subseteq> table_of_entry m ` S"
    unfolding tables_of_def by (auto simp: table_of_known[symmetric])
qed (use assms in \<open>force simp: tables_of_def ghas_def table_of_known\<close>)

lemma sorted_lists_tables:
  assumes "distinct ls" "set ls = {l \<in> S. ghas (tableInfo m) l}"
    and ord: "\<And>a b. a \<in> set ls \<Longrightarrow> b \<in> set ls \<Longrightarrow> list_dep m a b \<Longrightarrow> before a b ls"
  shows "set (map (table_of_entry m) ls) = tables_of m S"
    and "A \<in> tables_of m S \<Longrightarrow> A \<noteq> B \<Longrightarrow> table_dep m ls A B \<Longrightarrow>
      before A B (remdups (map (table_of_entry m) ls))"
proof -
  show tabs: "set (map (table_of_entry m) ls) = tables_of m S"
    using assms(2) by (force simp: tables_of_def ghas_def table_of_known)
  assume a: "A \<in> tables_of m S" "A \<noteq> B" "table_dep m ls A B"
  show "before A B (remdups (map (table_of_entry m) ls))"
  proof (rule tables_before[OF assms(1) _ a(2)])
    show "A \<in> table_of_entry m ` set ls" using a(1) tabs by simp
    fix l assume l: "l \<in> set ls" "table_of_entry m l = A"
    then obtain t where t: "gget (tableInfo m) l = Some t" using assms(2) by (auto simp: ghas_def)
    then have "redisTableName t = A" using l(2) by (simp add: table_of_known)
    then obtain l' t' where l': "l' \<in> set ls" "gget (tableInfo m) l' = Some t'" "redisTableName t' = B" "list_dep m l l'"
      using a(3) l(1) t unfolding table_dep_def by blast
    then show "\<exists>l'. l' \<in> set ls \<and> table_of_entry m l' = B \<and> before l l' ls"
      using ord[OF l(1) l'(1,4)] table_of_known[OF l'(2)] by blast
  qed
qed

lemma table_dep_sub:
  assumes "\<And>l t. gget (tableInfo m) l = Some t \<Longrightarrow> l \<in> set a \<longleftrightarrow> l \<in> set b" "table_dep m a A B"
  shows "table_dep m b A B"
  unfolding table_dep_def
proof (intro allI impI, elim conjE)
  fix l t
  assume l: "l \<in> set b" "gget (tableInfo m) l = Some t" "redisTableName t = A"
  then have "l \<in> set a" using assms(1)[OF l(2)] by simp
  then obtain l' t' where "l' \<in> set a" "gget (tableInfo m) l' = Some t'" "redisTableName t' = B" "list_dep m l l'"
    using assms(2) l(2,3) unfolding table_dep_def by blast
  then show "\<exists>l' t'. l' \<in> set b \<and> gget (tableInfo m) l' = Some t' \<and> redisTableName t' = B \<and> list_dep m l l'"
    using assms(1) by blast
qed

lemma SortDepTables_ok:
  assumes "topo_sorter ts" "SortDepTables ts m inTables = Ret (r, CVL_SUCCESS)"
  shows "distinct r" "set r = tables_of m (set (yang_lists m inTables))"
    "A \<in> set r \<Longrightarrow> A \<noteq> B \<Longrightarrow> table_dep m (yang_lists m inTables) A B \<Longrightarrow> before A B r"
proof -
  let ?L = "yang_lists m inTables"
  obtain ls where ls: "sortDepTables ts m ?L = Ret (ls, CVL_SUCCESS)" "r = remdups (map (table_of_entry m) ls)"
    using assms(2) unfolding SortDepTables_def processed_ok by blast
  note s = sortDepTables_ok[OF assms(1) ls(1)]
  note t = sorted_lists_tables[OF s(1,2) s(3)]
  show "distinct r" by (simp add: ls(2))
  show r: "set r = tables_of m (set ?L)" using t(1) by (simp add: ls(2))
  assume a: "A \<in> set r" "A \<noteq> B" "table_dep m ?L A B"
  have "table_dep m ls A B" using a(3) by (rule table_dep_sub[rotated]) (simp add: s(2) ghas_def)
  then show "before A B r" using t(2)[of A B] a r ls(2) by simp
qed

lemma GetDepTables_ok:
  assumes "closed_calls m" "gget (redisTableToYangList m) T = Some ls" "\<forall>l \<in> set ls. ghas (tableInfo m) l"
  shows "GetDepTables ts m T \<noteq> None \<longleftrightarrow> (\<forall>y \<in> reached m (set ls). (y, y) \<notin> (dep_call m)\<^sup>+)"
    and "topo_sorter ts \<Longrightarrow> GetDepTables ts m T = Some (Ret (r, CVL_SUCCESS)) \<Longrightarrow>
      set r = tables_of m (reached m (set ls))"
proof -
  have acc: "set ls \<subseteq> dep_acc m \<longleftrightarrow> (\<forall>y \<in> reached m (set ls). (y, y) \<notin> (dep_call m)\<^sup>+)"
    by (auto simp: acc_iff_no_cycle subset_iff) (auto simp: reached_def)
  have ret: "addDepTables m ls [] \<noteq> None \<longleftrightarrow> set ls \<subseteq> dep_acc m"
    using addDepTables_acc[OF _ assms(1,3)] addDepTables_all[OF _ assms(3,1), of "[]"] by (cases "addDepTables m ls []") auto
  then show "GetDepTables ts m T \<noteq> None \<longleftrightarrow> (\<forall>y \<in> reached m (set ls). (y, y) \<notin> (dep_call m)\<^sup>+)"
    unfolding acc by (simp add: GetDepTables_def assms(2))
  assume ts: "topo_sorter ts" and g: "GetDepTables ts m T = Some (Ret (r, CVL_SUCCESS))"
  then have "set ls \<subseteq> dep_acc m" using ret by (auto simp: GetDepTables_def assms(2))
  then obtain mp where mp: "addDepTables m ls [] = Some (Ret mp)" "set (gkeys mp) = reached m (set ls)" "gok mp"
    using addDepTables_all[OF _ assms(3,1), of "[]"] by (auto simp: gkeys_def gok_def)
  obtain ns where ns: "sort_nodes ts m (gkeys mp) = Ret (ns, CVL_SUCCESS)" "r = remdups (map (table_of_entry m) ns)"
    using g mp(1) by (auto simp: GetDepTables_def assms(2) processed_ok)
  have known: "\<forall>t \<in> set (gkeys mp). ghas (tableInfo m) t"
    unfolding mp(2) reached_def using assms(1,3) by (auto simp: closed_calls_def elim: rtranclE)
  obtain es where es: "addDepEdges m (gkeys mp) = Ret es" using addDepEdges_eq[OF known] by blast
  have "ts (gkeys mp) es = (ns, True)"
  proof (cases "ts (gkeys mp) es")
    case (Pair r0 ok)
    then show ?thesis using ns(1) unfolding sort_nodes_def es by (cases ok) (simp_all add: CVL_SUCCESS_def CVL_ERROR_def)
  qed
  then have "set ns = reached m (set ls)" using ts mp(2) unfolding topo_sorter_def by blast
  then show "set r = tables_of m (reached m (set ls))"
    using tables_of_image known unfolding ns(2) set_remdups set_map mp(2) by (simp add: mp(2))
qed

end
