(* ===== verification/CVL_Delete.thy ===== *)
theory CVL_Delete
  imports CVL_Order
begin

text \<open>
  The data that depend on an entry (\<open>GetDepDataForDelete\<close>, \<open>getDepDeleteField\<close> of
  \<open>cvl/cvl_api.go\<close>) and the check of a delete against them (\<open>hasDeletedInReqCache\<close> to
  \<open>checkDeleteConstraint\<close> of \<open>cvl/cvl_semantics.go\<close>).

  \<open>DBAccess\<close> (\<open>cvl/common/db_access.go\<close>) is an interface that the caller of CVL implements:
  the record holds what its reads answer.  The two functions call each other as deep as the
  references go; the calls that are still to be made are kept in a list.
\<close>

section \<open>The database and the requests\<close>

text \<open>The JSON that a lookup answers: entries by table and key, something else, or no JSON.\<close>

datatype lookupDoc = LNone | LBad | LOther | LEntries "(string, (string, fields) gomap) gomap"

record dbAccess =
  da_Exists :: "string \<Rightarrow> int \<times> goerr option"
  da_Keys :: "string \<Rightarrow> string list \<times> goerr option"
  da_HGetAll :: "string \<Rightarrow> fields \<times> goerr option"
  da_Lookup :: "Search \<Rightarrow> lookupDoc \<times> goerr option"
  da_Count :: "Search \<Rightarrow> int \<times> goerr option"
  da_Exec :: "string list \<Rightarrow> goerr option"

text \<open>
  A pipelined read answers what the record says of it; \<open>da_Exec\<close> is the error of running the
  pipeline for some keys.
\<close>

record CVLEdit = CVLEditConfigData +
  ReplaceOp :: bool

record CVLDepDataForDelete =
  dd_RefKey :: string
  dd_Entry :: "(string, fields) gomap"

text \<open>\<open>cmp.Equal\<close> of two requests: a map does not have an order.\<close>

definition same_map :: "('k, 'v) gomap \<Rightarrow> ('k, 'v) gomap \<Rightarrow> bool" where
  "same_map a b \<longleftrightarrow> length a = length b \<and> list_all (\<lambda>(k, v). gget b k = Some v) a"

definition edit_equal :: "CVLEdit \<Rightarrow> CVLEdit \<Rightarrow> bool" where
  "edit_equal a b \<longleftrightarrow>
     VType a = VType b \<and> VOp a = VOp b \<and> ceKey a = ceKey b \<and> same_map (ceData a) (ceData b) \<and>
     ReplaceOp a = ReplaceOp b"

section \<open>The data that depend on an entry\<close>

text \<open>What one call does, in its order: an entry it appends, a call that it makes, a panic.\<close>

datatype depTask = TEmit CVLDepDataForDelete | TCall string | TPanic

fun tasks_of :: "depTask list outcome \<Rightarrow> depTask list" where
  "tasks_of (Ret ts) = ts"
| "tasks_of _ = [TPanic]"

subsection \<open>\<open>getDepDeleteField\<close>\<close>

text \<open>The loop over the fields of one entry; \<open>tblKey\<close> is the entry.\<close>

fun field_tasks ::
  "modelTableInfo \<Rightarrow> string \<Rightarrow> string \<Rightarrow> string \<Rightarrow> string list \<Rightarrow> fields \<Rightarrow> depTask list \<times> fields" where
  "field_tasks t tblKey hField hValue [] e = ([], e)"
| "field_tasks t tblKey hField hValue (f # fs) e =
     (if f \<noteq> hField \<and> f \<noteq> hField @ ''@'' then field_tasks t tblKey hField hValue fs e
      else if f = hField @ ''@'' then field_tasks t tblKey hField hValue fs (gset f hValue e)
      else if gget (mandatoryNodes t) f = Some True then
        (case field_tasks t tblKey hField hValue fs e of (ts, e') \<Rightarrow> (TCall tblKey # ts, e'))
      else field_tasks t tblKey hField hValue fs (gset f [] e))"

definition entry_tasks ::
  "modelDataInfo \<Rightarrow> string \<Rightarrow> string \<Rightarrow> string \<Rightarrow> string \<Rightarrow> string \<times> fields \<Rightarrow> depTask list outcome" where
  "entry_tasks m refKey hField hValue tbl p =
     (case p of (key, fs) \<Rightarrow>
        bind (getRedisTblToYangList m tbl key) (\<lambda>yangList.
          bind (tbl_info m yangList) (\<lambda>t.
            let tblKey = tbl @ redisKeyDelim t @ key in
            case field_tasks t tblKey hField hValue (gkeys fs) [] of
              (ts, e) \<Rightarrow> Ret (ts @ [TEmit \<lparr>dd_RefKey = refKey, dd_Entry = [(tblKey, e)]\<rparr>]))))"

definition getDepDeleteField ::
  "modelDataInfo \<Rightarrow> string \<Rightarrow> string \<Rightarrow> string \<Rightarrow> lookupDoc \<Rightarrow> depTask list" where
  "getDepDeleteField m refKey hField hValue doc =
     (case doc of
        LEntries dataMap \<Rightarrow>
          concat (map (\<lambda>(tbl, keys). concat (map (\<lambda>p. tasks_of (entry_tasks m refKey hField hValue tbl p)) keys)) dataMap)
      | LOther \<Rightarrow> [TPanic]
      | _ \<Rightarrow> [])"

subsection \<open>\<open>GetDepDataForDelete\<close>\<close>

record filterScript =
  fs_script :: string
  fs_field :: string
  fs_value :: string

text \<open>What the loop over the references keeps: the key, the patterns, the scripts.\<close>

record depQuery =
  dq_key :: string
  dq_mCmd :: "(string, string list) gomap"
  dq_scripts :: "(string, filterScript list) gomap"

definition quote :: "string \<Rightarrow> string" where
  "quote s = CHR 0x27 # s @ [CHR 0x27]"

definition filter_script :: "string \<Rightarrow> string \<Rightarrow> string \<Rightarrow> string" where
  "filter_script field tableName key =
     (let h = ''h['' @ quote field @ '']''; ha = ''h['' @ quote (field @ ''@'') @ '']'' in
      ''return ('' @ h @ '' ~= nil and ('' @ h @ '' == '' @ quote key @ '' or '' @ h @ '' == '' @
      quote (''['' @ tableName @ ''|'' @ key @ '']'') @ '')) or ('' @ ha @ '' ~= nil and (('' @ ha @ '' == '' @ quote key @
      '') or (string.find('' @ ha @ ''..'' @ quote '','' @ '', '' @ quote (key @ '','') @ '') ~= nil)))'')"

text \<open>The loop over the patterns of the key that looks for the target node.\<close>

fun key_of_target :: "string \<Rightarrow> string list \<Rightarrow> string list \<Rightarrow> string \<Rightarrow> string outcome" where
  "key_of_target target [] ks key = Ret key"
| "key_of_target target (p # ps) ks key =
     (if p = ''{'' @ target @ ''}'' then (case ks of [] \<Rightarrow> Panics | k # ks' \<Rightarrow> Ret k)
      else key_of_target target ps (tl ks) key)"

definition map_append :: "'k \<Rightarrow> 'v list \<Rightarrow> ('k, 'v list) gomap \<Rightarrow> ('k, 'v list) gomap" where
  "map_append k vs m = gset k ((case gget m k of None \<Rightarrow> [] | Some l \<Rightarrow> l) @ vs) m"

definition ref_target :: "modelTableInfo \<Rightarrow> string \<Rightarrow> string \<Rightarrow> string" where
  "ref_target t field tableName =
     (case find_leafRef tableName (case gget (leafRef t) field of None \<Rightarrow> [] | Some ls \<Rightarrow> ls) of
        Some l \<Rightarrow> lr_targetNodeName l | None \<Rightarrow> [])"

definition ref_query ::
  "modelDataInfo \<Rightarrow> string \<Rightarrow> modelTableInfo \<Rightarrow> string list \<Rightarrow> tblFieldPair \<Rightarrow> depQuery \<Rightarrow> depQuery outcome" where
  "ref_query m tableName ti redisMultiKeys r q =
     bind (tbl_info m (tf_tableName r)) (\<lambda>rt.
       let redisTbl = getYangListToRedisTbl m (tf_tableName r) in
       if redisTbl = [] then Ret q
       else
         bind (if length redisMultiKeys > 1
               then key_of_target (ref_target rt (tf_field r) tableName)
                      (drop 1 (strSplit (redisKeyPattern ti) (redisKeyDelim ti))) redisMultiKeys (dq_key q)
               else Ret (dq_key q)) (\<lambda>key.
           if contains (ti_keys rt) (tf_field r) then
             bind (CreateFindKeyExpression m (tf_tableName r) [(tf_field r, key)]) (\<lambda>expr.
               Ret (q\<lparr>dq_key := key, dq_mCmd := map_append redisTbl [expr] (dq_mCmd q)\<rparr>))
           else
             Ret (q\<lparr>dq_key := key, dq_mCmd := map_append redisTbl [] (dq_mCmd q),
                    dq_scripts := map_append (tf_tableName r)
                      [\<lparr>fs_script = filter_script (tf_field r) tableName key, fs_field = tf_field r, fs_value = key\<rparr>]
                      (dq_scripts q)\<rparr>)))"

definition script_tasks :: "modelDataInfo \<Rightarrow> dbAccess \<Rightarrow> string \<Rightarrow> string \<Rightarrow> filterScript \<Rightarrow> depTask list" where
  "script_tasks m da redisKey tbl f =
     (case tbl_info m tbl of
        Ret t \<Rightarrow>
          getDepDeleteField m redisKey (fs_field f) (fs_value f)
            (fst (da_Lookup da \<lparr>sPattern = getYangListToRedisTbl m tbl @ ''|*'', sPredicate = fs_script f,
                    sKeyNames = ti_keys t, sWithField = fs_field f, sLimit = 0\<rparr>))
      | _ \<Rightarrow> [TPanic])"

text \<open>The answers of the pipeline; a pattern that fails is skipped.\<close>

definition keys_found :: "dbAccess \<Rightarrow> string list \<Rightarrow> string list" where
  "keys_found da pats = concat (map (\<lambda>p. case da_Keys da p of (ks, None) \<Rightarrow> ks | (_, Some _) \<Rightarrow> []) pats)"

text \<open>The body of one call.\<close>

definition dep_tasks :: "modelDataInfo \<Rightarrow> dbAccess \<Rightarrow> string \<Rightarrow> depTask list outcome" where
  "dep_tasks m da redisKey =
     bind (splitRedisKey m redisKey) (\<lambda>(tbl, key).
       bind (getRedisTblToYangList m tbl key) (\<lambda>tableName.
         case gget (tableInfo m) tableName of
           None \<Rightarrow> Ret []
         | Some ti \<Rightarrow>
             bind (fold_outcome (ref_query m tableName ti (strSplit key (redisKeyDelim ti))) (refFromTables ti)
                     \<lparr>dq_key = key, dq_mCmd = [], dq_scripts = []\<rparr>) (\<lambda>q.
               let keysArr = keys_found da (concat (map snd (dq_mCmd q))) in
               Ret (concat (map (\<lambda>(tbl, fs). concat (map (script_tasks m da redisKey tbl) fs)) (dq_scripts q)) @
                    map (\<lambda>k. TEmit \<lparr>dd_RefKey = redisKey, dd_Entry = [(k, [])]\<rparr>) keysArr @
                    map TCall keysArr))))"

text \<open>The calls, which need not end.\<close>

partial_function (option) run_deps ::
  "modelDataInfo \<Rightarrow> dbAccess \<Rightarrow> depTask list \<Rightarrow> CVLDepDataForDelete list \<Rightarrow> CVLDepDataForDelete list outcome option" where
  "run_deps m da ts acc =
     (case ts of
        [] \<Rightarrow> Some (Ret acc)
      | TPanic # rest \<Rightarrow> Some Panics
      | TEmit d # rest \<Rightarrow> run_deps m da rest (acc @ [d])
      | TCall k # rest \<Rightarrow> run_deps m da (tasks_of (dep_tasks m da k) @ rest) acc)"

declare run_deps.simps [code]

definition GetDepDataForDelete ::
  "modelDataInfo \<Rightarrow> dbAccess \<Rightarrow> string \<Rightarrow> CVLDepDataForDelete list outcome option" where
  "GetDepDataForDelete m da redisKey = run_deps m da [TCall redisKey] []"

section \<open>The check of a delete\<close>

text \<open>
  The request cache: the requests of the session by table and key.  The pointer to the YANG
  data of a request is part of the state of the YANG trees.
\<close>

type_synonym reqcache = "(string, (string, CVLEdit list) gomap) gomap"

definition cached :: "reqcache \<Rightarrow> string \<Rightarrow> string \<Rightarrow> CVLEdit list" where
  "cached rc tbl key =
     (case gget rc tbl of None \<Rightarrow> [] | Some ks \<Rightarrow> (case gget ks key of None \<Rightarrow> [] | Some l \<Rightarrow> l))"

fun deleted_scan :: "CVLEdit list \<Rightarrow> bool \<Rightarrow> bool" where
  "deleted_scan [] d = d"
| "deleted_scan (q # rs) d =
     (if VOp q = OP_DELETE \<and> VType q = VALIDATE_NONE \<and> length (ceData q) = 0 then deleted_scan rs True
      else deleted_scan rs (if VOp q = OP_CREATE then False else d))"

definition hasDeletedInReqCache :: "reqcache \<Rightarrow> string \<Rightarrow> string \<Rightarrow> bool" where
  "hasDeletedInReqCache rc tblName keyVal = deleted_scan (cached rc tblName keyVal) False"

text \<open>One turn of the loop: whether it returns true.\<close>

definition item_covers :: "CVLEdit \<Rightarrow> string \<Rightarrow> string \<Rightarrow> string \<Rightarrow> CVLEdit \<Rightarrow> bool" where
  "item_covers cfgd field depDataKey keyVal c \<longleftrightarrow>
     \<not> (ceKey c = ceKey cfgd \<and> edit_equal c cfgd) \<and>
     ((ceKey c = depDataKey \<and> VOp c = OP_DELETE \<and> length (ceData c) = 0) \<or>
      (case gget (ceData c) field of
         Some val \<Rightarrow> (VOp c = OP_DELETE \<and> val = []) \<or> (VOp c \<noteq> OP_DELETE \<and> val \<noteq> keyVal)
       | None \<Rightarrow>
           (case gget (ceData c) (field @ ''@'') of
              Some val \<Rightarrow> \<not> contains (strSplit val '','') keyVal
            | None \<Rightarrow> False)))"

fun checkDeleteInRequestCache :: "CVLEdit list \<Rightarrow> CVLEdit \<Rightarrow> string \<Rightarrow> string \<Rightarrow> string \<Rightarrow> bool" where
  "checkDeleteInRequestCache [] cfgd field depDataKey keyVal = False"
| "checkDeleteInRequestCache (c # cs) cfgd field depDataKey keyVal =
     (if item_covers cfgd field depDataKey keyVal c then True
      else checkDeleteInRequestCache cs cfgd field depDataKey keyVal)"

fun last_value :: "string \<Rightarrow> keyValuePair list \<Rightarrow> string \<Rightarrow> string" where
  "last_value k [] v = v"
| "last_value k (p # ps) v = last_value k ps (if kv_key p = k then kv_values p ! 0 else v)"

text \<open>The text between the brackets; a slice with bounds that are not in order panics.\<close>

definition predicate_of :: "string \<Rightarrow> string outcome" where
  "predicate_of e =
     (let lo = (case strIndex e ''['' of Some i \<Rightarrow> i + 1 | None \<Rightarrow> 0) in
      case strIndex e '']'' of
        Some hi \<Rightarrow> if lo \<le> hi then Ret (take (hi - lo) (drop lo e)) else Panics
      | None \<Rightarrow> Panics)"

definition compare_keys :: "string \<Rightarrow> keyValuePair list \<Rightarrow> keyValuePair list \<Rightarrow> bool" where
  "compare_keys predicate tblKVP refKVP =
     (case strIndex predicate ''='' of
        None \<Rightarrow> True
      | Some i \<Rightarrow>
          let t = take i predicate;
              target = (case strIndex t '':'' of Some j \<Rightarrow> drop (j + 1) t | None \<Rightarrow> t);
              current = (case strLastIndex predicate ''/'' of Some j \<Rightarrow> drop (j + 1) predicate | None \<Rightarrow> predicate) in
          last_value target refKVP [] = last_value current tblKVP [])"

definition checkDepDataCompatible ::
  "modelDataInfo \<Rightarrow> string \<Rightarrow> string \<Rightarrow> string \<Rightarrow> string \<Rightarrow> string \<Rightarrow> fields \<Rightarrow> bool outcome" where
  "checkDepDataCompatible m tblName key reftblName refTblKey leafRefField depEntry =
     bind (tbl_info m tblName) (\<lambda>t.
       if length (ti_keys t) \<le> 1 then Ret True
       else
         bind (getRedisToYangKeys m tblName key) (\<lambda>tblKVP.
         bind (getRedisToYangKeys m reftblName refTblKey) (\<lambda>refKVP.
         bind (getLeafRefInfo m reftblName leafRefField tblName) (\<lambda>lr.
           if length depEntry = 0 then Ret (strContains refTblKey key)
           else if ghas depEntry leafRefField then
             (case Option.bind lr lr_exprTree of
                Some e \<Rightarrow>
                  if length e > 0 then bind (predicate_of e) (\<lambda>p. Ret (compare_keys p tblKVP refKVP))
                  else Ret True
              | None \<Rightarrow> Ret True)
           else Ret True))))"

datatype verdict = Incompatible | InRequest | NotFound

text \<open>The loop over the leafrefs of one dependent entry.\<close>

fun verify_refs ::
  "modelDataInfo \<Rightarrow> CVLEdit list \<Rightarrow> CVLEdit \<Rightarrow> string \<Rightarrow> string \<Rightarrow> string \<Rightarrow> string \<Rightarrow> string \<Rightarrow> fields \<Rightarrow>
     string list \<Rightarrow> verdict outcome" where
  "verify_refs m cfg cfgd yangTbl keyVal refYang refKey depEntkey depEntry [] = Ret NotFound"
| "verify_refs m cfg cfgd yangTbl keyVal refYang refKey depEntkey depEntry (f # fs) =
     bind (checkDepDataCompatible m yangTbl keyVal refYang refKey f depEntry) (\<lambda>ok.
       if \<not> ok then Ret Incompatible
       else if checkDeleteInRequestCache cfg cfgd f depEntkey keyVal then Ret InRequest
       else verify_refs m cfg cfgd yangTbl keyVal refYang refKey depEntkey depEntry fs)"

text \<open>\<open>depEntkey\<close> split at the first bar; the second part panics when there is none.\<close>

definition verify_entry ::
  "modelDataInfo \<Rightarrow> CVLEdit list \<Rightarrow> CVLEdit \<Rightarrow> (string, string list) gomap \<Rightarrow> string \<Rightarrow> string \<Rightarrow>
     string \<times> fields \<Rightarrow> bool outcome" where
  "verify_entry m cfg cfgd refFields yangTbl keyVal p =
     (case p of (depEntkey, depEntry) \<Rightarrow>
        case cut ''|'' depEntkey of
          None \<Rightarrow> Panics
        | Some (refTbl, refKey) \<Rightarrow>
            bind (getRedisTblToYangList m refTbl refKey) (\<lambda>refYang.
            bind (verify_refs m cfg cfgd yangTbl keyVal refYang refKey depEntkey depEntry
                    (case gget refFields refYang of None \<Rightarrow> [] | Some fs \<Rightarrow> fs))
              (\<lambda>v. Ret (v \<noteq> NotFound))))"

fun all_outcome :: "('a \<Rightarrow> bool outcome) \<Rightarrow> 'a list \<Rightarrow> bool outcome" where
  "all_outcome f [] = Ret True"
| "all_outcome f (x # xs) = bind (f x) (\<lambda>b. if b then all_outcome f xs else Ret False)"

definition collect_refs :: "string \<Rightarrow> tblFieldPair list \<Rightarrow> (string, string list) gomap" where
  "collect_refs field refs =
     fold (\<lambda>r acc.
       if field \<noteq> [] \<and> (field \<noteq> tf_field r \<or> field \<noteq> tf_field r @ ''@'') then acc
       else map_append (tf_tableName r) [tf_field r] acc) refs []"

definition CVL_SEMANTIC_ERROR :: int where
  "CVL_SEMANTIC_ERROR = 1002"

definition checkDeleteConstraint ::
  "modelDataInfo \<Rightarrow> dbAccess \<Rightarrow> CVLEdit list \<Rightarrow> CVLEdit \<Rightarrow> string \<Rightarrow> string \<Rightarrow> string \<Rightarrow> int outcome option" where
  "checkDeleteConstraint m da cfgData cfgd tableName keyVal field =
     (case bind (getRedisTblToYangList m tableName keyVal) (\<lambda>y. bind (tbl_info m y) (\<lambda>t. Ret (y, t))) of
        Ret (yangTbl, t) \<Rightarrow>
          let refFields = collect_refs field (refFromTables t); redisKey = tableName @ ''|'' @ keyVal in
          if length refFields = 0 then Some (Ret CVL_SUCCESS)
          else map_option
            (\<lambda>r. bind r (\<lambda>deps.
               bind (all_outcome (\<lambda>d.
                       if length (dd_Entry d) > 0 \<and> dd_RefKey d = redisKey
                       then all_outcome (verify_entry m cfgData cfgd refFields yangTbl keyVal) (dd_Entry d)
                       else Ret True) deps)
                 (\<lambda>ok. Ret (if ok then CVL_SUCCESS else CVL_SEMANTIC_ERROR))))
            (GetDepDataForDelete m da redisKey)
      | _ \<Rightarrow> Some Panics)"

end
