(* ===== verification/CVL_Cache.thy ===== *)
theory CVL_Cache
  imports CVL_Delete
begin

text \<open>
  The session of CVL (\<open>CVL\<close> of \<open>cvl/cvl.go\<close>) with its caches (\<open>cvl/cvl_cache.go\<close>), the limit
  of the size of a table (\<open>checkMaxElemConstraint\<close> of \<open>cvl/cvl_syntax.go\<close>), the hints
  (\<open>cvl/cvl_hint.go\<close>) and the statistics of the validation (\<open>cvl/cvl_api.go\<close>).

  \<open>'y\<close> is the state of the YANG trees that libyang and the XPath packages keep.
\<close>

section \<open>The session\<close>

text \<open>An entry of the temporary cache: not fetched, the fields of a request, the parsed fields.\<close>

datatype tmpEntry = TNil | TRaw fields | TMap ffields

type_synonym tmpcache = "(string, (string, tmpEntry) gomap) gomap"

record 'y CVL =
  c_yang :: 'y
  tmpDbCache :: tmpcache
  requestCache :: reqcache
  maxTableElem :: "(string, int) gomap"
  c_Hint :: "(string, string) gomap"

definition ValidationSessOpen :: "'y \<Rightarrow> 'y CVL \<times> int" where
  "ValidationSessOpen y0 =
     (\<lparr>c_yang = y0, tmpDbCache = [], requestCache = [], maxTableElem = [], c_Hint = []\<rparr>, CVL_SUCCESS)"

text \<open>A nil session keeps no hints; the value nil removes a hint.\<close>

definition StoreHint :: "string \<Rightarrow> string option \<Rightarrow> 'y CVL option \<Rightarrow> 'y CVL option \<times> int" where
  "StoreHint key v oc =
     (case oc of
        None \<Rightarrow> (None, CVL_SUCCESS)
      | Some c \<Rightarrow>
          (Some (c\<lparr>c_Hint :=
             (if length key = 0 then []
              else case v of None \<Rightarrow> gdel key (c_Hint c) | Some w \<Rightarrow> gset key w (c_Hint c))\<rparr>), CVL_SUCCESS))"

definition LoadHint :: "string \<Rightarrow> 'y CVL option \<Rightarrow> string option" where
  "LoadHint key oc = (case oc of None \<Rightarrow> None | Some c \<Rightarrow> gget (c_Hint c) key)"

section \<open>The temporary cache\<close>

definition addTableEntryToCache :: "string \<Rightarrow> string \<Rightarrow> tmpcache \<Rightarrow> tmpcache" where
  "addTableEntryToCache tableName redisKey tc =
     (if tableName = [] \<or> redisKey = [] then tc
      else gset tableName (gset redisKey TNil (case gget tc tableName of None \<Rightarrow> [] | Some t \<Rightarrow> t)) tc)"

definition clearTmpDbCache :: "tmpcache \<Rightarrow> tmpcache" where
  "clearTmpDbCache tc = gdel_all (gkeys tc) tc"

text \<open>The data of the request cache for an entry, and whether the database has to be merged.\<close>

definition fetchDataFromRequestCache :: "reqcache \<Rightarrow> string \<Rightarrow> string \<Rightarrow> fields option \<times> bool" where
  "fetchDataFromRequestCache rc tableName key =
     (let arr = cached rc tableName key in
      if length arr = 0 then (None, False)
      else
        let r = arr ! (length arr - 1) in
        if VOp r = OP_CREATE then (Some (ceData r), False)
        else if VOp r = OP_UPDATE then (Some (ceData r), True)
        else if ReplaceOp r \<and> VType r = VALIDATE_ALL \<and> length arr > 1 then
          (let prev = arr ! (length arr - 2) in
           if ReplaceOp prev \<and> VOp prev = OP_UPDATE then (Some (ceData prev), True) else (Some [], True))
        else (Some [], True))"

text \<open>
  The loop of \<open>evaluateDbTblNetChange\<close> over the cached requests.  A deleted entry replaces the
  local pointer: \<open>here\<close> is the map that it points to then, and the map of the caller does not
  change any more.
\<close>

fun edit_row :: "CVLOperation \<Rightarrow> (string \<times> string) list \<Rightarrow> fields \<Rightarrow> fields" where
  "edit_row op [] d = d"
| "edit_row op ((k, v) # fs) d = edit_row op fs (if op = OP_DELETE then gdel k d else gset k v d)"

fun net_change :: "CVLEdit list \<Rightarrow> fields \<Rightarrow> fields option \<Rightarrow> fields" where
  "net_change [] d here = d"
| "net_change (r # rs) d here =
     (if VType r \<noteq> VALIDATE_NONE then net_change rs d here
      else if length (ceData r) = 0 then net_change rs d (if VOp r = OP_DELETE then Some [] else here)
      else
        (case here of
           None \<Rightarrow> net_change rs (edit_row (VOp r) (ceData r) d) None
         | Some h \<Rightarrow> net_change rs d (Some (edit_row (VOp r) (ceData r) h))))"

definition evaluateDbTblNetChange :: "reqcache \<Rightarrow> string \<Rightarrow> string \<Rightarrow> fields \<Rightarrow> fields" where
  "evaluateDbTblNetChange rc tableName key dbData = net_change (cached rc tableName key) dbData None"

section \<open>Fetching a table\<close>

definition MAX_BULK_ENTRIES_IN_PIPELINE :: nat where
  "MAX_BULK_ENTRIES_IN_PIPELINE = 50"

text \<open>The first loop over a bulk: what the request cache holds, and what redis is asked for.\<close>

fun bulk_ask ::
  "modelDataInfo \<Rightarrow> reqcache \<Rightarrow> string \<Rightarrow> string list \<Rightarrow> (string, tmpEntry) gomap \<times> int \<times> (string, string) gomap \<Rightarrow>
     ((string, tmpEntry) gomap \<times> int \<times> (string, string) gomap) outcome" where
  "bulk_ask m rc tableName [] st = Ret st"
| "bulk_ask m rc tableName (k # ks) (tbl, n, mCmd) =
     bind (getRedisTblToYangList m tableName k) (\<lambda>yl.
     bind (tbl_info m yl) (\<lambda>t.
       let redisKey = tableName @ redisKeyDelim t @ k in
       case fetchDataFromRequestCache rc tableName k of
         (None, _) \<Rightarrow> bulk_ask m rc tableName ks (tbl, n, gset k redisKey mCmd)
       | (Some entry, mergeNeeded) \<Rightarrow>
           if \<not> mergeNeeded then
             bind (checkFieldMap entry) (\<lambda>fm. bulk_ask m rc tableName ks (gset k (TMap fm) tbl, n + 1, mCmd))
           else bulk_ask m rc tableName ks (gset k (TRaw entry) tbl, n + 1, gset k redisKey mCmd)))"

text \<open>The second loop: the answers.\<close>

fun bulk_store ::
  "dbAccess \<Rightarrow> reqcache \<Rightarrow> string \<Rightarrow> (string \<times> string) list \<Rightarrow> (string, tmpEntry) gomap \<times> int \<Rightarrow>
     ((string, tmpEntry) gomap \<times> int) outcome" where
  "bulk_store da rc tableName [] st = Ret st"
| "bulk_store da rc tableName ((k, redisKey) # qs) (tbl, n) =
     (let (res0, err) = da_HGetAll da redisKey; res = evaluateDbTblNetChange rc tableName k res0 in
      if err \<noteq> None \<or> length res = 0 then bulk_store da rc tableName qs (gdel k tbl, n)
      else
        bind (case gget tbl k of
                Some (TRaw tmp) \<Rightarrow> checkFieldMap (mergeMap res tmp)
              | Some (TMap _) \<Rightarrow> Panics
              | _ \<Rightarrow> checkFieldMap res)
          (\<lambda>fm. bulk_store da rc tableName qs (gset k (TMap fm) tbl, n + 1)))"

text \<open>
  The loop over the keys: \<open>tot\<close> and \<open>cnt\<close> are \<open>totalCount\<close> and \<open>bulkCount\<close>, \<open>bulk\<close> the keys
  of the bulk.  An error of the pipeline ends the function with 0.
\<close>

fun fetch_loop ::
  "modelDataInfo \<Rightarrow> dbAccess \<Rightarrow> reqcache \<Rightarrow> string \<Rightarrow> (string \<times> tmpEntry) list \<Rightarrow> nat \<Rightarrow> nat \<Rightarrow> string list \<Rightarrow>
     (string, tmpEntry) gomap \<Rightarrow> int \<Rightarrow> ((string, tmpEntry) gomap \<times> int) outcome" where
  "fetch_loop m da rc tableName [] tot cnt bulk tbl n = Ret (tbl, n)"
| "fetch_loop m da rc tableName ((dbKey, v) # rest) tot cnt bulk tbl n =
     (let fetched = (v \<noteq> TNil);
          tbl1 = (if fetched then gdel dbKey tbl else tbl);
          tot1 = (if fetched then tot - 1 else tot);
          bulk1 = (if fetched then bulk else bulk @ [dbKey]);
          cnt1 = (if fetched then cnt else cnt + 1) in
      if fetched \<and> cnt1 \<noteq> tot1 then fetch_loop m da rc tableName rest tot1 cnt1 bulk1 tbl1 n
      else if cnt1 \<noteq> tot1 \<and> cnt1 mod MAX_BULK_ENTRIES_IN_PIPELINE \<noteq> 0 then
        fetch_loop m da rc tableName rest tot1 cnt1 bulk1 tbl1 n
      else
        bind (bulk_ask m rc tableName bulk1 (tbl1, n, [])) (\<lambda>(tbl2, n2, mCmd).
          if da_Exec da (map snd mCmd) \<noteq> None then Ret (tbl2, 0)
          else bind (bulk_store da rc tableName mCmd (tbl2, n2)) (\<lambda>(tbl3, n3).
                 fetch_loop m da rc tableName rest tot1 cnt1 [] tbl3 n3)))"

definition fetchTableDataToTmpCache ::
  "modelDataInfo \<Rightarrow> dbAccess \<Rightarrow> reqcache \<Rightarrow> string \<Rightarrow> (string, tmpEntry) gomap \<Rightarrow>
     ((string, tmpEntry) gomap \<times> int) outcome" where
  "fetchTableDataToTmpCache m da rc tableName dbKeys =
     (if length dbKeys = 0 then Ret (dbKeys, 0)
      else fetch_loop m da rc tableName dbKeys (length dbKeys) 0 [] dbKeys 0)"

section \<open>Fetching all tables\<close>

fun fetch_tables ::
  "modelDataInfo \<Rightarrow> dbAccess \<Rightarrow> reqcache \<Rightarrow> (string \<times> (string, tmpEntry) gomap) list \<Rightarrow> (tmpcache \<times> int) outcome" where
  "fetch_tables m da rc [] = Ret ([], 0)"
| "fetch_tables m da rc ((t, ks) # ts) =
     bind (fetchTableDataToTmpCache m da rc t ks) (\<lambda>(ks', n).
     bind (fetch_tables m da rc ts) (\<lambda>(tc, n').
       Ret ((t, ks') # tc, n + n')))"

text \<open>
  \<open>build\<close> adds the data of the cache to the YANG trees and says whether that succeeded.  The
  loop repeats until nothing was fetched; the tree it returns is part of \<open>'y\<close>.
\<close>

partial_function (option) fetchDataToTmpCache ::
  "modelDataInfo \<Rightarrow> dbAccess \<Rightarrow> reqcache \<Rightarrow> (tmpcache \<Rightarrow> 'y \<Rightarrow> 'y \<times> bool) \<Rightarrow> tmpcache \<times> 'y \<Rightarrow>
     (tmpcache \<times> 'y) outcome option" where
  "fetchDataToTmpCache m da rc build st =
     (case fetch_tables m da rc (fst st) of
        Ret (tc, n) \<Rightarrow>
          let tc1 = filter (\<lambda>(t, ks). length ks \<noteq> 0) tc in
          if n = 0 then Some (Ret (tc1, snd st))
          else (case build tc1 (snd st) of
                  (y, ok) \<Rightarrow> if \<not> ok then Some (Ret (tc1, y)) else fetchDataToTmpCache m da rc build (tc1, y))
      | _ \<Rightarrow> Some Panics)"

declare fetchDataToTmpCache.simps [code]

section \<open>The size of a table\<close>

definition CVL_SYNTAX_ERROR :: int where
  "CVL_SYNTAX_ERROR = 1001"

definition CVL_FAILURE :: int where
  "CVL_FAILURE = 4"

definition checkMaxElemConstraint ::
  "modelDataInfo \<Rightarrow> dbAccess \<Rightarrow> CVLOperation \<Rightarrow> string \<Rightarrow> string \<Rightarrow> (string, int) gomap \<Rightarrow>
     (int \<times> (string, int) gomap) outcome" where
  "checkMaxElemConstraint m da op tableName key mt =
     (if op \<noteq> OP_CREATE \<and> op \<noteq> OP_DELETE then Ret (CVL_SUCCESS, mt)
      else
        bind (getRedisTblToYangList m tableName key) (\<lambda>yl.
        bind (tbl_info m yl) (\<lambda>t.
          if redisTableSize t = -1 then Ret (CVL_SUCCESS, mt)
          else
            (case (case gget mt tableName of
                     Some n \<Rightarrow> Some (n, mt)
                   | None \<Rightarrow>
                       (case da_Count da \<lparr>sPattern = tableName @ ''|*'', sPredicate = [], sKeyNames = [], sWithField = [],
                               sLimit = 0\<rparr> of
                          (_, Some e) \<Rightarrow> None
                        | (n, None) \<Rightarrow> Some (n, gset tableName n mt))) of
               None \<Rightarrow> Ret (CVL_FAILURE, mt)
             | Some (curSize, mt1) \<Rightarrow>
                 if op = OP_DELETE then
                   Ret (CVL_SUCCESS, if curSize > 0 then gset tableName (curSize - 1) mt1 else mt1)
                 else if curSize \<ge> redisTableSize t then Ret (CVL_SYNTAX_ERROR, mt1)
                 else if curSize + 1 > redisTableSize t then Ret (CVL_SYNTAX_ERROR, mt1)
                 else Ret (CVL_SUCCESS, gset tableName (curSize + 1) mt1)))))"

section \<open>Statistics of the validation\<close>

record ValidationTimeStats =
  vs_Hits :: nat
  vs_Time :: int
  vs_Peak :: int

definition updateValidationTimeStats :: "int \<Rightarrow> ValidationTimeStats \<Rightarrow> ValidationTimeStats" where
  "updateValidationTimeStats td s =
     s\<lparr>vs_Hits := vs_Hits s + 1, vs_Peak := (if td > vs_Peak s then td else vs_Peak s), vs_Time := vs_Time s + td\<rparr>"

definition ClearValidationTimeStats :: "ValidationTimeStats \<Rightarrow> ValidationTimeStats" where
  "ClearValidationTimeStats s = s\<lparr>vs_Hits := 0, vs_Peak := 0, vs_Time := 0\<rparr>"

end
