(* ===== verification/CVL_Validate.thy ===== *)
theory CVL_Validate
  imports CVL_Cache
begin

text \<open>
  \<open>ValidateEditConfig\<close> of \<open>cvl/cvl_api.go\<close>: the requests are split and put into the request
  cache, checked against the limits and the references, validated as YANG data, and then one by
  one against the database.  The YANG trees, that is libyang, the XML and XPath packages and the
  code that fills them (\<open>translateToYang\<close>, \<open>validateSyntax\<close>, \<open>moveToYangList\<close>,
  \<open>doCustomValidation\<close>, \<open>validateSemantics\<close>), are the parameter \<open>ext\<close>.
\<close>

section \<open>Parameters and results\<close>

text \<open>The data of a request: by table and key, null for a deleted entry.\<close>

type_synonym reqdata = "(string, (string, ffields option) gomap) gomap"

record 'y yang_ext =
  y_skip :: bool
  y_new :: "'y \<Rightarrow> 'y"
  y_translate :: "reqdata \<Rightarrow> bool \<Rightarrow> 'y \<Rightarrow> 'y \<times> CVLErrorInfo"
  y_build :: "tmpcache \<Rightarrow> 'y \<Rightarrow> 'y \<times> bool"
  y_syntax :: "'y \<Rightarrow> CVLErrorInfo \<times> int"
  y_operation :: "CVLOperation \<Rightarrow> 'y \<Rightarrow> 'y"
  y_node :: "reqcache \<Rightarrow> string \<Rightarrow> string \<Rightarrow> string \<Rightarrow> 'y \<Rightarrow> 'y \<times> bool"
  y_custom :: "CVLEdit list \<Rightarrow> nat \<Rightarrow> string \<Rightarrow> string \<Rightarrow> string \<Rightarrow> 'y CVL \<Rightarrow> 'y \<times> CVLErrorInfo"
  y_replace :: "CVLEdit list \<Rightarrow> 'y \<Rightarrow> 'y"
  y_semantics :: "string \<Rightarrow> string \<Rightarrow> CVLEdit \<Rightarrow> 'y CVL \<Rightarrow> 'y \<times> CVLErrorInfo"

definition CVL_SYNTAX_MINIMUM_INVALID :: int where
  "CVL_SYNTAX_MINIMUM_INVALID = 1012"

definition CVL_SEMANTIC_KEY_ALREADY_EXIST :: int where
  "CVL_SEMANTIC_KEY_ALREADY_EXIST = 1016"

definition cvlErrorMap :: "int \<Rightarrow> string" where
  "cvlErrorMap e =
     (if e = CVL_SUCCESS then ''Config Validation Success''
      else if e = CVL_SYNTAX_ERROR then ''Config Validation Syntax Error''
      else if e = CVL_SEMANTIC_ERROR then ''Config Validation Semantic Error''
      else if e = CVL_SYNTAX_MINIMUM_INVALID then ''min-elements constraint not honored''
      else if e = CVL_SEMANTIC_KEY_ALREADY_EXIST then ''Key already existing.''
      else if e = CVL_SEMANTIC_KEY_NOT_EXIST then ''Key is missing.''
      else if e = CVL_FAILURE then ''Generic Failure''
      else if e = CVL_ERROR then ''Generic Error''
      else [])"

type_synonym verr = "CVLErrorInfo \<times> int"

definition err_on :: "CVLErrorInfo \<Rightarrow> modelDataInfo \<Rightarrow> string \<Rightarrow> string \<Rightarrow> int \<Rightarrow> CVLErrorInfo" where
  "err_on einfo m tbl key e =
     einfo\<lparr>ei_ErrCode := e, ei_CVLErrDetails := cvlErrorMap e, ei_TableName := tbl,
                   ei_Keys := splitKeyComponents m tbl key\<rparr>"

definition err_at :: "modelDataInfo \<Rightarrow> string \<Rightarrow> string \<Rightarrow> int \<Rightarrow> CVLErrorInfo" where
  "err_at = err_on zeroErrorInfo"

text \<open>A computation that need not return, and may panic.\<close>

definition obind :: "'a outcome option \<Rightarrow> ('a \<Rightarrow> 'b outcome option) \<Rightarrow> 'b outcome option" where
  "obind x f =
     (case x of
        None \<Rightarrow> None
      | Some (Ret a) \<Rightarrow> f a
      | Some _ \<Rightarrow> Some Panics)"

section \<open>Step 1: the requested data\<close>

definition addCfgDataItem :: "modelDataInfo \<Rightarrow> reqdata \<Rightarrow> CVLEdit \<Rightarrow> (reqdata \<times> string \<times> string) outcome" where
  "addCfgDataItem m cd item =
     bind (splitRedisKey m (ceKey item)) (\<lambda>(tbl, key).
       if tbl = [] \<or> key = [] then Ret (cd, [], [])
       else
         (case gget cd tbl of
            Some fm \<Rightarrow>
              if VOp item = OP_DELETE then Ret (cd, tbl, key)
              else bind (checkFieldMap (ceData item)) (\<lambda>f. Ret (gset tbl (gset key (Some f) fm) cd, tbl, key))
          | None \<Rightarrow>
              if VOp item = OP_DELETE then Ret (gset tbl [(key, None)] cd, tbl, key)
              else bind (checkFieldMap (ceData item)) (\<lambda>f. Ret (gset tbl [(key, Some f)] cd, tbl, key))))"

definition cache_request :: "string \<Rightarrow> string \<Rightarrow> CVLEdit \<Rightarrow> reqcache \<Rightarrow> reqcache" where
  "cache_request tbl key item rc =
     gset tbl (map_append key [item] (case gget rc tbl of None \<Rightarrow> [] | Some t \<Rightarrow> t)) rc"

definition in_use :: "modelDataInfo \<Rightarrow> string \<Rightarrow> string \<Rightarrow> string \<Rightarrow> CVLErrorInfo" where
  "in_use m tbl key field =
     (let msg = ''Validation failed for Delete operation, given instance is in use'' in
      (err_at m tbl key CVL_SEMANTIC_ERROR)\<lparr>ei_Field := field, ei_Msg := msg, ei_ErrAppTag := ''instance-in-use'',
        ei_ConstraintErrMsg := msg\<rparr>)"

text \<open>The loop over the fields of a delete.\<close>

fun delete_fields ::
  "modelDataInfo \<Rightarrow> dbAccess \<Rightarrow> CVLEdit list \<Rightarrow> CVLEdit \<Rightarrow> string \<Rightarrow> string \<Rightarrow> string list \<Rightarrow> verr option outcome option" where
  "delete_fields m da cfg item tbl key [] = Some (Ret None)"
| "delete_fields m da cfg item tbl key (f # fs) =
     obind (checkDeleteConstraint m da cfg item tbl key f) (\<lambda>r.
       if r \<noteq> CVL_SUCCESS then Some (Ret (Some (in_use m tbl key f, CVL_SEMANTIC_ERROR)))
       else obind (Some (isLeaflistHasMinElems m tbl f)) (\<lambda>mn.
         if mn then
           Some (Ret (Some ((err_at m tbl key CVL_SYNTAX_MINIMUM_INVALID)\<lparr>ei_Msg := ''Mandatory field getting deleted'',
                             ei_Field := strTrimSuffix f ''@''\<rparr>, CVL_SYNTAX_MINIMUM_INVALID)))
         else obind (Some (if length f \<noteq> 0 then bind (getRedisTblToYangList m tbl key) (\<lambda>yl. isMandatoryTrueNode m yl f)
                           else Ret False)) (\<lambda>md.
           if md then
             Some (Ret (Some ((err_at m tbl key CVL_SEMANTIC_ERROR)\<lparr>ei_Msg := ''Mandatory field getting deleted'', ei_Field := f,
                               ei_ErrAppTag := ''mandatory-field-delete'',
                               ei_ConstraintErrMsg := ''Mandatory field getting deleted''\<rparr>, CVL_SEMANTIC_ERROR)))
           else delete_fields m da cfg item tbl key fs)))"

text \<open>The state of step 1: the data of the request, whether the syntax is checked, the session.\<close>

type_synonym 'y step1 = "reqdata \<times> bool \<times> 'y CVL"

definition request_item ::
  "modelDataInfo \<Rightarrow> dbAccess \<Rightarrow> CVLEdit list \<Rightarrow> CVLEdit \<Rightarrow> 'y step1 \<Rightarrow> ('y step1 \<times> verr option) outcome option" where
  "request_item m da cfg item st =
     (case st of (cd, cs, c) \<Rightarrow>
        obind (Some (addCfgDataItem m cd item)) (\<lambda>(cd1, tbl, key).
          let c1 = c\<lparr>requestCache := cache_request tbl key item (requestCache c)\<rparr> in
          if key = [] then
            Some (Ret ((cd1, cs, c1),
              Some (zeroErrorInfo\<lparr>ei_ErrCode := CVL_SYNTAX_ERROR, ei_Msg := ''Invalid table or key for '' @ ceKey item,
                                  ei_CVLErrDetails := cvlErrorMap CVL_SYNTAX_ERROR\<rparr>, CVL_SYNTAX_ERROR)))
          else case VOp item of
            OP_NONE \<Rightarrow> Some (Ret ((cd1, cs, c1), None))
          | OP_CREATE \<Rightarrow>
              obind (Some (checkMaxElemConstraint m da OP_CREATE tbl key (maxTableElem c1))) (\<lambda>(r, mt).
                let c2 = c1\<lparr>maxTableElem := mt\<rparr> in
                if r = CVL_SUCCESS then Some (Ret ((cd1, cs, c2), None))
                else obind (Some (tbl_info m tbl)) (\<lambda>t.
                  Some (Ret ((cd1, cs, c2),
                    Some ((err_at m tbl key CVL_SYNTAX_ERROR)\<lparr>ei_ErrAppTag := ''too-many-elements'',
                            ei_Msg := ''Max elements limit reached'',
                            ei_ConstraintErrMsg := ''Max elements limit '' @ Itoa (redisTableSize t) @ '' reached''\<rparr>,
                          CVL_SYNTAX_ERROR)))))
          | OP_UPDATE \<Rightarrow> Some (Ret ((cd1, cs, c1\<lparr>tmpDbCache := addTableEntryToCache tbl key (tmpDbCache c1)\<rparr>), None))
          | OP_DELETE \<Rightarrow>
              if length (ceData item) > 0 then
                obind (delete_fields m da cfg item tbl key (gkeys (ceData item))) (\<lambda>e.
                  if e \<noteq> None then Some (Ret ((cd1, cs, c1), e))
                  else Some (Ret ((cd1, cs, c1\<lparr>tmpDbCache := addTableEntryToCache tbl key (tmpDbCache c1)\<rparr>), None)))
              else
                obind (Some (checkMaxElemConstraint m da OP_DELETE tbl key (maxTableElem c1))) (\<lambda>(r0, mt).
                  let c2 = c1\<lparr>maxTableElem := mt\<rparr> in
                  obind (checkDeleteConstraint m da cfg item tbl key []) (\<lambda>r.
                    if r \<noteq> CVL_SUCCESS then Some (Ret ((cd1, cs, c2), Some (in_use m tbl key [], CVL_SEMANTIC_ERROR)))
                    else Some (Ret ((cd1, False, c2\<lparr>tmpDbCache := addTableEntryToCache tbl key (tmpDbCache c2)\<rparr>), None))))))"

fun request_loop ::
  "modelDataInfo \<Rightarrow> dbAccess \<Rightarrow> CVLEdit list \<Rightarrow> CVLEdit list \<Rightarrow> 'y step1 \<Rightarrow> ('y step1 \<times> verr option) outcome option" where
  "request_loop m da cfg [] st = Some (Ret (st, None))"
| "request_loop m da cfg (item # items) st =
     (if VType item \<noteq> VALIDATE_ALL then request_loop m da cfg items st
      else obind (request_item m da cfg item st) (\<lambda>(st1, e).
             if e \<noteq> None then Some (Ret (st1, e)) else request_loop m da cfg items st1))"

section \<open>Step 3: one item against the database\<close>

text \<open>\<open>markCfgDataValidated\<close> changes the request of the caller and its copies in the cache.\<close>

definition mark_copy :: "CVLEdit \<Rightarrow> CVLEdit \<Rightarrow> CVLEdit" where
  "mark_copy item q = (if ceKey item = ceKey q \<and> edit_equal item q then q\<lparr>VType := VALIDATE_NONE\<rparr> else q)"

definition markCfgDataValidated :: "string \<Rightarrow> string \<Rightarrow> CVLEdit \<Rightarrow> reqcache \<Rightarrow> CVLEdit \<times> reqcache" where
  "markCfgDataValidated tbl key item rc =
     (if VType item = VALIDATE_NONE then (item, rc)
      else
        (item\<lparr>VType := VALIDATE_NONE\<rparr>,
         (case gget rc tbl of
            None \<Rightarrow> rc
          | Some ks \<Rightarrow>
              (case gget ks key of
                 None \<Rightarrow> rc
               | Some l \<Rightarrow> gset tbl (gset key (map (mark_copy item) l) ks) rc))))"

datatype item_end = Failed verr | Marked | Unmarked

text \<open>
  What a check of the keys says: fail, mark and go on, or validate.  The error is written over
  the error information of the item before, \<open>einfo\<close>.
\<close>

definition key_check :: "CVLErrorInfo \<Rightarrow> modelDataInfo \<Rightarrow> dbAccess \<Rightarrow> CVLEdit \<Rightarrow> string \<Rightarrow> string \<Rightarrow> item_end" where
  "key_check einfo m da item tbl key =
     (case da_Exists da (ceKey item) of (n, err) \<Rightarrow>
        case VOp item of
          OP_NONE \<Rightarrow> Unmarked
        | OP_CREATE \<Rightarrow>
            if err = None \<and> n > 0
            then Failed (err_on einfo m tbl key CVL_SEMANTIC_KEY_ALREADY_EXIST, CVL_SEMANTIC_KEY_ALREADY_EXIST) else Unmarked
        | OP_UPDATE \<Rightarrow>
            if err \<noteq> None \<or> n = 0 then Failed (err_on einfo m tbl key CVL_SEMANTIC_KEY_NOT_EXIST, CVL_SEMANTIC_KEY_NOT_EXIST)
            else if ghas (ceData item) ''NULL'' \<and> length (ceData item) = 1 then Marked else Unmarked
        | OP_DELETE \<Rightarrow>
            if err \<noteq> None \<or> n = 0 then Failed (err_on einfo m tbl key CVL_SEMANTIC_KEY_NOT_EXIST, CVL_SEMANTIC_KEY_NOT_EXIST)
            else Unmarked)"

text \<open>The rest of one turn, behind the check of the keys; \<open>i\<close> is the index of the item.\<close>

definition semantic_check ::
  "'y yang_ext \<Rightarrow> modelDataInfo \<Rightarrow> CVLEdit list \<Rightarrow> nat \<Rightarrow> CVLEdit \<Rightarrow> string \<Rightarrow> string \<Rightarrow> 'y CVL \<Rightarrow>
     ('y CVL \<times> item_end \<times> CVLErrorInfo option) outcome" where
  "semantic_check x m cfg i item tbl key c0 =
     (let c = (if VOp item = OP_NONE then c0 else c0\<lparr>c_yang := y_operation x (VOp item) (c_yang c0)\<rparr>) in
      bind (getRedisTblToYangList m tbl key) (\<lambda>yl.
        if cached (requestCache c) tbl key = [] then Panics
        else case y_node x (requestCache c) yl tbl key (c_yang c) of
          (y1, found) \<Rightarrow>
            let c1 = c\<lparr>c_yang := y1\<rparr> in
            if \<not> found then Ret (c1, Unmarked, None)
            else case y_custom x cfg i yl tbl key c1 of
              (y2, e) \<Rightarrow>
                let c2 = c1\<lparr>c_yang := y2\<rparr> in
                if ei_ErrCode e \<noteq> CVL_SUCCESS then Ret (c2, Failed (e, ei_ErrCode e), Some e)
                else if ReplaceOp item \<and> VOp item = OP_DELETE then Ret (c2, Marked, Some e)
                else
                  let c3 = (if ReplaceOp item then c2\<lparr>c_yang := y_replace x cfg (c_yang c2)\<rparr> else c2) in
                  case y_semantics x yl key item c3 of
                    (y4, e2) \<Rightarrow>
                      let c4 = c3\<lparr>c_yang := y4\<rparr> in
                      if ei_ErrCode e2 \<noteq> CVL_SUCCESS then Ret (c4, Failed (e2, ei_ErrCode e2), Some e2)
                      else Ret (c4, Marked, Some e2)))"

definition check_item ::
  "'y yang_ext \<Rightarrow> modelDataInfo \<Rightarrow> dbAccess \<Rightarrow> CVLEdit list \<Rightarrow> nat \<Rightarrow> CVLEdit \<Rightarrow> 'y CVL \<Rightarrow> CVLErrorInfo \<Rightarrow>
     (CVLEdit \<times> 'y CVL \<times> verr option \<times> CVLErrorInfo) outcome" where
  "check_item x m da cfg i item c einfo =
     bind (splitRedisKey m (ceKey item)) (\<lambda>(tbl, key).
       let marked = (\<lambda>c einfo. case markCfgDataValidated tbl key item (requestCache c) of
                       (item', rc) \<Rightarrow> (item', c\<lparr>requestCache := rc\<rparr>, None, einfo)) in
       case key_check einfo m da item tbl key of
         Failed e \<Rightarrow> Ret (item, c, Some e, einfo)
       | Marked \<Rightarrow> Ret (marked c einfo)
       | Unmarked \<Rightarrow>
           bind (semantic_check x m cfg i item tbl key c) (\<lambda>(c1, r, oe).
             let einfo1 = (case oe of None \<Rightarrow> einfo | Some e \<Rightarrow> e) in
             Ret (case r of
                    Failed e \<Rightarrow> (item, c1, Some e, einfo1)
                  | Marked \<Rightarrow> marked c1 einfo1
                  | Unmarked \<Rightarrow> (item, c1, None, einfo1))))"

text \<open>The loop over the request; the items in front of the index \<open>i\<close> may have been marked.\<close>

fun check_loop ::
  "'y yang_ext \<Rightarrow> modelDataInfo \<Rightarrow> dbAccess \<Rightarrow> nat \<Rightarrow> nat \<Rightarrow> CVLEdit list \<Rightarrow> 'y CVL \<Rightarrow> CVLErrorInfo \<Rightarrow>
     (CVLEdit list \<times> 'y CVL \<times> verr) outcome" where
  "check_loop x m da 0 i cfg c einfo = Ret (cfg, c, (einfo, CVL_SUCCESS))"
| "check_loop x m da (Suc n) i cfg c einfo =
     (let item = cfg ! i in
      if VType item \<noteq> VALIDATE_ALL \<and> VType item \<noteq> VALIDATE_SEMANTICS then check_loop x m da n (i + 1) cfg c einfo
      else bind (check_item x m da cfg i item c einfo) (\<lambda>(item', c1, e, einfo1).
             case e of
               Some e \<Rightarrow> Ret (cfg[i := item'], c1, e)
             | None \<Rightarrow> check_loop x m da n (i + 1) (cfg[i := item']) c1 einfo1))"

section \<open>\<open>ValidateEditConfig\<close>\<close>

text \<open>The deferred function, without the statistics.\<close>

definition end_validation :: "'y yang_ext \<Rightarrow> 'y CVL \<Rightarrow> 'y CVL" where
  "end_validation x c = c\<lparr>tmpDbCache := clearTmpDbCache (tmpDbCache c), c_yang := y_new x (c_yang c)\<rparr>"

definition validate_steps ::
  "'y yang_ext \<Rightarrow> modelDataInfo \<Rightarrow> dbAccess \<Rightarrow> CVLEdit list \<Rightarrow> 'y CVL \<Rightarrow> (CVLEdit list \<times> 'y CVL \<times> verr) outcome option" where
  "validate_steps x m da cfg c =
     obind (request_loop m da cfg cfg ([], True, c\<lparr>tmpDbCache := clearTmpDbCache (tmpDbCache c)\<rparr>)) (\<lambda>((cd, cs, c1), e).
       case e of
         Some e \<Rightarrow> Some (Ret (cfg, c1, e))
       | None \<Rightarrow>
           (case y_translate x cd cs (c_yang c1) of
              (y1, errN) \<Rightarrow>
                let c2 = c1\<lparr>c_yang := y1\<rparr> in
                if ei_ErrCode errN \<noteq> CVL_SUCCESS then Some (Ret (cfg, c2, (errN, ei_ErrCode errN)))
                else
                  obind (fetchDataToTmpCache m da (requestCache c2) (y_build x) (tmpDbCache c2, y1)) (\<lambda>(tc, y2).
                    let c3 = c2\<lparr>tmpDbCache := tc, c_yang := y2\<rparr>; s = y_syntax x y2 in
                    if cs \<and> snd s \<noteq> CVL_SUCCESS then Some (Ret (cfg, c3, s))
                    else Some (check_loop x m da (length cfg) 0 cfg c3 zeroErrorInfo))))"

definition ValidateEditConfig ::
  "'y yang_ext \<Rightarrow> modelDataInfo \<Rightarrow> dbAccess option \<Rightarrow> CVLEdit list \<Rightarrow> 'y CVL \<Rightarrow>
     (CVLEdit list \<times> 'y CVL \<times> verr) outcome option" where
  "ValidateEditConfig x m oda cfg c =
     (case oda of
        None \<Rightarrow> Some Panics
      | Some da \<Rightarrow>
          if y_skip x then Some (Ret (cfg, end_validation x c, (zeroErrorInfo, CVL_SUCCESS)))
          else obind (validate_steps x m da cfg c) (\<lambda>(cfg', c', e). Some (Ret (cfg', end_validation x c', e))))"

end
