(* ===== verification/CVL_CacheProps.thy ===== *)
theory CVL_CacheProps
  imports CVL_Cache
begin

text \<open>
  What the caches of a session promise: the limit of a table is kept over any sequence of
  requests, the net change of the validated requests, and the end of the fetching.
\<close>

section \<open>The size of a table\<close>

text \<open>A size_counter that refuses to grow over the limit and stays at 0.\<close>

definition size_counter :: "int \<Rightarrow> CVLOperation \<Rightarrow> int \<Rightarrow> int \<times> int" where
  "size_counter lim op n =
     (case op of
        OP_CREATE \<Rightarrow> if n < lim then (CVL_SUCCESS, n + 1) else (CVL_SYNTAX_ERROR, n)
      | OP_DELETE \<Rightarrow> (CVL_SUCCESS, if n > 0 then n - 1 else n)
      | _ \<Rightarrow> (CVL_SUCCESS, n))"

fun max_elem_run ::
  "modelDataInfo \<Rightarrow> dbAccess \<Rightarrow> string \<Rightarrow> (CVLOperation \<times> string) list \<Rightarrow> (string, int) gomap \<Rightarrow>
     (int list \<times> (string, int) gomap) outcome" where
  "max_elem_run m da T [] mt = Ret ([], mt)"
| "max_elem_run m da T ((op, key) # ops) mt =
     bind (checkMaxElemConstraint m da op T key mt) (\<lambda>(r, mt1).
       bind (max_elem_run m da T ops mt1) (\<lambda>(rs, mt2). Ret (r # rs, mt2)))"

fun size_counter_run :: "int \<Rightarrow> CVLOperation list \<Rightarrow> int \<Rightarrow> int list \<times> int" where
  "size_counter_run lim [] n = ([], n)"
| "size_counter_run lim (op # ops) n =
     (case size_counter lim op n of (r, n1) \<Rightarrow> (case size_counter_run lim ops n1 of (rs, n2) \<Rightarrow> (r # rs, n2)))"

definition limited :: "modelDataInfo \<Rightarrow> string \<Rightarrow> int \<Rightarrow> string \<Rightarrow> bool" where
  "limited m T lim key \<longleftrightarrow>
     (\<exists>y t. getRedisTblToYangList m T key = Ret y \<and> gget (tableInfo m) y = Some t \<and> redisTableSize t = lim)"

lemma gget_cnt: "gget (gset k v m) k = Some v" by simp

lemma max_elem_counter:
  assumes "limited m T lim key" "lim \<noteq> -1" "gget mt T = Some n"
  shows "\<exists>mt1. checkMaxElemConstraint m da op T key mt = Ret (fst (size_counter lim op n), mt1) \<and>
    gget mt1 T = Some (snd (size_counter lim op n)) \<and> (\<forall>T'. T' \<noteq> T \<longrightarrow> gget mt1 T' = gget mt T')"
proof -
  obtain y t where y: "getRedisTblToYangList m T key = Ret y" "gget (tableInfo m) y = Some t" "redisTableSize t = lim"
    using assms(1) unfolding limited_def by blast
  show ?thesis
    using y assms(2,3)
    by (cases op) (auto simp: checkMaxElemConstraint_def tbl_info_def size_counter_def)
qed

lemma max_elem_run_counter:
  assumes "\<forall>(op, key) \<in> set ops. limited m T lim key" "lim \<noteq> -1" "gget mt T = Some n"
  shows "\<exists>mt1. max_elem_run m da T ops mt = Ret (fst (size_counter_run lim (map fst ops) n), mt1) \<and>
    gget mt1 T = Some (snd (size_counter_run lim (map fst ops) n))"
  using assms(1,3)
proof (induction ops arbitrary: mt n)
  case (Cons p ops)
  obtain op key where p: "p = (op, key)" by (cases p)
  obtain mt1 where m1: "checkMaxElemConstraint m da op T key mt = Ret (fst (size_counter lim op n), mt1)"
    "gget mt1 T = Some (snd (size_counter lim op n))"
    using max_elem_counter[of m T lim key mt n da op] Cons.prems assms(2) by (auto simp: p)
  obtain mt2 where m2: "max_elem_run m da T ops mt1 = Ret (fst (size_counter_run lim (map fst ops) (snd (size_counter lim op n))), mt2)"
    "gget mt2 T = Some (snd (size_counter_run lim (map fst ops) (snd (size_counter lim op n))))"
    using Cons.IH[OF _ m1(2)] Cons.prems by auto
  show ?case
    by (intro exI[of _ mt2]) (simp add: p m1(1) m2 case_prod_unfold)
qed simp

lemma counter_run_bounds:
  "0 \<le> n \<Longrightarrow> n \<le> lim \<Longrightarrow> 0 \<le> snd (size_counter_run lim ops n) \<and> snd (size_counter_run lim ops n) \<le> lim"
proof (induction ops arbitrary: n)
  case (Cons op ops)
  have "0 \<le> snd (size_counter lim op n) \<and> snd (size_counter lim op n) \<le> lim"
    using Cons.prems by (cases op) (auto simp: size_counter_def)
  then show ?case using Cons.IH[of "snd (size_counter lim op n)"] by (simp add: case_prod_unfold)
qed simp

text \<open>How many creates were accepted.\<close>

definition accepted :: "CVLOperation list \<Rightarrow> int list \<Rightarrow> nat" where
  "accepted ops rs = length (filter (\<lambda>(op, r). op = OP_CREATE \<and> r = CVL_SUCCESS) (zip ops rs))"

definition deletes :: "CVLOperation list \<Rightarrow> nat" where
  "deletes ops = length (filter (\<lambda>op. op = OP_DELETE) ops)"

lemma counter_run_accepted:
  "n + int (accepted ops (fst (size_counter_run lim ops n))) \<le> snd (size_counter_run lim ops n) + int (deletes ops)"
proof (induction ops arbitrary: n)
  case (Cons op ops)
  show ?case
    using Cons.IH[of "snd (size_counter lim op n)"]
    by (cases op) (auto simp: size_counter_def accepted_def deletes_def case_prod_unfold CVL_SUCCESS_def CVL_SYNTAX_ERROR_def)
qed (simp add: accepted_def deletes_def)

section \<open>The net change\<close>

lemma net_change_here: "net_change rs d (Some h) = d"
  by (induction rs arbitrary: h) auto

definition entry_delete :: "CVLEdit \<Rightarrow> bool" where
  "entry_delete r \<longleftrightarrow> VType r = VALIDATE_NONE \<and> VOp r = OP_DELETE \<and> length (ceData r) = 0"

definition lay_over :: "CVLEdit \<Rightarrow> fields \<Rightarrow> fields" where
  "lay_over r d = (if VType r = VALIDATE_NONE then edit_row (VOp r) (ceData r) d else d)"

lemma edit_row_empty: "length fs = 0 \<Longrightarrow> edit_row op fs d = d"
  by (cases fs) simp_all

lemma net_change_prefix:
  "net_change rs d None = fold lay_over (takeWhile (\<lambda>r. \<not> entry_delete r) rs) d"
  by (induction rs arbitrary: d) (auto simp: entry_delete_def lay_over_def net_change_here edit_row_empty)

lemma gget_edit_fields:
  "gok fs \<Longrightarrow> gget (edit_row op fs d) k =
    (case gget fs k of None \<Rightarrow> gget d k | Some v \<Rightarrow> if op = OP_DELETE then None else Some v)"
proof (induction fs arbitrary: d)
  case (Cons p fs)
  obtain a b where p: "p = (a, b)" by (cases p)
  have "gget fs a = None" using Cons.prems by (simp add: p in_gkeys)
  then show ?case using Cons.IH[of "if op = OP_DELETE then gdel a d else gset a b d"] Cons.prems
    by (auto simp: p split: option.splits)
qed simp

section \<open>The end of the fetching\<close>

text \<open>An entry that was fetched is never asked for again.\<close>

definition nil_keys :: "(string, tmpEntry) gomap \<Rightarrow> string set" where
  "nil_keys tbl = {k. gget tbl k = Some TNil}"

lemma nil_keys_gset [simp]: "v \<noteq> TNil \<Longrightarrow> nil_keys (gset k v tbl) = nil_keys tbl - {k}"
  by (auto simp: nil_keys_def)

lemma nil_keys_gdel [simp]: "nil_keys (gdel k tbl) = nil_keys tbl - {k}"
  by (auto simp: nil_keys_def)

lemma finite_nil_keys: "finite (nil_keys tbl)"
proof (rule finite_subset)
  show "nil_keys tbl \<subseteq> set (gkeys tbl)" by (auto simp: nil_keys_def in_gkeys)
qed simp

lemma bulk_ask_nil:
  "bulk_ask m rc T ks (tbl, n, mCmd) = Ret (tbl', n', mCmd') \<Longrightarrow>
    nil_keys tbl' \<subseteq> nil_keys tbl \<and> (gok tbl \<longrightarrow> gok tbl') \<and> n \<le> n' \<and>
    (n' \<noteq> n \<longrightarrow> (\<exists>k \<in> set ks. k \<notin> nil_keys tbl')) \<and> set (gkeys mCmd') \<subseteq> set (gkeys mCmd) \<union> set ks"
proof (induction ks arbitrary: tbl n mCmd)
  case (Cons k ks)
  obtain oe mg where fr: "fetchDataFromRequestCache rc T k = (oe, mg)" by fastforce
  obtain a t where at: "getRedisTblToYangList m T k = Ret a" "tbl_info m a = Ret t"
    using Cons.prems by (auto simp: bind_Ret_iff)
  let ?m = "gset k (T @ redisKeyDelim t @ k) mCmd"
  have mk: "set (gkeys ?m) = insert k (set (gkeys mCmd))" by (auto simp: set_gkeys)
  show ?case
  proof (cases oe)
    case None
    then have "bulk_ask m rc T ks (tbl, n, ?m) = Ret (tbl', n', mCmd')" using Cons.prems at fr by (simp add: Let_def)
    from Cons.IH[OF this] show ?thesis unfolding mk by auto
  next
    case (Some e)
    show ?thesis
    proof (cases mg)
      case True
      then have "bulk_ask m rc T ks (gset k (TRaw e) tbl, n + 1, ?m) = Ret (tbl', n', mCmd')"
        using Cons.prems at fr Some by (simp add: Let_def)
      from Cons.IH[OF this] show ?thesis unfolding mk by auto
    next
      case False
      then obtain fm where "bulk_ask m rc T ks (gset k (TMap fm) tbl, n + 1, mCmd) = Ret (tbl', n', mCmd')"
        using Cons.prems at fr Some by (auto simp: Let_def bind_Ret_iff)
      from Cons.IH[OF this] show ?thesis by auto
    qed
  qed
qed simp

lemma bulk_store_nil:
  "bulk_store da rc T qs (tbl, n) = Ret (tbl', n') \<Longrightarrow>
    nil_keys tbl' \<subseteq> nil_keys tbl \<and> (gok tbl \<longrightarrow> gok tbl') \<and> n \<le> n' \<and>
    (n' \<noteq> n \<longrightarrow> (\<exists>k \<in> set (gkeys qs). k \<notin> nil_keys tbl'))"
proof (induction qs arbitrary: tbl n)
  case (Cons q qs)
  obtain k rk where q: "q = (k, rk)" by (cases q)
  obtain tbl1 n1 where s: "bulk_store da rc T qs (tbl1, n1) = Ret (tbl', n')"
    and one: "nil_keys tbl1 \<subseteq> nil_keys tbl" "gok tbl \<longrightarrow> gok tbl1" "n \<le> n1" "n1 \<noteq> n \<longrightarrow> k \<notin> nil_keys tbl1"
    using Cons.prems
    by (auto simp: q bind_Ret_iff Let_def split: prod.splits option.splits if_splits tmpEntry.splits)
  have "set (gkeys (q # qs)) = insert k (set (gkeys qs))" by (simp add: q gkeys_def)
  then show ?case using Cons.IH[OF s] one by auto
qed simp

lemma fetch_loop_nil:
  assumes "fetch_loop m da rc T rest tot cnt bulk tbl n = Ret (tbl', n')"
    and "set bulk \<subseteq> B" "{k. (k, TNil) \<in> set rest} \<subseteq> B" "0 \<le> n"
  shows "nil_keys tbl' \<subseteq> nil_keys tbl \<and> (gok tbl \<longrightarrow> gok tbl') \<and> 0 \<le> n' \<and>
    (n' \<noteq> n \<longrightarrow> n' = 0 \<or> (\<exists>k \<in> B. k \<notin> nil_keys tbl'))"
  using assms
proof (induction rest arbitrary: tot cnt bulk tbl n)
  case (Cons p rest)
  obtain k v where p: "p = (k, v)" by (cases p)
  let ?f = "v \<noteq> TNil"
  define tbl1 where "tbl1 = (if ?f then gdel k tbl else tbl)"
  define tot1 where "tot1 = (if ?f then tot - 1 else tot)"
  define bulk1 where "bulk1 = (if ?f then bulk else bulk @ [k])"
  define cnt1 where "cnt1 = (if ?f then cnt else cnt + 1)"
  note d = tbl1_def tot1_def bulk1_def cnt1_def
  have b1: "set bulk1 \<subseteq> B" "{k. (k, TNil) \<in> set rest} \<subseteq> B" using Cons.prems(2,3) by (auto simp: p bulk1_def)
  have t1: "nil_keys tbl1 \<subseteq> nil_keys tbl" "gok tbl \<longrightarrow> gok tbl1" by (auto simp: tbl1_def)
  show ?case
  proof (cases "(?f \<and> cnt1 \<noteq> tot1) \<or> (cnt1 \<noteq> tot1 \<and> cnt1 mod MAX_BULK_ENTRIES_IN_PIPELINE \<noteq> 0)")
    case True
    then have s: "fetch_loop m da rc T rest tot1 cnt1 bulk1 tbl1 n = Ret (tbl', n')"
      using Cons.prems(1) unfolding p fetch_loop.simps Let_def d[symmetric] by (auto split: if_splits)
    show ?thesis using Cons.IH[OF s b1 Cons.prems(4)] t1 by blast
  next
    case False
    obtain tbl2 n2 mCmd where a: "bulk_ask m rc T bulk1 (tbl1, n, []) = Ret (tbl2, n2, mCmd)"
      and r: "(if da_Exec da (map snd mCmd) \<noteq> None then Ret (tbl2, 0)
        else bind (bulk_store da rc T mCmd (tbl2, n2)) (\<lambda>(tbl3, n3). fetch_loop m da rc T rest tot1 cnt1 [] tbl3 n3)) = Ret (tbl', n')"
      using Cons.prems(1) False unfolding p fetch_loop.simps Let_def d[symmetric] by (auto simp: bind_Ret_iff split: prod.splits)
    note A = bulk_ask_nil[OF a]
    show ?thesis
    proof (cases "da_Exec da (map snd mCmd) \<noteq> None")
      case True
      then show ?thesis using r A t1 by auto
    next
      case ok: False
      then obtain tbl3 n3 where s: "bulk_store da rc T mCmd (tbl2, n2) = Ret (tbl3, n3)"
        and f: "fetch_loop m da rc T rest tot1 cnt1 [] tbl3 n3 = Ret (tbl', n')"
        using r by (auto simp: bind_Ret_iff)
      note S = bulk_store_nil[OF s]
      have n3: "0 \<le> n3" using A S Cons.prems(4) by simp
      have F: "nil_keys tbl' \<subseteq> nil_keys tbl3 \<and> (gok tbl3 \<longrightarrow> gok tbl') \<and> 0 \<le> n' \<and>
        (n' \<noteq> n3 \<longrightarrow> n' = 0 \<or> (\<exists>k \<in> B. k \<notin> nil_keys tbl'))"
        by (rule Cons.IH[OF f _ b1(2) n3]) simp
      have new: "n3 \<noteq> n \<longrightarrow> (\<exists>k \<in> B. k \<notin> nil_keys tbl3)"
      proof (cases "n2 = n")
        case True
        moreover have "set (gkeys mCmd) \<subseteq> B" using A b1(1) by (auto simp: gkeys_def)
        ultimately show ?thesis using S by blast
      next
        case False
        then obtain k where "k \<in> set bulk1" "k \<notin> nil_keys tbl2" using A by blast
        then show ?thesis using conjunct1[OF S] b1(1) by blast
      qed
      have "n' \<noteq> n \<longrightarrow> n' = 0 \<or> (\<exists>k \<in> B. k \<notin> nil_keys tbl')"
      proof (cases "n' = n3")
        case True
        then show ?thesis using new conjunct1[OF F] by blast
      next
        case False
        then show ?thesis using F by satx
      qed
      moreover have "nil_keys tbl' \<subseteq> nil_keys tbl"
        using conjunct1[OF F] conjunct1[OF S] conjunct1[OF A] t1(1) by (meson subset_trans)
      ultimately show ?thesis using A S F t1(2) by satx
    qed
  qed
qed simp

definition nils :: "tmpcache \<Rightarrow> nat" where
  "nils tc = sum_list (map (\<lambda>(t, ks). card (nil_keys ks)) tc)"

lemma fetch_table_nil:
  assumes "fetchTableDataToTmpCache m da rc T ks = Ret (ks', n)" "gok ks"
  shows "gok ks' \<and> 0 \<le> n \<and> card (nil_keys ks') \<le> card (nil_keys ks) \<and>
    (n \<noteq> 0 \<longrightarrow> card (nil_keys ks') < card (nil_keys ks))"
proof (cases "length ks = 0")
  case True
  then show ?thesis using assms by (simp add: fetchTableDataToTmpCache_def)
next
  case False
  then have f: "fetch_loop m da rc T ks (length ks) 0 [] ks 0 = Ret (ks', n)"
    using assms(1) by (simp add: fetchTableDataToTmpCache_def)
  have "nil_keys ks = {k. (k, TNil) \<in> set ks}"
    using assms(2) by (auto simp: nil_keys_def gok_gget dest: gget_in_set)
  then have F: "nil_keys ks' \<subseteq> nil_keys ks \<and> (gok ks \<longrightarrow> gok ks') \<and> 0 \<le> n \<and>
      (n \<noteq> 0 \<longrightarrow> n = 0 \<or> (\<exists>k \<in> nil_keys ks. k \<notin> nil_keys ks'))"
    by (intro fetch_loop_nil[OF f]) simp_all
  have "card (nil_keys ks') < card (nil_keys ks)" if "n \<noteq> 0"
    by (rule psubset_card_mono[OF finite_nil_keys]) (use F that in blast)
  then show ?thesis using F assms(2) card_mono[OF finite_nil_keys] by blast
qed

lemma fetch_tables_nil:
  "fetch_tables m da rc tc = Ret (tc', n) \<Longrightarrow> \<forall>(t, ks) \<in> set tc. gok ks \<Longrightarrow>
    (\<forall>(t, ks) \<in> set tc'. gok ks) \<and> 0 \<le> n \<and> nils tc' \<le> nils tc \<and> (n \<noteq> 0 \<longrightarrow> nils tc' < nils tc)"
proof (induction tc arbitrary: tc' n)
  case (Cons p tc)
  obtain t ks where p: "p = (t, ks)" by (cases p)
  obtain ks' n1 tc1 n2 where f: "fetchTableDataToTmpCache m da rc t ks = Ret (ks', n1)"
    "fetch_tables m da rc tc = Ret (tc1, n2)" "tc' = (t, ks') # tc1" "n = n1 + n2"
    using Cons.prems(1) by (auto simp: p bind_Ret_iff)
  have ok: "gok ks" "\<forall>(t, ks) \<in> set tc. gok ks" using Cons.prems(2) by (auto simp: p)
  show ?case
    using fetch_table_nil[OF f(1) ok(1)] Cons.IH[OF f(2) ok(2)] by (auto simp: f(3,4) p nils_def)
qed (simp add: nils_def)

lemma nils_filter: "nils (filter P tc) \<le> nils tc"
  by (induction tc) (auto simp: nils_def)

text \<open>The loop always ends: each turn that fetches leaves fewer entries to fetch.\<close>

lemma fetchDataToTmpCache_returns:
  "\<forall>(t, ks) \<in> set tc. gok ks \<Longrightarrow> fetchDataToTmpCache m da rc build (tc, y) \<noteq> None"
proof (induction "nils tc" arbitrary: tc y rule: less_induct)
  case less
  show ?case
  proof (cases "fetch_tables m da rc tc")
    case (Ret a)
    obtain tc1 n where a: "a = (tc1, n)" by (cases a)
    note F = fetch_tables_nil[OF Ret[unfolded a] less.prems]
    let ?tc2 = "filter (\<lambda>(t, ks). length ks \<noteq> 0) tc1"
    have "fetchDataToTmpCache m da rc build (?tc2, y') \<noteq> None" if "n \<noteq> 0" for y'
    proof (rule less.hyps)
      show "nils ?tc2 < nils tc" using F that nils_filter[of "\<lambda>(t, ks). length ks \<noteq> 0" tc1] by simp
      show "\<forall>(t, ks) \<in> set ?tc2. gok ks" using F by auto
    qed
    then show ?thesis
      by (subst fetchDataToTmpCache.simps) (simp add: Ret a Let_def split: prod.split)
  qed (subst fetchDataToTmpCache.simps, simp)+
qed

end
