(* ===== verification/CVL_DeleteProps.thy ===== *)
theory CVL_DeleteProps
  imports CVL_Delete
begin

text \<open>
  What the check of a delete promises: the search for dependent entries finds every entry whose
  key refers to the deleted one, and such an entry stops the delete unless the request covers it.
\<close>

section \<open>The search\<close>

lemma run_deps_Nil [simp]: "run_deps m da [] acc = Some (Ret acc)"
  by (subst run_deps.simps) simp

lemma run_deps_Panic [simp]: "run_deps m da (TPanic # ts) acc = Some Panics"
  by (subst run_deps.simps) simp

lemma run_deps_Emit [simp]: "run_deps m da (TEmit d # ts) acc = run_deps m da ts (acc @ [d])"
  by (subst run_deps.simps) simp

lemma run_deps_Call: "run_deps m da (TCall k # ts) acc = run_deps m da (tasks_of (dep_tasks m da k) @ ts) acc"
  by (subst run_deps.simps) simp

lemma run_deps_keeps:
  assumes "run_deps m da ts acc = Some (Ret out)"
  shows "set acc \<union> {d. TEmit d \<in> set ts} \<subseteq> set out"
proof -
  have "\<forall>out. r = Ret out \<longrightarrow> set acc \<union> {d. TEmit d \<in> set ts} \<subseteq> set out" if "run_deps m da ts acc = Some r" for r
    using that
  proof (induction rule: run_deps.raw_induct[rotated, consumes 1])
    case (1 f m da ts acc r)
    show ?case
    proof (cases ts)
      case Nil
      then show ?thesis using 1(2) by auto
    next
      case (Cons t rest)
      show ?thesis
      proof (cases t)
        case (TEmit d)
        then have "f m da rest (acc @ [d]) = Some r" using 1(2) Cons by simp
        from 1(1)[OF this] show ?thesis by (auto simp: Cons TEmit)
      next
        case (TCall k)
        then have "f m da (tasks_of (dep_tasks m da k) @ rest) acc = Some r" using 1(2) Cons by simp
        from 1(1)[OF this] show ?thesis by (auto simp: Cons TCall)
      next
        case TPanic
        then show ?thesis using 1(2) Cons by auto
      qed
    qed
  qed
  then show ?thesis using assms by blast
qed

lemma gget_map_append [simp]:
  "gget (map_append k vs m) k' =
     (if k' = k then Some ((case gget m k of None \<Rightarrow> [] | Some l \<Rightarrow> l) @ vs) else gget m k')"
  by (simp add: map_append_def)

lemma gok_map_append [simp]: "gok m \<Longrightarrow> gok (map_append k vs m)"
  by (simp add: map_append_def)

definition all_vals :: "('k, 'v list) gomap \<Rightarrow> 'v set" where
  "all_vals m = {v. \<exists>k l. gget m k = Some l \<and> v \<in> set l}"

lemma set_all_vals: "gok m \<Longrightarrow> set (concat (map snd m)) = all_vals m"
  by (auto simp: all_vals_def dest: gget_in_set) (force dest: gok_gget)

lemma all_vals_append [simp]: "all_vals (map_append k vs m) = all_vals m \<union> set vs"
  by (auto simp: all_vals_def split: option.splits if_splits) (metis option.exhaust)+

text \<open>The loop over the references, for a key of one component.\<close>

lemma ref_queries:
  assumes "length mk \<le> 1" "gok (dq_mCmd q)"
    and "fold_outcome (ref_query m tbl ti mk) rs q = Ret q'"
  shows "dq_key q' = dq_key q \<and> gok (dq_mCmd q') \<and> all_vals (dq_mCmd q) \<subseteq> all_vals (dq_mCmd q') \<and>
    (\<forall>r rt e. r \<in> set rs \<and> gget (tableInfo m) (tf_tableName r) = Some rt \<and> contains (ti_keys rt) (tf_field r) \<and>
       getYangListToRedisTbl m (tf_tableName r) \<noteq> [] \<and>
       CreateFindKeyExpression m (tf_tableName r) [(tf_field r, dq_key q)] = Ret e \<longrightarrow> e \<in> all_vals (dq_mCmd q'))"
  using assms(2,3)
proof (induction rs arbitrary: q)
  case (Cons r rs)
  obtain q1 where q1: "ref_query m tbl ti mk r q = Ret q1" "fold_outcome (ref_query m tbl ti mk) rs q1 = Ret q'"
    using Cons.prems(2) by (auto simp: bind_Ret_iff)
  obtain rt where rt: "gget (tableInfo m) (tf_tableName r) = Some rt"
    using q1(1) by (cases "gget (tableInfo m) (tf_tableName r)") (simp_all add: ref_query_def tbl_info_def)
  have one: "dq_key q1 = dq_key q \<and> gok (dq_mCmd q1) \<and> all_vals (dq_mCmd q) \<subseteq> all_vals (dq_mCmd q1) \<and>
    (contains (ti_keys rt) (tf_field r) \<and> getYangListToRedisTbl m (tf_tableName r) \<noteq> [] \<longrightarrow>
      (\<exists>e. CreateFindKeyExpression m (tf_tableName r) [(tf_field r, dq_key q)] = Ret e \<and> e \<in> all_vals (dq_mCmd q1)))"
    using q1(1) assms(1) Cons.prems(1) rt
    by (auto simp: ref_query_def tbl_info_def Let_def bind_Ret_iff split: if_splits)
  show ?case
    using Cons.IH[OF _ q1(2)] one rt by (auto 0 3)
qed simp

lemma GetDepDataForDelete_finds:
  assumes "GetDepDataForDelete m da rk = Some (Ret deps)"
    and "splitRedisKey m rk = Ret (T, key)" "getRedisTblToYangList m T key = Ret y" "gget (tableInfo m) y = Some t"
    and "length (strSplit key (redisKeyDelim t)) \<le> 1"
    and "r \<in> set (refFromTables t)" "gget (tableInfo m) (tf_tableName r) = Some rt" "contains (ti_keys rt) (tf_field r)"
      "getYangListToRedisTbl m (tf_tableName r) \<noteq> []"
      "CreateFindKeyExpression m (tf_tableName r) [(tf_field r, key)] = Ret e"
    and "da_Keys da e = (ks, None)" "k \<in> set ks"
  shows "\<lparr>dd_RefKey = rk, dd_Entry = [(k, [])]\<rparr> \<in> set deps"
proof -
  let ?d = "\<lparr>dd_RefKey = rk, dd_Entry = [(k, [])]\<rparr>"
  have run: "run_deps m da (tasks_of (dep_tasks m da rk)) [] = Some (Ret deps)"
    using assms(1) by (simp add: GetDepDataForDelete_def run_deps_Call)
  let ?q0 = "\<lparr>dq_key = key, dq_mCmd = [], dq_scripts = []\<rparr>"
  let ?fold = "fold_outcome (ref_query m y t (strSplit key (redisKeyDelim t))) (refFromTables t) ?q0"
  have dt: "dep_tasks m da rk = bind ?fold (\<lambda>q.
      let keysArr = keys_found da (concat (map snd (dq_mCmd q))) in
      Ret (concat (map (\<lambda>(tbl, fs). concat (map (script_tasks m da rk tbl) fs)) (dq_scripts q)) @
           map (\<lambda>k. TEmit \<lparr>dd_RefKey = rk, dd_Entry = [(k, [])]\<rparr>) keysArr @ map TCall keysArr))"
    by (simp add: dep_tasks_def assms(2-4))
  obtain q where q: "?fold = Ret q"
    using run by (cases ?fold) (simp_all add: dt)
  have "e \<in> all_vals (dq_mCmd q)" "gok (dq_mCmd q)"
    using ref_queries[OF assms(5) _ q] assms(6-10) by auto
  then have "k \<in> set (keys_found da (concat (map snd (dq_mCmd q))))"
    using assms(11,12) unfolding keys_found_def by (force simp: set_all_vals[symmetric])
  then have "TEmit ?d \<in> set (tasks_of (dep_tasks m da rk))"
    unfolding dt q by (auto simp: Let_def)
  then show ?thesis using run_deps_keeps[OF run] by blast
qed

section \<open>The check\<close>

lemma collect_refs_field: "f \<noteq> [] \<Longrightarrow> collect_refs f refs = []"
proof -
  assume "f \<noteq> []"
  then have c: "(f \<noteq> [] \<and> (f \<noteq> x \<or> f \<noteq> x @ ''@'')) = True" for x by auto
  have "fold (\<lambda>r acc. if f \<noteq> [] \<and> (f \<noteq> tf_field r \<or> f \<noteq> tf_field r @ ''@'') then acc
      else map_append (tf_tableName r) [tf_field r] acc) rs acc = acc" for rs acc
    unfolding c by (induction rs) simp_all
  then show ?thesis unfolding collect_refs_def .
qed

lemma collect_refs_all:
  "gok acc \<Longrightarrow> gok (fold (\<lambda>r acc. map_append (tf_tableName r) [tf_field r] acc) rs acc) \<and>
    (\<forall>n. case gget (fold (\<lambda>r acc. map_append (tf_tableName r) [tf_field r] acc) rs acc) n of
       None \<Rightarrow> gget acc n = None \<and> (\<forall>r \<in> set rs. tf_tableName r \<noteq> n)
     | Some l \<Rightarrow> set l = set (case gget acc n of None \<Rightarrow> [] | Some l \<Rightarrow> l) \<union> {tf_field r |r. r \<in> set rs \<and> tf_tableName r = n})"
proof (induction rs arbitrary: acc)
  case Nil
  then show ?case by (auto split: option.splits)
next
  case (Cons r rs)
  have ok: "gok (map_append (tf_tableName r) [tf_field r] acc)" using Cons.prems by simp
  show ?case using Cons.IH[OF ok] by (auto split: option.splits if_splits) 
qed

lemma checkDeleteInRequestCache_iff:
  "checkDeleteInRequestCache cs cfgd f k v \<longleftrightarrow> (\<exists>c \<in> set cs. item_covers cfgd f k v c)"
  by (induction cs) auto

lemma all_outcome_True: "all_outcome f xs = Ret True \<longleftrightarrow> (\<forall>x \<in> set xs. f x = Ret True)"
proof (induction xs)
  case (Cons x xs)
  then show ?case by (cases "f x") auto
qed simp

lemma checkDepDataCompatible_one_key:
  "gget (tableInfo m) y = Some t \<Longrightarrow> length (ti_keys t) \<le> 1 \<Longrightarrow> checkDepDataCompatible m y k r rk f e = Ret True"
  by (simp add: checkDepDataCompatible_def tbl_info_def)

lemma verify_refs_one_key:
  assumes "gget (tableInfo m) y = Some t" "length (ti_keys t) \<le> 1"
  shows "verify_refs m cfg cfgd y v ry rk k e fs =
    Ret (if \<exists>f \<in> set fs. \<exists>c \<in> set cfg. item_covers cfgd f k v c then InRequest else NotFound)"
  by (induction fs) (simp_all add: checkDepDataCompatible_one_key[OF assms] checkDeleteInRequestCache_iff)

lemma collect_refs_entry:
  "gget (collect_refs [] refs) n =
     None \<and> (\<forall>r \<in> set refs. tf_tableName r \<noteq> n) \<or>
   (\<exists>l. gget (collect_refs [] refs) n = Some l \<and> set l = {tf_field r |r. r \<in> set refs \<and> tf_tableName r = n})"
  using collect_refs_all[of "[]" refs] by (auto simp: collect_refs_def split: option.splits dest!: spec[of _ n])

text \<open>
  An entry whose key holds a reference to the deleted entry, and which no other item of the
  request covers, stops the delete.
\<close>

lemma used_entry_stops_delete:
  assumes check: "checkDeleteConstraint m da cfg cfgd T key [] = Some (Ret CVL_SUCCESS)"
    and entry: "splitRedisKey m (T @ ''|'' @ key) = Ret (T, key)" "getRedisTblToYangList m T key = Ret y"
      "gget (tableInfo m) y = Some t" "length (ti_keys t) \<le> 1" "length (strSplit key (redisKeyDelim t)) \<le> 1"
    and ref: "r \<in> set (refFromTables t)" "gget (tableInfo m) (tf_tableName r) = Some rt"
      "contains (ti_keys rt) (tf_field r)" "getYangListToRedisTbl m (tf_tableName r) \<noteq> []"
      "CreateFindKeyExpression m (tf_tableName r) [(tf_field r, key)] = Ret e"
    and used: "da_Keys da e = (ks, None)" "RT @ ''|'' @ rk \<in> set ks" "CHR ''|'' \<notin> set RT"
      "getRedisTblToYangList m RT rk = Ret (tf_tableName r)"
  shows "\<exists>c \<in> set cfg. \<exists>r' \<in> set (refFromTables t). tf_tableName r' = tf_tableName r \<and>
    item_covers cfgd (tf_field r') (RT @ ''|'' @ rk) key c"
proof -
  let ?refs = "collect_refs [] (refFromTables t)" and ?d = "\<lparr>dd_RefKey = T @ ''|'' @ key, dd_Entry = [(RT @ ''|'' @ rk, [])]\<rparr>"
  obtain l where l: "gget ?refs (tf_tableName r) = Some l"
    "set l = {tf_field r' |r'. r' \<in> set (refFromTables t) \<and> tf_tableName r' = tf_tableName r}"
    using collect_refs_entry[of "refFromTables t" "tf_tableName r"] ref(1) by auto
  then have ne: "length ?refs \<noteq> 0" by auto
  obtain deps where deps: "GetDepDataForDelete m da (T @ ''|'' @ key) = Some (Ret deps)"
    and all: "all_outcome (\<lambda>d. if length (dd_Entry d) > 0 \<and> dd_RefKey d = T @ ''|'' @ key
                       then all_outcome (verify_entry m cfg cfgd ?refs y key) (dd_Entry d) else Ret True) deps = Ret True"
    using check ne by (auto simp: checkDeleteConstraint_def entry tbl_info_def Let_def bind_Ret_iff CVL_SUCCESS_def
        CVL_SEMANTIC_ERROR_def split: if_splits)
  have "?d \<in> set deps"
    by (rule GetDepDataForDelete_finds[OF deps entry(1-3) entry(5) ref used(1,2)])
  then have "verify_entry m cfg cfgd ?refs y key (RT @ ''|'' @ rk, []) = Ret True"
    using all unfolding all_outcome_True by (auto dest!: bspec[of _ _ ?d] simp: bind_Ret_iff split: if_splits)
  then have "\<exists>f \<in> set l. \<exists>c \<in> set cfg. item_covers cfgd f (RT @ ''|'' @ rk) key c"
    using used(3,4) by (auto simp: verify_entry_def cut_char_append l(1) verify_refs_one_key[OF entry(3,4)] split: if_splits)
  then show ?thesis unfolding l(2) by blast
qed

lemma field_delete_passes:
  "field \<noteq> [] \<Longrightarrow> getRedisTblToYangList m T key = Ret y \<Longrightarrow> ghas (tableInfo m) y \<Longrightarrow>
    checkDeleteConstraint m da cfg cfgd T key field = Some (Ret CVL_SUCCESS)"
  by (auto simp: checkDeleteConstraint_def tbl_info_def ghas_def collect_refs_field)

section \<open>The search returns\<close>

text \<open>The calls that one call makes.\<close>

definition dep_next :: "modelDataInfo \<Rightarrow> dbAccess \<Rightarrow> (string \<times> string) set" where
  "dep_next m da = {(k', k). TCall k' \<in> set (tasks_of (dep_tasks m da k))}"

lemma run_deps_one:
  assumes "wf (dep_next m da)"
  shows "\<exists>acc'. run_deps m da (TCall k # rest) acc = run_deps m da rest acc' \<or>
    run_deps m da (TCall k # rest) acc = Some Panics"
  using assms
proof (induction k arbitrary: rest acc rule: wf_induct_rule)
  case (less k)
  have "\<exists>acc'. run_deps m da (ts @ rest) acc = run_deps m da rest acc' \<or> run_deps m da (ts @ rest) acc = Some Panics"
    if "set ts \<subseteq> set (tasks_of (dep_tasks m da k))" for ts acc
    using that
  proof (induction ts arbitrary: acc)
    case (Cons t ts)
    have ih: "\<exists>acc'. run_deps m da (ts @ rest) acc = run_deps m da rest acc' \<or> run_deps m da (ts @ rest) acc = Some Panics" for acc
      using Cons.IH Cons.prems by simp
    show ?case
    proof (cases t)
      case (TCall k')
      then have "(k', k) \<in> dep_next m da" using Cons.prems by (simp add: dep_next_def)
      from less.IH[OF this, of "ts @ rest" acc] show ?thesis using ih by (auto simp: TCall) metis
    qed (use ih in auto)
  qed auto
  from this[of "tasks_of (dep_tasks m da k)" acc] show ?case by (simp add: run_deps_Call)
qed

lemma GetDepDataForDelete_returns: "wf (dep_next m da) \<Longrightarrow> GetDepDataForDelete m da k \<noteq> None"
  using run_deps_one[of m da k "[]" "[]"] by (auto simp: GetDepDataForDelete_def)

end
