(* ===== verification/CVL_ValidateProps.thy ===== *)
theory CVL_ValidateProps
  imports CVL_Validate CVL_CacheProps CVL_DeleteProps
begin

text \<open>
  What a validated request has passed, what a rejected one leaves behind, and when the
  validation returns.
\<close>

lemma obind_Ret: "obind x f = Some (Ret b) \<longleftrightarrow> (\<exists>a. x = Some (Ret a) \<and> f a = Some (Ret b))"
  by (cases x) (auto simp: obind_def split: outcome.splits)

lemma pair_option_None: "(\<forall>a b. x \<noteq> Some (a, b)) \<longleftrightarrow> x = None"
  by (cases x) auto

lemmas cvl_codes = CVL_SUCCESS_def CVL_SYNTAX_ERROR_def CVL_SEMANTIC_ERROR_def CVL_SYNTAX_MINIMUM_INVALID_def
  CVL_SEMANTIC_KEY_ALREADY_EXIST_def CVL_SEMANTIC_KEY_NOT_EXIST_def

section \<open>Step 1\<close>

lemma addCfgDataItem_key:
  "addCfgDataItem m cd item = Ret (cd1, tbl, key) \<Longrightarrow> key \<noteq> [] \<Longrightarrow> splitRedisKey m (ceKey item) = Ret (tbl, key) \<and> tbl \<noteq> []"
  by (auto simp: addCfgDataItem_def bind_Ret_iff split: if_splits option.splits)

lemma cached_cache_request:
  "cached (cache_request tbl key item rc) tbl key = cached rc tbl key @ [item]"
  by (auto simp: cached_def cache_request_def split: option.splits)

lemma delete_fields_code:
  "delete_fields m da cfg item tbl key fs = Some (Ret (Some (e, r))) \<Longrightarrow> r \<noteq> CVL_SUCCESS"
  by (induction fs) (auto simp: obind_Ret cvl_codes split: if_splits)

text \<open>What one item that step 1 accepts has passed.\<close>

definition request_ok :: "modelDataInfo \<Rightarrow> dbAccess \<Rightarrow> CVLEdit list \<Rightarrow> CVLEdit \<Rightarrow> bool" where
  "request_ok m da cfg item \<longleftrightarrow>
     (\<exists>tbl key. splitRedisKey m (ceKey item) = Ret (tbl, key) \<and> tbl \<noteq> [] \<and> key \<noteq> [] \<and>
        (VOp item = OP_DELETE \<and> ceData item = [] \<longrightarrow>
           checkDeleteConstraint m da cfg item tbl key [] = Some (Ret CVL_SUCCESS)))"

lemma request_item_cases:
  assumes "request_item m da cfg item (cd, cs, c) = Some (Ret ((cd', cs', c'), e))"
  obtains tbl key where "addCfgDataItem m cd item = Ret (cd', tbl, key)"
    "requestCache c' = cache_request tbl key item (requestCache c)" "c_yang c' = c_yang c"
    "tmpDbCache c' = tmpDbCache c \<or> tmpDbCache c' = addTableEntryToCache tbl key (tmpDbCache c)"
    "e = None \<Longrightarrow> request_ok m da cfg item"
    "\<And>i r. e = Some (i, r) \<Longrightarrow> r \<noteq> CVL_SUCCESS"
proof -
  obtain tbl key where a: "addCfgDataItem m cd item = Ret (cd', tbl, key)"
    using assms by (auto simp: request_item_def obind_Ret Let_def split: if_splits CVLOperation.splits)
  have r: "requestCache c' = cache_request tbl key item (requestCache c) \<and> c_yang c' = c_yang c \<and>
      (tmpDbCache c' = tmpDbCache c \<or> tmpDbCache c' = addTableEntryToCache tbl key (tmpDbCache c))"
    using assms a by (auto simp: request_item_def obind_Ret Let_def split: if_splits CVLOperation.splits)
  have ok: "key \<noteq> [] \<and> (VOp item = OP_DELETE \<and> ceData item = [] \<longrightarrow>
       checkDeleteConstraint m da cfg item tbl key [] = Some (Ret CVL_SUCCESS))" if "e = None"
    using assms a that
    by (auto simp: request_item_def obind_Ret Let_def split: if_splits CVLOperation.splits)
  have code: "q \<noteq> CVL_SUCCESS" if "e = Some (i, q)" for i q
    using assms a that
    by (auto simp: request_item_def obind_Ret Let_def cvl_codes dest: delete_fields_code[unfolded CVL_SUCCESS_def]
        split: if_splits CVLOperation.splits)
  show thesis
    by (rule that[OF a]) (use r ok code addCfgDataItem_key[OF a] in \<open>auto simp: request_ok_def\<close>)
qed

lemma request_loop_ok:
  "request_loop m da cfg items st = Some (Ret (st', None)) \<Longrightarrow>
    \<forall>item \<in> set items. VType item = VALIDATE_ALL \<longrightarrow> request_ok m da cfg item"
proof (induction items arbitrary: st)
  case (Cons item items)
  show ?case
  proof (cases "VType item = VALIDATE_ALL")
    case True
    obtain cd cs c where st: "st = (cd, cs, c)" by (cases st)
    have "obind (request_item m da cfg item (cd, cs, c))
        (\<lambda>(st1, e). if e \<noteq> None then Some (Ret (st1, e)) else request_loop m da cfg items st1) = Some (Ret (st', None))"
      using Cons.prems True unfolding st request_loop.simps by simp
    then obtain a where a: "request_item m da cfg item (cd, cs, c) = Some (Ret a)"
      "(case a of (st1, e) \<Rightarrow> if e \<noteq> None then Some (Ret (st1, e)) else request_loop m da cfg items st1) = Some (Ret (st', None))"
      unfolding obind_Ret by blast
    obtain cd1 cs1 c1 e1 where "a = ((cd1, cs1, c1), e1)" by (metis prod.exhaust)
    then have s0: "request_item m da cfg item (cd, cs, c) = Some (Ret ((cd1, cs1, c1), e1))"
      "(if e1 \<noteq> None then Some (Ret ((cd1, cs1, c1), e1)) else request_loop m da cfg items (cd1, cs1, c1)) = Some (Ret (st', None))"
      using a by simp_all
    then have "e1 = None" by (auto simp: pair_option_None split: if_splits)
    then have s: "request_item m da cfg item (cd, cs, c) = Some (Ret ((cd1, cs1, c1), None))"
      "request_loop m da cfg items (cd1, cs1, c1) = Some (Ret (st', None))"
      using s0 by simp_all
    have "request_ok m da cfg item" using request_item_cases[OF s(1)] by blast
    then show ?thesis using Cons.IH[OF s(2)] by simp
  next
    case False
    then show ?thesis using Cons by simp
  qed
qed simp

lemma request_loop_code:
  "request_loop m da cfg items st = Some (Ret (st', Some (e, r))) \<Longrightarrow> r \<noteq> CVL_SUCCESS"
proof (induction items arbitrary: st)
  case (Cons item items)
  show ?case
  proof (cases "VType item = VALIDATE_ALL")
    case True
    obtain cd cs c where st: "st = (cd, cs, c)" by (cases st)
    obtain cd1 cs1 c1 e1 where s: "request_item m da cfg item (cd, cs, c) = Some (Ret ((cd1, cs1, c1), e1))"
      "e1 = Some (e, r) \<or> request_loop m da cfg items (cd1, cs1, c1) = Some (Ret (st', Some (e, r)))"
      using Cons.prems True by (auto simp: st obind_Ret split: if_splits)
    then show ?thesis using request_item_cases[OF s(1)] Cons.IH by blast
  next
    case False
    then show ?thesis using Cons by simp
  qed
qed simp

section \<open>Step 3\<close>

text \<open>What the database has to hold for an operation.\<close>

definition exists_ok :: "dbAccess \<Rightarrow> CVLEdit \<Rightarrow> bool" where
  "exists_ok da item \<longleftrightarrow>
     (case da_Exists da (ceKey item) of (n, err) \<Rightarrow>
        (VOp item = OP_CREATE \<longrightarrow> \<not> (err = None \<and> n > 0)) \<and>
        (VOp item = OP_UPDATE \<or> VOp item = OP_DELETE \<longrightarrow> err = None \<and> n \<noteq> 0))"

lemma key_check_ok: "(\<forall>e. key_check einfo m da item tbl key \<noteq> Failed e) \<longleftrightarrow> exists_ok da item"
  by (auto simp: key_check_def exists_ok_def split: prod.splits CVLOperation.splits)

lemma key_check_code: "key_check einfo m da item tbl key = Failed (e, r) \<Longrightarrow> r \<noteq> CVL_SUCCESS"
  by (auto simp: key_check_def cvl_codes split: prod.splits CVLOperation.splits if_splits)

lemma semantic_check_code: "semantic_check x m cfg i item tbl key c = Ret (c', Failed (e, r), oe) \<Longrightarrow> r \<noteq> CVL_SUCCESS"
  by (auto simp: semantic_check_def bind_Ret_iff Let_def case_prod_unfold split: if_splits)

definition marked_or_same :: "CVLEdit \<Rightarrow> CVLEdit \<Rightarrow> bool" where
  "marked_or_same a b \<longleftrightarrow> b = a \<or> b = a\<lparr>VType := VALIDATE_NONE\<rparr>"

lemma mark_item: "marked_or_same item (fst (markCfgDataValidated tbl key item rc))"
  by (auto simp: markCfgDataValidated_def marked_or_same_def split: if_splits)

lemma check_item_ok:
  assumes "check_item x m da cfg i item c einfo = Ret (item', c', e, einfo')"
  shows "marked_or_same item item' \<and> (e = None \<longrightarrow> exists_ok da item) \<and> (\<forall>ei r. e = Some (ei, r) \<longrightarrow> r \<noteq> CVL_SUCCESS)"
proof -
  obtain tbl key where s: "splitRedisKey m (ceKey item) = Ret (tbl, key)"
    using assms by (auto simp: check_item_def bind_Ret_iff)
  note d = assms[unfolded check_item_def s bind.simps prod.case Let_def]
  have same: "marked_or_same item item" by (simp add: marked_or_same_def)
  show ?thesis
  proof (cases "key_check einfo m da item tbl key")
    case (Failed er)
    then show ?thesis using d same by (auto dest: key_check_code)
  next
    case Marked
    then show ?thesis using d mark_item key_check_ok[of einfo m da item tbl key] by (auto simp: case_prod_unfold)
  next
    case Unmarked
    have "exists_ok da item" using Unmarked key_check_ok[of einfo m da item tbl key] by simp
    moreover obtain c1 r oe where sc: "semantic_check x m cfg i item tbl key c = Ret (c1, r, oe)"
      using d Unmarked by (auto simp: bind_Ret_iff)
    ultimately show ?thesis
      using d Unmarked mark_item same by (cases r) (auto simp: case_prod_unfold dest: semantic_check_code)
  qed
qed

lemma semantic_check_cache: "semantic_check x m cfg i item tbl key c = Ret (c', r, oe) \<Longrightarrow> requestCache c' = requestCache c"
  by (auto simp: semantic_check_def bind_Ret_iff Let_def case_prod_unfold split: if_splits)

lemma check_item_cache:
  assumes "check_item x m da cfg i item c einfo = Ret (item', c', Some e, einfo')"
  shows "requestCache c' = requestCache c"
proof -
  obtain tbl key where s: "splitRedisKey m (ceKey item) = Ret (tbl, key)"
    using assms by (auto simp: check_item_def bind_Ret_iff)
  note d = assms[unfolded check_item_def s bind.simps prod.case Let_def]
  show ?thesis
  proof (cases "key_check einfo m da item tbl key")
    case Unmarked
    obtain c1 r oe where sc: "semantic_check x m cfg i item tbl key c = Ret (c1, r, oe)"
      using d Unmarked by (auto simp: bind_Ret_iff)
    then show ?thesis
      using d Unmarked semantic_check_cache[OF sc] by (cases r) (auto simp: case_prod_unfold)
  qed (use d in \<open>auto simp: case_prod_unfold\<close>)
qed

lemma check_loop_ok:
  assumes "check_loop x m da n i cfg c einfo = Ret (cfg', c', e, r)"
  shows "length cfg' = length cfg \<and> (\<forall>j < length cfg. marked_or_same (cfg ! j) (cfg' ! j)) \<and>
    (\<forall>j. j < i \<or> i + n \<le> j \<longrightarrow> j < length cfg \<longrightarrow> cfg' ! j = cfg ! j) \<and>
    (r = CVL_SUCCESS \<longrightarrow> (\<forall>j. i \<le> j \<and> j < i + n \<and> j < length cfg \<and> VType (cfg ! j) = VALIDATE_ALL \<longrightarrow> exists_ok da (cfg ! j)))"
  using assms
proof (induction n arbitrary: i cfg c einfo)
  case (Suc n)
  show ?case
  proof (cases "VType (cfg ! i) \<noteq> VALIDATE_ALL \<and> VType (cfg ! i) \<noteq> VALIDATE_SEMANTICS")
    case True
    then have s: "check_loop x m da n (i + 1) cfg c einfo = Ret (cfg', c', e, r)" using Suc.prems by (simp add: Let_def)
    have "exists_ok da (cfg ! j)" if "r = CVL_SUCCESS" "i \<le> j" "j < i + Suc n" "j < length cfg" "VType (cfg ! j) = VALIDATE_ALL" for j
      using Suc.IH[OF s] that True by (cases "j = i") auto
    then show ?thesis using Suc.IH[OF s] by simp
  next
    case False
    obtain item' c1 oe ei1 where s: "check_item x m da cfg i (cfg ! i) c einfo = Ret (item', c1, oe, ei1)"
      and rest: "(case oe of Some e \<Rightarrow> Ret (cfg[i := item'], c1, e)
         | None \<Rightarrow> check_loop x m da n (i + 1) (cfg[i := item']) c1 ei1) = Ret (cfg', c', e, r)"
      using Suc.prems False by (auto simp: Let_def bind_Ret_iff)
    have m: "marked_or_same (cfg ! i) item'" using check_item_ok[OF s] by simp
    show ?thesis
    proof (cases oe)
      case (Some er)
      then have "cfg' = cfg[i := item']" "r \<noteq> CVL_SUCCESS"
        using rest check_item_ok[OF s] by auto
      moreover have "marked_or_same (cfg ! j) (cfg[i := item'] ! j)" if "j < length cfg" for j
        using m that by (cases "j = i") (simp_all add: marked_or_same_def)
      ultimately show ?thesis by auto
    next
      case None
      then have l: "check_loop x m da n (i + 1) (cfg[i := item']) c1 ei1 = Ret (cfg', c', e, r)" using rest by simp
      have same: "cfg' ! i = item'" if "i < length cfg" using Suc.IH[OF l] that by auto
      have "marked_or_same (cfg ! j) (cfg' ! j)" if "j < length cfg" for j
        using Suc.IH[OF l] that m same by (cases "j = i") (auto simp: nth_list_update)
      moreover have "exists_ok da (cfg ! j)"
        if "r = CVL_SUCCESS" "i \<le> j" "j < i + Suc n" "j < length cfg" "VType (cfg ! j) = VALIDATE_ALL" for j
        using Suc.IH[OF l] that check_item_ok[OF s] None by (cases "j = i") (auto simp: nth_list_update)
      ultimately show ?thesis using Suc.IH[OF l] by (auto simp: nth_list_update)
    qed
  qed
qed (auto simp: marked_or_same_def)

section \<open>The whole validation\<close>

lemma validated_steps:
  assumes "ValidateEditConfig x m (Some da) cfg c = Some (Ret (cfg', c', e, r))" "\<not> y_skip x"
  obtains c1 where "validate_steps x m da cfg c = Some (Ret (cfg', c1, e, r))" "c' = end_validation x c1"
proof -
  have "obind (validate_steps x m da cfg c) (\<lambda>(cfg', c', e). Some (Ret (cfg', end_validation x c', e))) =
      Some (Ret (cfg', c', e, r))"
    using assms by (simp add: ValidateEditConfig_def)
  then obtain a where "validate_steps x m da cfg c = Some (Ret a)"
    "(case a of (cfg', c', e) \<Rightarrow> Some (Ret (cfg', end_validation x c', e))) = Some (Ret (cfg', c', e, r))"
    unfolding obind_Ret by blast
  then show thesis using that by (cases a) auto
qed

text \<open>The ways through the steps: an error of step 1 or 2, or the loop over the items.\<close>

lemma validate_steps_cases:
  assumes "validate_steps x m da cfg c = Some (Ret (cfg', c', e, r))"
  obtains (early) st1 oe where
      "request_loop m da cfg cfg ([], True, c\<lparr>tmpDbCache := clearTmpDbCache (tmpDbCache c)\<rparr>) = Some (Ret (st1, oe))"
      "cfg' = cfg" "requestCache c' = requestCache (snd (snd st1))" "r \<noteq> CVL_SUCCESS"
  | (items) st1 c3 where
      "request_loop m da cfg cfg ([], True, c\<lparr>tmpDbCache := clearTmpDbCache (tmpDbCache c)\<rparr>) = Some (Ret (st1, None))"
      "requestCache c3 = requestCache (snd (snd st1))"
      "check_loop x m da (length cfg) 0 cfg c3 zeroErrorInfo = Ret (cfg', c', e, r)"
proof -
  obtain a where a: "request_loop m da cfg cfg ([], True, c\<lparr>tmpDbCache := clearTmpDbCache (tmpDbCache c)\<rparr>) = Some (Ret a)"
    using assms unfolding validate_steps_def obind_Ret by blast
  obtain cd cs c1 oe where b: "a = ((cd, cs, c1), oe)" by (metis prod.exhaust)
  show thesis
  proof (cases oe)
    case (Some er)
    then have er: "cfg' = cfg \<and> c' = c1 \<and> er = (e, r)" using assms by (simp add: validate_steps_def a b obind_def)
    then have "r \<noteq> CVL_SUCCESS" using request_loop_code[of m da cfg cfg _ _ e r] a[unfolded b Some] by simp
    then show thesis using early[OF a[unfolded b]] er by simp
  next
    case None
    obtain y1 errN where t: "y_translate x cd cs (c_yang c1) = (y1, errN)" by fastforce
    note d = assms[unfolded validate_steps_def a b None obind_def option.case outcome.case prod.case t Let_def, folded obind_def]
    show thesis
    proof (cases "ei_ErrCode errN = CVL_SUCCESS")
      case False
      then show thesis using d early[OF a[unfolded b]] by auto
    next
      case True
      let ?f = "fetchDataToTmpCache m da (requestCache (c1\<lparr>c_yang := y1\<rparr>)) (y_build x) (tmpDbCache (c1\<lparr>c_yang := y1\<rparr>), y1)"
      obtain p where p: "?f = Some (Ret p)" using d True by (auto simp: obind_Ret)
      obtain tc y2 where tc: "p = (tc, y2)" by (cases p)
      let ?c3 = "c1\<lparr>c_yang := y1, tmpDbCache := tc, c_yang := y2\<rparr>"
      have "(if cs \<and> snd (y_syntax x y2) \<noteq> CVL_SUCCESS then Some (Ret (cfg, ?c3, y_syntax x y2))
        else Some (check_loop x m da (length cfg) 0 cfg ?c3 zeroErrorInfo)) = Some (Ret (cfg', c', e, r))"
        using d True p tc by (simp add: obind_def)
      then show thesis
        using early[OF a[unfolded b]] items[OF a[unfolded b None], of ?c3] by (auto split: if_splits)
    qed
  qed
qed

lemma validated_passed:
  assumes "ValidateEditConfig x m (Some da) cfg c = Some (Ret (cfg', c', e, CVL_SUCCESS))" "\<not> y_skip x"
  shows "length cfg' = length cfg" "i < length cfg \<Longrightarrow> marked_or_same (cfg ! i) (cfg' ! i)"
    "i < length cfg \<Longrightarrow> VType (cfg ! i) = VALIDATE_ALL \<Longrightarrow> request_ok m da cfg (cfg ! i) \<and> exists_ok da (cfg ! i)"
proof -
  obtain c1 where "validate_steps x m da cfg c = Some (Ret (cfg', c1, e, CVL_SUCCESS))"
    by (rule validated_steps[OF assms])
  then have *: "length cfg' = length cfg \<and> (i < length cfg \<longrightarrow> marked_or_same (cfg ! i) (cfg' ! i)) \<and>
      (i < length cfg \<and> VType (cfg ! i) = VALIDATE_ALL \<longrightarrow> request_ok m da cfg (cfg ! i) \<and> exists_ok da (cfg ! i))"
  proof (cases rule: validate_steps_cases)
    case (items st1 c3)
    show ?thesis using request_loop_ok[OF items(1)] check_loop_ok[OF items(3)] by auto
  qed simp
  show "length cfg' = length cfg" using * by simp
  show "i < length cfg \<Longrightarrow> marked_or_same (cfg ! i) (cfg' ! i)" using * by simp
  show "i < length cfg \<Longrightarrow> VType (cfg ! i) = VALIDATE_ALL \<Longrightarrow> request_ok m da cfg (cfg ! i) \<and> exists_ok da (cfg ! i)"
    using * by simp
qed

text \<open>A rejected request stays in the request cache.\<close>

lemma rejected_stays_cached:
  assumes "ValidateEditConfig x m (Some da) [item] c = Some (Ret (cfg', c', e, r))" "\<not> y_skip x"
    and "r \<noteq> CVL_SUCCESS" "VType item = VALIDATE_ALL" "splitRedisKey m (ceKey item) = Ret (tbl, key)" "tbl \<noteq> []" "key \<noteq> []"
  shows "cached (requestCache c') tbl key = cached (requestCache c) tbl key @ [item]"
proof -
  obtain c1 where v: "validate_steps x m da [item] c = Some (Ret (cfg', c1, e, r))" "c' = end_validation x c1"
    by (rule validated_steps[OF assms(1,2)])
  let ?c0 = "c\<lparr>tmpDbCache := clearTmpDbCache (tmpDbCache c)\<rparr>"
  have step1: "cached (requestCache (snd (snd st1))) tbl key = cached (requestCache c) tbl key @ [item]"
    if "request_loop m da [item] [item] ([], True, ?c0) = Some (Ret (st1, oe))" for st1 oe
  proof -
    obtain cd1 cs1 c2 where st1: "st1 = (cd1, cs1, c2)" by (cases st1)
    have "request_item m da [item] item ([], True, ?c0) = Some (Ret ((cd1, cs1, c2), oe))"
      using that assms(4) unfolding st1 by (auto simp: obind_Ret pair_option_None split: if_splits)
    then obtain t k where "addCfgDataItem m [] item = Ret (cd1, t, k)"
      "requestCache c2 = cache_request t k item (requestCache ?c0)"
      by (rule request_item_cases)
    moreover have "t = tbl \<and> k = key" using calculation(1) assms(5-7)
      by (auto simp: addCfgDataItem_def bind_Ret_iff split: if_splits)
    ultimately show ?thesis by (simp add: st1 cached_cache_request)
  qed
  have "cached (requestCache c1) tbl key = cached (requestCache c) tbl key @ [item]"
    using v(1)
  proof (cases rule: validate_steps_cases)
    case (early st1 oe)
    then show ?thesis using step1 by simp
  next
    case (items st1 c3)
    obtain item' c4 oe ei1 where s: "check_item x m da [item] 0 item c3 zeroErrorInfo = Ret (item', c4, oe, ei1)"
      and rest: "(case oe of Some e \<Rightarrow> Ret ([item'], c4, e) | None \<Rightarrow> Ret ([item'], c4, (ei1, CVL_SUCCESS))) = Ret (cfg', c1, e, r)"
      using items(3) assms(4) by (auto simp: Let_def bind_Ret_iff split: option.splits)
    obtain er where er: "oe = Some er" using rest assms(3) by (cases oe) auto
    then have "c1 = c4" using rest by simp
    then show ?thesis using check_item_cache[OF s[unfolded er]] step1[OF items(1)] items(2) by simp
  qed
  then show ?thesis by (simp add: v(2) end_validation_def)
qed

section \<open>The validation returns\<close>

lemma obind_Some: "(\<exists>r. obind x f = Some r) \<longleftrightarrow> (\<exists>r. x = Some r) \<and> (\<forall>a. x = Some (Ret a) \<longrightarrow> (\<exists>r. f a = Some r))"
  by (cases x) (auto simp: obind_def split: outcome.splits)

lemma obind_simps:
  "obind (Some (Ret a)) f = f a" "obind (Some Panics) f = Some Panics" "obind (Some Blocks) f = Some Panics"
  "obind (Some Exits) f = Some Panics"
  by (simp_all add: obind_def)

lemma checkDeleteConstraint_returns:
  "wf (dep_next m da) \<Longrightarrow> \<exists>r. checkDeleteConstraint m da cfg item tbl key f = Some r"
  using GetDepDataForDelete_returns[of m da]
  by (auto simp: checkDeleteConstraint_def Let_def split: outcome.splits)

lemma delete_fields_returns: "wf (dep_next m da) \<Longrightarrow> \<exists>r. delete_fields m da cfg item tbl key fs = Some r"
  by (induction fs) (auto simp: obind_Some checkDeleteConstraint_returns)

definition tmp_ok :: "tmpcache \<Rightarrow> bool" where
  "tmp_ok tc \<longleftrightarrow> (\<forall>(t, ks) \<in> set tc. gok ks)"

lemma set_gset_vals: "set (gset k v m) \<subseteq> insert (k, v) (set m)"
proof -
  have "set (AList.update k v m) \<subseteq> insert (k, v) (set m)" by (induction m) auto
  then show ?thesis by (simp add: gset_def)
qed

lemma tmp_ok_add: "tmp_ok tc \<Longrightarrow> tmp_ok (addTableEntryToCache tbl key tc)"
proof -
  assume ok: "tmp_ok tc"
  have "gok ks" if "gget tc tbl = Some ks" for ks using ok gget_in_set[OF that] by (auto simp: tmp_ok_def)
  then have "gok (gset key TNil (case gget tc tbl of None \<Rightarrow> [] | Some t \<Rightarrow> t))" by (auto split: option.split)
  then show ?thesis
    using ok set_gset_vals[of tbl "gset key TNil (case gget tc tbl of None \<Rightarrow> [] | Some t \<Rightarrow> t)" tc]
    unfolding tmp_ok_def addTableEntryToCache_def by (auto split: if_splits)
qed

lemma request_item_returns: "wf (dep_next m da) \<Longrightarrow> \<exists>r. request_item m da cfg item st = Some r"
  by (cases st)
    (auto simp: request_item_def obind_Some Let_def checkDeleteConstraint_returns delete_fields_returns
      split: CVLOperation.splits)

lemma request_loop_returns: "wf (dep_next m da) \<Longrightarrow> \<exists>r. request_loop m da cfg items st = Some r"
  by (induction items arbitrary: st) (auto simp: obind_Some request_item_returns)

lemma request_loop_tmp_ok:
  "request_loop m da cfg items (cd, cs, c) = Some (Ret ((cd', cs', c'), e)) \<Longrightarrow> tmp_ok (tmpDbCache c) \<Longrightarrow> tmp_ok (tmpDbCache c')"
proof (induction items arbitrary: cd cs c)
  case (Cons item items)
  show ?case
  proof (cases "VType item = VALIDATE_ALL")
    case True
    then obtain cd1 cs1 c1 e1 where s: "request_item m da cfg item (cd, cs, c) = Some (Ret ((cd1, cs1, c1), e1))"
      "(cd1, cs1, c1) = (cd', cs', c') \<or> request_loop m da cfg items (cd1, cs1, c1) = Some (Ret ((cd', cs', c'), e))"
      using Cons.prems(1) by (auto simp: obind_Ret split: if_splits)
    have "tmp_ok (tmpDbCache c1)"
      by (rule request_item_cases[OF s(1)]) (use Cons.prems(2) tmp_ok_add in auto)
    then show ?thesis using s(2) Cons.IH by blast
  next
    case False
    then show ?thesis using Cons by simp
  qed
qed auto

lemma gdel_all_keys: "gdel_all (gkeys m) m = []"
proof -
  have "gget (gdel_all (gkeys m) m) k = None" for k by (simp add: in_gkeys)
  then show ?thesis using gget_all_None by blast
qed

lemma ValidateEditConfig_returns:
  assumes "wf (dep_next m da)"
  shows "\<exists>r. ValidateEditConfig x m (Some da) cfg c = Some r"
proof -
  let ?st = "([], True, c\<lparr>tmpDbCache := clearTmpDbCache (tmpDbCache c)\<rparr>)"
  have fetch: "\<exists>r. fetchDataToTmpCache m da rc build (tmpDbCache c1, y) = Some r"
    if "request_loop m da cfg cfg ?st = Some (Ret ((cd, cs, c1), e))" for rc build cd cs c1 e y
  proof -
    have "tmp_ok (clearTmpDbCache (tmpDbCache c))" by (simp add: clearTmpDbCache_def gdel_all_keys tmp_ok_def)
    then have "tmp_ok (tmpDbCache c1)" using request_loop_tmp_ok[OF that] by simp
    then show ?thesis using fetchDataToTmpCache_returns[of "tmpDbCache c1" m da rc build y] by (auto simp: tmp_ok_def)
  qed
  obtain r where r: "request_loop m da cfg cfg ?st = Some r" using request_loop_returns[OF assms] by blast
  have "\<exists>r. validate_steps x m da cfg c = Some r"
  proof (cases r)
    case (Ret a)
    obtain cd cs c1 e where b: "a = ((cd, cs, c1), e)" by (metis prod.exhaust)
    have "\<exists>r. fetchDataToTmpCache m da rc build (tmpDbCache c1, y) = Some r" for rc build y
      by (rule fetch) (simp add: r Ret b)
    then show ?thesis
      by (auto simp: validate_steps_def r Ret b obind_simps obind_Some Let_def split: option.splits prod.splits)
  qed (simp_all add: validate_steps_def r obind_simps)
  then show ?thesis by (auto simp: ValidateEditConfig_def obind_Some)
qed

end
