(* ===== verification/CVL_Memory.thy ===== *)
theory CVL_Memory
  imports CVL_OrderProps CVL_ValidateProps
begin

text \<open>
  Concrete values for the parameters of the validation engine: a topological sort that keeps
  what the package documents, a schema of three tables, loaded with the functions that load a
  model, a database of three rows, and YANG trees that accept everything.
\<close>

section \<open>A topological sort\<close>

definition no_source :: "string list \<Rightarrow> edges \<Rightarrow> string \<Rightarrow> bool" where
  "no_source ns es x \<longleftrightarrow> list_all (\<lambda>(a, b). b = x \<longrightarrow> a \<notin> set ns) es"

fun kahn :: "nat \<Rightarrow> string list \<Rightarrow> edges \<Rightarrow> string list \<times> bool" where
  "kahn 0 ns es = ([], ns = [])"
| "kahn (Suc n) ns es =
     (case find (no_source ns es) ns of
        None \<Rightarrow> ([], ns = [])
      | Some x \<Rightarrow> (case kahn n (remove1 x ns) es of (r, ok) \<Rightarrow> (x # r, ok)))"

definition ex_sort :: sorter where
  "ex_sort ns es = kahn (length ns) (remdups ns) es"

lemma before_Cons: "before a b r \<Longrightarrow> before a b (x # r)"
  unfolding before_def by (metis append_Cons insert_iff list.simps(15))

lemma before_head: "b \<in> set r \<Longrightarrow> before x b (x # r)"
  unfolding before_def by (rule exI[of _ "[x]"], rule exI[of _ r]) simp

lemma kahn_sorts:
  assumes "kahn n ns es = (r, True)" "distinct ns"
  shows "distinct r \<and> set r = set ns \<and> (\<forall>(a, b) \<in> set es. a \<in> set ns \<and> b \<in> set ns \<longrightarrow> before a b r)"
  using assms
proof (induction n ns es arbitrary: r rule: kahn.induct)
  case (2 n ns es)
  show ?case
  proof (cases "find (no_source ns es) ns")
    case None
    then show ?thesis using 2(2) by simp
  next
    case (Some x)
    then have x: "x \<in> set ns" "no_source ns es x" by (auto simp: find_Some_iff)
    obtain r' where r: "r = x # r'" and k: "kahn n (remove1 x ns) es = (r', True)"
      using 2(2) Some by (auto split: prod.splits)
    have ih: "distinct r'" "set r' = set ns - {x}"
      "\<And>a b. (a, b) \<in> set es \<Longrightarrow> a \<in> set ns - {x} \<Longrightarrow> b \<in> set ns - {x} \<Longrightarrow> before a b r'"
      using 2(1)[OF Some k] 2(3) by auto
    have "before a b (x # r')" if "(a, b) \<in> set es" "a \<in> set ns" "b \<in> set ns" for a b
    proof -
      have "b \<noteq> x" using that x(2) by (auto simp: no_source_def list_all_iff)
      then have b: "b \<in> set ns - {x}" using that by simp
      show ?thesis
      proof (cases "a = x")
        case True
        have "b \<in> set r'" using b by (simp only: ih(2))
        then show ?thesis unfolding True by (rule before_head)
      next
        case False
        then have "before a b r'" using b that ih(3)[of a b] by simp
        then show ?thesis by (rule before_Cons)
      qed
    qed
    then show ?thesis using ih x(1) by (auto simp: r)
  qed
qed simp

lemma kahn_total:
  "length ns \<le> n \<Longrightarrow> distinct ns \<Longrightarrow> acyclic (set es) \<Longrightarrow> snd (kahn n ns es)"
proof (induction n ns es rule: kahn.induct)
  case (2 n ns es)
  show ?case
  proof (cases "find (no_source ns es) ns")
    case None
    have "ns = []"
    proof (rule ccontr)
      assume "ns \<noteq> []"
      moreover have "wf (set es)" using 2(4) by (simp add: finite_acyclic_wf)
      ultimately obtain x where "x \<in> set ns" "\<And>y. (y, x) \<in> set es \<Longrightarrow> y \<notin> set ns"
        unfolding wf_eq_minimal by (metis list.set_intros(1) neq_Nil_conv)
      then have "no_source ns es x" by (auto simp: no_source_def list_all_iff)
      then show False using None \<open>x \<in> set ns\<close> by (auto simp: find_None_iff)
    qed
    then show ?thesis by simp
  next
    case (Some x)
    then have "x \<in> set ns" by (auto simp: find_Some_iff)
    then have "snd (kahn n (remove1 x ns) es)"
      using 2(1)[OF Some] 2(2-4) by (simp add: length_remove1)
    then show ?thesis using Some by (simp add: case_prod_unfold)
  qed
qed simp

lemma ex_sort_sorts: "topo_sorter ex_sort"
  unfolding topo_sorter_def ex_sort_def
  using kahn_sorts[OF _ distinct_remdups] by (auto simp: kahn_total distinct_remdups_id split: prod.splits)

section \<open>A schema\<close>

definition ex_list :: "string \<Rightarrow> string \<Rightarrow> string list \<Rightarrow> int \<Rightarrow> (string, string list) gomap \<Rightarrow> string \<Rightarrow> listInfo" where
  "ex_list n pattern ks sz refs dep =
     \<lparr>li_ListName = n, li_DbName = ''CONFIG_DB'', li_RedisTableName = n, li_RedisKeyDelim = ''|'',
      li_RedisKeyPattern = pattern, li_RedisTableSize = sz, li_Keys = ks, li_MapLeaf = [], li_CustValidation = [],
      li_MandatoryNodes = [], li_DependentOnTable = dep, li_DfltLeafVal = [], li_LeafRef = refs, li_XpathExpr = [],
      li_WhenExpr = [], li_Key = []\<rparr>"

definition ex_lists :: "listInfo list" where
  "ex_lists =
     [ex_list ''VLAN_MEMBER'' ''VLAN_MEMBER|{name}|{ifname}'' [''name'', ''ifname''] (-1)
        [(''name'', [''../../../VLAN/VLAN_LIST/name'']), (''ifname'', [''/port:sonic-port/port:PORT/port:PORT_LIST/port:name''])] [],
      ex_list ''VLAN'' ''VLAN|{name}'' [''name''] 2 [(''native'', [''/port:sonic-port/port:PORT/port:PORT_LIST/port:name''])] [],
      ex_list ''PORT'' ''PORT|{name}'' [''name''] (-1) [] []]"

definition ex_schema :: modelDataInfo where
  "ex_schema = (case loadSchema (\<lambda>p. p) ex_sort [(''CONFIG_DB'', 4)] [(''sonic-vlan.yin'', (''sonic-vlan'', ''vlan''), Some ex_lists)] of
        Ret m \<Rightarrow> m | _ \<Rightarrow> empty_schema)"

lemma ex_tables: "map fst (tableInfo ex_schema) = [''VLAN_MEMBER'', ''VLAN'', ''PORT'']"
  by code_simp

section \<open>A database\<close>

type_synonym rows = "(string \<times> fields) list"

definition ex_da :: "rows \<Rightarrow> dbAccess" where
  "ex_da rows =
     \<lparr>da_Exists = (\<lambda>k. (if ghas rows k then 1 else 0, None)),
      da_Keys = (\<lambda>p. (filter (\<lambda>k. KeyMatch k p) (gkeys rows), None)),
      da_HGetAll = (\<lambda>k. (case gget rows k of None \<Rightarrow> [] | Some f \<Rightarrow> f, None)),
      da_Lookup = (\<lambda>q. (LNone, None)),
      da_Count = (\<lambda>q. (int (length (filter (\<lambda>k. KeyMatch k (sPattern q)) (gkeys rows))), None)),
      da_Exec = (\<lambda>ks. None)\<rparr>"

definition ex_rows :: rows where
  "ex_rows =
     [(''PORT|Ethernet0'', [(''mtu'', ''9100'')]), (''VLAN|Vlan10'', [(''vlanid'', ''10'')]),
      (''VLAN_MEMBER|Vlan10|Ethernet0'', [(''tagging_mode'', ''untagged'')])]"

definition ex_yang :: "unit yang_ext" where
  "ex_yang =
     \<lparr>y_skip = False, y_new = (\<lambda>y. y), y_translate = (\<lambda>d b y. (y, zeroErrorInfo)), y_build = (\<lambda>t y. (y, True)),
      y_syntax = (\<lambda>y. (zeroErrorInfo, CVL_SUCCESS)), y_operation = (\<lambda>op y. y), y_node = (\<lambda>r l t k y. (y, True)),
      y_custom = (\<lambda>cfg i l t k c. (c_yang c, zeroErrorInfo)), y_replace = (\<lambda>cfg y. y),
      y_semantics = (\<lambda>l k it c. (c_yang c, zeroErrorInfo))\<rparr>"

definition ex_edit :: "CVLOperation \<Rightarrow> string \<Rightarrow> fields \<Rightarrow> CVLEdit" where
  "ex_edit op k fs = \<lparr>VType = VALIDATE_ALL, VOp = op, ceKey = k, ceData = fs, ReplaceOp = False\<rparr>"

definition ex_cvl :: "unit CVL" where
  "ex_cvl = fst (ValidationSessOpen ())"

subsection \<open>What the schema says\<close>

lemma ex_gget:
  "gget (tableInfo ex_schema) ''VLAN_MEMBER'' = Some (the (gget (tableInfo ex_schema) ''VLAN_MEMBER''))"
  "gget (tableInfo ex_schema) ''VLAN'' = Some (the (gget (tableInfo ex_schema) ''VLAN''))"
  "gget (tableInfo ex_schema) ''PORT'' = Some (the (gget (tableInfo ex_schema) ''PORT''))"
  by code_simp+

lemma ex_vlan:
  "\<exists>t. gget (tableInfo ex_schema) ''VLAN'' = Some t \<and> length (ti_keys t) \<le> 1 \<and> redisKeyDelim t = ''|'' \<and>
    refFromTables t = [\<lparr>tf_tableName = ''VLAN_MEMBER'', tf_field = ''name''\<rparr>]"
  by (intro exI conjI, rule ex_gget(2)) code_simp+

lemma ex_member: "\<exists>t. gget (tableInfo ex_schema) ''VLAN_MEMBER'' = Some t \<and> contains (ti_keys t) ''name''"
  by (intro exI conjI, rule ex_gget(1)) code_simp

definition ex_delete_both :: "CVLEdit list" where
  "ex_delete_both = [ex_edit OP_DELETE ''VLAN_MEMBER|Vlan10|Ethernet0'' [], ex_edit OP_DELETE ''VLAN|Vlan10'' []]"

lemma ex_delete_passes:
  "checkDeleteConstraint ex_schema (ex_da ex_rows) ex_delete_both (ex_edit OP_DELETE ''VLAN|Vlan10'' []) ''VLAN'' ''Vlan10'' [] =
     Some (Ret CVL_SUCCESS)"
  by code_simp

lemma ex_known: "gget (tableInfo ex_schema) n = Some t \<Longrightarrow> n = ''VLAN_MEMBER'' \<or> n = ''VLAN'' \<or> n = ''PORT''"
proof -
  assume "gget (tableInfo ex_schema) n = Some t"
  then have "n \<in> set (gkeys (tableInfo ex_schema))" by (simp add: in_gkeys)
  then show ?thesis by (simp add: gkeys_def ex_tables)
qed

definition ref_pairs :: "modelDataInfo \<Rightarrow> (string \<times> string) list" where
  "ref_pairs m = concat (map (\<lambda>(n, t). map (\<lambda>l. (n, strip_LIST (getListNameFromLeafRef l))) (concat (map snd (leafRef t)))) (tableInfo m))"

lemma ex_pairs: "ref_pairs ex_schema = [(''VLAN_MEMBER'', ''VLAN''), (''VLAN_MEMBER'', ''PORT''), (''VLAN'', ''PORT'')]"
  by code_simp

lemma ex_rows_gok: "gok (tableInfo ex_schema)"
  by (simp add: gok_def gkeys_def ex_tables)

lemma ex_no_dependents: "list_all (\<lambda>(n, t). dependentTables t = []) (tableInfo ex_schema)"
  by code_simp

lemma ex_closed_list: "list_all (\<lambda>(n, t). list_all (ghas (tableInfo ex_schema)) (dep_calls t)) (tableInfo ex_schema)"
  by code_simp

lemma refers_pairs: "gok (tableInfo m) \<Longrightarrow> refers m a b \<longleftrightarrow> (a, b) \<in> set (ref_pairs m)"
proof
  assume "refers m a b"
  then obtain t l where t: "gget (tableInfo m) a = Some t" "l \<in> set (concat (map snd (leafRef t)))"
    "strip_LIST (getListNameFromLeafRef l) = b" unfolding refers_def by blast
  then show "(a, b) \<in> set (ref_pairs m)"
    using gget_in_set[OF t(1)] by (auto simp: ref_pairs_def intro!: bexI[of _ "(a, t)"])
next
  assume "gok (tableInfo m)" "(a, b) \<in> set (ref_pairs m)"
  then show "refers m a b" unfolding refers_def ref_pairs_def by (auto dest!: gok_gget)
qed

lemma ex_no_dependent: "\<not> dependent_on ex_schema a b"
  using ex_no_dependents gget_in_set by (fastforce simp: dependent_on_def list_all_iff)

lemma ex_one_way: "one_way ex_schema"
  using ex_no_dependents ex_no_dependent gget_in_set by (fastforce simp: one_way_def list_all_iff)

lemma ex_list_dep:
  "list_dep ex_schema a b \<longleftrightarrow> (a, b) \<in> {(''VLAN_MEMBER'', ''VLAN''), (''VLAN_MEMBER'', ''PORT''), (''VLAN'', ''PORT'')}"
  by (auto simp: list_dep_def ex_no_dependent refers_pairs[OF ex_rows_gok] ex_pairs)

lemma ex_dep_acyclic: "acyclic {(a, b). a \<in> S \<and> b \<in> T \<and> ghas m a \<and> ghas m b \<and> list_dep ex_schema a b}"
proof (rule acyclic_subset[OF wf_acyclic[OF wf_measure]])
  show "{(a, b). a \<in> S \<and> b \<in> T \<and> ghas m a \<and> ghas m b \<and> list_dep ex_schema a b} \<subseteq>
    measure (\<lambda>n. if n = ''VLAN_MEMBER'' then 0 else if n = ''VLAN'' then 1 else 2)"
    by (auto simp: ex_list_dep)
qed

lemma ex_closed: "closed_calls ex_schema"
  using ex_closed_list gget_in_set by (fastforce simp: closed_calls_def dep_call_def list_all_iff)

lemma ex_GetDepTables: "GetDepTables ex_sort ex_schema ''VLAN_MEMBER'' \<noteq> None"
  by code_simp

lemma ex_names_list: "list_all (\<lambda>(n, t). redisTableName t = n) (tableInfo ex_schema)"
  by code_simp

lemma ex_name: "gget (tableInfo ex_schema) n = Some t \<Longrightarrow> redisTableName t = n"
  using ex_names_list gget_in_set by (fastforce simp: list_all_iff)

lemma ex_ghas: "ghas (tableInfo ex_schema) n \<longleftrightarrow> n = ''VLAN_MEMBER'' \<or> n = ''VLAN'' \<or> n = ''PORT''"
proof -
  have "ghas (tableInfo ex_schema) n \<longleftrightarrow> n \<in> set (gkeys (tableInfo ex_schema))" by (simp add: ghas_def in_gkeys)
  then show ?thesis by (simp add: gkeys_def ex_tables)
qed

lemma ex_tables_of: "tables_of ex_schema S = {n \<in> S. ghas (tableInfo ex_schema) n}"
  by (auto simp: tables_of_def ghas_def dest: ex_name)

subsection \<open>Validations\<close>

lemma ex_limited: "limited ex_schema ''VLAN'' 2 ''Vlan20''" "limited ex_schema ''VLAN'' 2 ''Vlan30''"
  unfolding limited_def by (intro exI conjI, code_simp, rule ex_gget(2), code_simp)+

definition code_of :: "('a \<times> 'b \<times> 'c \<times> int) outcome option \<Rightarrow> int option" where
  "code_of r = (case r of Some (Ret (cfg, c, e, r)) \<Rightarrow> Some r | _ \<Rightarrow> None)"

lemma code_of_Some: "code_of x = Some r \<Longrightarrow> \<exists>cfg c e. x = Some (Ret (cfg, c, e, r))"
  by (cases x) (auto simp: code_of_def split: outcome.splits prod.splits)

lemma ex_validated:
  "\<exists>cfg' c' e. ValidateEditConfig ex_yang ex_schema (Some (ex_da ex_rows)) ex_delete_both ex_cvl = Some (Ret (cfg', c', e, CVL_SUCCESS))"
  by (rule code_of_Some) code_simp

lemma ex_rejected:
  "\<exists>cfg' c' e. ValidateEditConfig ex_yang ex_schema (Some (ex_da ex_rows)) [ex_edit OP_CREATE ''VLAN|Vlan10'' [(''vlanid'', ''11'')]] ex_cvl =
     Some (Ret (cfg', c', e, CVL_SEMANTIC_KEY_ALREADY_EXIST))"
  by (rule code_of_Some) code_simp

text \<open>The chains of dependent entries: a row of \<open>VLAN_MEMBER\<close> has none.\<close>

lemma script_tasks_none: "TCall k \<notin> set (script_tasks m (ex_da rows) rk tbl f)"
  by (auto simp: script_tasks_def tbl_info_def ex_da_def getDepDeleteField_def split: option.splits)

lemma tasks_keys:
  assumes "TCall k' \<in> set (tasks_of (dep_tasks m (ex_da rows) k))"
  shows "k' \<in> set (gkeys rows)"
proof (cases "dep_tasks m (ex_da rows) k")
  case (Ret ts)
  have "k' \<in> set (keys_found (ex_da rows) ps) \<Longrightarrow> k' \<in> set (gkeys rows)" for ps
    by (auto simp: keys_found_def ex_da_def)
  then show ?thesis
    using assms Ret script_tasks_none
    by (auto simp: dep_tasks_def bind_Ret_iff Let_def split: option.splits prod.splits)
qed (use assms in auto)

lemma ex_tasks:
  "dep_tasks ex_schema (ex_da ex_rows) ''VLAN_MEMBER|Vlan10|Ethernet0'' = Ret []"
  "set (tasks_of (dep_tasks ex_schema (ex_da ex_rows) ''VLAN|Vlan10'')) =
    {TEmit \<lparr>dd_RefKey = ''VLAN|Vlan10'', dd_Entry = [(''VLAN_MEMBER|Vlan10|Ethernet0'', [])]\<rparr>, TCall ''VLAN_MEMBER|Vlan10|Ethernet0''}"
  "set (tasks_of (dep_tasks ex_schema (ex_da ex_rows) ''PORT|Ethernet0'')) =
    {TEmit \<lparr>dd_RefKey = ''PORT|Ethernet0'', dd_Entry = [(''VLAN_MEMBER|Vlan10|Ethernet0'', [])]\<rparr>, TCall ''VLAN_MEMBER|Vlan10|Ethernet0''}"
  by code_simp+

lemma ex_deps_wf: "wf (dep_next ex_schema (ex_da ex_rows))"
proof (rule wf_subset[OF wf_measure])
  let ?f = "\<lambda>k. if k = ''VLAN_MEMBER|Vlan10|Ethernet0'' then 0 else if k = ''VLAN|Vlan10'' then 1 else if k = ''PORT|Ethernet0'' then 2 else (3::nat)"
  have v: "TCall k' \<notin> set (tasks_of (dep_tasks ex_schema (ex_da ex_rows) ''VLAN_MEMBER|Vlan10|Ethernet0''))" for k'
    by (subst ex_tasks(1)) simp
  show "dep_next ex_schema (ex_da ex_rows) \<subseteq> measure ?f"
  proof
    fix p assume "p \<in> dep_next ex_schema (ex_da ex_rows)"
    then obtain k' k where p: "p = (k', k)" "TCall k' \<in> set (tasks_of (dep_tasks ex_schema (ex_da ex_rows) k))"
      by (auto simp: dep_next_def)
    have "k' \<in> {''PORT|Ethernet0'', ''VLAN|Vlan10'', ''VLAN_MEMBER|Vlan10|Ethernet0''}"
      using tasks_keys[OF p(2)] by (simp add: gkeys_def ex_rows_def)
    moreover have "k \<noteq> ''VLAN_MEMBER|Vlan10|Ethernet0''" using v p(2) by blast
    moreover have "k = ''VLAN|Vlan10'' \<Longrightarrow> k' = ''VLAN_MEMBER|Vlan10|Ethernet0''" using p(2) ex_tasks(2) by simp
    moreover have "k = ''PORT|Ethernet0'' \<Longrightarrow> k' = ''VLAN_MEMBER|Vlan10|Ethernet0''" using p(2) ex_tasks(3) by simp
    ultimately show "p \<in> measure ?f" by (auto simp: p(1))
  qed
qed

end
