(* ===== verification/Spec2Isabelle.thy ===== *)
theory Spec2Isabelle
  imports TL_Memory DB_ReadMemory CVL_Memory
begin

text \<open>
  A verification of the database layer and of the configuration sessions of
  sonic-mgmt-common, the management framework's library of the SONiC network operating
  system.  The Go code is under \<open>src/\<close>.

  \<^bold>\<open>The program.\<close>  The library translates requests of management clients (gNMI, REST, CLI)
  into rows of a redis database.  Its packages: \<open>translib\<close> dispatches requests to application
  modules and to the \<open>transformer\<close>, both of which work on structures generated from YANG
  models; \<open>translib/db\<close> gives them typed access to redis, with transactions that are
  validated by \<open>cvl\<close>; \<open>translib/cs\<close> keeps the one configuration session of the process, whose
  candidate configuration is a long transaction of \<open>translib/db\<close> with savepoints, commit with
  confirmation, abort and a history of checkpoints.  This development models \<open>translib/db\<close>,
  \<open>translib/cs\<close>, and of \<open>translib\<close> the requests, the registry of modules, the request
  binder, versions, authorization, paths and error values.

  \<^bold>\<open>The theories.\<close>
  \<open>Base\<close>: Go's maps as association lists in iteration order, the functions of package
  \<open>strings\<close>, the collections of simplification rules.
  \<open>TLErr\<close>: error values (\<open>tlerr\<close>).
  \<open>Key_Pattern\<close>: keys and glob patterns (\<open>db_key.go\<close>, \<open>cvl/common/db_utils.go\<close>).
  \<open>DB_Value\<close>: values, integers, leaf-lists, entry diffs (\<open>db_value.go\<close>,
  \<open>internal/apis/db_diff.go\<close>).
  \<open>DB_Stats\<close>: statistics (\<open>db_stats.go\<close>).
  \<open>DB_Types\<close>: options, tables, the connection (\<open>DB\<close>), the package state, the server
  interface (record \<open>ext\<close>), encoding of keys (\<open>db.go\<close>).
  \<open>DB_Lock\<close>: the configuration lock (\<open>db_lock.go\<close>).
  \<open>DB_Subscribe\<close>: session-aware subscribers (\<open>db_subscribe_sa.go\<close>, \<open>db_session.go\<close>,
  \<open>subscribe.go\<close>).
  \<open>DB_Cache\<close>: the configuration of the cache (\<open>db_cache.go\<close>).
  \<open>DB_Read\<close>, \<open>DB_Write\<close>, \<open>DB_Tx\<close>: entries and key patterns, writes, transactions,
  \<open>NewDB\<close> and \<open>DeleteDB\<close> (\<open>db.go\<close>).
  \<open>DB_Savepoint\<close>: savepoints and rollback (\<open>db_savepoint.go\<close>, \<open>db_cvl_hint.go\<close>).
  \<open>DB_TxView\<close>: what a transaction sees, as a refinement: the view of a connection is the
  committed content with the queued commands applied; every operation refines its effect on
  the view, and a successful EXEC makes the content equal to it.
  \<open>DB_Rollback\<close>, \<open>DB_Restore\<close>: the invariant between the recorded edits, the queued commands
  and the pending entries, and the proof that a rollback restores the view.
  \<open>DB_Table\<close>: whole tables, key patterns that exist, the on-change cache, maps
  (\<open>db_table.go\<close>, \<open>db_table_pattern.go\<close>, \<open>db_keys_pattern.go\<close>, \<open>db_get.go\<close>,
  \<open>db_onchangecache.go\<close>, \<open>map.go\<close>, \<open>db_map.go\<close>).
  \<open>DB_Cursor\<close>: scan cursors and \<open>GetConfig\<close> (\<open>db_cursor.go\<close>, \<open>db_get_config.go\<close>).
  \<open>DB_CvlAccess\<close>: the database as CVL reads it (\<open>cvl_db_access.go\<close>).
  \<open>DB_Rows\<close>, \<open>DB_TableView\<close>, \<open>DB_ScanView\<close>, \<open>DB_CvlView\<close>: these reads reduced to the view of
  the transaction.
  \<open>DB_Memory\<close>, \<open>DB_ReadMemory\<close>: a server in memory, on which the examples run.
  \<open>CS_Types\<close>, \<open>CS_Session\<close>, \<open>CS_Commit\<close>: the session, the state of the package, its
  operations (\<open>translib/cs\<close>).
  \<open>CS_Frame\<close>: what the database operations keep of the lock and of the connection.
  \<open>CS_Inv\<close>, \<open>CS_Steps\<close>: the invariant of the package and the step relation.
  \<open>CS_Props\<close>: what the requests do.  \<open>CS_Memory\<close>: a server and a host in memory.
  \<open>Go_Str\<close>: more of package \<open>strings\<close>.
  \<open>TL_Version\<close>: versions and authorization (\<open>version.go\<close>, \<open>authorize.go\<close>).
  \<open>TL_Path\<close>, \<open>TL_PathProps\<close>: paths (\<open>path/path.go\<close>, \<open>path_utils.go\<close>) and what they do.
  \<open>TL_Utils\<close>: helpers (\<open>app_utils.go\<close>, \<open>utils/utils.go\<close>, \<open>utils/bits.go\<close>).
  \<open>TL_Binder\<close>: the binding of a request to a ygot tree (\<open>request_binder.go\<close>).
  \<open>TL_App\<close>: application modules and their registry (\<open>app_interface.go\<close>, \<open>translib.go\<close>).
  \<open>TL_Requests\<close>: the requests (\<open>translib.go\<close>).
  \<open>TL_ReqProps\<close>: what the write requests do to the database and to the lock.
  \<open>TL_Memory\<close>: a module and an environment for the examples.

  \<^bold>\<open>How the state corresponds to the code.\<close>  The record \<open>DB\<close> is the struct \<open>DB\<close>; the record
  \<open>st\<close> holds the package's variables (\<open>cdbLock\<close>, the savepoint, the subscribers, the global
  statistics), the connection being worked on, and \<open>world\<close>, the state of everything outside.
  Redis, CVL, the clock and the process table are functions on \<open>world\<close> in the record
  \<open>ext\<close>; the host service, the terminal and the history file are in \<open>cs_ext\<close>.  What the
  theorems need of them are named hypotheses (\<open>redis_server\<close>, \<open>tx_server\<close>, \<open>lock_server\<close>,
  \<open>cs_server\<close>), which state documented behaviour of redis commands and that the lock, in
  another database, and the host service do not change configuration rows.  The record
  \<open>cs_st\<close> holds the variables of package \<open>cs\<close>, its timers and goroutines, and the heap of
  connections; a \<open>Session\<close> of the code is a copy of the session, so requests take an
  arbitrary one.

  \<^bold>\<open>Conventions.\<close>  A nil map is the empty map and a receiver is never nil.  A panic is \<open>None\<close>
  (or \<open>Panics\<close>), a send that nobody receives is \<open>Blocks\<close>.  The order in which a map is ranged
  over is the order of its list.  Logging is left out; notifications to subscribers and
  messages to terminals are recorded.  Counters, \<open>TxCmdsLen\<close> among them, are 64-bit words, the token
  counter is a 32-bit word.  The functions of package \<open>cs\<close> that hold the mutex are atomic; so
  is a request as a whole, with whatever stale copy it has; the timer's goroutine takes two
  steps, the reload and the clean-up.  Lua scripts are the redis calls that they make.  The
  text of the history file is passed as the entries it encodes.

  \<^bold>\<open>Termination.\<close>  The loops are structural recursions on lists or on counters that the code
  bounds itself (\<open>tryLock_loop\<close> on the remaining attempts, the glob matcher on the rest of its
  inputs); no fuel is used.  The two loops over the pages of a scan, \<open>scan_loop\<close> and
  \<open>config_loop\<close>, end only when the server's scan does: they are partial functions, and C29 and
  C30 show that they return when it does (\<open>scan_run\<close>).

  \<^bold>\<open>What the properties show.\<close>  Transactions (C1 to C7): committing publishes the view, a
  failed commit changes nothing, reads see the transaction's writes, each write has its
  effect and no other, and a rollback restores the view.  The lock (C8, C9).  Subscribers
  (C10).  Keys and patterns (C11 to C14).  Configuration sessions (C15 to C25): the invariant
  of the lock, creation, commit with and without confirmation, abort and the history; some
  state faults of the code: a failed commit loses the candidate (C18), a failed abort wedges
  the session (C21), an abort during the timer's rollback makes the goroutine panic (C22), a
  session's connection has no separators (C25).  The bulk reads (C26 to C30): the two ways to
  read a table, to ask whether a key exists, and in which CVL reads, agree with each other and
  with the view; a scan returns each key once; the exported configuration is the view.  They
  ask for tables whose rows are named by keys (\<open>clean_table\<close>), without the per-connection
  cache.  Requests (C31 to C33): a write request or a bulk request is all or nothing, and
  publishes what its module saw; this rests on the transactions and on the lock.  Of the
  module it is assumed that it works through the connection (\<open>app_ok\<close>).  Paths, versions,
  the choice of the module (C34 to C40).

  \<^bold>\<open>Not modelled.\<close>  The transformer and the application modules work on ygot structures that
  the build generates; CVL validates with libyang and XPath libraries: the result of a
  validation is a parameter, as are ygot (record \<open>ygot\<close>) and the methods of a module (record
  \<open>appInterface\<close>).  Reading configuration files, the options of the redis client, pub/sub
  goroutines, signals, debug output and the file that \<open>Export\<close> writes are I/O.
\<close>

section \<open>Transactions\<close>

text \<open>C1: What a reader sees of an entry inside of a transaction is what the database
  holds after a successful commit, for any sequence of operations, failing ones included.\<close>

theorem commit_publishes_view:
  assumes "redis_server x content" "tx_server x content q"
    and "in_tx (db s)" "txCmds (db s) = []" "txTsEntryMap (db s) = []"
    and "commitTx x (fold (apply_edit x) es s) = (None, s2)"
    and "\<forall>c \<in> set (txCmds (db (fold (apply_edit x) es s))).
           cmd_rk (Opts (db s)) c = k \<longrightarrow> tsName (tc_ts c) = t"
    and "\<not> is_mark k"
  shows "content (world s2) k = tview content (fold (apply_edit x) es s) t k"
proof -
  let ?s1 = "fold (apply_edit x) es s"
  have i: "tx_inv x content (content (world s)) (Opts (db s)) s"
    using assms(1,3) by (simp add: tx_inv_def)
  note rv = run_view[OF i assms(4,5), of es]
  have i1: "in_tx (db ?s1)" "content (world ?s1) = content (world s)" "Opts (db ?s1) = Opts (db s)"
    using rv(2) by (simp_all add: tx_inv_def)
  have e: "db_err (db ?s1) = None"
    using assms(6) by (auto simp: commitTx_def Let_def split: if_splits prod.splits)
  have "content (world s2) k = fold (exec_tx (Opts (db s))) (txCmds (db ?s1)) (content (world s)) k"
    using commitTx_content(2)[OF assms(1,2) i1(1) e assms(6) _ assms(8)] i1(2,3) by simp
  also have "\<dots> = tview content ?s1 t k"
    unfolding rv(1) by (rule fold_tsem[OF assms(7), symmetric]) simp
  finally show ?thesis .
qed

theorem commit_publishes_view_witness:
  "mcontent (world (snd (commitTx mem_server
     (fold (apply_edit mem_server)
       [EMod ex_port (ex_key ''Ethernet0'') \<lparr>Flds = [(''mtu'', ''1500'')]\<rparr>,
        EDelFields ex_port (ex_key ''Ethernet0'') \<lparr>Flds = [(''speed'', '''')]\<rparr>] ex_tx))))
     ''PORT|Ethernet0'' = [(''mtu'', ''1500'')]"
proof -
  let ?es = "[EMod ex_port (ex_key ''Ethernet0'') \<lparr>Flds = [(''mtu'', ''1500'')]\<rparr>,
        EDelFields ex_port (ex_key ''Ethernet0'') \<lparr>Flds = [(''speed'', '''')]\<rparr>]"
  let ?s1 = "fold (apply_edit mem_server) ?es ex_tx"
  have c: "commitTx mem_server ?s1 = (None, snd (commitTx mem_server ?s1))"
  proof -
    have "fst (commitTx mem_server ?s1) = None" by code_simp
    then show ?thesis by (metis prod.collapse)
  qed
  have "tview mcontent ?s1 ''PORT'' ''PORT|Ethernet0'' = [(''mtu'', ''1500'')]" by code_simp
  moreover have "in_tx (db ex_tx)" "txCmds (db ex_tx) = []" "txTsEntryMap (db ex_tx) = []" by code_simp+
  moreover have "\<forall>c \<in> set (txCmds (db ?s1)). cmd_rk (Opts (db ex_tx)) c = ''PORT|Ethernet0'' \<longrightarrow>
      tsName (tc_ts c) = ''PORT''" by code_simp
  moreover have "\<not> is_mark ''PORT|Ethernet0''" by code_simp
  ultimately show ?thesis
    using commit_publishes_view[OF mem_redis mem_tx _ _ _ c] by metis
qed

text \<open>C2: A transaction that \<open>commitTx\<close> cannot commit leaves the database as it was, and
  whether or not it could, no transaction is in progress afterwards: nothing is queued, no
  pending entry is left and the validation session is closed.\<close>

theorem commit_all_or_nothing:
  assumes "redis_server x content" "tx_server x content q"
    and "in_tx (db s)" "db_err (db s) = None"
    and "commitTx x s = (Some err, s2)"
  shows "content (world s2) = content (world s) \<and> tx_state (db s2) = txStateNone \<and>
    txCmds (db s2) = [] \<and> txTsEntryMap (db s2) = [] \<and> txTsEntryHGetAll (db s2) = [] \<and>
    cvlEditConfigData (db s2) = [] \<and> db_cv (db s2) = None"
proof -
  have "s2 = tx_close x (snd (commit_body x s))"
    using assms(5) by (simp add: commitTx_body[OF assms(3,4)])
  then show ?thesis
    using commitTx_content(1)[OF assms] by (auto simp: tx_close_def Let_def split: option.split)
qed

theorem commit_all_or_nothing_witness:
  "mcontent (world (snd (commitTx mem_watched
     (apply_edit mem_watched (EDelete ex_port (ex_key ''Ethernet0'')) ex_tx)))) ''PORT|Ethernet0'' =
     [(''mtu'', ''9100''), (''speed'', ''40000'')]"
proof -
  let ?s = "apply_edit mem_watched (EDelete ex_port (ex_key ''Ethernet0'')) ex_tx"
  have "commitTx mem_watched ?s = (Some TranslibTransactionFail, snd (commitTx mem_watched ?s))"
  proof -
    have "fst (commitTx mem_watched ?s) = Some TranslibTransactionFail" by code_simp
    then show ?thesis by (metis prod.collapse)
  qed
  moreover have "in_tx (db ?s)" "db_err (db ?s) = None" by code_simp+
  moreover have "mcontent (world ?s) ''PORT|Ethernet0'' = [(''mtu'', ''9100''), (''speed'', ''40000'')]"
    by code_simp
  ultimately show ?thesis
    using commit_all_or_nothing[OF mem_watched_redis mem_watched_tx] by metis
qed

lemma edits_tx_step:
  assumes "redis_server x content" "in_tx (db s)"
  shows "tx_step content s (fold (apply_edit x) es s)"
  using assms(2)
proof (induction es arbitrary: s)
  case (Cons ed es)
  have a: "tx_step content s (apply_edit x ed s)"
    by (rule apply_edit_step[OF assms(1) Cons.prems])
  show ?case
    using tx_step_trans[OF a Cons.IH[OF tx_step_in_tx[OF a Cons.prems]]] by simp
qed simp

lemma ex_gok: "gok (mcontent (world (ex_st opts ex_mem)) k)"
  by (simp add: ex_st_def ex_mem_def mcontent_def gget_def gkeys_def split: option.split)

text \<open>C3: Inside of a transaction that started empty, \<open>GetEntry\<close> reads the transaction's own
  writes: after any operations it gives the fields that a successful commit then stores,
  and a not-exist error exactly when the key will be absent.\<close>

theorem reads_own_writes:
  assumes "redis_server x content" "tx_server x content q"
    and "in_tx (db s)" "txCmds (db s) = []" "txTsEntryMap (db s) = []"
    and "\<forall>k. gok (content (world s) k)"
    and "IsOpen (db (fold (apply_edit x) es s))"
    and "\<not> use_cache (db (fold (apply_edit x) es s)) (tsName ts)"
    and "\<forall>c \<in> set (txCmds (db (fold (apply_edit x) es s))). wf_key (Opts (db s), tc_ts c) (tc_key c)"
    and "wf_key (Opts (db s), ts) key" "\<not> is_mark (key2redis (Opts (db s)) ts key)"
    and "commitTx x (fold (apply_edit x) es s) = (None, s2)"
  shows "fst (GetEntry x ts key (fold (apply_edit x) es s)) =
    (\<lparr>Flds = content (world s2) (key2redis (Opts (db s)) ts key)\<rparr>,
     if content (world s2) (key2redis (Opts (db s)) ts key) = []
     then Some (TranslibRedisClientEntryNotExist (key2redis (Opts (db s)) ts key)) else None)"
proof -
  let ?s1 = "fold (apply_edit x) es s" and ?k = "key2redis (Opts (db s)) ts key"
  have st: "tx_step content s ?s1" by (rule edits_tx_step[OF assms(1,3)])
  have o: "Opts (db ?s1) = Opts (db s)" using st by (simp add: tx_step_def)
  have "txok (txTsEntryMap (db s))" by (simp add: txok_def assms(5))
  then have "txok (txTsEntryMap (db ?s1))" using st assms(6) by (simp add: tx_step_def)
  note g = GetEntry_tview[OF assms(1,7,8) this, of key, unfolded o]
  have "tview content ?s1 (tsName ts) ?k = content (world s2) ?k"
  proof -
    have i: "tx_inv x content (content (world s)) (Opts (db s)) s" using assms(1,3) by (simp add: tx_inv_def)
    note rv = run_view[OF i assms(4,5), of es]
    have i1: "in_tx (db ?s1)" "content (world ?s1) = content (world s)"
      using rv(2) by (simp_all add: tx_inv_def)
    have e: "db_err (db ?s1) = None"
      using assms(12) by (auto simp: commitTx_def Let_def split: if_splits prod.splits)
    have t: "\<forall>c \<in> set (txCmds (db ?s1)). cmd_rk (Opts (db s)) c = ?k \<longrightarrow> tsName (tc_ts c) = tsName ts"
      using assms(9,10) key2redis_table_inj by blast
    have "content (world s2) ?k = fold (exec_tx (Opts (db s))) (txCmds (db ?s1)) (content (world s)) ?k"
      using commitTx_content(2)[OF assms(1,2) i1(1) e assms(12) _ assms(11)] i1(2) o by simp
    also have "\<dots> = tview content ?s1 (tsName ts) ?k"
      unfolding rv(1) by (rule fold_tsem[OF t, symmetric]) simp
    finally show ?thesis ..
  qed
  then show ?thesis using g by (simp add: Let_def)
qed

theorem reads_own_writes_witness:
  "fst (GetEntry mem_server ex_port (ex_key ''Ethernet0'')
     (fold (apply_edit mem_server) [ESet ex_port (ex_key ''Ethernet0'') \<lparr>Flds = [(''mtu'', ''1500'')]\<rparr>] ex_tx)) =
   (\<lparr>Flds = [(''mtu'', ''1500'')]\<rparr>, None)"
proof -
  let ?es = "[ESet ex_port (ex_key ''Ethernet0'') \<lparr>Flds = [(''mtu'', ''1500'')]\<rparr>]"
  let ?s1 = "fold (apply_edit mem_server) ?es ex_tx"
  let ?s2 = "snd (commitTx mem_server ?s1)"
  have c: "commitTx mem_server ?s1 = (None, ?s2)"
  proof -
    have "fst (commitTx mem_server ?s1) = None" by code_simp
    then show ?thesis by (metis prod.collapse)
  qed
  have h: "in_tx (db ex_tx)" "txCmds (db ex_tx) = []" "txTsEntryMap (db ex_tx) = []"
    "IsOpen (db ?s1)" "\<not> use_cache (db ?s1) (tsName ex_port)"
    "\<forall>c \<in> set (txCmds (db ?s1)). wf_key (Opts (db ex_tx), tc_ts c) (tc_key c)"
    "wf_key (Opts (db ex_tx), ex_port) (ex_key ''Ethernet0'')"
    "\<not> is_mark (key2redis (Opts (db ex_tx)) ex_port (ex_key ''Ethernet0''))" by code_simp+
  have g: "\<forall>k. gok (mcontent (world ex_tx) k)" by (simp add: ex_tx_def ex_gok)
  have "mcontent (world ?s2) (key2redis (Opts (db ex_tx)) ex_port (ex_key ''Ethernet0'')) = [(''mtu'', ''1500'')]"
    by code_simp
  with reads_own_writes[OF mem_redis mem_tx h(1-3) g h(4-8) c] show ?thesis by simp
qed

section \<open>The operations on entries\<close>

text \<open>C4: \<open>SetEntry\<close> replaces the entry: afterwards it has exactly the fields of the given
  value, whatever it had before, and every other entry of every table is as it was.\<close>

theorem SetEntry_replaces:
  assumes "redis_server x content" "in_tx (db s)" "SetEntry x ts key v s = (None, s')"
    and "Flds v \<noteq> []" "gok (Flds v)" "\<not> use_cache (db s) (tsName ts)" "txok (txTsEntryMap (db s))"
  shows "(\<forall>f. gget (tview content s' (tsName ts) (key2redis (Opts (db s)) ts key)) f = gget (Flds v) f) \<and>
     (\<forall>t k. t \<noteq> tsName ts \<or> k \<noteq> key2redis (Opts (db s)) ts key \<longrightarrow> tview content s' t k = tview content s t k)"
  using SetEntry_ok[OF assms] by (auto simp: tview_upd_other)

theorem SetEntry_replaces_witness:
  "gget (tview mcontent (snd (SetEntry mem_server ex_port (ex_key ''Ethernet0'')
      \<lparr>Flds = [(''mtu'', ''1500'')]\<rparr> ex_tx)) ''PORT'' ''PORT|Ethernet0'') ''speed'' = None"
proof -
  let ?v = "\<lparr>Flds = [(''mtu'', ''1500'')]\<rparr>"
  have "SetEntry mem_server ex_port (ex_key ''Ethernet0'') ?v ex_tx =
      (None, snd (SetEntry mem_server ex_port (ex_key ''Ethernet0'') ?v ex_tx))"
  proof -
    have "fst (SetEntry mem_server ex_port (ex_key ''Ethernet0'') ?v ex_tx) = None" by code_simp
    then show ?thesis by (metis prod.collapse)
  qed
  moreover have "in_tx (db ex_tx)" "\<not> use_cache (db ex_tx) (tsName ex_port)" by code_simp+
  moreover have "txTsEntryMap (db ex_tx) = []" by code_simp
  then have "txok (txTsEntryMap (db ex_tx))" by (simp add: txok_def tx_get_empty)
  moreover have "tsName ex_port = ''PORT''" "key2redis (Opts (db ex_tx)) ex_port (ex_key ''Ethernet0'') = ''PORT|Ethernet0''"
    by code_simp+
  ultimately show ?thesis
    using SetEntry_replaces[OF mem_redis, of ex_tx ex_port "ex_key ''Ethernet0''" ?v] by (simp add: gkeys_def)
qed

text \<open>\<open>ModEntry\<close> merges: the fields of the value are set, the other fields of the entry
  and all other entries stay.\<close>

theorem ModEntry_merges:
  assumes "redis_server x content" "in_tx (db s)" "ModEntry x ts key v s = (None, s')"
    and "Flds v \<noteq> []" "gok (Flds v)"
  shows "(\<forall>f. gget (tview content s' (tsName ts) (key2redis (Opts (db s)) ts key)) f =
       (case gget (Flds v) f of Some y \<Rightarrow> Some y
        | None \<Rightarrow> gget (tview content s (tsName ts) (key2redis (Opts (db s)) ts key)) f)) \<and>
     (\<forall>t k. t \<noteq> tsName ts \<or> k \<noteq> key2redis (Opts (db s)) ts key \<longrightarrow> tview content s' t k = tview content s t k)"
  unfolding ModEntry_ok[OF assms(1-4)]
  by (auto simp: tview_upd_other Value_Copy_ok[OF assms(5)] gget_gset_all[OF assms(5)])

theorem ModEntry_merges_witness:
  "gget (tview mcontent (snd (ModEntry mem_server ex_port (ex_key ''Ethernet0'')
      \<lparr>Flds = [(''mtu'', ''1500'')]\<rparr> ex_tx)) ''PORT'' ''PORT|Ethernet0'') ''speed'' = Some ''40000''"
proof -
  let ?v = "\<lparr>Flds = [(''mtu'', ''1500'')]\<rparr>"
  have "ModEntry mem_server ex_port (ex_key ''Ethernet0'') ?v ex_tx =
      (None, snd (ModEntry mem_server ex_port (ex_key ''Ethernet0'') ?v ex_tx))"
  proof -
    have "fst (ModEntry mem_server ex_port (ex_key ''Ethernet0'') ?v ex_tx) = None" by code_simp
    then show ?thesis by (metis prod.collapse)
  qed
  moreover have "in_tx (db ex_tx)" by code_simp
  moreover have "tsName ex_port = ''PORT''" "key2redis (Opts (db ex_tx)) ex_port (ex_key ''Ethernet0'') = ''PORT|Ethernet0''"
    by code_simp+
  moreover have "gget (tview mcontent ex_tx ''PORT'' ''PORT|Ethernet0'') ''speed'' = Some ''40000''" by code_simp
  ultimately show ?thesis
    using ModEntry_merges[OF mem_redis, of ex_tx ex_port "ex_key ''Ethernet0''" ?v] by (simp add: gkeys_def)
qed

text \<open>\<open>DeleteEntry\<close> empties the entry and changes no other; afterwards \<open>GetEntry\<close> answers
  that the entry does not exist.\<close>

theorem DeleteEntry_deletes:
  assumes "redis_server x content" "in_tx (db s)" "DeleteEntry x ts key s = (None, s')"
    and "IsOpen (db s')" "\<not> use_cache (db s') (tsName ts)"
    and "\<forall>k. gok (content (world s) k)" "txok (txTsEntryMap (db s))"
  shows "snd (fst (GetEntry x ts key s')) =
       Some (TranslibRedisClientEntryNotExist (key2redis (Opts (db s)) ts key)) \<and>
     (\<forall>t k. tview content s' t k =
       (if t = tsName ts \<and> k = key2redis (Opts (db s)) ts key then [] else tview content s t k))"
proof -
  note d = DeleteEntry_ok[OF assms(1-3)]
  have st: "tx_step content s s'" by (rule DeleteEntry_step[OF assms(1-3)])
  have "txok (txTsEntryMap (db s'))" "Opts (db s') = Opts (db s)"
    using st assms(6,7) by (simp_all add: tx_step_def)
  then show ?thesis
    using GetEntry_tview[OF assms(1,4,5), of key] by (auto simp: d tview_upd_other Let_def)
qed

theorem DeleteEntry_deletes_witness:
  "snd (fst (GetEntry mem_server ex_port (ex_key ''Ethernet4'')
      (snd (DeleteEntry mem_server ex_port (ex_key ''Ethernet4'') ex_tx)))) =
    Some (TranslibRedisClientEntryNotExist ''PORT|Ethernet4'')"
proof -
  let ?s = "snd (DeleteEntry mem_server ex_port (ex_key ''Ethernet4'') ex_tx)"
  have "DeleteEntry mem_server ex_port (ex_key ''Ethernet4'') ex_tx = (None, ?s)"
  proof -
    have "fst (DeleteEntry mem_server ex_port (ex_key ''Ethernet4'') ex_tx) = None" by code_simp
    then show ?thesis by (metis prod.collapse)
  qed
  moreover have "in_tx (db ex_tx)" "IsOpen (db ?s)" "\<not> use_cache (db ?s) (tsName ex_port)" by code_simp+
  moreover have "txTsEntryMap (db ex_tx) = []" by code_simp
  then have "txok (txTsEntryMap (db ex_tx))" by (simp add: txok_def tx_get_empty)
  moreover have "\<forall>k. gok (mcontent (world ex_tx) k)" by (simp add: ex_tx_def ex_gok)
  moreover have "key2redis (Opts (db ex_tx)) ex_port (ex_key ''Ethernet4'') = ''PORT|Ethernet4''" by code_simp
  ultimately show ?thesis
    using DeleteEntry_deletes[OF mem_redis, of ex_tx ex_port "ex_key ''Ethernet4''"] by metis
qed

text \<open>\<open>DeleteEntryFields\<close> removes from the entry the fields that the value names, keeps
  its other fields, and changes no other entry.\<close>

theorem DeleteEntryFields_removes:
  assumes "redis_server x content" "in_tx (db s)" "DeleteEntryFields x ts key v s = (None, s')"
    and "gok (Flds v)"
  shows "(\<forall>f. gget (tview content s' (tsName ts) (key2redis (Opts (db s)) ts key)) f =
       (if gget (Flds v) f \<noteq> None then None
        else gget (tview content s (tsName ts) (key2redis (Opts (db s)) ts key)) f)) \<and>
     (\<forall>t k. t \<noteq> tsName ts \<or> k \<noteq> key2redis (Opts (db s)) ts key \<longrightarrow> tview content s' t k = tview content s t k)"
  unfolding DeleteEntryFields_ok[OF assms(1-3)]
  by (auto simp: tview_upd_other Value_Copy_ok[OF assms(4)] in_gkeys)

theorem DeleteEntryFields_removes_witness:
  "gget (tview mcontent (snd (DeleteEntryFields mem_server ex_port (ex_key ''Ethernet0'')
      \<lparr>Flds = [(''mtu'', '''')]\<rparr> ex_tx)) ''PORT'' ''PORT|Ethernet0'') ''mtu'' = None"
proof -
  let ?v = "\<lparr>Flds = [(''mtu'', '''')]\<rparr>"
  have "DeleteEntryFields mem_server ex_port (ex_key ''Ethernet0'') ?v ex_tx =
      (None, snd (DeleteEntryFields mem_server ex_port (ex_key ''Ethernet0'') ?v ex_tx))"
  proof -
    have "fst (DeleteEntryFields mem_server ex_port (ex_key ''Ethernet0'') ?v ex_tx) = None" by code_simp
    then show ?thesis by (metis prod.collapse)
  qed
  moreover have "in_tx (db ex_tx)" by code_simp
  moreover have "tsName ex_port = ''PORT''" "key2redis (Opts (db ex_tx)) ex_port (ex_key ''Ethernet0'') = ''PORT|Ethernet0''"
    by code_simp+
  ultimately show ?thesis
    using DeleteEntryFields_removes[OF mem_redis, of ex_tx ex_port "ex_key ''Ethernet0''" ?v]
    by (simp add: gkeys_def)
qed

section \<open>Savepoints\<close>




section \<open>The configuration lock\<close>

text \<open>C6: However processes call \<open>ConfigDBTryLock\<close>, \<open>ConfigDBUnlock\<close> and \<open>ConfigDBClearLock\<close>,
  at most one of them believes that it holds the configuration lock, and the lock field in
  the database then names exactly that process and its token.\<close>

theorem lock_mutual_exclusion:
  assumes "lock_server x holder" "names_ok execName" "lock_reachable x execName holder s"
    and "ls_lock s p = Some l" "ls_lock s q = Some m"
  shows "p = q \<and> holder (ls_world s) = Some (execName p @ '':'' @ lkId l)"
proof -
  have i: "lock_inv execName holder s" by (rule lock_reachable_inv[OF assms(1-3)])
  then have h: "holder (ls_world s) = Some (execName p @ '':'' @ lkId l)"
    "holder (ls_world s) = Some (execName q @ '':'' @ lkId m)"
    using assms(4,5) unfolding lock_inv_def by blast+
  then have "execName p @ '':'' @ lkId l = execName q @ '':'' @ lkId m" by (metis option.inject)
  then show ?thesis using owner_unique[OF assms(2)] h(1) by blast
qed

definition ex_names :: "nat \<Rightarrow> string" where
  "ex_names p = replicate (Suc p) CHR ''p''"

lemma ex_names_ok: "names_ok ex_names"
proof -
  have "inj ex_names" by (rule injI) (simp add: ex_names_def)
  then show ?thesis by (auto simp: names_ok_def ex_names_def)
qed

text \<open>Process 0 takes the lock, process 1 fails to.\<close>

definition ex_sys0 :: "string option lock_sys" where
  "ex_sys0 = \<lparr>ls_world = None, ls_lock = (\<lambda>p. None)\<rparr>"

definition try_sys :: "nat \<Rightarrow> string option lock_sys \<Rightarrow> string option lock_sys" where
  "try_sys p s = (case ConfigDBTryLock (with_name (lock_only []) (ex_names p)) ''tok'' (ls_world s) (ls_lock s p) of
     (e, w, c) \<Rightarrow> s\<lparr>ls_world := w, ls_lock := (ls_lock s)(p := c)\<rparr>)"

lemma try_sys_step: "lock_step (lock_only []) ex_names s (try_sys p s)"
  unfolding try_sys_def by (cases "ConfigDBTryLock (with_name (lock_only []) (ex_names p)) ''tok'' (ls_world s) (ls_lock s p)")
    (auto intro: do_try)

theorem lock_mutual_exclusion_witness:
  "ls_world (try_sys 1 (try_sys 0 ex_sys0)) = Some (ex_names 0 @ '':tok'')"
proof -
  let ?s = "try_sys 1 (try_sys 0 ex_sys0)"
  have r: "lock_reachable (lock_only []) ex_names (\<lambda>w. w) ?s"
    by (intro lr_step[OF _ try_sys_step] lr_start) (simp_all add: ex_sys0_def)
  have l: "ls_lock ?s 0 = Some \<lparr>lkName = configDBLock, lkId = ''tok'', lkComm = ex_names 0, lkLocked = True\<rparr>"
    by code_simp
  show ?thesis using lock_mutual_exclusion[OF lock_only_server ex_names_ok r l l] by simp
qed



text \<open>After \<open>ConfigDBTryLock\<close> has taken the lock, \<open>ConfigDBUnlock\<close> gives it back: the lock
  field is gone, so that any process can take the lock again.\<close>

theorem unlock_after_lock:
  assumes "lock_server x holder" "CHR '':'' \<notin> set (x_execName x)"
    and "ConfigDBTryLock x token w None = (None, w1, c1)" "holder w2 = holder w1"
  shows "\<exists>w3. ConfigDBUnlock x token' w2 c1 = (None, w3, None) \<and> holder w3 = None"
proof -
  let ?l = "\<lparr>lkName = configDBLock, lkId = token, lkComm = x_execName x, lkLocked = True\<rparr>"
  have "(if None = None \<and> holder w = None
     then None = None \<and> c1 = Some ?l \<and> holder w1 = Some (x_execName x @ '':'' @ token)
     else None \<noteq> None \<and> c1 = None \<and> holder w1 = holder w)"
    using ConfigDBTryLock_server[OF assms(1,3)] by auto
  then have c: "c1 = Some ?l" "holder w2 = Some (x_execName x @ '':'' @ token)"
    using assms(4) by (auto split: if_splits)
  obtain e l' w3 where u: "unlock x ?l w2 = (e, l', w3)" by (metis surj_pair)
  have "e = None \<and> holder w3 = None"
    using unlock_server[OF assms(1) _ _ u] c(2) unlock_matches_own[OF assms(2), of token] by simp
  then show ?thesis by (simp add: ConfigDBUnlock_def c(1) u)
qed

theorem unlock_after_lock_witness:
  "fst (ConfigDBUnlock (lock_only ''mgmt'') [] (Some ''mgmt:s1'')
     (snd (snd (ConfigDBTryLock (lock_only ''mgmt'') ''s1'' None None)))) = None"
proof -
  let ?r = "ConfigDBTryLock (lock_only ''mgmt'') ''s1'' None None"
  have "fst ?r = None" "fst (snd ?r) = Some ''mgmt:s1''" by code_simp+
  then have r: "?r = (None, Some ''mgmt:s1'', snd (snd ?r))" by (metis prod.collapse)
  have "CHR '':'' \<notin> set (x_execName (lock_only ''mgmt''))" by code_simp
  from unlock_after_lock[OF lock_only_server this r refl, of "[]"] show ?thesis by fastforce
qed

section \<open>Subscribers of a configuration session\<close>

text \<open>C8: In every order of registrations, opens, closes and change notifications, each
  session-aware subscriber sees a sequence of the form (Opened Notif* Closed)*, its
  \<open>openSent\<close> flag says whether a session is open to it, and every callback runs with
  writes disabled.\<close>

theorem subscriber_protocol:
  assumes "sub_reach s" "gget (sdb_objs (sInfo s)) i = Some sd"
  shows "sess_trace i (notifs s) = Some (openSent sd) \<and> (\<forall>n \<in> set (notifs s). nt_writeDisabled n)"
  using sub_reach_inv[OF assms(1)] assms(2) by (auto simp: sub_inv_def)

definition ex_skey :: SKey where
  "ex_skey = \<lparr>sk_Ts = ex_port, sk_Key = \<lparr>Comp = [''*'']\<rparr>, SEMap = [(SEventHSet, True)]\<rparr>"

theorem subscriber_protocol_witness:
  "sess_trace 0 (notifs (sendSessionNotification ex_port (ex_key ''Ethernet0'') txOpHMSet txOpNone
     (ex_sess\<lparr>sInfo := registerSubscribeDB 7 True [ex_skey] (sInfo ex_sess)\<rparr>))) = Some True"
proof -
  let ?r = "ex_sess\<lparr>sInfo := registerSubscribeDB 7 True [ex_skey] (sInfo ex_sess)\<rparr>"
  let ?s = "sendSessionNotification ex_port (ex_key ''Ethernet0'') txOpHMSet txOpNone ?r"
  have "sub_reach ex_sess" by (rule sr_start; code_simp)
  then have "sub_reach ?s" by (intro sr_notified sr_register)
  moreover have "gget (sdb_objs (sInfo ?s)) 0 = Some \<lparr>sd_d = 7, sd_isSA = True, skeys = [ex_skey], openSent = True\<rparr>"
    by code_simp
  ultimately show ?thesis using subscriber_protocol by fastforce
qed

section \<open>Keys and patterns\<close>

text \<open>C9: \<open>redis2key\<close> recovers the key that \<open>key2redis\<close> encoded, also when the last
  component contains the separator and the table bounds the number of components.\<close>

theorem key_roundtrip:
  assumes "wf_key (opts, ts) k"
  shows "redis2key opts ts (key2redis opts ts k) = Some k"
  using kc.dec_enc[OF assms] by simp

theorem key_roundtrip_witness:
  "redis2key ex_opts \<lparr>tsName = ''ROUTE'', CompCt = 2, NoDelete = False\<rparr> ''ROUTE|default|fe80|1'' =
     Some \<lparr>Comp = [''default'', ''fe80|1'']\<rparr>"
proof -
  let ?ts = "\<lparr>tsName = ''ROUTE'', CompCt = 2, NoDelete = False\<rparr>"
  have "wf_key (ex_opts, ?ts) \<lparr>Comp = [''default'', ''fe80|1'']\<rparr>"
    "key2redis ex_opts ?ts \<lparr>Comp = [''default'', ''fe80|1'']\<rparr> = ''ROUTE|default|fe80|1''" by code_simp+
  then show ?thesis using key_roundtrip by metis
qed

text \<open>Two rows have the same name in redis only if they are the same row of the same
  table: tables do not overlap, and within a table keys do not.\<close>

theorem redis_names_distinct:
  assumes "wf_key (opts, ts) k" "wf_key (opts, ts') k'" "key2redis opts ts k = key2redis opts ts' k'"
  shows "tsName ts = tsName ts' \<and> (CompCt ts = CompCt ts' \<longrightarrow> k = k')"
proof -
  have n: "tsName ts = tsName ts'" by (rule key2redis_table_inj[OF assms])
  have "k = k'" if "CompCt ts = CompCt ts'"
  proof -
    have e: "key2redis opts ts' k' = key2redis opts ts k'" "wf_key (opts, ts) k'"
      using assms(2) by (auto simp: key2redis_def wf_key_def n that split: list.splits)
    then show ?thesis using kc.enc_inj[of "(opts, ts)" k k'] assms(1,3) by simp
  qed
  then show ?thesis using n by blast
qed

theorem redis_names_distinct_witness:
  "key2redis ex_opts ex_port (ex_key ''Ethernet0'') \<noteq> key2redis ex_opts (tspec ''VLAN'') (ex_key ''Vlan1'')"
proof
  assume "key2redis ex_opts ex_port (ex_key ''Ethernet0'') = key2redis ex_opts (tspec ''VLAN'') (ex_key ''Vlan1'')"
  moreover have "wf_key (ex_opts, ex_port) (ex_key ''Ethernet0'')" "wf_key (ex_opts, tspec ''VLAN'') (ex_key ''Vlan1'')"
    by code_simp+
  ultimately have "tsName ex_port = tsName (tspec ''VLAN'')" using redis_names_distinct by blast
  then show False by (simp add: ex_port_def)
qed

text \<open>C10: The matchers of the database layer (\<open>patternMatch\<close>) and of CVL (\<open>KeyMatch\<close>) decide
  the same language, that of glob patterns: a star stands for any string, a question mark
  for any character, a backslash quotes the next character.\<close>

theorem patternMatch_is_glob:
  "(patternMatch value1 0 pattern1 0 \<longleftrightarrow> glob (glob_parse pattern1) value1) \<and>
   (KeyMatch value1 pattern1 \<longleftrightarrow> glob (glob_parse pattern1) value1)"
  using patternMatch_glob[of 0 value1 0 pattern1] by (simp add: KeyMatch_def keyMatch_patternMatch)

lemma tx_table_rows:
  assumes "gok (tx_table m t)"
  shows "(k, v) \<in> set (tx_table m t) \<longleftrightarrow> tx_get m t k = Some v"
  using assms gok_gget gget_in_set by (fastforce simp: tx_get_def tx_table_def split: option.splits)

text \<open>C11: \<open>GetKeysPattern\<close> lists the table as the transaction sees it: a key whose redis name
  matches the pattern and that has a pending entry is listed exactly when this entry has
  fields; any other key exactly when redis lists it; and no key is listed twice.\<close>

theorem GetKeysPattern_spec:
  assumes "IsOpen (db s)"
    and "\<not> (PerConnection (dbCacheConfig (db s)) \<and> isCacheTable (dbCacheConfig (db s)) (tsName ts))"
    and "x_keys x (world s) (client_of (db s)) (key2redis (Opts (db s)) ts pat) =
       Inr (map (key2redis (Opts (db s)) ts) ks)"
    and "distinct ks" "\<forall>k \<in> set ks. wf_key (Opts (db s), ts) k"
    and "gok (tx_table (txTsEntryMap (db s)) (tsName ts))"
    and "\<forall>rk \<in> set (gkeys (tx_table (txTsEntryMap (db s)) (tsName ts))).
       \<exists>k. wf_key (Opts (db s), ts) k \<and> rk = key2redis (Opts (db s)) ts k"
  shows "\<exists>ks' s'. GetKeysPattern x ts pat s = Some ((ks', None), s') \<and> distinct ks' \<and>
    set ks' = {k. wf_key (Opts (db s), ts) k \<and>
      (case tx_get (txTsEntryMap (db s)) (tsName ts) (key2redis (Opts (db s)) ts k) of
         None \<Rightarrow> k \<in> set ks
       | Some v \<Rightarrow>
           if patternMatch (key2redis (Opts (db s)) ts k) 0 (key2redis (Opts (db s)) ts pat) 0
           then Flds v \<noteq> [] else k \<in> set ks)}"
proof -
  let ?o = "Opts (db s)" and ?m = "txTsEntryMap (db s)"
  let ?enc = "key2redis ?o ts" and ?tx = "tx_table ?m (tsName ts)"
  define f where "f = (\<lambda>rk. the (redis2key ?o ts rk))"
  have fe: "f (?enc k) = k" if "wf_key (?o, ts) k" for k
    using redis2key_key2redis[OF that] by (simp add: f_def)
  have row: "\<exists>k. wf_key (?o, ts) k \<and> rk = ?enc k" if "(rk, v) \<in> set ?tx" for rk v
    using assms(7) that by (force simp: gkeys_def)
  have dec: "\<forall>(rk, v) \<in> set ?tx. redis2key ?o ts rk = Some (f rk)"
    using row redis2key_key2redis fe by fastforce
  have inj: "inj_on f (set (gkeys ?tx))"
    by (rule inj_onI) (metis assms(7) fe)
  have th: "those (map (redis2key ?o ts) (map ?enc ks)) = Some ks"
    using kc.dec_all[of ks "(?o, ts)"] assms(5) by simp
  obtain ks' where k: "reconcile_keys (redis2key ?o ts) (?enc pat) ?tx ks = Some ks'" "distinct ks'"
    "set ks' = {key \<in> set ks. \<not> (\<exists>rk v. (rk, v) \<in> set ?tx \<and> f rk = key \<and> patternMatch rk 0 (?enc pat) 0 \<and> Flds v = [])}
       \<union> {f rk | rk v. (rk, v) \<in> set ?tx \<and> patternMatch rk 0 (?enc pat) 0 \<and> Flds v \<noteq> []}"
    using reconcile_keys_set[OF assms(6) dec inj assms(4)] by blast
  have g: "\<exists>s'. GetKeysPattern x ts pat s = Some ((ks', None), s')"
    using assms(1-3) th k(1) by (auto simp: GetKeysPattern_def Let_def simp del: map_map)
  have at: "(\<exists>rk. (rk, v) \<in> set ?tx \<and> f rk = key \<and> P rk) \<longleftrightarrow> tx_get ?m (tsName ts) (?enc key) = Some v \<and> P (?enc key)"
    if "wf_key (?o, ts) key" for key v P
    using row fe that by (fastforce simp: tx_table_rows[OF assms(6)])
  have wf: "wf_key (?o, ts) (f rk)" if "(rk, v) \<in> set ?tx" for rk v using row[OF that] fe by fastforce
  have "key \<in> set ks' \<longleftrightarrow> wf_key (?o, ts) key \<and>
      (case tx_get ?m (tsName ts) (?enc key) of None \<Rightarrow> key \<in> set ks
       | Some v \<Rightarrow> if patternMatch (?enc key) 0 (?enc pat) 0 then Flds v \<noteq> [] else key \<in> set ks)" for key
  proof (cases "wf_key (?o, ts) key")
    case True
    have del: "(\<exists>rk v. (rk, v) \<in> set ?tx \<and> f rk = key \<and> patternMatch rk 0 (?enc pat) 0 \<and> Flds v = []) \<longleftrightarrow>
        (\<exists>v. tx_get ?m (tsName ts) (?enc key) = Some v \<and> patternMatch (?enc key) 0 (?enc pat) 0 \<and> Flds v = [])"
      using at[OF True, where P = "\<lambda>rk. patternMatch rk 0 (?enc pat) 0"] by blast
    have add: "(\<exists>rk v. key = f rk \<and> (rk, v) \<in> set ?tx \<and> patternMatch rk 0 (?enc pat) 0 \<and> Flds v \<noteq> []) \<longleftrightarrow>
        (\<exists>v. tx_get ?m (tsName ts) (?enc key) = Some v \<and> patternMatch (?enc key) 0 (?enc pat) 0 \<and> Flds v \<noteq> [])"
      using at[OF True, where P = "\<lambda>rk. patternMatch rk 0 (?enc pat) 0"] by blast
    have "key \<in> set ks' \<longleftrightarrow> (key \<in> set ks \<and>
        \<not> (\<exists>v. tx_get ?m (tsName ts) (?enc key) = Some v \<and> patternMatch (?enc key) 0 (?enc pat) 0 \<and> Flds v = [])) \<or>
        (\<exists>v. tx_get ?m (tsName ts) (?enc key) = Some v \<and> patternMatch (?enc key) 0 (?enc pat) 0 \<and> Flds v \<noteq> [])"
      unfolding k(3) Un_iff mem_Collect_eq del add ..
    then show ?thesis using True by (auto split: option.split)
  next
    case False
    then show ?thesis unfolding k(3) using assms(5) wf by auto
  qed
  then show ?thesis using g k(2) by blast
qed

theorem GetKeysPattern_spec_witness:
  "\<exists>s'. GetKeysPattern mem_server ex_port \<lparr>Comp = [''*'']\<rparr>
     (apply_edit mem_server (EDelete ex_port (ex_key ''Ethernet4'')) ex_tx) = Some (([ex_key ''Ethernet0''], None), s')"
proof -
  let ?s = "apply_edit mem_server (EDelete ex_port (ex_key ''Ethernet4'')) ex_tx"
  let ?ks = "[ex_key ''Ethernet0'', ex_key ''Ethernet4'']"
  have h: "IsOpen (db ?s)"
    "\<not> (PerConnection (dbCacheConfig (db ?s)) \<and> isCacheTable (dbCacheConfig (db ?s)) (tsName ex_port))"
    "distinct ?ks" "\<forall>k \<in> set ?ks. wf_key (Opts (db ?s), ex_port) k" by code_simp+
  have t: "tx_table (txTsEntryMap (db ?s)) (tsName ex_port) = [(''PORT|Ethernet4'', \<lparr>Flds = []\<rparr>)]"
    "wf_key (Opts (db ?s), ex_port) (ex_key ''Ethernet4'')"
    "key2redis (Opts (db ?s)) ex_port (ex_key ''Ethernet4'') = ''PORT|Ethernet4''" by code_simp+
  have "case x_keys mem_server (world ?s) (client_of (db ?s)) (key2redis (Opts (db ?s)) ex_port \<lparr>Comp = [''*'']\<rparr>) of
      Inl e \<Rightarrow> False | Inr l \<Rightarrow> l = map (key2redis (Opts (db ?s)) ex_port) ?ks" by code_simp
  then have x: "x_keys mem_server (world ?s) (client_of (db ?s)) (key2redis (Opts (db ?s)) ex_port \<lparr>Comp = [''*'']\<rparr>) =
      Inr (map (key2redis (Opts (db ?s)) ex_port) ?ks)" by (simp split: sum.splits)
  have g: "gok (tx_table (txTsEntryMap (db ?s)) (tsName ex_port))" unfolding t(1) by (simp add: gkeys_def)
  have w: "\<forall>rk \<in> set (gkeys (tx_table (txTsEntryMap (db ?s)) (tsName ex_port))).
       \<exists>k. wf_key (Opts (db ?s), ex_port) k \<and> rk = key2redis (Opts (db ?s)) ex_port k"
    unfolding t(1) using t(2,3) by (auto simp: gkeys_def)
  from GetKeysPattern_spec[OF h(1,2) x h(3,4) g w]
  obtain ks' s' where r: "GetKeysPattern mem_server ex_port \<lparr>Comp = [''*'']\<rparr> ?s = Some ((ks', None), s')" by blast
  have "map_option (\<lambda>r. fst (fst r)) (GetKeysPattern mem_server ex_port \<lparr>Comp = [''*'']\<rparr> ?s) = Some [ex_key ''Ethernet0'']"
    by code_simp
  then show ?thesis using r by auto
qed

section \<open>Values\<close>

text \<open>\<open>GetList\<close> reads back the leaf-list that \<open>SetList\<close> stored, with or without the
  \<open>@\<close> suffix in the name, and the empty list after storing the empty list; no item may
  contain a comma, and the list of one empty item is the only one that is lost.\<close>

theorem leaflist_roundtrip:
  assumes "\<forall>x \<in> set items. CHR '','' \<notin> set x" "items \<noteq> [[]]"
  shows "GetList (SetList v name items) name = items"
  by (rule GetList_SetList[OF assms])

theorem leaflist_roundtrip_witness:
  "GetList (SetList \<lparr>Flds = [(''mtu'', ''9100'')]\<rparr> ''members'' [''Ethernet0'', [], ''Ethernet4'']) ''members'' =
     [''Ethernet0'', [], ''Ethernet4'']"
  by (rule leaflist_roundtrip) simp_all

text \<open>\<open>GetInt\<close> reads back without error any 64-bit integer that \<open>SetInt\<close> stored, and the
  other fields of the value stay.\<close>

theorem GetInt_SetInt:
  assumes "- (2 ^ 63) \<le> i" "i \<le> 2 ^ 63 - 1"
  shows "GetInt (SetInt v name i) name = (i, None) \<and> (\<forall>f. f \<noteq> name \<longrightarrow> Value_Get (SetInt v name i) f = Value_Get v f)"
  using Atoi_Itoa[OF assms] by (simp add: GetInt_def SetInt_def Value_Set_def Value_Get_def)

theorem GetInt_SetInt_witness:
  "GetInt (SetInt \<lparr>Flds = []\<rparr> ''mtu'' (- 9223372036854775808)) ''mtu'' = (- 9223372036854775808, None)"
  using GetInt_SetInt[of "- 9223372036854775808"] by simp

text \<open>\<open>Equals\<close> answers true exactly when both values have as many fields and each field of
  the other value is a field with the same content or, for a leaf-list field (\<open>@\<close>), with
  content of the same length whose items include the other's items.\<close>

theorem Value_Equals_spec:
  "Value_Equals v other = Some True \<longleftrightarrow>
     length (Flds v) = length (Flds other) \<and>
     (\<forall>(n, a) \<in> set (Flds other). \<exists>b. gget (Flds v) n = Some b \<and>
        (b = a \<or> n \<noteq> [] \<and> last n = CHR ''@'' \<and> length b = length a \<and>
           length (strSplit b '','') = length (strSplit a '','') \<and>
           set (strSplit a '','') \<subseteq> set (strSplit b '','')))"
  by (auto simp: Value_Equals_def ContainsAll_def contains_loop_True leaflistEquals_iff)

theorem Value_Equals_spec_witness:
  "Value_Equals \<lparr>Flds = [(''m@'', ''a,b'')]\<rparr> \<lparr>Flds = [(''m@'', ''b,a'')]\<rparr> = Some True"
proof -
  have "length (strSplit ''a,b'' '','') = length (strSplit ''b,a'' '','') \<and>
    set (strSplit ''b,a'' '','') \<subseteq> set (strSplit ''a,b'' '','')" by code_simp
  then show ?thesis unfolding Value_Equals_spec by simp
qed

text \<open>For entries that both exist, \<open>EntryCompare\<close> reports as created the fields that only
  the new entry has, as deleted those that only the old one has, as updated those with
  different contents (the placeholder field \<open>NULL\<close> apart, and without the \<open>@\<close> suffix);
  entries that appear or disappear are reported as created or deleted as a whole.\<close>

theorem EntryCompare_spec:
  "let d = EntryCompare old new; names = map (\<lambda>(f, _). strTrimSuffix f ''@'') in
   OldValue d = old \<and> NewValue d = new \<and>
   (EntryCreated d \<longleftrightarrow> Flds old = [] \<and> Flds new \<noteq> []) \<and>
   (EntryDeleted d \<longleftrightarrow> Flds old \<noteq> [] \<and> Flds new = []) \<and>
   (if Flds old \<noteq> [] \<and> Flds new \<noteq> [] then
      CreatedFields d = names (filter (\<lambda>(f, _). f \<noteq> ''NULL'' \<and> gget (Flds old) f = None) (Flds new)) \<and>
      UpdatedFields d = names (filter (\<lambda>(f, y). f \<noteq> ''NULL'' \<and> gget (Flds old) f \<noteq> None \<and> gget (Flds old) f \<noteq> Some y) (Flds new)) \<and>
      DeletedFields d = names (filter (\<lambda>(f, _). f \<noteq> ''NULL'' \<and> gget (Flds new) f = None) (Flds old))
    else CreatedFields d = [] \<and> UpdatedFields d = [] \<and> DeletedFields d = [])"
  by (simp add: EntryCompare_def Let_def IsPopulated_iff diff_old_eq diff_new_eq)

section \<open>Statistics and cache configuration\<close>

text \<open>Closing a connection loses no hit: with statistics per database, the total over all
  databases grows by the connection's hits on tables and on maps, in 64-bit arithmetic.\<close>

theorem closing_keeps_hits:
  assumes "i < length (gDatabases g)" "\<forall>d \<in> set (gDatabases g). sTables d = [] \<and> sMaps d = []"
    and "sTables conn = []" "sMaps conn = []"
  shows "fst (getStatsTotals (Global_updateStats i False dur conn g)) =
     fst (getStatsTotals g) + ctr (AllTables conn) Hits + ctr (AllMaps conn) Hits"
  using stats_totals_hits[OF assms] .

theorem closing_keeps_hits_witness:
  "fst (getStatsTotals (Global_updateStats 4 False 0
      (zeroDBStats\<lparr>AllTables := inc Hits zeroStats\<rparr>) ex_global)) = 1"
proof -
  have "4 < length (gDatabases ex_global)" "\<forall>d \<in> set (gDatabases ex_global). sTables d = [] \<and> sMaps d = []"
    "fst (getStatsTotals ex_global) = 0" by code_simp+
  then show ?thesis
    by (subst closing_keeps_hits) (simp_all add: zeroDBStats_def zeroStats_def)
qed

text \<open>After the cache configuration has been read from a redis hash, a table is cached
  exactly when the field \<open>@tables_cache\<close> lists it and \<open>@no_tables_cache\<close> lists neither it nor
  \<open>all\<close>.\<close>

theorem isCacheTable_configured:
  assumes "gok fs" "gget fs ''@tables_cache'' = Some a" "gget fs ''@no_tables_cache'' = Some b"
  shows "isCacheTable (snd (cache_readFromDB (Inr fs) zeroCacheConfig)) n \<longleftrightarrow>
     n \<in> set (strSplit a '','') \<and> ''all'' \<notin> set (strSplit b '','') \<and> n \<notin> set (strSplit b '','')"
proof -
  have "strSplit a '','' \<noteq> []" by (rule strSplit_ne)
  then have "split_set a \<noteq> []" by (auto simp: split_set_def gset_all_Nil_eq)
  then show ?thesis
    using assms(2,3) by (simp add: isCacheTable_def cache_readFromDB_def cache_fields_tables[OF assms(1)]
        cache_fields_notables[OF assms(1)] gbool_split_set)
qed

theorem isCacheTable_configured_witness:
  "isCacheTable (snd (cache_readFromDB (Inr [(''@tables_cache'', ''PORT,VLAN''), (''@no_tables_cache'', ''VLAN'')])
     zeroCacheConfig)) ''PORT''"
proof -
  have "''PORT'' \<in> set (strSplit ''PORT,VLAN'' '','')" "''PORT'' \<notin> set (strSplit ''VLAN'' '','')"
    "''all'' \<notin> set (strSplit ''VLAN'' '','')" by code_simp+
  then show ?thesis by (subst isCacheTable_configured) (simp_all add: gkeys_def)
qed

section \<open>Configuration sessions\<close>

text \<open>C12: Whatever requests run, with whatever old copies of a session, and however the
  timer and other connections interleave: while there is a session this process holds the
  configuration lock under the session's token, no other connection holds it, and the
  session's own connection is open; a suspended session has no terminal; without a session
  at most one connection holds the lock, under the token of no session.\<close>

theorem session_holds_lock:
  assumes "cs_reach y S"
  shows "case uCS S of
      Some u \<Rightarrow>
        (\<exists>l. cdbLock (cs_pkg S) = Some l \<and> lkId l = cs_token u \<and> lkLocked l) \<and>
        (\<forall>p d. gget (cs_dbs S) p = Some d \<longrightarrow> \<not> configDBLocked d) \<and>
        (\<exists>p d. ccDB u = Some p \<and> gget (cs_dbs S) p = Some d \<and> db_client d \<noteq> None \<and> IsSession (Opts d)) \<and>
        (cs_state u = cs_STATE_ACTIVE \<or> cs_state u = cs_STATE_SUSPENDED \<and> cs_pid u = 0)
    | None \<Rightarrow>
        cdbLock (cs_pkg S) = None \<and> (\<forall>p d. gget (cs_dbs S) p = Some d \<longrightarrow> \<not> configDBLocked d) \<or>
        (\<exists>!p. \<exists>d. gget (cs_dbs S) p = Some d \<and> configDBLocked d) \<and>
        (\<exists>l. cdbLock (cs_pkg S) = Some l \<and> lkId l = noSessionToken)"
proof -
  note i = cs_reach_inv[OF assms]
  show ?thesis
  proof (cases "uCS S")
    case None
    have "\<exists>!p. \<exists>d. gget (cs_dbs S) p = Some d \<and> configDBLocked d" if "locked S = {q}" for q
      using that unfolding locked_def by (intro ex1I[of _ q]) blast+
    moreover have "\<forall>p d. gget (cs_dbs S) p = Some d \<longrightarrow> \<not> configDBLocked d" if "locked S = {}"
      using that unfolding locked_def by blast
    moreover have "cdbLock (cs_pkg S) = None \<and> locked S = {} \<or>
        (\<exists>p l. locked S = {p} \<and> cdbLock (cs_pkg S) = Some l \<and> lkId l = noSessionToken)"
      using i None by (simp add: cs_inv_def)
    ultimately show ?thesis unfolding None option.case by blast
  next
    case (Some u)
    then show ?thesis using i by (auto simp: cs_inv_def session_ok_def live_def locked_def)
  qed
qed

theorem session_holds_lock_witness:
  "\<exists>l. cdbLock (cs_pkg ex_started) = Some l \<and> lkId l = cs_token ex_u"
  using session_holds_lock[OF ex_started_reach] ex_started_sess(1) by (auto simp: sess_at_def)

text \<open>C13: Starting a session when there is none decides: it reports a created session with
  the caller's name, user, roles and terminal, whose candidate is blank (a transaction that
  has started with nothing queued and nothing pending), or it reports an error and there is
  still no session.\<close>

theorem StartOrResume_creates:
  assumes "cs_reach y S" "uCS S = None" "\<not> IsConfigSession sess"
  shows "\<exists>token b st sess' S'. StartOrResume y sess pid S = Ret ((token, b, st, sess'), S') \<and>
    (if b then st = CsStatusCreatedSession \<and> uCS S' = Some sess' \<and> token = cs_token sess' \<and>
        IsActive sess' \<and> cs_name sess' = cs_name sess \<and> cs_username sess' = cs_username sess \<and>
        cs_roles sess' = cs_roles sess \<and> cs_pid sess' = pid \<and>
        (\<exists>p d. sess_at S' sess' p d \<and> fresh_tx d \<and> Opts d = newCS_opts)
     else uCS S' = None \<and> (\<exists>e. st = CsStatusInternalError (Some e)))"
proof -
  have h: "heap_ok S" using cs_reach_inv[OF assms(1)] by (simp add: cs_inv_def)
  show ?thesis
  proof (rule newCS_decides[OF assms(2) h, of y "cs_name sess" "cs_username sess" "cs_roles sess" pid])
    fix r S'
    assume n: "newCS y (cs_name sess) (cs_username sess) (cs_roles sess) pid S = Ret (r, S')"
      and r: "case r of Inl e \<Rightarrow> uCS S' = None
     | Inr u \<Rightarrow> uCS S' = Some u \<and> cs_state u = cs_STATE_ACTIVE \<and> commitState u = cs_STATE_None \<and> cs_name u = cs_name sess \<and>
         cs_username u = cs_username sess \<and> cs_roles u = cs_roles sess \<and> cs_pid u = pid \<and>
         (\<exists>p d. ccDB u = Some p \<and> gget (cs_dbs S') p = Some d \<and> fresh_tx d \<and> Opts d = newCS_opts)"
    show ?thesis
      using n r assms(3) by (cases r) (auto simp: StartOrResume_def IsActive_def sess_at_def)
  qed
qed

theorem StartOrResume_creates_witness:
  "\<exists>token b st sess' S'. StartOrResume (cs_mem_ext True) ex_who 7 ex_cs = Ret ((token, b, st, sess'), S') \<and>
    (b \<longrightarrow> cs_username sess' = ''admin'')"
proof -
  have "uCS ex_cs = None" "\<not> IsConfigSession ex_who" "cs_username ex_who = ''admin''"
    by (simp_all add: ex_cs_def ex_who_def IsConfigSession_def zeroSession_def)
  then show ?thesis using StartOrResume_creates[OF ex_cs_reach, of ex_who "cs_mem_ext True" 7] by (fastforce split: if_splits)
qed





text \<open>A commit with a timeout of at least 30 seconds that succeeds publishes the
  candidate at once, keeps the session under the same token, and leaves a running timer and
  a goroutine that waits for it or for the confirmation; the rows of the running
  configuration are those after the session's transaction was committed.\<close>

theorem Commit_with_timer:
  assumes "sess_at S u p d" "\<not> isCpLabelExist label S" "timeout \<ge> cs_COMMIT_CONFIRM_TIMEOUT_MIN"
    and "Commit y u label timeout False S = Ret ((True, st), S')"
  shows "\<exists>u' w s2. awaiting S' u' (length (gors S)) \<and> cs_token u' = cs_token u \<and>
    (cs_server y content q \<longrightarrow> content w = running content S) \<and>
    commitTx (y_db y) ((cs_pkg S)\<lparr>db := d, world := w\<rparr>) = (None, s2) \<and>
    running content S' = content (world s2)"
proof -
  obtain u' s1 where h: "awaiting S' u' (length (gors S))" "cs_token u' = cs_token u"
    "\<exists>w. s1 = (cs_pkg S)\<lparr>db := d, world := w\<rparr> \<and> (\<forall>content q. cs_server y content q \<longrightarrow> content w = running content S)"
    "fst (commitTx (y_db y) s1) = None"
    "\<And>content. running content S' = content (world (snd (commitTx (y_db y) s1)))"
    by (rule Commit_timer_awaits[OF assms]) (rule that)
  then show ?thesis by (metis prod.collapse)
qed

theorem Commit_with_timer_witness:
  "\<exists>u'. awaiting (ex_waiting True) u' 0"
proof -
  let ?c = "Commit (cs_mem_ext True) ex_u [] 60 False ex_started"
  have "case ?c of Ret r \<Rightarrow> fst (fst r) = True | _ \<Rightarrow> False" by code_simp
  note c = the_ret_pair[OF this]
  have l: "\<not> isCpLabelExist [] ex_started" "(60::int) \<ge> cs_COMMIT_CONFIRM_TIMEOUT_MIN"
    by (simp_all add: isCpLabelExist_def cs_COMMIT_CONFIRM_TIMEOUT_MIN_def)
  have "length (gors ex_started) = 0" by code_simp
  then show ?thesis
    using Commit_with_timer[OF ex_started_sess(1) l c] by (auto simp: ex_waiting_def)
qed



text \<open>C17: When a session that waits for its confirmation is aborted and the host service
  cannot load the saved configuration, the session stays but nobody can end it any more:
  aborting it, clearing it and confirming it all send on a channel that nobody receives
  from, and so never return.\<close>

theorem failed_abort_wedges:
  assumes "awaiting S u i" "\<forall>j < length (gors S). j \<noteq> i \<longrightarrow> g_ch (gors S ! j) \<noteq> g_ch (gors S ! i)"
    and "Abort y u S = Ret ((False, CsStatusInternalError (Some (GoError ''Config reload failure on commit abort''))), S')"
    and "uCS S' \<noteq> None"
  shows "uCS S' = Some u \<and> Abort y u S' = Blocks \<and> (\<forall>user. Kill y u True user S' = Blocks) \<and>
    (\<forall>label timeout. \<not> isCpLabelExist label S' \<longrightarrow> Commit y u label timeout True S' = Blocks)"
proof -
  obtain S1 e S2 where h: "stop_and_send u S = Ret S1" "configReload y (cs_username u) (rollbackCfg u) S1 = (e, S2)"
    "if e = None then \<exists>st S'. Abort y u S = Ret ((fst (fst (deleteCS y S2)) = None, st), S') \<and> ended S'
     else \<exists>st. Abort y u S = Ret ((False, st), S2)"
    by (rule Abort_awaiting[OF assms(1), of y]) (rule that)
  obtain err where "e = Some err" "S' = S2"
    using h(3) assms(3,4) by (cases e) (auto simp: ended_def)
  then show ?thesis
    using Abort_failure_sticks[OF assms(1,2) h(1), of y err S2] h(2) by (simp add: stuck_def)
qed

theorem failed_abort_wedges_witness:
  "Abort (cs_mem_ext False) (ex_w False) (snd (the_ret (Abort (cs_mem_ext False) (ex_w False) (ex_waiting False)))) = Blocks"
proof -
  let ?c = "Abort (cs_mem_ext False) (ex_w False) (ex_waiting False)"
  have "case ?c of Ret r \<Rightarrow> fst (fst r) = False | _ \<Rightarrow> False"
    "snd (fst (the_ret ?c)) = CsStatusInternalError (Some (GoError ''Config reload failure on commit abort''))"
    "case uCS (snd (the_ret ?c)) of None \<Rightarrow> False | Some _ \<Rightarrow> True" "length (gors (ex_waiting False)) = 1" by code_simp+
  then show ?thesis
    using failed_abort_wedges[OF ex_waiting_awaits, of False "cs_mem_ext False" "snd (the_ret ?c)"] the_ret_pair[where c = ?c and b = False]
    by (auto split: option.splits)
qed

text \<open>Aborting a session while the timer's goroutine reloads the saved configuration
  deletes the session, and the goroutine then panics when it cleans up: it reads the
  session without a check.\<close>

theorem abort_during_rollback_panics:
  assumes "uCS S = Some u" "cs_state u = cs_STATE_ACTIVE" "commitState u = cs_STATE_ROLLBACK_REPLACE"
    and "i < length (gors S)" "g_phase (gors S ! i) = GReloaded"
  shows "\<exists>r S'. Abort y u S = Ret (r, S') \<and> timer_cleans y i S' = Some Panics"
  by (rule Abort_in_rollback[OF assms])

theorem abort_during_rollback_panics_witness:
  "\<exists>S1 u1 r S'. timer_expires (cs_mem_ext True) 0 (ex_waiting True) = Some S1 \<and> uCS S1 = Some u1 \<and>
     Abort (cs_mem_ext True) u1 S1 = Ret (r, S') \<and> timer_cleans (cs_mem_ext True) 0 S' = Some Panics"
proof -
  let ?t = "timer_expires (cs_mem_ext True) 0 (ex_waiting True)"
  have "(case ?t of None \<Rightarrow> False | Some S1 \<Rightarrow> 0 < length (gors S1) \<and> g_phase (gors S1 ! 0) = GReloaded \<and>
      (case uCS S1 of None \<Rightarrow> False | Some u1 \<Rightarrow> cs_state u1 = cs_STATE_ACTIVE \<and> commitState u1 = cs_STATE_ROLLBACK_REPLACE))"
    by code_simp
  then obtain S1 u1 where s: "?t = Some S1" "uCS S1 = Some u1" "cs_state u1 = cs_STATE_ACTIVE"
    "commitState u1 = cs_STATE_ROLLBACK_REPLACE" "0 < length (gors S1)" "g_phase (gors S1 ! 0) = GReloaded"
    by (auto split: option.splits)
  show ?thesis using abort_during_rollback_panics[OF s(2-6), of "cs_mem_ext True"] s(1,2) by blast
qed



text \<open>With the strict option, \<open>GetSession\<close> gives a configuration session only to the user
  it belongs to, by its name or by its token as asked, and, while the process at its
  terminal lives, only to that process; and to such a caller it gives it.\<close>

theorem GetSession_strict:
  assumes "\<forall>u. uCS S = Some u \<longrightarrow> IsConfigSession u" "token \<noteq> [] \<or> gsoName"
  shows "(\<exists>sess. GetSession y name token user roles pid True gsoName S = (sess, None) \<and> IsConfigSession sess) \<longleftrightarrow>
    (\<exists>u. uCS S = Some u \<and> (if gsoName then cs_name u = name else cs_token u = token) \<and>
       cs_username u = user \<and> (IsPidActive y u S \<longrightarrow> cs_pid u = pid))"
proof (cases "uCS S")
  case None
  then show ?thesis using assms(2)
    by (auto simp: GetSession_def Let_def IsConfigSession_def zeroSession_def)
next
  case (Some u)
  then have "IsConfigSession u" "IsConfigSession (u\<lparr>cs_pid := pid\<rparr>)" using assms(1) by (simp_all add: IsConfigSession_def)
  then show ?thesis using Some assms(2) by (simp add: GetSession_def Let_def)
qed

theorem GetSession_strict_witness:
  "\<not> (\<exists>sess. GetSession (cs_mem_ext True) [] [] ''guest'' [] 9 True True ex_started = (sess, None) \<and> IsConfigSession sess)"
proof -
  have "\<forall>u. uCS ex_started = Some u \<longrightarrow> IsConfigSession u" "uCS ex_started = Some ex_u"
    using ex_started_sess(1) by (simp_all add: sess_at_def IsConfigSession_def)
  moreover have "cs_username ex_u \<noteq> ''guest''" by code_simp
  ultimately show ?thesis
    using GetSession_strict[of ex_started "[]" True "cs_mem_ext True" "[]" "''guest''" "[]" 9] by simp
qed

text \<open>C19: The history of checkpoints never has more than ten entries: a new checkpoint comes
  last, after the entries of the history file when this is the first one, and when there
  are ten the oldest goes; an error before the checkpoint was saved adds nothing, but the
  oldest entry is gone already.\<close>

theorem history_bounded:
  assumes "length (hist_before y S) \<le> MAX_HIST"
    and "CreateCpHistEntry y label ident user origin t S = (e, S')"
  shows "length (cpHistEnts S') \<le> MAX_HIST \<and> is_hist_loaded S' \<and>
    (let l = hist_before y S; kept = (if length l = MAX_HIST then tl l else l);
         entry = \<lparr>cp_Label = label, cp_Id = ident, cp_User = user, cp_Origin = origin, cp_Time = t\<rparr>
     in cpHistEnts S' = kept @ [entry] \<or> e \<noteq> None \<and> cpHistEnts S' = kept)"
proof -
  have k: "hist_kept (hist_before y S) = (if length (hist_before y S) = MAX_HIST then tl (hist_before y S) else hist_before y S)"
    using assms(1) by (auto simp: hist_kept_def)
  show ?thesis
  proof (rule CreateCpHistEntry_hist[OF assms(2)])
    fix saved
    assume h: "is_hist_loaded S'" "cpHistEnts S' = hist_kept (hist_before y S) @
      (if saved then [\<lparr>cp_Label = label, cp_Id = ident, cp_User = user, cp_Origin = origin, cp_Time = t\<rparr>] else [])"
      "e = None \<Longrightarrow> saved"
    have "length (hist_kept (hist_before y S)) < MAX_HIST" by (rule length_hist_kept[OF assms(1)])
    then show ?thesis using h k by (cases saved) (auto simp: Let_def)
  qed
qed

theorem history_bounded_witness:
  "length (cpHistEnts (snd (CreateCpHistEntry (cs_mem_ext True) ''c11'' ''id'' ''admin'' ''commit'' 5
     (ex_cs\<lparr>is_hist_loaded := True, cpHistEnts := replicate 10 blankCpHistEntry\<rparr>)))) \<le> 10"
proof -
  let ?S = "ex_cs\<lparr>is_hist_loaded := True, cpHistEnts := replicate 10 blankCpHistEntry\<rparr>"
  let ?c = "CreateCpHistEntry (cs_mem_ext True) ''c11'' ''id'' ''admin'' ''commit'' 5 ?S"
  have "length (hist_before (cs_mem_ext True) ?S) \<le> MAX_HIST" by (simp add: hist_before_def MAX_HIST_def)
  from history_bounded[OF this, of "''c11''" "''id''" "''admin''" "''commit''" 5 "fst ?c" "snd ?c"] show ?thesis
    by (simp add: MAX_HIST_def)
qed

text \<open>When the entries of the history are distinct, deleting one of them, which is not the
  blank entry, removes exactly this entry, without a panic, although the loop shortens the
  slice that it ranges over.\<close>

theorem DeleteCpHistEntry_removes:
  assumes "distinct (cpHistEnts S)" "entry \<in> set (cpHistEnts S)" "entry \<noteq> blankCpHistEntry"
  shows "\<exists>l. DeleteCpHistEntry entry S = Ret (S\<lparr>cpHistEnts := l\<rparr>) \<and> distinct l \<and>
    set l = set (cpHistEnts S) - {entry} \<and> length l = length (cpHistEnts S) - 1"
proof -
  obtain i where i: "i < length (cpHistEnts S)" "cpHistEnts S ! i = entry"
    using assms(2) by (auto simp: in_set_conv_nth)
  show ?thesis
    using DeleteCpHistEntry_ok[OF refl assms(1) i assms(3)] replace_last[OF assms(1) i(1)] i by auto
qed

theorem DeleteCpHistEntry_removes_witness:
  "\<exists>l. DeleteCpHistEntry (blankCpHistEntry\<lparr>cp_Id := ''a''\<rparr>) (ex_cs\<lparr>cpHistEnts := [blankCpHistEntry\<lparr>cp_Id := ''a''\<rparr>,
      blankCpHistEntry\<lparr>cp_Id := ''b''\<rparr>]\<rparr>) = Ret (ex_cs\<lparr>cpHistEnts := l\<rparr>) \<and> length l = 1"
proof -
  let ?a = "blankCpHistEntry\<lparr>cp_Id := ''a''\<rparr>" and ?b = "blankCpHistEntry\<lparr>cp_Id := ''b''\<rparr>"
  have "?a \<noteq> ?b" "?a \<noteq> blankCpHistEntry" by (simp_all add: blankCpHistEntry_def)
  then show ?thesis using DeleteCpHistEntry_removes[of "ex_cs\<lparr>cpHistEnts := [?a, ?b]\<rparr>" ?a] by auto
qed

text \<open>C20: The connection of a new session has no separators: the redis name of a row is the
  table's name followed by the components of the key, so that rows of different tables can
  have the same name, against what the comment on the options promises.\<close>

theorem session_rows_unseparated:
  assumes "cs_reach y S" "uCS S = None" "\<not> IsConfigSession sess"
    and "StartOrResume y sess pid S = Ret ((token, True, st, sess'), S')"
  shows "\<exists>p d. sess_at S' sess' p d \<and>
    (\<forall>ts key. key2redis (Opts d) ts key = tsName ts @ concat (Comp key))"
proof -
  have h: "heap_ok S" using cs_reach_inv[OF assms(1)] by (simp add: cs_inv_def)
  have k: "key2redis newCS_opts ts key = tsName ts @ concat (Comp key)" for ts key
    by (auto simp: key2redis_def newCS_opts_def zeroOptions_def strJoin_Nil_sep Let_def)
  show ?thesis
  proof (rule newCS_decides[OF assms(2) h, of y "cs_name sess" "cs_username sess" "cs_roles sess" pid])
    fix r S2
    assume n: "newCS y (cs_name sess) (cs_username sess) (cs_roles sess) pid S = Ret (r, S2)"
      and r: "case r of Inl e \<Rightarrow> uCS S2 = None
     | Inr u \<Rightarrow> uCS S2 = Some u \<and> cs_state u = cs_STATE_ACTIVE \<and> commitState u = cs_STATE_None \<and> cs_name u = cs_name sess \<and>
         cs_username u = cs_username sess \<and> cs_roles u = cs_roles sess \<and> cs_pid u = pid \<and>
         (\<exists>p d. ccDB u = Some p \<and> gget (cs_dbs S2) p = Some d \<and> fresh_tx d \<and> Opts d = newCS_opts)"
    show ?thesis
      using n r assms(3,4) k by (cases r) (auto simp: StartOrResume_def sess_at_def)
  qed
qed

theorem session_rows_unseparated_witness:
  "\<exists>p d. gget (cs_dbs ex_started) p = Some d \<and>
     key2redis (Opts d) (tspec ''VLAN'') (ex_key ''_MEMBER1'') = key2redis (Opts d) (tspec ''VLAN_MEMBER'') (ex_key ''1'')"
proof -
  let ?c = "StartOrResume (cs_mem_ext True) ex_who 7 ex_cs"
  have "case ?c of Ret r \<Rightarrow> fst (snd (fst r)) | _ \<Rightarrow> False" by code_simp
  then obtain tok st s' where "?c = Ret ((tok, True, st, s'), ex_started)"
    by (cases ?c) (auto simp: ex_started_def ex_start_def the_ret_def)
  moreover have "uCS ex_cs = None" "\<not> IsConfigSession ex_who"
    by (simp_all add: ex_cs_def ex_who_def IsConfigSession_def zeroSession_def)
  ultimately obtain p d where "sess_at ex_started s' p d"
    "\<And>ts key. key2redis (Opts d) ts key = tsName ts @ concat (Comp key)"
    using session_rows_unseparated[OF ex_cs_reach] by blast
  then show ?thesis by (intro exI[of _ p] exI[of _ d]) (simp add: sess_at_def ex_key_def)
qed

section \<open>Whole tables, CVL and the exported configuration\<close>

text \<open>C21: \<open>GetTable\<close>, which asks for the keys and then for every row, and
  \<open>GetTablePattern\<close> for all keys, which lets one script read the table and then puts the
  pending rows over it, return the same rows: those of the table that have fields in the
  view of the transaction, with these fields; \<open>Table.GetEntry\<close> on the result gives what
  the view holds for the key.\<close>

theorem whole_table_reads_agree:
  assumes "readable x ts base s"
  shows "\<exists>T P s1 s2. GetTable x ts s = Some ((T, None), s1) \<and>
    GetTablePattern x ts all_pat s = Some ((P, None), s2) \<and>
    (\<forall>rk. gget (tb_entry T) rk = seen_row base (db s) ts rk \<and> gget (tb_entry P) rk = seen_row base (db s) ts rk) \<and>
    (\<forall>k. wf_key (Opts (db s), ts) k \<longrightarrow>
       Table_GetEntry (Opts (db s)) T k = (\<lparr>Flds = view base (db s) (tsName ts) (key2redis (Opts (db s)) ts k)\<rparr>, None))"
proof (rule GetTable_view[OF assms], rule GetTablePattern_all_view[OF assms])
  fix T s1 P s2
  assume t: "GetTable x ts s = Some ((T, None), s1)" "tb_ts T = ts"
    "\<And>rk. gget (tb_entry T) rk = seen_row base (db s) ts rk"
    and p: "GetTablePattern x ts all_pat s = Some ((P, None), s2)"
    "\<And>rk. gget (tb_entry P) rk = seen_row base (db s) ts rk"
  have "Table_GetEntry (Opts (db s)) T k = (\<lparr>Flds = view base (db s) (tsName ts) (key2redis (Opts (db s)) ts k)\<rparr>, None)"
    if "wf_key (Opts (db s), ts) k" for k
    using that t(2,3) by (auto simp: Table_GetEntry_def seen_row_def is_row_def)
  then show ?thesis using t p by blast
qed

theorem whole_table_reads_agree_witness:
  "\<exists>T s1. GetTable mem_server ex_port ex_read = Some ((T, None), s1) \<and>
     gget (tb_entry T) ''PORT|Ethernet0'' = Some \<lparr>Flds = [(''mtu'', ''1500''), (''speed'', ''40000'')]\<rparr> \<and>
     gget (tb_entry T) ''PORT|Ethernet4'' = None"
  using whole_table_reads_agree[OF ex_readable] ex_rows ex_view
  by (fastforce simp: seen_row_def ex_read_facts(5) ex_port_name)

text \<open>\<open>ExistKeysPattern\<close>, which stops at the first pending row that matches or asks a
  script, answers whether \<open>GetKeysPattern\<close> lists a key, for a pattern without escapes.\<close>

theorem ExistKeysPattern_spec:
  assumes "readable x ts base s" "Comp pat \<noteq> []" "Comp pat \<noteq> [[]]" "\<forall>p \<in> set (Comp pat). no_escape p"
    and "IsWriteDisabled (Opts (db s)) \<longrightarrow> tx_table (txTsEntryMap (db s)) (tsName ts) = []"
  shows "\<exists>b s1 ks s2. ExistKeysPattern x ts pat s = Some ((b, None), s1) \<and>
    GetKeysPattern x ts pat s = Some ((ks, None), s2) \<and> (b \<longleftrightarrow> ks \<noteq> [])"
proof (rule GetKeysPattern_rows[OF assms(1-3)], rule ExistKeysPattern_view[OF assms(1-4)])
  fix ks s2 s1
  let ?L = "listed base (db s) ts (key2redis (Opts (db s)) ts pat)"
  assume k: "GetKeysPattern x ts pat s = Some ((ks, None), s2)" "key2redis (Opts (db s)) ts ` set ks = ?L"
    and e: "ExistKeysPattern x ts pat s = Some ((?L \<noteq> {}, None), s1)"
  have "?L \<noteq> {} \<longleftrightarrow> ks \<noteq> []" unfolding k(2)[symmetric] by simp
  then show ?thesis using k(1) e by blast
qed (use assms(5) in blast)

theorem ExistKeysPattern_spec_witness:
  "\<exists>s1. ExistKeysPattern mem_server ex_port \<lparr>Comp = [''Ethernet4'']\<rparr> ex_read = Some ((False, None), s1)"
proof -
  let ?p = "\<lparr>Comp = [''Ethernet4'']\<rparr>"
  have w: "\<not> IsWriteDisabled (Opts (db ex_read))" by code_simp
  have "map_option (\<lambda>r. fst (fst r)) (GetKeysPattern mem_server ex_port ?p ex_read) = Some []" by code_simp
  moreover have "\<exists>b s1 ks s2. ExistKeysPattern mem_server ex_port ?p ex_read = Some ((b, None), s1) \<and>
      GetKeysPattern mem_server ex_port ?p ex_read = Some ((ks, None), s2) \<and> (b \<longleftrightarrow> ks \<noteq> [])"
    by (rule ExistKeysPattern_spec[OF ex_readable]) (use w in \<open>simp_all add: no_escape_def\<close>)
  ultimately show ?thesis by auto
qed

text \<open>C22: What CVL reads through a pipeline is what it reads directly, for any list of
  requests over keys of tables that can be read: the same fields, values and missing
  fields, and the same keys up to their order.\<close>

theorem cvl_pipeline_agrees:
  assumes "\<forall>q \<in> set qs. names_key x base s (req_name q)" "cvl_server x (world s) (client_of (db s)) base"
  shows "\<exists>p as e. pipe_all (db s) qs [] = Some p \<and> pipe_Exec x (world s) (db s) p = Some (as, e) \<and>
    list_all2 (\<lambda>a q. \<exists>a'. direct x q s = Some a' \<and> same_answer a a') as qs"
proof (rule all_requests[OF assms])
  fix qs' as
  assume a: "\<And>p. pipe_all (db s) qs p = Some (p @ qs')" "those (map (update x (world s) (db s)) qs') = Some as"
    "list_all2 (\<lambda>a q. \<exists>a'. direct x q s = Some a' \<and> same_answer a a') as qs"
  show ?thesis
    using a(1)[of "[]"] a(2,3) by (intro exI[of _ qs'] exI[of _ as]) (simp add: pipe_Exec_def)
qed

theorem cvl_pipeline_agrees_witness:
  "\<exists>p as e. pipe_all (db ex_read) ex_reqs [] = Some p \<and> pipe_Exec mem_cvl (world ex_read) (db ex_read) p = Some (as, e) \<and>
    list_all2 (\<lambda>a q. \<exists>a'. direct mem_cvl q ex_read = Some a' \<and> same_answer a a') as ex_reqs"
  by (rule cvl_pipeline_agrees[OF ex_reqs_names]) (simp add: ex_read_facts(3) mem_cvl_server)

text \<open>C23: When the server's scan ends, so do the calls of \<open>GetNextKeys\<close> on a new cursor that
  suppresses duplicates, and together they return every name on the pages exactly once,
  however often the server repeats it and however many empty pages it sends.\<close>

theorem scan_returns_each_once:
  assumes "db_client d \<noteq> None" "IsWriteDisabled (Opts d) \<or> so_AllowWritable o'"
    and "so_ScanType o' = KeyScanType" "\<not> AllowDuplicates o'"
    and "scan_run (\<lambda>cur. x_scan x w (client_of d) cur (key2redis (Opts d) ts pat)
           (if CountHint o' \<noteq> 0 then CountHint o' else 10)) 0 pages"
    and "\<forall>rk \<in> set (concat pages). is_row (Opts d) ts rk"
  shows "\<exists>sc kss. NewScanCursor d ts pat (Some o') = Some (Some sc, None) \<and> key_pages x w d (Some o') sc kss \<and>
    distinct (concat kss) \<and> key2redis (Opts d) ts ` set (concat kss) = set (concat pages)"
proof -
  let ?sc = "\<lparr>sc_ts = ts, sc_cursor = 0, sc_pattern = pat, sc_count = (if CountHint o' \<noteq> 0 then CountHint o' else 10),
    scanComplete = False, seenKeys = Some [], scnr = keyScanner\<rparr>"
  have n: "NewScanCursor d ts pat (Some o') = Some (Some ?sc, None)"
    using assms(1-4) by (auto simp: NewScanCursor_def)
  have "\<exists>kss. key_pages x w d (Some o') ?sc kss \<and> distinct (concat kss) \<and>
     set (concat kss) = row_key (Opts d) (sc_ts ?sc) ` (set (concat pages) - set (gkeys ([] :: (string, bool) gomap)))"
    by (rule key_pages_run[OF assms(5)])
      (use assms in \<open>auto simp: hint_of_def key_scan_def\<close>)
  then obtain kss where "key_pages x w d (Some o') ?sc kss" "distinct (concat kss)"
    "set (concat kss) = row_key (Opts d) ts ` set (concat pages)" by (auto simp: gkeys_def)
  then show ?thesis using n enc_row_keys[OF assms(6)] by metis
qed

theorem scan_returns_each_once_witness:
  "\<exists>sc kss. NewScanCursor (db ex_read) ex_port all_pat (Some \<lparr>CountHint = 1, ReturnFixed = False, AllowDuplicates = False,
        so_ScanType = KeyScanType, FldScanPatt = [], so_AllowWritable = True\<rparr>) = Some (Some sc, None) \<and>
     key_pages mem_scanner ex_mem (db ex_read) (Some \<lparr>CountHint = 1, ReturnFixed = False, AllowDuplicates = False,
        so_ScanType = KeyScanType, FldScanPatt = [], so_AllowWritable = True\<rparr>) sc kss \<and>
     2 \<le> length (concat kss)"
proof -
  let ?o = "\<lparr>CountHint = 1, ReturnFixed = False, AllowDuplicates = False,
        so_ScanType = KeyScanType, FldScanPatt = [], so_AllowWritable = True\<rparr>"
  let ?pages = "[[''PORT|Ethernet0'', ''PORT|Ethernet0''], [''PORT|Ethernet4'', ''PORT|Ethernet0'']]"
  have k: "key2redis (Opts (db ex_read)) ex_port all_pat = ''PORT|*''" by code_simp
  have run: "scan_run (\<lambda>cur. x_scan mem_scanner ex_mem (client_of (db ex_read)) cur
      (key2redis (Opts (db ex_read)) ex_port all_pat) (if CountHint ?o \<noteq> 0 then CountHint ?o else 10)) 0 ?pages"
    using ex_scan_run[OF ex_scan_pages(1)] by (simp add: k)
  have r: "\<exists>sc kss. NewScanCursor (db ex_read) ex_port all_pat (Some ?o) = Some (Some sc, None) \<and>
      key_pages mem_scanner ex_mem (db ex_read) (Some ?o) sc kss \<and> distinct (concat kss) \<and>
      key2redis (Opts (db ex_read)) ex_port ` set (concat kss) = set (concat ?pages)"
    by (rule scan_returns_each_once[OF _ _ _ _ run]) (use ex_rows in \<open>simp_all add: ex_read_facts\<close>)
  then obtain sc kss where s: "NewScanCursor (db ex_read) ex_port all_pat (Some ?o) = Some (Some sc, None)"
    "key_pages mem_scanner ex_mem (db ex_read) (Some ?o) sc kss" "distinct (concat kss)"
    "key2redis (Opts (db ex_read)) ex_port ` set (concat kss) = set (concat ?pages)" by blast
  have "card (set (concat ?pages)) = 2" by (simp add: insert_commute)
  then have ge: "2 \<le> length (concat kss)"
    using s(4) card_image_le[of "set (concat kss)" "key2redis (Opts (db ex_read)) ex_port"] distinct_card[OF s(3)]
    by (metis List.finite_set)
  show ?thesis using s ge by blast
qed

text \<open>C24: The configuration that \<open>GetConfig\<close> reads with pending changes allowed, from which
  \<open>ExportRaw\<close> writes its file, is the view of the transaction, row by row: scanning the
  database and replaying the queued commands gives what the reads of the transaction give,
  and hence, by C1, what a commit publishes.\<close>

theorem GetConfig_is_view:
  assumes "tx_inv x content base opts s0" "txCmds (db s0) = []" "txTsEntryMap (db s0) = []"
    and "s = fold (apply_edit x) es s0" "IsOpen (db s)" "DBNo opts = ConfigDB" "\<not> IsOnChangeEnabled opts"
    and "KeySeparator opts = [c]" "TableNameSeparator opts = [c]" "plain [c]"
    and "scan_run (\<lambda>cur. x_scan x (world s) (client_of (db s)) cur (key2redis opts (tspec ''*'') all_pat) 100) 0 pages"
    and "set (concat pages) = {rk. base rk \<noteq> [] \<and> patternMatch rk 0 (key2redis opts (tspec ''*'') all_pat) 0}"
  shows "\<exists>m. GetConfig x [] (Some \<lparr>ScanCountHint = 0, AllowWritable = True\<rparr>) s = Some (Inr m) \<and>
    (\<forall>t r. c \<notin> set t \<longrightarrow> conf_at m t (t @ c # r) = tview content s t (t @ c # r))"
proof (rule GetConfig_view[OF assms])
  fix m
  assume m: "GetConfig x [] (Some \<lparr>ScanCountHint = 0, AllowWritable = True\<rparr>) s = Some (Inr m)"
    "\<And>t rk. table_of opts rk = tspec t \<Longrightarrow> c \<in> set rk \<Longrightarrow> conf_at m t rk = tview content s t rk"
  have "table_of opts (t @ c # r) = tspec t" if "c \<notin> set t" for t r
    using that assms(9) by (simp add: table_of_def redis2ts_key_def strSplitN_2)
  then show ?thesis using m by auto
qed

theorem GetConfig_is_view_witness:
  "\<exists>m. GetConfig mem_scanner [] (Some \<lparr>ScanCountHint = 0, AllowWritable = True\<rparr>) ex_conf = Some (Inr m) \<and>
     conf_at m ''PORT'' ''PORT|Ethernet4'' = [] \<and> conf_at m ''VLAN'' ''VLAN|Vlan1'' = [(''id'', ''1'')]"
proof -
  have e: "txCmds (db ex_tx) = []" "txTsEntryMap (db ex_tx) = []" by code_simp+
  have o: "DBNo ex_opts = ConfigDB" "\<not> IsOnChangeEnabled ex_opts" "plain ''|''"
    by (simp_all add: ex_opts_def zeroOptions_def)
  have k: "key2redis ex_opts (tspec ''*'') all_pat = ''*|*''" by code_simp
  have run: "scan_run (\<lambda>cur. x_scan mem_scanner (world ex_conf) (client_of (db ex_conf)) cur
      (key2redis ex_opts (tspec ''*'') all_pat) 100) 0
      [[''PORT|Ethernet0'', ''PORT|Ethernet0''], [''PORT|Ethernet4'', ''PORT|Ethernet0'']]"
    using ex_scan_run[OF ex_scan_pages(2)] by (simp add: k ex_conf_facts)
  obtain m where m: "GetConfig mem_scanner [] (Some \<lparr>ScanCountHint = 0, AllowWritable = True\<rparr>) ex_conf = Some (Inr m)"
    "\<And>t r. CHR ''|'' \<notin> set t \<Longrightarrow> conf_at m t (t @ CHR ''|'' # r) = tview mcontent ex_conf t (t @ CHR ''|'' # r)"
    using GetConfig_is_view[OF ex_conf_inv e ex_conf_def ex_conf_facts(1) o(1,2) ex_opts_sep o(3) run ex_all_tables] by blast
  have "tview mcontent ex_conf ''PORT'' ''PORT|Ethernet4'' = []"
    "tview mcontent ex_conf ''VLAN'' ''VLAN|Vlan1'' = [(''id'', ''1'')]" by code_simp+
  then show ?thesis using m(1) m(2)[of "''PORT''" "''Ethernet4''"] m(2)[of "''VLAN''" "''Vlan1''"] by auto
qed

section \<open>Requests\<close>

text \<open>C25: A create, update, replace or delete request that answers with an error changes no row
  of the database, and gives the configuration lock back, for any application module that
  works through its connection.\<close>

theorem failed_request_changes_nothing:
  assumes "tl_server (te_db v) content q" "app_ok content (te_app v)"
    and "Ret ((resp, Some e), s') \<in> {tl_Create v req s, tl_Update v req s, tl_Replace v req s, tl_Delete v req s}"
  shows "content (world s') = content (world s) \<and> cdbLock s' = cdbLock s"
proof -
  note w = write_requests[OF assms(1,2), where resp = resp and e = "Some e" and s = s and s' = s']
  show ?thesis using assms(3) w[of req] by (elim insertE emptyE) (metis option.distinct(1))+
qed

theorem failed_request_changes_nothing_witness:
  "\<exists>resp s'. tl_Update (ex_env cs_mem_server) (ex_set ''!mtu'') ex_world = Ret ((resp, Some (GoError ''failed'')), s') \<and>
     cs_content (world s') = cs_content (world ex_world)"
proof -
  let ?r = "tl_Update (ex_env cs_mem_server) (ex_set ''!mtu'') ex_world"
  have "case ?r of Ret r \<Rightarrow> snd (fst r) = Some (GoError ''failed'') | _ \<Rightarrow> False" by code_simp
  then obtain resp s' where r: "?r = Ret ((resp, Some (GoError ''failed'')), s')"
    by (auto split: outcome.splits)
  show ?thesis
    using failed_request_changes_nothing[OF ex_env_ok(2,1), of resp "GoError ''failed''" s' "ex_set ''!mtu''" ex_world] r
    by auto
qed





section \<open>Paths, versions and the choice of the module\<close>



text \<open>The scan of the path string, \<open>StrHasWildcardKey\<close>, and the search in the structured
  path, \<open>HasWildcardKey\<close>, agree on every path and its text, with escaped characters in the
  values of keys.\<close>

theorem StrHasWildcardKey_HasWildcardKey:
  assumes "\<forall>e \<in> set (Elem p). elem_plain e"
  shows "StrHasWildcardKey (path_text (Elem p)) = HasWildcardKey (Some p)"
  using wildcard_scan_text[OF assms] by (simp add: StrHasWildcardKey_def HasWildcardKey_def)

theorem StrHasWildcardKey_HasWildcardKey_witness:
  "path_text (Elem (ex_path ''a]*'')) = ''/interface[name=a'' @ [bslash] @ '']*]'' \<and>
   \<not> StrHasWildcardKey (path_text (Elem (ex_path ''a]*'')))"
proof -
  have "\<forall>e \<in> set (Elem (ex_path ''a]*'')). elem_plain e" "\<not> HasWildcardKey (Some (ex_path ''a]*''))"
    "path_text (Elem (ex_path ''a]*'')) = ''/interface[name=a'' @ [bslash] @ '']*]''"
    by code_simp+
  then show ?thesis using StrHasWildcardKey_HasWildcardKey by blast
qed

text \<open>C29: \<open>NewPathInfo\<close> recovers from the text of a path its template and the unescaped values of
  its keys in their order; no two variables have the same name, and when no two keys do,
  each variable is named as its key.\<close>

theorem NewPathInfo_roundtrip:
  assumes "\<forall>e \<in> set es. elem_plain e"
  shows "Template (NewPathInfo (path_text es)) = template_text es \<and>
    map snd (Vars (NewPathInfo (path_text es))) = map snd (path_keys es) \<and>
    distinct (gkeys (Vars (NewPathInfo (path_text es)))) \<and>
    (distinct (map fst (path_keys es)) \<longrightarrow> Vars (NewPathInfo (path_text es)) = path_keys es \<and>
      (\<forall>(k, v) \<in> set (path_keys es). Var (NewPathInfo (path_text es)) k = v))"
proof -
  have v: "Template (NewPathInfo (path_text es)) = template_text es"
    "Vars (NewPathInfo (path_text es)) = bind_vars (path_keys es) []"
    using path_info_text[OF assms, of "[]" "[]"] by (simp_all add: NewPathInfo_def)
  have "gok (bind_vars (path_keys es) [])" by (rule bind_vars_ok) simp
  moreover have "Var (NewPathInfo (path_text es)) k = w"
    if "distinct (map fst (path_keys es))" "(k, w) \<in> set (path_keys es)" for k w
  proof -
    have "Vars (NewPathInfo (path_text es)) = path_keys es" using v bind_vars_distinct[of "[]" "path_keys es"] that(1) by simp
    moreover have "gget (path_keys es) k = Some w" using that by (intro gok_gget) (simp_all add: gok_def gkeys_def)
    ultimately show ?thesis by (simp add: Var_def)
  qed
  ultimately show ?thesis
    using v map_snd_bind_vars[of "path_keys es" "[]"] bind_vars_distinct[of "[]" "path_keys es"]
    by (auto simp: gok_def)
qed

theorem NewPathInfo_roundtrip_witness:
  "Vars (NewPathInfo (path_text (Elem (ex_path ''a]*'')))) = [(''name'', ''a]*'')]"
proof -
  have "\<forall>e \<in> set (Elem (ex_path ''a]*'')). elem_plain e" "path_keys (Elem (ex_path ''a]*'')) = [(''name'', ''a]*'')]"
    "distinct (map fst (path_keys (Elem (ex_path ''a]*''))))" by code_simp+
  then show ?thesis using NewPathInfo_roundtrip[of "Elem (ex_path ''a]*'')"] by simp
qed

text \<open>When no registered pattern is a prefix of another, the module of a path does not depend
  on the order in which the map is ranged over, and is the one registered for a prefix of
  the path.\<close>

theorem module_choice_is_order_free:
  assumes "gok m" "gok m'" "set m = set m'" "prefix_free m"
  shows "getAppModuleInfo path m = getAppModuleInfo path m' \<and>
    (\<forall>p app. (p, app) \<in> set m \<and> strHasPrefix path p \<longrightarrow> getAppModuleInfo path m = Some app)"
proof -
  note m = assms(3)
  have "gget m k = gget m' k" for k
  proof (cases "gget m k")
    case None
    then show ?thesis using m gget_in_set[of m' k] gok_gget[OF assms(1)]
      by (metis option.collapse)
  next
    case (Some v)
    then show ?thesis using gok_gget[OF assms(2)] gget_in_set m by fastforce
  qed
  then have "geq m m'" by (simp add: geq_def fun_eq_iff)
  moreover have "getAppModuleInfo path m = Some app" if "(p, app) \<in> set m" "strHasPrefix path p" for p app
    using find_prefix_unique[OF assms(1,4) gok_gget[OF assms(1) that(1)] that(2)] by (simp add: getAppModuleInfo_def)
  ultimately show ?thesis using getAppModuleInfo_order[OF assms(1,2,4)] by blast
qed

theorem module_choice_is_order_free_witness:
  "\<forall>a b. getAppModuleInfo ''/acl/x'' [(''/port'', a), (''/acl'', b)] = Some b"
proof (intro allI)
  fix a b :: appInfo
  let ?m = "[(''/port'', a), (''/acl'', b)]"
  have "prefix_free [(''/port'', a), (''/acl'', b)]"
    by (simp add: prefix_free_def gkeys_def) code_simp
  moreover have "strHasPrefix ''/acl/x'' ''/acl''" by code_simp
  moreover have "gok ?m" "(''/acl'', b) \<in> set ?m" by (simp_all add: gkeys_def)
  ultimately show "getAppModuleInfo ''/acl/x'' ?m = Some b"
    using module_choice_is_order_free[of ?m ?m "''/acl/x''"] by blast
qed

text \<open>A version read back from its text is the same version; and a server with bundle version
  \<open>v\<close> accepts a client of version \<open>c\<close> exactly when \<open>c\<close> is not newer and, with major version 0,
  the same, with major version 1, of the same major version, otherwise of the same or of the
  previous major version.\<close>

theorem client_version_check:
  assumes "\<not> IsNull c"
  shows "NewVersion (Version_String c) = (c, None) \<and>
    (validateClientVersion (snd (initYangVersionConfigFromFile (Inr v) yv)) c False = None \<longleftrightarrow> c \<le> v \<and>
      (if Major v = 0 then c = v else if Major v = 1 then Major c = 1 else Major v - 1 \<le> Major c))"
proof -
  let ?b = "GetCompatibleBaseVersion v"
  have acc: "validateClientVersion (snd (initYangVersionConfigFromFile (Inr v) yv)) c False = None \<longleftrightarrow> ?b \<le> c \<and> c \<le> v"
    using assms by (simp add: validate_iff initYangVersionConfigFromFile_def)
  have low: "Version m 0 0 \<le> c \<longleftrightarrow> m \<le> Major c" for m
    by (auto simp: less_eq_Version_def GreaterThan_def)
  have up: "Major c \<le> Major v" if "c \<le> v" using that by (auto simp: less_eq_Version_def GreaterThan_def)
  have one: "1 \<le> Major c \<and> Major c \<le> 1 \<longleftrightarrow> Major c = 1" by auto
  have "?b \<le> c \<and> c \<le> v \<longleftrightarrow> c \<le> v \<and>
      (if Major v = 0 then c = v else if Major v = 1 then Major c = 1 else Major v - 1 \<le> Major c)"
    using low up one by (auto simp: GetCompatibleBaseVersion_def)
  then show ?thesis using acc Version_Set_String[OF assms] by (simp add: NewVersion_def)
qed

theorem client_version_check_witness:
  "validateClientVersion (snd (initYangVersionConfigFromFile (Inr (Version 2 3 0)) ex_versions)) (Version 1 7 2) False = None"
proof -
  have "\<not> IsNull (Version 1 7 2)" by (simp add: IsNull_def)
  moreover have "Version 1 7 2 \<le> Version 2 3 0" by (simp add: less_eq_Version_def GreaterThan_def)
  ultimately show ?thesis using client_version_check[of "Version 1 7 2" "Version 2 3 0" ex_versions] by simp
qed





text \<open>C32: The order of tables (\<open>SortDepTables\<close>): when no list is related to another one both by a
  leafref and by the extension and the relation of the lists has no cycle, the tables are sorted;
  each redis table of a known list occurs once, and a table each of whose lists refers to a list
  of another table comes before that table.\<close>
theorem SortDepTables_orders:
  assumes "topo_sorter ts" "one_way m"
    and "acyclic {(a, b). a \<in> set (yang_lists m tables) \<and> b \<in> set (yang_lists m tables) \<and>
      ghas (tableInfo m) a \<and> ghas (tableInfo m) b \<and> list_dep m a b}"
  shows "\<exists>r. SortDepTables ts m tables = Ret (r, CVL_SUCCESS) \<and> distinct r \<and>
    set r = tables_of m (set (yang_lists m tables)) \<and>
    (\<forall>A B. A \<in> set r \<and> A \<noteq> B \<and> table_dep m (yang_lists m tables) A B \<longrightarrow> before A B r)"
proof -
  obtain ls where "sortDepTables ts m (yang_lists m tables) = Ret (ls, CVL_SUCCESS)"
    using sortDepTables_succeeds[OF assms] by blast
  then have s: "SortDepTables ts m tables = Ret (remdups (map (table_of_entry m) ls), CVL_SUCCESS)"
    unfolding SortDepTables_def processed_ok by blast
  show ?thesis using SortDepTables_ok[OF assms(1) s] s by blast
qed

theorem SortDepTables_orders_witness:
  "\<exists>r. SortDepTables ex_sort ex_schema [''PORT'', ''VLAN'', ''VLAN_MEMBER''] = Ret (r, CVL_SUCCESS) \<and>
    before ''VLAN_MEMBER'' ''PORT'' r"
proof -
  let ?T = "[''PORT'', ''VLAN'', ''VLAN_MEMBER'']"
  have y: "yang_lists ex_schema ?T = ?T" by code_simp
  obtain r where r: "SortDepTables ex_sort ex_schema ?T = Ret (r, CVL_SUCCESS)"
    "set r = tables_of ex_schema (set ?T)" "\<forall>A B. A \<in> set r \<and> A \<noteq> B \<and> table_dep ex_schema ?T A B \<longrightarrow> before A B r"
    using SortDepTables_orders[OF ex_sort_sorts ex_one_way, of ?T] ex_dep_acyclic unfolding y by blast
  have "''VLAN_MEMBER'' \<in> set r" unfolding r(2) by (simp add: ex_tables_of ex_ghas)
  moreover have "table_dep ex_schema ?T ''VLAN_MEMBER'' ''PORT''"
    unfolding table_dep_def
  proof (intro allI impI, elim conjE)
    fix l t assume "gget (tableInfo ex_schema) l = Some t" "redisTableName t = ''VLAN_MEMBER''"
    then have "list_dep ex_schema l ''PORT''" using ex_name[of l t] by (simp add: ex_list_dep)
    then show "\<exists>l' t'. l' \<in> set ?T \<and> gget (tableInfo ex_schema) l' = Some t' \<and> redisTableName t' = ''PORT'' \<and> list_dep ex_schema l l'"
      using ex_gget(3) ex_name[OF ex_gget(3)] by (intro exI[of _ "''PORT''"]) auto
  qed
  ultimately show ?thesis using r by (intro exI[of _ r]) simp
qed

text \<open>C33: The search for the tables on which a table depends (\<open>GetDepTables\<close>, \<open>addDepTables\<close>)
  has no record of the tables that it has visited: it returns exactly when no list that it
  reaches is on a cycle of references.\<close>
theorem GetDepTables_returns:
  assumes "closed_calls m" "gget (redisTableToYangList m) T = Some ls" "\<forall>l \<in> set ls. ghas (tableInfo m) l"
  shows "GetDepTables ts m T \<noteq> None \<longleftrightarrow> (\<forall>y \<in> reached m (set ls). (y, y) \<notin> (dep_call m)\<^sup>+)"
  by (rule GetDepTables_ok(1)[OF assms])

theorem GetDepTables_returns_witness:
  "{y \<in> reached ex_schema {''VLAN_MEMBER''}. (y, y) \<in> (dep_call ex_schema)\<^sup>+} = {}"
proof -
  have "gget (redisTableToYangList ex_schema) ''VLAN_MEMBER'' = Some [''VLAN_MEMBER'']" by code_simp
  from GetDepTables_returns[OF ex_closed this, of ex_sort] show ?thesis
    using ex_GetDepTables by (simp add: ex_ghas)
qed

text \<open>C34: The check that a deleted field is not referred to compares the field with both spellings
  of the reference and skips the reference unless it equals both (\<open>checkDeleteConstraint\<close>): the
  delete of a field passes whatever refers to it.\<close>
theorem field_deletes_unchecked:
  assumes "field \<noteq> []" "getRedisTblToYangList m T key = Ret y" "ghas (tableInfo m) y"
  shows "checkDeleteConstraint m da cfg item T key field = Some (Ret CVL_SUCCESS)"
  by (rule field_delete_passes[OF assms])

theorem field_deletes_unchecked_witness:
  "checkDeleteConstraint ex_schema (ex_da ex_rows) [] (ex_edit OP_DELETE ''VLAN|Vlan10'' [(''name'', [])]) ''VLAN'' ''Vlan10'' ''name'' =
     Some (Ret CVL_SUCCESS)"
  by (rule field_deletes_unchecked[of _ _ _ _ "''VLAN''"]) (simp, code_simp, code_simp)



text \<open>C36: The limit of the size of a table (\<open>checkMaxElemConstraint\<close>): over any sequence of
  creates, updates and deletes of entries of one limited table the results are those of a counter
  that does not exceed the limit; the count stays between 0 and the limit, and no more creates are
  accepted than the room that is left and the deletes.\<close>
theorem table_size_bounded:
  assumes "\<forall>(op, key) \<in> set ops. limited m T lim key" "lim \<noteq> -1" "gget mt T = Some n" "0 \<le> n" "n \<le> lim"
  shows "\<exists>rs mt'. max_elem_run m da T ops mt = Ret (rs, mt') \<and>
    (rs, the (gget mt' T)) = size_counter_run lim (map fst ops) n \<and>
    0 \<le> the (gget mt' T) \<and> the (gget mt' T) \<le> lim \<and>
    int (accepted (map fst ops) rs) \<le> lim - n + int (deletes (map fst ops))"
proof -
  obtain mt' where r: "max_elem_run m da T ops mt = Ret (fst (size_counter_run lim (map fst ops) n), mt')"
    "gget mt' T = Some (snd (size_counter_run lim (map fst ops) n))"
    using max_elem_run_counter[OF assms(1-3)] by blast
  show ?thesis
    using r counter_run_bounds[OF assms(4,5), of "map fst ops"] counter_run_accepted[of n "map fst ops" lim] by force
qed

theorem table_size_bounded_witness:
  "\<exists>rs mt'. max_elem_run ex_schema (ex_da ex_rows) ''VLAN'' [(OP_CREATE, ''Vlan20''), (OP_CREATE, ''Vlan30'')] [(''VLAN'', 1)] =
     Ret (rs, mt') \<and> the (gget mt' ''VLAN'') \<le> 2"
  using table_size_bounded[of "[(OP_CREATE, ''Vlan20''), (OP_CREATE, ''Vlan30'')]" ex_schema "''VLAN''" 2 "[(''VLAN'', 1)]" 1 "ex_da ex_rows"]
    ex_limited by auto



text \<open>C38: The request cache holds the requests of the session, not only the validated ones: a
  request that is rejected stays in it with its data, and the next validation of the session takes
  them for dependent data (\<open>fetchDataFromRequestCache\<close>).\<close>
theorem rejected_request_stays:
  assumes "ValidateEditConfig x m (Some da) [item] c = Some (Ret (cfg', c', e, r))" "\<not> y_skip x"
    and "r \<noteq> CVL_SUCCESS" "VType item = VALIDATE_ALL" "splitRedisKey m (ceKey item) = Ret (tbl, key)" "tbl \<noteq> []" "key \<noteq> []"
  shows "cached (requestCache c') tbl key = cached (requestCache c) tbl key @ [item] \<and>
    (VOp item = OP_CREATE \<longrightarrow> fetchDataFromRequestCache (requestCache c') tbl key = (Some (ceData item), False))"
  using rejected_stays_cached[OF assms] by (simp add: fetchDataFromRequestCache_def Let_def)

theorem rejected_request_stays_witness:
  "\<exists>cfg' c' e r. ValidateEditConfig ex_yang ex_schema (Some (ex_da ex_rows)) [ex_edit OP_CREATE ''VLAN|Vlan10'' [(''vlanid'', ''11'')]] ex_cvl =
      Some (Ret (cfg', c', e, r)) \<and> r = CVL_SEMANTIC_KEY_ALREADY_EXIST \<and>
    fetchDataFromRequestCache (requestCache c') ''VLAN'' ''Vlan10'' = (Some [(''vlanid'', ''11'')], False)"
proof -
  let ?i = "ex_edit OP_CREATE ''VLAN|Vlan10'' [(''vlanid'', ''11'')]"
  obtain cfg' c' e where v: "ValidateEditConfig ex_yang ex_schema (Some (ex_da ex_rows)) [?i] ex_cvl =
      Some (Ret (cfg', c', e, CVL_SEMANTIC_KEY_ALREADY_EXIST))"
    using ex_rejected by blast
  have "splitRedisKey ex_schema (ceKey ?i) = Ret (''VLAN'', ''Vlan10'')" by code_simp
  moreover have "\<not> y_skip ex_yang" "CVL_SEMANTIC_KEY_ALREADY_EXIST \<noteq> CVL_SUCCESS" "VType ?i = VALIDATE_ALL" "VOp ?i = OP_CREATE"
    by (simp_all add: ex_yang_def cvl_codes ex_edit_def)
  ultimately have "fetchDataFromRequestCache (requestCache c') ''VLAN'' ''Vlan10'' = (Some (ceData ?i), False)"
    using rejected_request_stays[OF v] by simp
  then show ?thesis using v by (auto simp: ex_edit_def)
qed

text \<open>C39: The validated requests are laid over the data of the database
  (\<open>evaluateDbTblNetChange\<close>) only up to the first one that deletes the whole entry: that one
  replaces the pointer to the data and not the data, so the deleted fields stay and whatever is
  set behind it is lost.\<close>
theorem net_change_stops_at_delete:
  "evaluateDbTblNetChange rc tbl key d = fold lay_over (takeWhile (\<lambda>r. \<not> entry_delete r) (cached rc tbl key)) d"
  by (simp add: evaluateDbTblNetChange_def net_change_prefix)

text \<open>C40: \<open>ValidateEditConfig\<close> returns when the chains of entries that depend on one another
  end: the fetching of the dependent data always ends, since each turn that fetches leaves fewer
  entries to fetch.\<close>
theorem validation_returns:
  assumes "wf (dep_next m da)"
  shows "\<exists>r. ValidateEditConfig x m (Some da) cfg c = Some r"
  by (rule ValidateEditConfig_returns[OF assms])

theorem validation_returns_witness:
  "\<exists>r. ValidateEditConfig ex_yang ex_schema (Some (ex_da ex_rows)) (ex_delete_both @ ex_delete_both) ex_cvl = Some r"
  by (rule validation_returns[OF ex_deps_wf])

end
